(* ===== verification/Prelude.thy ===== *)
theory Prelude
  imports Main "HOL-Library.AList"
begin

section \<open>Shared vocabulary: ordered dictionaries and effectful operations\<close>

text \<open>
  What every component theory uses and no component owns.
  \<^item> Python dictionaries keep insertion order, and assigning an existing key keeps its place.
    \<open>AList.update\<close> does the same on an association list, so a dictionary is a list of
    key/value pairs; this theory adds \<open>setdefault\<close> and the lookup facts.
  \<^item> A method of a store reads and writes the store and may raise. It is an operation
    \<open>'s \<Rightarrow> ('e + 'a) \<times> 's\<close>: the state after a raise is kept, because Python does not
    undo the assignments made before the exception.
  \<^item> \<open>preserves\<close> says that an operation keeps an invariant whatever it returns; its
    rules follow the shape of an operation, so that an invariant of a composed handler is
    proved from the facts of its parts.
\<close>

named_theorems dict_simps
  "lookup in an updated dictionary"

named_theorems op_simps
  "unfolding of the operation combinators"

named_theorems keeps
  "operations that keep an invariant"

subsection \<open>Ordered dictionaries\<close>

lemma map_of_update [simp, dict_simps]:
  "map_of (AList.update k v d) k' = (if k' = k then Some v else map_of d k')"
  by (simp add: update_conv')

definition setdefault :: "'k \<Rightarrow> 'v \<Rightarrow> ('k \<times> 'v) list \<Rightarrow> ('k \<times> 'v) list" where
  "setdefault k v d = (case map_of d k of None \<Rightarrow> AList.update k v d | Some _ \<Rightarrow> d)"

lemma map_of_setdefault [simp, dict_simps]:
  "map_of (setdefault k v d) k' =
     (if k' = k then (case map_of d k of None \<Rightarrow> Some v | Some w \<Rightarrow> Some w) else map_of d k')"
  by (auto simp: setdefault_def split: option.splits)

lemma setdefault_present: "map_of d k = Some w \<Longrightarrow> setdefault k v d = d"
  by (simp add: setdefault_def)

lemma distinct_setdefault [simp]:
  "distinct (map fst d) \<Longrightarrow> distinct (map fst (setdefault k v d))"
  by (simp add: setdefault_def distinct_update split: option.split)

lemma distinct_fst_update [simp]:
  "distinct (map fst d) \<Longrightarrow> distinct (map fst (AList.update k v d))"
  by (rule distinct_update)

lemma update_absent: "map_of d k = None \<Longrightarrow> AList.update k v d = d @ [(k, v)]"
  by (induction d) (auto split: if_splits)

lemma map_fst_update_present:
  "map_of d k \<noteq> None \<Longrightarrow> map fst (AList.update k v d) = map fst d"
  by (induction d) (auto split: if_splits)

lemma set_update_distinct:
  "distinct (map fst d) \<Longrightarrow>
   set (AList.update k v d) = insert (k, v) {p \<in> set d. fst p \<noteq> k}"
  by (induction d) (auto split: if_splits intro: rev_image_eqI)

lemma map_of_mem: "map_of d k = Some v \<Longrightarrow> (k, v) \<in> set d"
  by (rule map_of_SomeD)

lemma vals_map_of:
  "distinct (map fst d) \<Longrightarrow> snd ` set d = {v. \<exists>k. map_of d k = Some v}"
  by (force simp: image_iff)

lemma filter_vals_map_of:
  "distinct (map fst d) \<Longrightarrow> map_of (filter (\<lambda>(k, v). P k v) d) k =
     (case map_of d k of None \<Rightarrow> None | Some v \<Rightarrow> (if P k v then Some v else None))"
  by (induction d) (auto split: option.splits dest: map_of_SomeD intro: rev_image_eqI)

subsection \<open>Operations that read and write a state and may raise\<close>

type_synonym ('s, 'e, 'a) op = "'s \<Rightarrow> ('e + 'a) \<times> 's"

definition ret :: "'a \<Rightarrow> ('s, 'e, 'a) op" where
  "ret x s = (Inr x, s)"

definition raise :: "'e \<Rightarrow> ('s, 'e, 'a) op" where
  "raise e s = (Inl e, s)"

definition bind :: "('s, 'e, 'a) op \<Rightarrow> ('a \<Rightarrow> ('s, 'e, 'b) op) \<Rightarrow> ('s, 'e, 'b) op" where
  "bind m f s = (case m s of (Inl e, s') \<Rightarrow> (Inl e, s') | (Inr x, s') \<Rightarrow> f x s')"

definition seq :: "('s, 'e, 'a) op \<Rightarrow> ('s, 'e, 'b) op \<Rightarrow> ('s, 'e, 'b) op" where
  "seq m n = bind m (\<lambda>_. n)"

text \<open>\<open>handle h m\<close> is \<open>try: m  except: h\<close>; \<open>h\<close> answers \<open>None\<close> for an exception it
  does not catch.\<close>

definition handle :: "('e \<Rightarrow> ('s, 'e, 'a) op option) \<Rightarrow> ('s, 'e, 'a) op \<Rightarrow> ('s, 'e, 'a) op" where
  "handle h m s =
     (case m s of
        (Inl e, s') \<Rightarrow> (case h e of None \<Rightarrow> (Inl e, s') | Some n \<Rightarrow> n s')
      | (Inr x, s') \<Rightarrow> (Inr x, s'))"

definition ask :: "('s \<Rightarrow> 'a) \<Rightarrow> ('s, 'e, 'a) op" where
  "ask f s = (Inr (f s), s)"

definition change :: "('s \<Rightarrow> 's) \<Rightarrow> ('s, 'e, unit) op" where
  "change f s = (Inr (), f s)"

text \<open>A pure step that may raise.\<close>

definition lift_res :: "'e + 'a \<Rightarrow> ('s, 'e, 'a) op" where
  "lift_res r s = (r, s)"

text \<open>An operation on a part of the state, given by its reading and writing functions.\<close>

definition zoom ::
  "('s \<Rightarrow> 't) \<Rightarrow> ('t \<Rightarrow> 's \<Rightarrow> 's) \<Rightarrow> ('t, 'e, 'a) op \<Rightarrow> ('s, 'e, 'a) op" where
  "zoom g p m s = (case m (g s) of (r, t) \<Rightarrow> (r, p t s))"

lemmas op_defs [op_simps] =
  ret_def raise_def bind_def seq_def handle_def ask_def change_def lift_res_def zoom_def

lemma snd_bind:
  "snd (bind m f s) = (case fst (m s) of Inl e \<Rightarrow> snd (m s) | Inr x \<Rightarrow> snd (f x (snd (m s))))"
  by (simp add: bind_def split: prod.split sum.split)

lemma snd_seq:
  "snd (seq m n s) = (case fst (m s) of Inl e \<Rightarrow> snd (m s) | Inr x \<Rightarrow> snd (n (snd (m s))))"
  by (simp add: seq_def snd_bind)

lemma seq_ret:
  "seq m (ret x) s = (map_sum id (\<lambda>_. x) (fst (m s)), snd (m s))"
  by (simp add: op_defs split: prod.split sum.split)

lemma snd_ret [simp]: "snd (ret x s) = s"
  by (simp add: ret_def)

subsection \<open>Invariants of operations\<close>

definition preserves :: "('s \<Rightarrow> bool) \<Rightarrow> ('s, 'e, 'a) op \<Rightarrow> bool" where
  "preserves I m \<longleftrightarrow> (\<forall>s. I s \<longrightarrow> I (snd (m s)))"

lemma preservesI: "(\<And>s. I s \<Longrightarrow> I (snd (m s))) \<Longrightarrow> preserves I m"
  by (simp add: preserves_def)

lemma preservesD: "preserves I m \<Longrightarrow> I s \<Longrightarrow> I (snd (m s))"
  by (simp add: preserves_def)

lemma preserves_run: "preserves I m \<Longrightarrow> m s = (r, s') \<Longrightarrow> I s \<Longrightarrow> I s'"
  by (metis preservesD snd_conv)

lemma preserves_ret [simp, keeps]: "preserves I (ret x)"
  by (simp add: preserves_def ret_def)

lemma preserves_raise [simp, keeps]: "preserves I (raise e)"
  by (simp add: preserves_def raise_def)

lemma preserves_ask [simp, keeps]: "preserves I (ask f)"
  by (simp add: preserves_def ask_def)

lemma preserves_lift_res [simp, keeps]: "preserves I (lift_res r)"
  by (simp add: preserves_def lift_res_def)

lemma preserves_change: "(\<And>s. I s \<Longrightarrow> I (f s)) \<Longrightarrow> preserves I (change f)"
  by (simp add: preserves_def change_def)

lemma preserves_bind [keeps]:
  "preserves I m \<Longrightarrow> (\<And>x. preserves I (f x)) \<Longrightarrow> preserves I (bind m f)"
  by (auto simp: preserves_def bind_def split: prod.splits sum.splits)

lemma preserves_seq [keeps]:
  "preserves I m \<Longrightarrow> preserves I n \<Longrightarrow> preserves I (seq m n)"
  by (simp add: seq_def preserves_bind)

lemma preserves_handle [keeps]:
  assumes "preserves I m" and "\<And>e n. h e = Some n \<Longrightarrow> preserves I n"
  shows "preserves I (handle h m)"
proof (rule preservesI)
  fix s assume "I s"
  obtain r s' where m: "m s = (r, s')" by fastforce
  have "I s'" by (rule preserves_run [OF assms(1) m \<open>I s\<close>])
  with m assms(2) show "I (snd (handle h m s))"
    by (auto simp: handle_def split: sum.splits option.splits dest: preservesD)
qed

lemma preserves_if [keeps]:
  "(b \<Longrightarrow> preserves I m) \<Longrightarrow> (\<not> b \<Longrightarrow> preserves I n) \<Longrightarrow> preserves I (if b then m else n)"
  by simp

lemma preserves_option [keeps]:
  "(x = None \<Longrightarrow> preserves I m) \<Longrightarrow> (\<And>y. x = Some y \<Longrightarrow> preserves I (f y)) \<Longrightarrow>
   preserves I (case x of None \<Rightarrow> m | Some y \<Rightarrow> f y)"
  by (cases x) simp_all

lemma preserves_sum [keeps]:
  "(\<And>e. x = Inl e \<Longrightarrow> preserves I (f e)) \<Longrightarrow> (\<And>y. x = Inr y \<Longrightarrow> preserves I (g y)) \<Longrightarrow>
   preserves I (case x of Inl e \<Rightarrow> f e | Inr y \<Rightarrow> g y)"
  by (cases x) simp_all

lemma preserves_zoom:
  assumes "\<And>s. I s \<Longrightarrow> J (g s)" and "\<And>s t. I s \<Longrightarrow> J t \<Longrightarrow> I (p t s)" and "preserves J m"
  shows "preserves I (zoom g p m)"
  using assms by (force simp: preserves_def zoom_def split: prod.split)

lemma bind_Inr: "m s = (Inr x, s') \<Longrightarrow> bind m f s = f x s'"
  by (simp add: bind_def)

lemma bind_Inl: "m s = (Inl e, s') \<Longrightarrow> bind m f s = (Inl e, s')"
  by (simp add: bind_def)

lemma bind_InrE:
  assumes "bind m f s = (Inr y, t)"
  obtains x s' where "m s = (Inr x, s')" and "f x s' = (Inr y, t)"
  using assms by (auto simp: bind_def split: prod.splits sum.splits)

subsection \<open>Two-state properties of operations\<close>

text \<open>
  \<open>moves I R m\<close>: from a state with the invariant, \<open>m\<close> keeps it and relates the states before and
  after by \<open>R\<close>, whatever it returns. The interface \<open>progress\<close> asks \<open>R\<close> to be reflexive and transitive;
  its rules follow the shape of an operation.
\<close>

definition moves :: "('s \<Rightarrow> bool) \<Rightarrow> ('s \<Rightarrow> 's \<Rightarrow> bool) \<Rightarrow> ('s, 'e, 'a) op \<Rightarrow> bool" where
  "moves I R m \<longleftrightarrow> (\<forall>s. I s \<longrightarrow> I (snd (m s)) \<and> R s (snd (m s)))"

lemma movesI: "(\<And>s. I s \<Longrightarrow> I (snd (m s)) \<and> R s (snd (m s))) \<Longrightarrow> moves I R m"
  by (simp add: moves_def)

lemma movesD: "moves I R m \<Longrightarrow> I s \<Longrightarrow> I (snd (m s)) \<and> R s (snd (m s))"
  by (simp add: moves_def)

lemma moves_preserves: "moves I R m \<Longrightarrow> preserves I m"
  by (simp add: moves_def preserves_def)

locale progress =
  fixes I :: "'s \<Rightarrow> bool" and R :: "'s \<Rightarrow> 's \<Rightarrow> bool"
  assumes R_refl: "R s s" and R_trans: "R s s' \<Longrightarrow> R s' s'' \<Longrightarrow> R s s''"
begin

lemma moves_ret: "moves I R (ret x)"
  by (simp add: moves_def ret_def R_refl)

lemma moves_raise: "moves I R (raise e)"
  by (simp add: moves_def raise_def R_refl)

lemma moves_ask: "moves I R (ask f)"
  by (simp add: moves_def ask_def R_refl)

lemma moves_lift_res: "moves I R (lift_res r)"
  by (simp add: moves_def lift_res_def R_refl)

lemma moves_bind: "moves I R m \<Longrightarrow> (\<And>x. moves I R (f x)) \<Longrightarrow> moves I R (bind m f)"
proof (rule movesI)
  fix s assume m: "moves I R m" and f: "\<And>x. moves I R (f x)" and s: "I s"
  obtain r s' where r: "m s = (r, s')" by fastforce
  then have s': "I s'" "R s s'" using movesD [OF m s] by simp_all
  show "I (snd (bind m f s)) \<and> R s (snd (bind m f s))"
  proof (cases r)
    case (Inl e)
    with r s' show ?thesis by (simp add: bind_def)
  next
    case (Inr x)
    with r movesD [OF f [of x] s'(1)] R_trans [OF s'(2)] show ?thesis by (simp add: bind_def)
  qed
qed

lemma moves_seq: "moves I R m \<Longrightarrow> moves I R n \<Longrightarrow> moves I R (seq m n)"
  by (simp add: seq_def moves_bind)

lemma moves_handle:
  assumes m: "moves I R m" and h: "\<And>e n. h e = Some n \<Longrightarrow> moves I R n"
  shows "moves I R (handle h m)"
proof (rule movesI)
  fix s assume s: "I s"
  obtain r s' where r: "m s = (r, s')" by fastforce
  then have s': "I s'" "R s s'" using movesD [OF m s] by simp_all
  show "I (snd (handle h m s)) \<and> R s (snd (handle h m s))"
  proof (cases r)
    case (Inl e)
    show ?thesis
    proof (cases "h e")
      case (Some n)
      with Inl r movesD [OF h [OF Some] s'(1)] R_trans [OF s'(2)] show ?thesis
        by (simp add: handle_def)
    qed (use Inl r s' in \<open>simp add: handle_def\<close>)
  next
    case (Inr x)
    with r s' show ?thesis by (simp add: handle_def)
  qed
qed

lemma moves_if: "(b \<Longrightarrow> moves I R m) \<Longrightarrow> (\<not> b \<Longrightarrow> moves I R n) \<Longrightarrow> moves I R (if b then m else n)"
  by simp

lemma moves_option:
  "moves I R m \<Longrightarrow> (\<And>y. moves I R (f y)) \<Longrightarrow> moves I R (case x of None \<Rightarrow> m | Some y \<Rightarrow> f y)"
  by (cases x) simp_all

lemma moves_prod: "(\<And>a b. moves I R (f a b)) \<Longrightarrow> moves I R (case x of (a, b) \<Rightarrow> f a b)"
  by (cases x) simp

text \<open>A change of one part of the state.\<close>

lemma moves_zoom:
  assumes "\<And>s. I s \<Longrightarrow> J (g s)"
    and "\<And>s t. I s \<Longrightarrow> J t \<Longrightarrow> Q (g s) t \<Longrightarrow> I (p t s) \<and> R s (p t s)"
    and "moves J Q m"
  shows "moves I R (zoom g p m)"
  using assms by (force simp: moves_def zoom_def split: prod.split)

lemmas moves_rules = moves_ret moves_raise moves_ask moves_lift_res moves_bind moves_seq moves_if
  moves_option moves_prod

end

end
