(* ===== verification/Py_Floats.thy ===== *)
theory Py_Floats
  imports Prelude Complex_Main
begin

section \<open>Python floats\<close>

text \<open>
  A float is the rational that a finite binary64 number denotes, or one of the three
  non-finite values. \<open>to_double\<close> rounds a rational to the nearest binary64 number, ties to the
  even significand, with gradual underflow below \<open>2 ^ -1022\<close> and overflow to an infinity;
  arithmetic is exact arithmetic followed by \<open>to_double\<close>. The sign of zero is not kept.
  Comparisons are exact, as Python's are even between an int and a float.
\<close>

datatype pyfloat = Fin rat | PInf | NInf | NaN

subsection \<open>Rounding to binary64\<close>

fun ilog2 :: "nat \<Rightarrow> nat" where
  "ilog2 n = (if n < 2 then 0 else Suc (ilog2 (n div 2)))"

declare ilog2.simps [simp del]

definition pow2 :: "int \<Rightarrow> rat" where
  "pow2 e = (if 0 \<le> e then 2 ^ nat e else 1 / 2 ^ nat (- e))"

text \<open>The exponent \<open>e\<close> with \<open>2 ^ e \<le> q < 2 ^ (e + 1)\<close>, for positive \<open>q\<close>.\<close>

definition floor_log2 :: "rat \<Rightarrow> int" where
  "floor_log2 q =
     (case quotient_of q of (n, d) \<Rightarrow>
        let k = int (ilog2 (nat n)) - int (ilog2 (nat d))
        in if pow2 k \<le> q then k else k - 1)"

definition round_half_even :: "rat \<Rightarrow> int" where
  "round_half_even q =
     (let f = \<lfloor>q\<rfloor>; r = q - of_int f
      in if r < 1 / 2 then f else if 1 / 2 < r then f + 1 else if even f then f else f + 1)"

definition to_double :: "rat \<Rightarrow> pyfloat" where
  "to_double q =
     (if q = 0 then Fin 0
      else let a = \<bar>q\<bar>;
               e = max (floor_log2 a) (- 1022) - 52;
               r = of_int (round_half_even (a / pow2 e)) * pow2 e
           in if pow2 1024 \<le> r then (if q < 0 then NInf else PInf)
              else Fin (if q < 0 then - r else r))"

lemma round_half_even_of_int [simp]: "round_half_even (of_int i) = i"
  by (simp add: round_half_even_def)

lemma round_half_even_mono: "p \<le> q \<Longrightarrow> round_half_even p \<le> round_half_even q"
proof -
  assume pq: "p \<le> q"
  then have fl: "\<lfloor>p\<rfloor> \<le> \<lfloor>q\<rfloor>" by (rule floor_mono)
  show ?thesis
  proof (cases "\<lfloor>p\<rfloor> = \<lfloor>q\<rfloor>")
    case True
    with pq show ?thesis by (auto simp: round_half_even_def Let_def)
  next
    case False
    with fl have "\<lfloor>p\<rfloor> + 1 \<le> \<lfloor>q\<rfloor>" by simp
    moreover have "round_half_even p \<le> \<lfloor>p\<rfloor> + 1" by (simp add: round_half_even_def Let_def)
    moreover have "\<lfloor>q\<rfloor> \<le> round_half_even q" by (simp add: round_half_even_def Let_def)
    ultimately show ?thesis by simp
  qed
qed

lemma ilog2_bounds: "0 < n \<Longrightarrow> 2 ^ ilog2 n \<le> n \<and> n < 2 ^ Suc (ilog2 n)"
proof (induction n rule: ilog2.induct)
  case (1 n)
  show ?case
  proof (cases "n < 2")
    case True
    with 1 show ?thesis by (simp add: ilog2.simps)
  next
    case False
    then have "2 ^ ilog2 (n div 2) \<le> n div 2 \<and> n div 2 < 2 ^ Suc (ilog2 (n div 2))"
      using 1 by simp
    with False show ?thesis unfolding ilog2.simps [of n] by auto
  qed
qed

lemma pow2_nonneg: "0 \<le> e \<Longrightarrow> pow2 e = 2 ^ nat e"
  by (simp add: pow2_def)

text \<open>Integers of at most 53 bits are exact.\<close>

lemma to_double_nat:
  assumes "0 < m" and "m < 2 ^ 53"
  shows "floor_log2 (of_nat m) = int (ilog2 m)" and "ilog2 m \<le> 52"
proof -
  have b: "2 ^ ilog2 m \<le> m" "m < 2 ^ Suc (ilog2 m)" using ilog2_bounds [OF assms(1)] by auto
  have "(2::nat) ^ ilog2 m < 2 ^ 53" using b(1) assms(2) by simp
  then have "ilog2 m < 53" by (rule power_less_imp_less_exp [rotated]) simp
  then show "ilog2 m \<le> 52" by simp
  have "quotient_of (of_nat m :: rat) = (int m, 1)"
    using quotient_of_Fract [of "int m" 1] by (simp add: Fract_of_int_eq)
  moreover have "pow2 (int (ilog2 m)) \<le> of_nat m"
    using b(1) by (simp add: pow2_def)
  ultimately show "floor_log2 (of_nat m) = int (ilog2 m)"
    by (simp add: floor_log2_def ilog2.simps [of "Suc 0"])
qed

lemma pow2_div: "e \<le> 0 \<Longrightarrow> x / pow2 e = x * 2 ^ nat (- e)" "e \<le> 0 \<Longrightarrow> pow2 e * 2 ^ nat (- e) = 1"
  by (auto simp: pow2_def)

lemma to_double_int:
  assumes "\<bar>i\<bar> < 2 ^ 53"
  shows "to_double (of_int i) = Fin (of_int i)"
proof (cases "i = 0")
  case False
  define m where "m = nat \<bar>i\<bar>"
  define e where "e = int (ilog2 m) - 52"
  have m: "0 < m" "m < 2 ^ 53" and a: "\<bar>of_int i :: rat\<bar> = of_nat m"
    using False assms by (simp_all add: m_def)
  note log = to_double_nat [OF m]
  have e: "e \<le> 0" "max (floor_log2 (of_nat m)) (- 1022) - 52 = e"
    using log by (simp_all add: e_def)
  have "(of_nat m :: rat) / pow2 e = of_int (int m * 2 ^ nat (- e))"
    using pow2_div(1) [OF e(1)] by simp
  then have "of_int (round_half_even (of_nat m / pow2 e)) * pow2 e = (of_nat m :: rat)"
    using pow2_div(2) [OF e(1)] by (simp only: round_half_even_of_int) (simp add: mult.assoc mult.commute)
  moreover have "(of_nat m :: rat) < pow2 1024"
  proof -
    have "m < 2 ^ 1024" by (rule less_le_trans [OF m(2)]) simp
    then have "(of_nat m :: rat) < of_nat (2 ^ 1024)" by (simp only: of_nat_less_iff)
    then show ?thesis by (simp add: pow2_def)
  qed
  ultimately show ?thesis
    using a e(2) False by (simp add: to_double_def Let_def abs_if split: if_splits)
qed (simp add: to_double_def)

lemma to_double_numeral:
  "numeral n < (2 :: int) ^ 53 \<Longrightarrow> to_double (numeral n) = Fin (numeral n)"
  using to_double_int [of "numeral n"] by simp

subsection \<open>Comparison and subtraction\<close>

fun isfinite :: "pyfloat \<Rightarrow> bool" where
  "isfinite (Fin q) = True"
| "isfinite _ = False"

fun flt_less :: "pyfloat \<Rightarrow> pyfloat \<Rightarrow> bool" where
  "flt_less (Fin a) (Fin b) = (a < b)"
| "flt_less NaN _ = False"
| "flt_less _ NaN = False"
| "flt_less NInf y = (y \<noteq> NInf)"
| "flt_less _ NInf = False"
| "flt_less PInf _ = False"
| "flt_less (Fin a) PInf = True"

fun flt_eq :: "pyfloat \<Rightarrow> pyfloat \<Rightarrow> bool" where
  "flt_eq NaN _ = False"
| "flt_eq x y = (x = y)"

definition flt_le :: "pyfloat \<Rightarrow> pyfloat \<Rightarrow> bool" where
  "flt_le x y = (flt_less x y \<or> flt_eq x y)"

fun flt_sub :: "pyfloat \<Rightarrow> pyfloat \<Rightarrow> pyfloat" where
  "flt_sub (Fin a) (Fin b) = to_double (a - b)"
| "flt_sub NaN _ = NaN"
| "flt_sub _ NaN = NaN"
| "flt_sub PInf PInf = NaN"
| "flt_sub NInf NInf = NaN"
| "flt_sub PInf _ = PInf"
| "flt_sub NInf _ = NInf"
| "flt_sub (Fin a) PInf = NInf"
| "flt_sub (Fin a) NInf = PInf"

lemma flt_less_irrefl [simp]: "\<not> flt_less x x"
  by (cases x) auto

lemma flt_less_trans: "flt_less x y \<Longrightarrow> flt_less y z \<Longrightarrow> flt_less x z"
  by (cases x; cases y; cases z) auto

lemma flt_le_Fin [simp]: "flt_le (Fin a) (Fin b) = (a \<le> b)"
  by (auto simp: flt_le_def)

lemma flt_NaN_right [simp]: "\<not> flt_less x NaN"
  by (cases x) auto

lemma flt_less_total:
  "x \<noteq> NaN \<Longrightarrow> y \<noteq> NaN \<Longrightarrow> flt_less x y \<or> x = y \<or> flt_less y x"
  by (cases x; cases y) auto

lemma flt_le_less_trans: "flt_le x y \<Longrightarrow> flt_less y z \<Longrightarrow> flt_less x z"
  by (cases x; cases y; cases z) (auto simp: flt_le_def)

subsection \<open>The shortest decimal that reads back as the float\<close>

text \<open>
  \<open>repr\<close> of a float: the least number of significant digits \<open>n \<le> 17\<close> for which a decimal
  with \<open>n\<close> digits rounds to the float, and among those the nearest one. Exponents from
  \<open>-4\<close> to \<open>15\<close> are written positionally.
\<close>

definition pow10 :: "int \<Rightarrow> rat" where
  "pow10 e = (if 0 \<le> e then 10 ^ nat e else 1 / 10 ^ nat (- e))"

definition dec_exp :: "rat \<Rightarrow> int" where
  "dec_exp q = (case find (\<lambda>e. pow10 e \<le> q) (rev [- 324..308]) of None \<Rightarrow> - 324 | Some e \<Rightarrow> e)"

definition shortest_at :: "rat \<Rightarrow> int \<Rightarrow> nat \<Rightarrow> (int \<times> nat) option" where
  "shortest_at q e n =
     (let u = pow10 (e - int n + 1);
          lo = \<lfloor>q / u\<rfloor>;
          ok = (\<lambda>m. to_double (of_int m * u) = Fin q);
          lo_near = (let r = q / u - of_int lo in r < 1 / 2 \<or> (r = 1 / 2 \<and> even lo))
      in if ok lo \<and> (lo_near \<or> \<not> ok (lo + 1)) then Some (lo, n)
         else if ok (lo + 1) then Some (lo + 1, n) else None)"

fun show_nat :: "nat \<Rightarrow> string" where
  "show_nat n = (if n < 10 then [char_of (48 + n)] else show_nat (n div 10) @ [char_of (48 + n mod 10)])"

declare show_nat.simps [simp del]

definition show_int :: "int \<Rightarrow> string" where
  "show_int i = (if i < 0 then CHR ''-'' # show_nat (nat (- i)) else show_nat (nat i))"

definition strip_zeros :: "string \<Rightarrow> string" where
  "strip_zeros ds = rev (dropWhile (\<lambda>c. c = CHR ''0'') (rev ds))"

text \<open>Digits \<open>d1 d2 ...\<close> standing for \<open>d1.d2... * 10 ^ e\<close>.\<close>

definition layout_digits :: "string \<Rightarrow> int \<Rightarrow> string" where
  "layout_digits ds e =
     (if - 4 \<le> e \<and> e < 16
      then (if e < 0 then ''0.'' @ replicate (nat (- e) - 1) CHR ''0'' @ ds
            else let k = nat e + 1
                 in if length ds \<le> k then ds @ replicate (k - length ds) CHR ''0'' @ ''.0''
                    else take k ds @ ''.'' @ drop k ds)
      else let x = (if e < 0 then ''e-'' else ''e+''); m = show_nat (nat \<bar>e\<bar>);
               m2 = (if length m < 2 then CHR ''0'' # m else m)
           in (case ds of [] \<Rightarrow> [] | d # r \<Rightarrow> (if r = [] then [d] else d # CHR ''.'' # r)) @ x @ m2)"

definition repr_pos :: "rat \<Rightarrow> string" where
  "repr_pos q =
     (let e = dec_exp q;
          (m, n) = (case List.map_filter (shortest_at q e) [1..<18] of
                      [] \<Rightarrow> (\<lfloor>q / pow10 (e - 16)\<rfloor>, 17) | mn # _ \<Rightarrow> mn);
          ds = show_nat (nat m)
      in layout_digits (strip_zeros ds) (e - int n + int (length ds)))"

fun flt_repr :: "pyfloat \<Rightarrow> string" where
  "flt_repr (Fin q) = (if q = 0 then ''0.0'' else if q < 0 then CHR ''-'' # repr_pos (- q) else repr_pos q)"
| "flt_repr PInf = ''inf''"
| "flt_repr NInf = ''-inf''"
| "flt_repr NaN = ''nan''"

end
