(* ===== verification/Py_Values.thy ===== *)
theory Py_Values
  imports Py_Floats "HOL-Library.Multiset"
begin

section \<open>The Python values the tunnel computes with\<close>

text \<open>
  The tunnel's records are JSON objects: dictionaries whose values come from RPC clients and
  from files, with no static type. The model keeps them that way: \<open>json\<close> has one
  constructor per JSON type, and every coercion the source performs (truth value, ordering,
  hashing, formatting) is a function on it, with the interpreter's TypeError or AttributeError as
  a branch.

  Conventions. A Python string is a list of code points below 256 (\<open>string\<close>), a float is
  a \<open>pyfloat\<close>, and Python's unbounded integers are \<open>int\<close>.
\<close>

subsection \<open>Values, dictionaries, exceptions\<close>

datatype json =
    JNull
  | JBool bool
  | JInt int
  | JFloat pyfloat
  | JStr string
  | JList "json list"
  | JObj "(string \<times> json) list"

type_synonym dict = "(string \<times> json) list"

text \<open>The exceptions the code raises, catches or lets through, with their message.\<close>

datatype exn =
    ValueError string
  | KeyError string
  | TypeError string
  | AttributeError string
  | OSError string
  | RuntimeError string
  | OverflowError string
  | ValidationError string
  | RpcError int string "json option"

fun type_name :: "json \<Rightarrow> string" where
  "type_name JNull = ''NoneType''"
| "type_name (JBool _) = ''bool''"
| "type_name (JInt _) = ''int''"
| "type_name (JFloat _) = ''float''"
| "type_name (JStr _) = ''str''"
| "type_name (JList _) = ''list''"
| "type_name (JObj _) = ''dict''"

text \<open>\<open>bool(v)\<close>, which every \<open>if v\<close>, \<open>v or w\<close> and \<open>not v\<close> takes.\<close>

fun truthy :: "json \<Rightarrow> bool" where
  "truthy JNull = False"
| "truthy (JBool b) = b"
| "truthy (JInt i) = (i \<noteq> 0)"
| "truthy (JFloat f) = (f \<noteq> Fin 0)"
| "truthy (JStr s) = (s \<noteq> [])"
| "truthy (JList xs) = (xs \<noteq> [])"
| "truthy (JObj d) = (d \<noteq> [])"

definition py_or :: "json \<Rightarrow> json \<Rightarrow> json" where
  "py_or v w = (if truthy v then v else w)"

fun is_dict :: "json \<Rightarrow> bool" where
  "is_dict (JObj _) = True"
| "is_dict _ = False"

fun is_str :: "json \<Rightarrow> bool" where
  "is_str (JStr _) = True"
| "is_str _ = False"

lemma is_dict_conv: "is_dict v \<longleftrightarrow> (\<exists>d. v = JObj d)"
  by (cases v) auto

text \<open>\<open>d.get(k)\<close> and \<open>d.get(k, dflt)\<close>.\<close>

definition dget :: "dict \<Rightarrow> string \<Rightarrow> json" where
  "dget d k = (case map_of d k of None \<Rightarrow> JNull | Some v \<Rightarrow> v)"

definition dget_or :: "dict \<Rightarrow> string \<Rightarrow> json \<Rightarrow> json" where
  "dget_or d k v = (case map_of d k of None \<Rightarrow> v | Some w \<Rightarrow> w)"

abbreviation dset :: "string \<Rightarrow> json \<Rightarrow> dict \<Rightarrow> dict" where
  "dset k v d \<equiv> AList.update k v d"

abbreviation has_key :: "dict \<Rightarrow> string \<Rightarrow> bool" where
  "has_key d k \<equiv> map_of d k \<noteq> None"

lemma dget_update [simp, dict_simps]: "dget (dset k v d) k' = (if k' = k then v else dget d k')"
  by (simp add: dget_def)

lemma dget_or_update [simp, dict_simps]:
  "dget_or (dset k v d) k' w = (if k' = k then v else dget_or d k' w)"
  by (simp add: dget_or_def)

lemma dget_setdefault [simp, dict_simps]:
  "dget (setdefault k v d) k' = (if k' = k then dget_or d k v else dget d k')"
  by (simp add: dget_def dget_or_def split: option.split)

lemma dget_or_setdefault [simp, dict_simps]:
  "dget_or (setdefault k v d) k' w = (if k' = k then dget_or d k v else dget_or d k' w)"
  by (simp add: dget_or_def split: option.split)

lemma dget_Cons [simp]: "dget ((k, v) # d) k' = (if k' = k then v else dget d k')"
  by (simp add: dget_def)

lemma dget_Nil [simp]: "dget [] k = JNull"
  by (simp add: dget_def)

lemma dget_or_Nil [simp]: "dget_or [] k w = w"
  by (simp add: dget_or_def)

lemma dget_or_Cons [simp]: "dget_or ((k, v) # d) k' w = (if k' = k then v else dget_or d k' w)"
  by (simp add: dget_or_def)

lemma dget_or_present: "dget d k \<noteq> JNull \<Longrightarrow> dget_or d k w = dget d k"
  by (auto simp: dget_def dget_or_def split: option.splits)

lemma dget_or_eq: "dget_or d k w = (if has_key d k then dget d k else w)"
  by (auto simp: dget_def dget_or_def split: option.splits)

text \<open>\<open>v.get(k)\<close> on a value that may not be a dictionary.\<close>

fun jget :: "json \<Rightarrow> string \<Rightarrow> exn + json" where
  "jget (JObj d) k = Inr (dget d k)"
| "jget v k = Inl (AttributeError (CHR 0x27 # type_name v @ CHR 0x27 # '' object has no attribute '' @
     CHR 0x27 # ''get'' @ [CHR 0x27]))"

text \<open>\<open>d.update(e)\<close>: the keys of \<open>e\<close> in its order.\<close>

fun dict_update :: "dict \<Rightarrow> dict \<Rightarrow> dict" where
  "dict_update d [] = d"
| "dict_update d ((k, v) # e) = dict_update (dset k v d) e"

lemma dget_dict_update_other: "k \<notin> fst ` set e \<Longrightarrow> dget (dict_update d e) k = dget d k"
  by (induction d e rule: dict_update.induct) auto

subsection \<open>Iteration\<close>

text \<open>\<open>for x in v\<close>: a string gives its characters, a dictionary its keys.\<close>

fun py_iter :: "json \<Rightarrow> exn + json list" where
  "py_iter (JList xs) = Inr xs"
| "py_iter (JObj d) = Inr (map (\<lambda>(k, v). JStr k) d)"
| "py_iter (JStr s) = Inr (map (\<lambda>c. JStr [c]) s)"
| "py_iter v = Inl (TypeError (CHR 0x27 # type_name v @ CHR 0x27 # '' object is not iterable''))"

subsection \<open>Hashing: what a value is as a dictionary key\<close>

text \<open>
  \<open>1\<close>, \<open>1.0\<close> and \<open>True\<close> are one dictionary key, lists and dictionaries are none
  (TypeError).
\<close>

datatype pkey = KNone | KNum rat | KStr string | KPInf | KNInf | KNaN

fun py_key :: "json \<Rightarrow> exn + pkey" where
  "py_key JNull = Inr KNone"
| "py_key (JBool b) = Inr (KNum (if b then 1 else 0))"
| "py_key (JInt i) = Inr (KNum (of_int i))"
| "py_key (JFloat (Fin q)) = Inr (KNum q)"
| "py_key (JFloat PInf) = Inr KPInf"
| "py_key (JFloat NInf) = Inr KNInf"
| "py_key (JFloat NaN) = Inr KNaN"
| "py_key (JStr s) = Inr (KStr s)"
| "py_key (JList xs) = Inl (TypeError (''unhashable type: '' @ CHR 0x27 # ''list'' @ [CHR 0x27]))"
| "py_key (JObj d) = Inl (TypeError (''unhashable type: '' @ CHR 0x27 # ''dict'' @ [CHR 0x27]))"

lemma py_key_KStr [simp]: "py_key v = Inr (KStr s) \<longleftrightarrow> v = JStr s"
  by (cases v rule: py_key.cases) auto

lemma py_key_Inl: "py_key v = Inl e \<Longrightarrow> \<exists>m. e = TypeError m"
  by (cases v rule: py_key.cases) auto

subsection \<open>Numbers and ordering\<close>

fun as_num :: "json \<Rightarrow> pyfloat option" where
  "as_num (JBool b) = Some (Fin (if b then 1 else 0))"
| "as_num (JInt i) = Some (Fin (of_int i))"
| "as_num (JFloat f) = Some f"
| "as_num _ = None"

text \<open>\<open>x - v\<close> for a float \<open>x\<close>: an int operand is converted to a float first.\<close>

definition int_too_large :: exn where
  "int_too_large = OverflowError ''int too large to convert to float''"

fun float_minus :: "pyfloat \<Rightarrow> json \<Rightarrow> exn + pyfloat" where
  "float_minus x (JFloat f) = Inr (flt_sub x f)"
| "float_minus x (JInt i) =
     (case to_double (of_int i) of Fin q \<Rightarrow> Inr (flt_sub x (Fin q)) | _ \<Rightarrow> Inl int_too_large)"
| "float_minus x (JBool b) = Inr (flt_sub x (Fin (if b then 1 else 0)))"
| "float_minus x v =
     Inl (TypeError (''unsupported operand type(s) for -: '' @ CHR 0x27 # ''float'' @ CHR 0x27 #
       '' and '' @ CHR 0x27 # type_name v @ [CHR 0x27]))"

fun str_less :: "string \<Rightarrow> string \<Rightarrow> bool" where
  "str_less _ [] = False"
| "str_less [] (_ # _) = True"
| "str_less (a # as) (b # bs) =
     (if a = b then str_less as bs else (of_char a :: nat) < of_char b)"

lemma str_less_irrefl [simp]: "\<not> str_less s s"
  by (induction s) auto

lemma str_less_trans: "str_less a b \<Longrightarrow> str_less b c \<Longrightarrow> str_less a c"
proof (induction a b arbitrary: c rule: str_less.induct)
  case (2 b bs)
  then show ?case by (cases c) auto
next
  case (3 a as b bs)
  then show ?case by (cases c) (auto split: if_splits)
qed auto

lemma str_less_total: "str_less a b \<or> a = b \<or> str_less b a"
proof (induction a b rule: str_less.induct)
  case (1 a)
  then show ?case by (cases a) auto
next
  case (3 a as b bs)
  show ?case
  proof (cases "a = b")
    case True
    then show ?thesis using "3.IH" by auto
  next
    case False
    then have "(of_char a :: nat) < of_char b \<or> of_char b < (of_char a :: nat)"
      by (simp add: nat_neq_iff [symmetric])
    with False show ?thesis by auto
  qed
qed auto

text \<open>\<open>x == y\<close>: numbers by value across their types, dictionaries whatever their order.\<close>

fun py_eq :: "json \<Rightarrow> json \<Rightarrow> bool" where
  "py_eq JNull w = (w = JNull)"
| "py_eq (JStr s) w = (w = JStr s)"
| "py_eq (JList xs) (JList ys) = list_all2 py_eq xs ys"
| "py_eq (JList xs) _ = False"
| "py_eq (JObj d) (JObj e) =
     (length d = length e \<and>
      list_all (\<lambda>(k, v). case map_of e k of None \<Rightarrow> False | Some w \<Rightarrow> py_eq v w) d)"
| "py_eq (JObj d) _ = False"
| "py_eq v w = (case (as_num v, as_num w) of (Some x, Some y) \<Rightarrow> flt_eq x y | _ \<Rightarrow> False)"

lemma py_eq_JStr_right [simp]: "py_eq v (JStr s) \<longleftrightarrow> v = JStr s"
  by (cases v) auto

text \<open>\<open>x < y\<close>: numbers, strings and lists (at the first unequal place), else TypeError.\<close>

definition no_order :: "json \<Rightarrow> json \<Rightarrow> exn" where
  "no_order v w = TypeError (CHR 0x27 # ''<'' @ CHR 0x27 # '' not supported between instances of '' @
     CHR 0x27 # type_name v @ CHR 0x27 # '' and '' @ CHR 0x27 # type_name w @ [CHR 0x27])"

fun py_lt :: "json \<Rightarrow> json \<Rightarrow> exn + bool" where
  "py_lt (JStr a) (JStr b) = Inr (str_less a b)"
| "py_lt (JList []) (JList ys) = Inr (ys \<noteq> [])"
| "py_lt (JList (x # xs)) (JList []) = Inr False"
| "py_lt (JList (x # xs)) (JList (y # ys)) =
     (if py_eq x y then py_lt (JList xs) (JList ys) else py_lt x y)"
| "py_lt v w =
     (case (as_num v, as_num w) of
        (Some x, Some y) \<Rightarrow> Inr (flt_less x y)
      | _ \<Rightarrow> Inl (no_order v w))"

text \<open>
  \<open>sorted(items, key=f, reverse=True)\<close> sorts the reversed list stably and reverses the
  result, so that equal items keep their order. Sorting raises TypeError when two of the keys
  have no order. (A NaN or a nested list among the keys leaves Python's order to the sorting
  algorithm; the model's insertion sort is one such order.)
\<close>

fun insort_lt :: "('a \<Rightarrow> 'a \<Rightarrow> bool) \<Rightarrow> 'a \<Rightarrow> 'a list \<Rightarrow> 'a list" where
  "insort_lt lt x [] = [x]"
| "insort_lt lt x (y # ys) = (if lt y x then y # insort_lt lt x ys else x # y # ys)"

fun isort_lt :: "('a \<Rightarrow> 'a \<Rightarrow> bool) \<Rightarrow> 'a list \<Rightarrow> 'a list" where
  "isort_lt lt [] = []"
| "isort_lt lt (x # xs) = insort_lt lt x (isort_lt lt xs)"

definition lt_true :: "json \<Rightarrow> json \<Rightarrow> bool" where
  "lt_true v w = (py_lt v w = Inr True)"

fun first_error :: "(exn + 'a) list \<Rightarrow> exn option" where
  "first_error [] = None"
| "first_error (Inl e # rs) = Some e"
| "first_error (Inr x # rs) = first_error rs"

definition order_error :: "json list \<Rightarrow> exn option" where
  "order_error ks = first_error (concat (map (\<lambda>i. map (\<lambda>j. py_lt (ks ! j) (ks ! i)) [0..<i]) [0..<length ks]))"

definition sorted_by :: "('a \<Rightarrow> json) \<Rightarrow> 'a list \<Rightarrow> exn + 'a list" where
  "sorted_by f xs =
     (case order_error (map f xs) of
        Some e \<Rightarrow> Inl e
      | None \<Rightarrow> Inr (isort_lt (\<lambda>x y. lt_true (f x) (f y)) xs))"

definition sorted_desc :: "('a \<Rightarrow> json) \<Rightarrow> 'a list \<Rightarrow> exn + 'a list" where
  "sorted_desc f xs = map_sum id rev (sorted_by f (rev xs))"

lemma set_insort_lt [simp]: "set (insort_lt lt x xs) = insert x (set xs)"
  by (induction xs) auto

lemma set_isort_lt [simp]: "set (isort_lt lt xs) = set xs"
  by (induction xs) auto

lemma length_insort_lt [simp]: "length (insort_lt lt x xs) = Suc (length xs)"
  by (induction xs) auto

lemma length_isort_lt [simp]: "length (isort_lt lt xs) = length xs"
  by (induction xs) auto

lemma insort_lt_sorted:
  assumes tot: "\<And>a b c. \<lbrakk>a \<in> A; b \<in> A; c \<in> A; \<not> lt b a; \<not> lt c b\<rbrakk> \<Longrightarrow> \<not> lt c a"
    and asym: "\<And>a b. \<lbrakk>a \<in> A; b \<in> A; lt a b\<rbrakk> \<Longrightarrow> \<not> lt b a"
    and x: "x \<in> A"
  shows "set ys \<subseteq> A \<Longrightarrow> sorted_wrt (\<lambda>a b. \<not> lt b a) ys \<Longrightarrow>
    sorted_wrt (\<lambda>a b. \<not> lt b a) (insort_lt lt x ys)"
proof (induction ys)
  case (Cons y ys)
  then have y: "y \<in> A" and ys: "\<And>z. z \<in> set ys \<Longrightarrow> z \<in> A \<and> \<not> lt z y" by auto
  show ?case
  proof (cases "lt y x")
    case True
    then have "\<not> lt x y" by (rule asym [OF y x])
    with Cons True ys show ?thesis by simp
  next
    case False
    then have "\<not> lt z x" if "z \<in> set ys" for z
      using tot [OF x y] ys that by blast
    with Cons False show ?thesis by simp
  qed
qed simp

lemma isort_lt_sorted:
  assumes tot: "\<And>a b c. \<lbrakk>a \<in> A; b \<in> A; c \<in> A; \<not> lt b a; \<not> lt c b\<rbrakk> \<Longrightarrow> \<not> lt c a"
    and asym: "\<And>a b. \<lbrakk>a \<in> A; b \<in> A; lt a b\<rbrakk> \<Longrightarrow> \<not> lt b a"
  shows "set xs \<subseteq> A \<Longrightarrow> sorted_wrt (\<lambda>a b. \<not> lt b a) (isort_lt lt xs)"
proof (induction xs)
  case (Cons x xs)
  then have "x \<in> A" "set (isort_lt lt xs) \<subseteq> A" "sorted_wrt (\<lambda>a b. \<not> lt b a) (isort_lt lt xs)"
    by auto
  then show ?case
    using insort_lt_sorted [of A lt x "isort_lt lt xs", OF tot asym] by simp
qed simp

lemma sorted_desc_set: "sorted_desc f xs = Inr ys \<Longrightarrow> set ys = set xs \<and> length ys = length xs"
  by (auto simp: sorted_desc_def sorted_by_def split: option.splits)

text \<open>Keys that are strings, or numbers other than NaN, have a total order.\<close>

definition orderable :: "json list \<Rightarrow> bool" where
  "orderable ks \<longleftrightarrow> list_all is_str ks \<or> list_all (\<lambda>v. \<exists>x. as_num v = Some x \<and> x \<noteq> NaN) ks"

lemma py_lt_num: "as_num v = Some x \<Longrightarrow> as_num w = Some y \<Longrightarrow> py_lt v w = Inr (flt_less x y)"
  by (cases v; cases w) auto

lemma lt_true_str [simp]: "lt_true (JStr a) (JStr b) = str_less a b"
  by (simp add: lt_true_def)

lemma is_str_conv: "is_str v \<longleftrightarrow> (\<exists>s. v = JStr s)"
  by (cases v) auto

lemma first_error_None: "(\<And>r. r \<in> set rs \<Longrightarrow> \<exists>x. r = Inr x) \<Longrightarrow> first_error rs = None"
  by (induction rs rule: first_error.induct) force+

lemma orderable_no_error: "orderable ks \<Longrightarrow> order_error ks = None"
  unfolding order_error_def orderable_def list_all_iff
  by (rule first_error_None) (auto simp: is_str_conv py_lt_num, (metis nth_mem order.strict_trans py_lt.simps(1) py_lt_num)+)

lemma mset_insort_lt [simp]: "mset (insort_lt lt x xs) = add_mset x (mset xs)"
  by (induction xs) auto

lemma mset_isort_lt [simp]: "mset (isort_lt lt xs) = mset xs"
  by (induction xs) auto

lemma sorted_desc_mset: "sorted_desc f xs = Inr ys \<Longrightarrow> mset ys = mset xs"
  by (auto simp: sorted_desc_def sorted_by_def split: option.splits)

text \<open>Keys on which \<open><\<close> answers and is a strict weak order sort without an error.\<close>

lemma sorted_desc_weak:
  assumes lt: "\<And>x y. x \<in> set xs \<Longrightarrow> y \<in> set xs \<Longrightarrow> py_lt (f x) (f y) = Inr (lt x y)"
    and asym: "\<And>x y. x \<in> set xs \<Longrightarrow> y \<in> set xs \<Longrightarrow> lt x y \<Longrightarrow> \<not> lt y x"
    and tot: "\<And>x y z. x \<in> set xs \<Longrightarrow> y \<in> set xs \<Longrightarrow> z \<in> set xs \<Longrightarrow> \<not> lt y x \<Longrightarrow> \<not> lt z y \<Longrightarrow> \<not> lt z x"
  shows "\<exists>ys. sorted_desc f xs = Inr ys \<and> mset ys = mset xs \<and> sorted_wrt (\<lambda>a b. \<not> lt a b) ys"
proof -
  let ?lt = "\<lambda>x y. lt_true (f x) (f y)"
  have eq: "?lt x y = lt x y" if "x \<in> set xs" "y \<in> set xs" for x y
    using lt [OF that] by (simp add: lt_true_def)
  have err: "order_error (map f (rev xs)) = None"
    unfolding order_error_def
  proof (rule first_error_None)
    let ?ks = "map f (rev xs)"
    fix r assume "r \<in> set (concat (map (\<lambda>i. map (\<lambda>j. py_lt (?ks ! j) (?ks ! i)) [0..<i]) [0..<length ?ks]))"
    then obtain i j where ij: "i < length xs" "j < i" and r: "r = py_lt (?ks ! j) (?ks ! i)" by auto
    then have "rev xs ! i \<in> set xs" "rev xs ! j \<in> set xs"
      by (metis length_rev less_trans nth_mem set_rev)+
    with r ij lt show "\<exists>b. r = Inr b" by simp
  qed
  have "sorted_wrt (\<lambda>a b. \<not> ?lt b a) (isort_lt ?lt (rev xs))"
  proof (rule isort_lt_sorted [where A = "set xs"])
    fix a b c assume "a \<in> set xs" "b \<in> set xs" "c \<in> set xs" "\<not> ?lt b a" "\<not> ?lt c b"
    then show "\<not> ?lt c a" using tot [of a b c] by (simp add: eq)
  next
    fix a b assume "a \<in> set xs" "b \<in> set xs" "?lt a b"
    then show "\<not> ?lt b a" using asym [of a b] by (simp add: eq)
  qed simp
  then have "sorted_wrt (\<lambda>a b. \<not> lt b a) (isort_lt ?lt (rev xs))"
    by (rule sorted_wrt_mono_rel [rotated]) (use eq in auto)
  with err show ?thesis by (simp add: sorted_desc_def sorted_by_def sorted_wrt_rev)
qed

lemma sorted_desc_strings:
  assumes "\<And>x. x \<in> set xs \<Longrightarrow> f x = JStr (g x)"
  shows "\<exists>ys. sorted_desc f xs = Inr ys \<and> mset ys = mset xs \<and>
    sorted_wrt (\<lambda>a b. \<not> str_less (g a) (g b)) ys"
proof (rule sorted_desc_weak)
  fix x y assume "x \<in> set xs" "y \<in> set xs"
  then show "py_lt (f x) (f y) = Inr (str_less (g x) (g y))" by (simp add: assms)
  show "str_less (g x) (g y) \<Longrightarrow> \<not> str_less (g y) (g x)"
    using str_less_trans [of "g x" "g y" "g x"] by auto
next
  fix x y z assume "\<not> str_less (g y) (g x)" "\<not> str_less (g z) (g y)"
  then show "\<not> str_less (g z) (g x)"
    using str_less_total str_less_trans by metis
qed

end
