(* ===== verification/Py_Strings.thy ===== *)
theory Py_Strings
  imports Py_Values
begin

section \<open>Python's string operations\<close>

text \<open>
  The string methods and conversions the tunnel calls: \<open>strip\<close>, \<open>splitlines\<close>,
  \<open>partition\<close>, \<open>startswith\<close>, \<open>replace\<close>, the \<open>%s\<close> and \<open>%r\<close> formats, and the parsers
  \<open>int(s)\<close> and \<open>float(s)\<close>. Code points are below 256.
\<close>

subsection \<open>White space, lines, separators\<close>

definition is_space :: "char \<Rightarrow> bool" where
  "is_space c = ((of_char c :: nat) \<in> {9, 10, 11, 12, 13, 28, 29, 30, 31, 32, 133, 160})"

definition lstrip :: "string \<Rightarrow> string" where
  "lstrip s = dropWhile is_space s"

definition rstrip :: "string \<Rightarrow> string" where
  "rstrip s = rev (dropWhile is_space (rev s))"

definition strip :: "string \<Rightarrow> string" where
  "strip s = rstrip (lstrip s)"

fun startswith :: "string \<Rightarrow> string \<Rightarrow> bool" where
  "startswith s [] = True"
| "startswith [] (p # ps) = False"
| "startswith (c # s) (p # ps) = (c = p \<and> startswith s ps)"

lemma startswith_conv: "startswith s p \<longleftrightarrow> (\<exists>t. s = p @ t)"
  by (induction s p rule: startswith.induct) auto

definition endswith :: "string \<Rightarrow> string \<Rightarrow> bool" where
  "endswith s p = startswith (rev s) (rev p)"

text \<open>\<open>p in s\<close>\<close>

fun contains :: "string \<Rightarrow> string \<Rightarrow> bool" where
  "contains p [] = (p = [])"
| "contains p (c # s) = (startswith (c # s) p \<or> contains p s)"

definition is_break :: "char \<Rightarrow> bool" where
  "is_break c = ((of_char c :: nat) \<in> {10, 11, 12, 13, 28, 29, 30, 133})"

text \<open>\<open>splitlines()\<close>: a carriage return and line feed together are one break, and a break at
  the very end opens no further line.\<close>

fun splitlines_acc :: "string \<Rightarrow> string \<Rightarrow> string list" where
  "splitlines_acc acc [] = (if acc = [] then [] else [rev acc])"
| "splitlines_acc acc (c # s) =
     (if c = CHR 0x0D
      then rev acc # (case s of
                          [] \<Rightarrow> []
                        | d # r \<Rightarrow> (if d = CHR 0x0A then splitlines_acc [] r else splitlines_acc [] (d # r)))
      else if is_break c then rev acc # splitlines_acc [] s
      else splitlines_acc (c # acc) s)"

definition splitlines :: "string \<Rightarrow> string list" where
  "splitlines s = splitlines_acc [] s"

text \<open>\<open>s.partition(sep)\<close> for a one-character separator, without the separator itself.\<close>

fun partition_at :: "char \<Rightarrow> string \<Rightarrow> string \<times> string" where
  "partition_at c [] = ([], [])"
| "partition_at c (x # s) =
     (if x = c then ([], s) else (case partition_at c s of (a, b) \<Rightarrow> (x # a, b)))"

lemma partition_at_split:
  "c \<in> set s \<Longrightarrow> partition_at c s = (a, b) \<Longrightarrow> s = a @ c # b \<and> c \<notin> set a"
  by (induction s arbitrary: a b) (auto split: if_splits prod.splits)

lemma partition_at_append:
  "c \<notin> set a \<Longrightarrow> partition_at c (a @ c # b) = (a, b)"
  by (induction a) auto

text \<open>\<open>s.replace(c, t)\<close> for a one-character pattern.\<close>

definition replace_char :: "char \<Rightarrow> string \<Rightarrow> string \<Rightarrow> string" where
  "replace_char c t s = concat (map (\<lambda>x. if x = c then t else [x]) s)"

fun join :: "string \<Rightarrow> string list \<Rightarrow> string" where
  "join sep [] = []"
| "join sep [x] = x"
| "join sep (x # xs) = x @ sep @ join sep xs"

definition to_upper :: "char \<Rightarrow> char" where
  "to_upper c = (let n = (of_char c :: nat) in if 97 \<le> n \<and> n \<le> 122 then char_of (n - 32) else c)"

definition to_lower :: "char \<Rightarrow> char" where
  "to_lower c = (let n = (of_char c :: nat) in if 65 \<le> n \<and> n \<le> 90 then char_of (n + 32) else c)"

subsection \<open>Formatting\<close>

definition hex_digit :: "nat \<Rightarrow> char" where
  "hex_digit n = (if n < 10 then char_of (48 + n) else char_of (87 + n))"

definition repr_char :: "char \<Rightarrow> char \<Rightarrow> string" where
  "repr_char q c =
     (let n = (of_char c :: nat)
      in if c = q \<or> c = CHR 0x5C then [CHR 0x5C, c]
         else if n = 9 then [CHR 0x5C, CHR ''t'']
         else if n = 10 then [CHR 0x5C, CHR ''n'']
         else if n = 13 then [CHR 0x5C, CHR ''r'']
         else if n < 32 \<or> (127 \<le> n \<and> n \<le> 160) \<or> n = 173
           then [CHR 0x5C, CHR ''x'', hex_digit (n div 16), hex_digit (n mod 16)]
         else [c])"

definition repr_str :: "string \<Rightarrow> string" where
  "repr_str s =
     (let q = (if CHR 0x27 \<in> set s \<and> CHR 0x22 \<notin> set s then CHR 0x22 else CHR 0x27)
      in q # concat (map (repr_char q) s) @ [q])"

fun py_repr :: "json \<Rightarrow> string" where
  "py_repr JNull = ''None''"
| "py_repr (JBool b) = (if b then ''True'' else ''False'')"
| "py_repr (JInt i) = show_int i"
| "py_repr (JFloat f) = flt_repr f"
| "py_repr (JStr s) = repr_str s"
| "py_repr (JList xs) = ''['' @ join '', '' (map py_repr xs) @ '']''"
| "py_repr (JObj d) = ''{'' @ join '', '' (map (\<lambda>(k, v). repr_str k @ '': '' @ py_repr v) d) @ ''}''"

text \<open>\<open>str(v)\<close>, which is also the \<open>%s\<close> format.\<close>

definition py_str :: "json \<Rightarrow> string" where
  "py_str v = (case v of JStr s \<Rightarrow> s | _ \<Rightarrow> py_repr v)"

lemma py_str_JStr [simp]: "py_str (JStr s) = s"
  by (simp add: py_str_def)

text \<open>\<open>repr\<close> of a tuple of strings.\<close>

definition repr_tuple :: "string list \<Rightarrow> string" where
  "repr_tuple xs =
     (case xs of [x] \<Rightarrow> ''('' @ repr_str x @ '',)'' | _ \<Rightarrow> ''('' @ join '', '' (map repr_str xs) @ '')'')"

text \<open>\<open>str(e)\<close> of an exception; a KeyError shows the \<open>repr\<close> of its message.\<close>

fun exn_name :: "exn \<Rightarrow> string" where
  "exn_name (ValueError _) = ''ValueError''"
| "exn_name (KeyError _) = ''KeyError''"
| "exn_name (TypeError _) = ''TypeError''"
| "exn_name (AttributeError _) = ''AttributeError''"
| "exn_name (OSError _) = ''OSError''"
| "exn_name (RuntimeError _) = ''RuntimeError''"
| "exn_name (OverflowError _) = ''OverflowError''"
| "exn_name (ValidationError _) = ''ValidationError''"
| "exn_name (RpcError _ _ _) = ''JsonRpcError''"

fun exn_str :: "exn \<Rightarrow> string" where
  "exn_str (KeyError m) = repr_str m"
| "exn_str (ValueError m) = m"
| "exn_str (TypeError m) = m"
| "exn_str (AttributeError m) = m"
| "exn_str (OSError m) = m"
| "exn_str (RuntimeError m) = m"
| "exn_str (OverflowError m) = m"
| "exn_str (ValidationError m) = m"
| "exn_str (RpcError _ m _) = m"

subsection \<open>Reading numbers\<close>

definition is_digit :: "char \<Rightarrow> bool" where
  "is_digit c = (48 \<le> (of_char c :: nat) \<and> (of_char c :: nat) \<le> 57)"

definition digit_val :: "char \<Rightarrow> nat" where
  "digit_val c = of_char c - 48"

text \<open>A run of digits, with single underscores allowed between two digits.\<close>

fun scan_digits :: "string \<Rightarrow> nat list \<times> string" where
  "scan_digits [] = ([], [])"
| "scan_digits (c # s) =
     (if \<not> is_digit c then ([], c # s)
      else case s of
             u # d # r \<Rightarrow>
               (if u = CHR ''_'' \<and> is_digit d
                then (case scan_digits (d # r) of (ds, t) \<Rightarrow> (digit_val c # ds, t))
                else (case scan_digits (u # d # r) of (ds, t) \<Rightarrow> (digit_val c # ds, t)))
           | _ \<Rightarrow> (case scan_digits s of (ds, t) \<Rightarrow> (digit_val c # ds, t)))"

definition digits_val :: "nat list \<Rightarrow> int" where
  "digits_val ds = foldl (\<lambda>a d. 10 * a + int d) 0 ds"

definition scan_sign :: "string \<Rightarrow> bool \<times> string" where
  "scan_sign s =
     (case s of c # r \<Rightarrow> (if c = CHR ''-'' then (True, r) else if c = CHR ''+'' then (False, r) else (False, s))
      | [] \<Rightarrow> (False, []))"

definition parse_int :: "string \<Rightarrow> int option" where
  "parse_int s =
     (case scan_sign (strip s) of
        (neg, r) \<Rightarrow>
          (case scan_digits r of
             (ds, t) \<Rightarrow>
               (if ds = [] \<or> t \<noteq> [] then None
                else Some (if neg then - digits_val ds else digits_val ds))))"

definition scan_exponent :: "string \<Rightarrow> (int \<times> string) option" where
  "scan_exponent s =
     (case s of
        c # r \<Rightarrow>
          (if c = CHR ''e'' \<or> c = CHR ''E''
           then (case scan_sign r of
                   (neg, r') \<Rightarrow>
                     (case scan_digits r' of
                        (ds, t) \<Rightarrow>
                          (if ds = [] then None
                           else Some (if neg then - digits_val ds else digits_val ds, t))))
           else Some (0, s))
      | [] \<Rightarrow> Some (0, []))"

definition scan_number :: "string \<Rightarrow> rat option" where
  "scan_number s =
     (case scan_digits s of
        (ip, r1) \<Rightarrow>
          (case (case r1 of c # r \<Rightarrow> (if c = CHR ''.'' then scan_digits r else ([], r1)) | [] \<Rightarrow> ([], [])) of
             (fp, r2) \<Rightarrow>
               (if ip = [] \<and> fp = [] then None
                else (case scan_exponent r2 of
                        None \<Rightarrow> None
                      | Some (e, r3) \<Rightarrow>
                          (if r3 \<noteq> [] then None
                           else Some (of_int (digits_val (ip @ fp)) * pow10 (e - int (length fp))))))))"

definition parse_float :: "string \<Rightarrow> pyfloat option" where
  "parse_float s =
     (case scan_sign (strip s) of
        (neg, r) \<Rightarrow>
          (let w = map to_lower r
           in if w = ''inf'' \<or> w = ''infinity'' then Some (if neg then NInf else PInf)
              else if w = ''nan'' then Some NaN
              else map_option (\<lambda>q. to_double (if neg then - q else q)) (scan_number r)))"

end
