(* ===== verification/Record_Store.thy ===== *)
theory Record_Store
  imports Py_Strings
begin

section \<open>Record stores: memory, directory, status machine\<close>

text \<open>
  \<open>ProposalStore\<close>, \<open>TransactionStore\<close> and \<open>JobStore\<close> are three copies of one
  design: a dictionary of records by id, mirrored to one JSON file per record in a directory,
  and a status field that moves along a fixed table. This theory models the shared design once,
  with the name of the id field as a parameter; the component theories instantiate it.

  What one call takes from outside is a \<open>tick\<close>: the clock reading, its local-time rendering
  (\<open>_iso\<close>), a fresh \<open>uuid4().hex[:12]\<close>, and whether creating the directories and writing
  the file succeed. A file of the directory holds a JSON value or cannot be read or parsed.

  The interface \<open>record_machine\<close> states what a status table and a transition function
  promise; everything the stores and the daemon rely on is proved once inside it.
\<close>

record tick =
  now :: rat
  stamp :: string
  uid :: string
  dirs_ok :: bool
  write_ok :: bool

datatype doc = Doc json | Unreadable

text \<open>A call at which the disk accepts its writes, for concrete runs.\<close>

definition good_tick :: "nat \<Rightarrow> tick" where
  "good_tick n = \<lparr>now = of_nat n, stamp = ''2026-01-01T00:00:00'', uid = ''0a1b2c3d4e5f'',
     dirs_ok = True, write_ok = True\<rparr>"

record rec_store =
  mem :: "(pkey \<times> dict) list"
  disk :: "(string \<times> doc) list"

definition now_json :: "tick \<Rightarrow> json" where
  "now_json t = JFloat (Fin (now t))"

subsection \<open>Loading and persisting\<close>

text \<open>
  One step of \<open>_load\<close>: an unreadable file is skipped (OSError, ValueError); a JSON value
  that is no object raises AttributeError at \<open>.get\<close>, an id that is a list TypeError, and
  neither is caught. A record without a (truthy) id is ignored.
\<close>

definition load_one :: "string \<Rightarrow> doc \<Rightarrow> (pkey \<times> dict) list \<Rightarrow> exn + (pkey \<times> dict) list" where
  "load_one idf d m =
     (case d of
        Unreadable \<Rightarrow> Inr m
      | Doc v \<Rightarrow>
          (case v of
             JObj p \<Rightarrow>
               (if truthy (dget p idf)
                then (case py_key (dget p idf) of
                        Inl e \<Rightarrow> Inl e
                      | Inr k \<Rightarrow> Inr (AList.update k p m))
                else Inr m)
           | _ \<Rightarrow> map_sum id (\<lambda>_. m) (jget v idf)))"

fun load_records :: "string \<Rightarrow> (pkey \<times> dict) list \<Rightarrow> (string \<times> doc) list \<Rightarrow> exn + (pkey \<times> dict) list" where
  "load_records idf m [] = Inr m"
| "load_records idf m ((f, d) # fs) =
     (case load_one idf d m of Inl e \<Rightarrow> Inl e | Inr m' \<Rightarrow> load_records idf m' fs)"

text \<open>An id with a slash names a path outside the store's directory listing.\<close>

definition plain_name :: "string \<Rightarrow> bool" where
  "plain_name i = (CHR ''/'' \<notin> set i)"

definition not_str_plus :: "json \<Rightarrow> exn" where
  "not_str_plus v = TypeError (''unsupported operand type(s) for +: '' @ CHR 0x27 # type_name v @ CHR 0x27 #
     '' and '' @ CHR 0x27 # ''str'' @ [CHR 0x27])"

definition persist_record :: "string \<Rightarrow> tick \<Rightarrow> dict \<Rightarrow> (rec_store, exn, unit) op" where
  "persist_record idf t p s =
     (if \<not> dirs_ok t then (Inr (), s)
      else case map_of p idf of
             None \<Rightarrow> (Inl (KeyError idf), s)
           | Some v \<Rightarrow>
               (case v of
                  JStr i \<Rightarrow>
                    (Inr (), if write_ok t \<and> plain_name i
                             then s\<lparr>disk := AList.update (i @ ''.json'') (Doc (JObj p)) (disk s)\<rparr>
                             else s)
                | _ \<Rightarrow> (Inl (not_str_plus v), s)))"

lemma mem_persist_record [simp]: "mem (snd (persist_record idf t p s)) = mem s"
  by (simp add: persist_record_def split: option.split json.split)

lemma seq_persist_ret [simp]:
  "seq (persist_record idf t p) (ret x) s =
     (map_sum id (\<lambda>_. x) (fst (persist_record idf t p s)), snd (persist_record idf t p s))"
  by (rule seq_ret)

lemma persist_record_str:
  "dget p idf = JStr i \<Longrightarrow> fst (persist_record idf t p s) = Inr ()"
  by (auto simp: persist_record_def dget_def split: option.splits)

subsection \<open>Adding a record, moving its status\<close>

text \<open>The common part of \<open>create\<close> and \<open>add\<close>: refuse a known id, store, then persist.\<close>

definition insert_record :: "string \<Rightarrow> tick \<Rightarrow> dict \<Rightarrow> (rec_store, exn, dict) op" where
  "insert_record idf t p s =
     (case py_key (dget p idf) of
        Inl e \<Rightarrow> (Inl e, s)
      | Inr k \<Rightarrow>
          (if map_of (mem s) k \<noteq> None
           then (Inl (ValueError (''duplicate '' @ idf @ '': '' @ py_str (dget p idf))), s)
           else seq (persist_record idf t p) (ret p) (s\<lparr>mem := AList.update k p (mem s)\<rparr>)))"

definition lookup_record :: "rec_store \<Rightarrow> json \<Rightarrow> exn + dict option" where
  "lookup_record s jid = (case py_key jid of Inl e \<Rightarrow> Inl e | Inr k \<Rightarrow> Inr (map_of (mem s) k))"

definition set_status_record ::
  "string \<Rightarrow> (dict \<Rightarrow> exn + dict) \<Rightarrow> tick \<Rightarrow> json \<Rightarrow> (rec_store, exn, dict) op" where
  "set_status_record idf tr t jid s =
     (case py_key jid of
        Inl e \<Rightarrow> (Inl e, s)
      | Inr k \<Rightarrow>
          (case map_of (mem s) k of
             None \<Rightarrow> (Inl (KeyError (''unknown '' @ idf @ '': '' @ py_str jid)), s)
           | Some p \<Rightarrow>
               (case tr p of
                  Inl e \<Rightarrow> (Inl e, s)
                | Inr q \<Rightarrow>
                    seq (persist_record idf t q) (ret q) (s\<lparr>mem := AList.update k q (mem s)\<rparr>))))"

text \<open>\<open>[p for p in items if p.get("status") == status]\<close>, when \<open>status\<close> is given.\<close>

definition with_status :: "json \<Rightarrow> dict list \<Rightarrow> dict list" where
  "with_status st xs = (if truthy st then filter (\<lambda>p. py_eq (dget p ''status'') st) xs else xs)"

subsection \<open>Status tables\<close>

type_synonym status_table = "(string \<times> string list) list"

text \<open>\<open>TRANSITIONS.get(current, ())\<close>\<close>

definition allowed_from :: "status_table \<Rightarrow> json \<Rightarrow> exn + string list" where
  "allowed_from T c =
     (case py_key c of
        Inl e \<Rightarrow> Inl e
      | Inr k \<Rightarrow> Inr (case k of
                        KStr s \<Rightarrow> (case map_of T s of None \<Rightarrow> [] | Some xs \<Rightarrow> xs)
                      | _ \<Rightarrow> []))"

definition bad_transition :: "json \<Rightarrow> string \<Rightarrow> string list \<Rightarrow> exn" where
  "bad_transition c new xs =
     ValueError (''cannot transition '' @ py_str c @ '' -> '' @ new @ '' (allowed: '' @
       (if xs = [] then ''none'' else repr_tuple xs) @ '')'')"

definition successors :: "status_table \<Rightarrow> string \<Rightarrow> string list" where
  "successors T s = (case map_of T s of None \<Rightarrow> [] | Some xs \<Rightarrow> xs)"

lemma allowed_from_JStr [simp]: "allowed_from T (JStr s) = Inr (successors T s)"
  by (simp add: allowed_from_def successors_def)

lemma allowed_from_mem: "allowed_from T c = Inr xs \<Longrightarrow> x \<in> set xs \<Longrightarrow> \<exists>s. c = JStr s \<and> x \<in> set (successors T s)"
  by (auto simp: allowed_from_def successors_def split: sum.splits pkey.splits)

inductive status_path :: "status_table \<Rightarrow> string \<Rightarrow> nat \<Rightarrow> string \<Rightarrow> bool" for T where
  stay: "status_path T s 0 s"
| move: "t \<in> set (successors T s) \<Longrightarrow> status_path T t n u \<Longrightarrow> status_path T s (Suc n) u"

inductive_cases status_path_0 [elim!]: "status_path T s 0 u"
inductive_cases status_path_Suc [elim]: "status_path T s (Suc n) u"

lemma status_path_trans:
  "status_path T s m t \<Longrightarrow> status_path T t n u \<Longrightarrow> status_path T s (m + n) u"
  by (induction rule: status_path.induct) (auto intro: status_path.intros)

lemma status_path_1: "t \<in> set (successors T s) \<Longrightarrow> status_path T s 1 t"
  using status_path.move [OF _ status_path.stay] by simp

subsection \<open>The interface of a status machine\<close>

locale status_machine =
  fixes T :: status_table and rank :: "string \<Rightarrow> nat"
  assumes rank_less: "t \<in> set (successors T s) \<Longrightarrow> rank t < rank s"
begin

lemma path_rank: "status_path T s n u \<Longrightarrow> rank u + n \<le> rank s"
  by (induction rule: status_path.induct) (auto dest: rank_less)

lemma path_acyclic: "status_path T s n s \<Longrightarrow> n = 0"
  by (drule path_rank) simp

lemma terminal_path: "successors T s = [] \<Longrightarrow> status_path T s n u \<Longrightarrow> n = 0 \<and> u = s"
  by (cases n) auto

end

text \<open>The status a record counts as having: the code's default when the field is absent.\<close>

definition status_of :: "string \<Rightarrow> dict \<Rightarrow> json" where
  "status_of dflt p = dget_or p ''status'' (JStr dflt)"

text \<open>
  A transition function over such a table, parameterised by whatever else the call brings (clock,
  extra fields).
\<close>

locale record_machine = status_machine +
  fixes idf :: string and dflt :: string
    and step :: "'x \<Rightarrow> string \<Rightarrow> dict \<Rightarrow> exn + dict"
  assumes step_allowed:
      "step x new p = Inr q \<Longrightarrow> \<exists>st. status_of dflt p = JStr st \<and> new \<in> set (successors T st)"
    and step_complete:
      "status_of dflt p = JStr st \<Longrightarrow> new \<in> set (successors T st) \<Longrightarrow> \<exists>q. step x new p = Inr q"
    and step_status: "step x new p = Inr q \<Longrightarrow> map_of q ''status'' = Some (JStr new)"
    and step_id: "step x new p = Inr q \<Longrightarrow> dget q idf = dget p idf"

subsection \<open>The store invariant\<close>

text \<open>Keys are distinct, and each record sits under its own id, which is truthy.\<close>

definition store_ok :: "string \<Rightarrow> rec_store \<Rightarrow> bool" where
  "store_ok idf s \<longleftrightarrow>
     distinct (map fst (mem s)) \<and>
     (\<forall>k p. map_of (mem s) k = Some p \<longrightarrow> truthy (dget p idf) \<and> py_key (dget p idf) = Inr k)"

lemma store_okD:
  "store_ok idf s \<Longrightarrow> map_of (mem s) k = Some p \<Longrightarrow> truthy (dget p idf) \<and> py_key (dget p idf) = Inr k"
  by (simp add: store_ok_def)

lemma store_ok_mem_cong: "mem s = mem s' \<Longrightarrow> store_ok idf s = store_ok idf s'"
  by (simp add: store_ok_def)

lemma store_ok_update:
  "store_ok idf s \<Longrightarrow> truthy (dget p idf) \<Longrightarrow> py_key (dget p idf) = Inr k \<Longrightarrow>
   store_ok idf (s\<lparr>mem := AList.update k p (mem s)\<rparr>)"
  by (auto simp: store_ok_def split: if_splits)

lemma store_ok_persist [simp]:
  "store_ok idf (snd (persist_record idf' t p s)) = store_ok idf s"
  by (rule store_ok_mem_cong) simp

lemma persist_keeps [keeps]: "preserves (store_ok idf) (persist_record idf' t p)"
  by (rule preservesI) simp

lemma insert_record_keeps [keeps]:
  assumes "truthy (dget p idf)"
  shows "preserves (store_ok idf) (insert_record idf t p)"
  using assms
  by (auto simp: preserves_def insert_record_def store_ok_update split: sum.splits)

text \<open>Loading establishes the invariant, whatever the directory holds.\<close>

lemma load_one_ok:
  "load_one idf d m = Inr m' \<Longrightarrow> store_ok idf \<lparr>mem = m, disk = e\<rparr> \<Longrightarrow>
   store_ok idf \<lparr>mem = m', disk = e\<rparr>"
  using store_ok_update [of idf "\<lparr>mem = m, disk = e\<rparr>"]
  by (auto simp: load_one_def split: doc.splits json.splits if_splits sum.splits)

lemma load_records_ok:
  "load_records idf m fs = Inr m' \<Longrightarrow> store_ok idf \<lparr>mem = m, disk = e\<rparr> \<Longrightarrow>
   store_ok idf \<lparr>mem = m', disk = e\<rparr>"
proof (induction idf m fs rule: load_records.induct)
  case (2 idf m f d fs)
  then show ?case by (auto split: sum.splits dest: load_one_ok)
qed simp

subsection \<open>How records evolve\<close>

text \<open>
  A record is unchanged, or its status has moved at least one step along the table (and its id is
  the same). Stores lose no record.
\<close>

definition record_evolves :: "status_table \<Rightarrow> string \<Rightarrow> string \<Rightarrow> dict \<Rightarrow> dict \<Rightarrow> bool" where
  "record_evolves T idf dflt p q \<longleftrightarrow>
     q = p \<or> (\<exists>st st' n. status_of dflt p = JStr st \<and> status_of dflt q = JStr st' \<and>
                status_path T st (Suc n) st' \<and> dget q idf = dget p idf)"

definition store_evolves :: "status_table \<Rightarrow> string \<Rightarrow> string \<Rightarrow> rec_store \<Rightarrow> rec_store \<Rightarrow> bool" where
  "store_evolves T idf dflt s s' \<longleftrightarrow>
     (\<forall>k p. map_of (mem s) k = Some p \<longrightarrow>
        (\<exists>q. map_of (mem s') k = Some q \<and> record_evolves T idf dflt p q))"

lemma record_evolves_refl [simp]: "record_evolves T idf dflt p p"
  by (simp add: record_evolves_def)

lemma record_evolves_trans:
  assumes "record_evolves T idf dflt p q" and "record_evolves T idf dflt q r"
  shows "record_evolves T idf dflt p r"
proof (cases "q = p \<or> r = q")
  case True
  with assms show ?thesis by auto
next
  case False
  then obtain st st' st'' m n where
    st: "status_of dflt p = JStr st" "status_of dflt q = JStr st'" "status_of dflt r = JStr st''"
      and paths: "status_path T st (Suc m) st'" "status_path T st' (Suc n) st''"
      and id: "dget q idf = dget p idf" "dget r idf = dget q idf"
    using assms unfolding record_evolves_def by fastforce
  from status_path_trans [OF paths] have "status_path T st (Suc (m + Suc n)) st''" by simp
  with st id show ?thesis unfolding record_evolves_def by auto
qed

lemma store_evolves_refl [simp]: "store_evolves T idf dflt s s"
  by (auto simp: store_evolves_def)

lemma store_evolves_mem: "mem s' = mem s \<Longrightarrow> store_evolves T idf dflt s s'"
  by (auto simp: store_evolves_def)

lemma store_evolves_trans:
  "store_evolves T idf dflt s s' \<Longrightarrow> store_evolves T idf dflt s' s'' \<Longrightarrow> store_evolves T idf dflt s s''"
  unfolding store_evolves_def by (meson record_evolves_trans)

lemma store_evolves_D:
  "store_evolves T idf dflt s s' \<Longrightarrow> map_of (mem s) k = Some p \<Longrightarrow>
   \<exists>q. map_of (mem s') k = Some q \<and> record_evolves T idf dflt p q"
  by (simp add: store_evolves_def)

lemma store_ok_evolves:
  assumes "store_ok idf s" and "store_evolves T idf dflt s s'"
    and "map fst (mem s') = map fst (mem s)"
  shows "store_ok idf s'"
  unfolding store_ok_def
proof (intro conjI allI impI)
  show "distinct (map fst (mem s'))" using assms by (simp add: store_ok_def)
next
  fix k q assume q: "map_of (mem s') k = Some q"
  then have "k \<in> fst ` set (mem s)"
    using assms(3) by (metis domI dom_map_of_conv_image_fst image_set)
  then obtain p where p: "map_of (mem s) k = Some p" by (metis map_of_eq_None_iff not_Some_eq)
  with assms(2) q have "record_evolves T idf dflt p q" by (auto dest: store_evolves_D)
  then have "dget q idf = dget p idf" by (auto simp: record_evolves_def)
  with store_okD [OF assms(1) p] show "truthy (dget q idf)" and "py_key (dget q idf) = Inr k"
    by simp_all
qed

lemma insert_record_mem:
  "insert_record idf t p s = (r, s') \<Longrightarrow>
   mem s' = mem s \<or>
   (\<exists>k. py_key (dget p idf) = Inr k \<and> map_of (mem s) k = None \<and> mem s' = AList.update k p (mem s))"
  by (auto simp: insert_record_def split: sum.splits if_splits)

lemma insert_record_evolves:
  "insert_record idf t p s = (r, s') \<Longrightarrow> store_evolves T idf' dflt s s'"
  by (drule insert_record_mem) (auto simp: store_evolves_def)

context record_machine begin

lemma set_status_cases:
  assumes "set_status_record idf (step x new) t jid s = (r, s')"
  obtains (unchanged) e where "r = Inl e" "s' = s"
    | (moved) k p q where "py_key jid = Inr k" "map_of (mem s) k = Some p" "step x new p = Inr q"
        "mem s' = AList.update k q (mem s)" "\<And>q'. r = Inr q' \<Longrightarrow> q' = q"
proof (cases "\<exists>k p q. py_key jid = Inr k \<and> map_of (mem s) k = Some p \<and> step x new p = Inr q")
  case True
  then obtain k p q where "py_key jid = Inr k" "map_of (mem s) k = Some p" "step x new p = Inr q"
    by blast
  with assms moved show ?thesis
    by (fastforce simp: set_status_record_def map_sum_def split: sum.splits)
next
  case False
  with assms have "(\<exists>e. r = Inl e) \<and> s' = s"
    by (auto simp: set_status_record_def split: sum.splits option.splits) metis
  with unchanged show ?thesis by blast
qed

lemma set_status_keeps [keeps]: "preserves (store_ok idf) (set_status_record idf (step x new) t jid)"
proof (rule preservesI)
  fix s assume ok: "store_ok idf s"
  obtain r s' where r: "set_status_record idf (step x new) t jid s = (r, s')" by fastforce
  from r show "store_ok idf (snd (set_status_record idf (step x new) t jid s))"
  proof (cases rule: set_status_cases)
    case unchanged
    with r ok show ?thesis by simp
  next
    case (moved k p q)
    from ok moved(2) have "truthy (dget p idf)" "py_key (dget p idf) = Inr k"
      by (auto dest: store_okD)
    with step_id [OF moved(3)] have "store_ok idf (s\<lparr>mem := AList.update k q (mem s)\<rparr>)"
      by (intro store_ok_update [OF ok]) simp_all
    then have "store_ok idf s'" using moved(4) by (simp add: store_ok_def)
    with r show ?thesis by simp
  qed
qed

lemma step_record_evolves: "step x new p = Inr q \<Longrightarrow> record_evolves T idf dflt p q"
proof -
  assume q: "step x new p = Inr q"
  then obtain st where st: "status_of dflt p = JStr st" "new \<in> set (successors T st)"
    using step_allowed by blast
  have "status_of dflt q = JStr new"
    using step_status [OF q] by (simp add: status_of_def dget_or_def)
  with st step_id [OF q] status_path_1 [of new T st] show ?thesis
    unfolding record_evolves_def One_nat_def by blast
qed

lemma set_status_evolves:
  "set_status_record idf (step x new) t jid s = (r, s') \<Longrightarrow> store_evolves T idf dflt s s'"
  by (erule set_status_cases) (auto simp: store_evolves_def intro: step_record_evolves)

text \<open>A successful move of a string id: who moved, along which edge, and nothing else changed.\<close>

lemma set_status_Inr:
  assumes "set_status_record idf (step x new) t jid s = (Inr q, s')"
  shows "\<exists>k p st. py_key jid = Inr k \<and> map_of (mem s) k = Some p \<and> status_of dflt p = JStr st \<and>
     new \<in> set (successors T st) \<and> dget q ''status'' = JStr new \<and>
     map_of (mem s') = (map_of (mem s))(k \<mapsto> q)"
  using assms
proof (cases rule: set_status_cases)
  case (moved k p q')
  then have "q' = q" by auto
  with moved step_allowed [OF moved(3)] step_status [OF moved(3)] show ?thesis
    by (auto simp: dget_def fun_eq_iff)
qed simp

text \<open>It fails exactly when the id is unknown or the table has no such edge, and then it changes
  nothing.\<close>

lemma set_status_str:
  assumes ok: "store_ok idf s"
  shows "set_status_record idf (step x new) t (JStr i) s =
    (case map_of (mem s) (KStr i) of
       None \<Rightarrow> (Inl (KeyError (''unknown '' @ idf @ '': '' @ i)), s)
     | Some p \<Rightarrow>
         (case step x new p of
            Inl e \<Rightarrow> (Inl e, s)
          | Inr q \<Rightarrow> (Inr q, snd (persist_record idf t q (s\<lparr>mem := AList.update (KStr i) q (mem s)\<rparr>)))))"
proof -
  have "fst (persist_record idf t q s0) = Inr ()"
    if "map_of (mem s) (KStr i) = Some p" and "step x new p = Inr q" for p q s0
    using store_okD [OF ok that(1)] step_id [OF that(2)] by (intro persist_record_str) simp
  then show ?thesis
    by (auto simp: set_status_record_def split: option.split sum.split)
qed

lemma set_status_enabled:
  assumes ok: "store_ok idf s" and p: "map_of (mem s) (KStr i) = Some p"
    and st: "status_of dflt p = JStr st"
  shows "(\<exists>q s'. set_status_record idf (step x new) t (JStr i) s = (Inr q, s')) \<longleftrightarrow>
    new \<in> set (successors T st)"
proof
  assume "\<exists>q s'. set_status_record idf (step x new) t (JStr i) s = (Inr q, s')"
  with set_status_Inr p st show "new \<in> set (successors T st)" by fastforce
next
  assume "new \<in> set (successors T st)"
  with step_complete [OF st] obtain q where "step x new p = Inr q" by blast
  with p show "\<exists>q s'. set_status_record idf (step x new) t (JStr i) s = (Inr q, s')"
    by (simp add: set_status_str [OF ok])
qed

text \<open>A record in a status without successors never changes again.\<close>

lemma evolves_final:
  assumes "store_evolves T idf dflt s s'" and "map_of (mem s) k = Some p"
    and "status_of dflt p = JStr st" and "successors T st = []"
  shows "map_of (mem s') k = Some p"
proof -
  from assms(1,2) obtain q where q: "map_of (mem s') k = Some q" "record_evolves T idf dflt p q"
    by (blast dest: store_evolves_D)
  with assms(3,4) terminal_path show ?thesis by (fastforce simp: record_evolves_def)
qed

text \<open>No record returns to a status it has left.\<close>

lemma evolves_rank:
  assumes "store_evolves T idf dflt s s'" and "map_of (mem s) k = Some p"
    and "status_of dflt p = JStr st"
  shows "\<exists>q st'. map_of (mem s') k = Some q \<and> status_of dflt q = JStr st' \<and>
    (q = p \<or> rank st' < rank st)"
proof -
  from assms(1,2) obtain q where q: "map_of (mem s') k = Some q" "record_evolves T idf dflt p q"
    by (blast dest: store_evolves_D)
  with assms(3) path_rank show ?thesis by (fastforce simp: record_evolves_def)
qed

end

subsection \<open>Runs of a store\<close>

text \<open>\<open>add\<close> of the transaction and job stores: an id is required.\<close>

definition add_record :: "string \<Rightarrow> string \<Rightarrow> tick \<Rightarrow> dict \<Rightarrow> (rec_store, exn, dict) op" where
  "add_record idf what t p =
     (if \<not> truthy (dget p idf) then raise (ValueError (what @ '' missing '' @ idf))
      else insert_record idf t p)"

lemma add_record_keeps [keeps]: "preserves (store_ok idf) (add_record idf what t p)"
  by (simp add: add_record_def insert_record_keeps)

lemma add_record_evolves: "add_record idf what t p s = (r, s') \<Longrightarrow> store_evolves T idf' dflt s s'"
  by (auto simp: add_record_def raise_def split: if_splits intro: insert_record_evolves)

lemma add_record_str:
  assumes "dget p idf = JStr i" and "i \<noteq> []"
  shows "add_record idf what t p s =
    (if map_of (mem s) (KStr i) \<noteq> None then (Inl (ValueError (''duplicate '' @ idf @ '': '' @ i)), s)
     else (Inr p, snd (persist_record idf t p (s\<lparr>mem := AList.update (KStr i) p (mem s)\<rparr>))))"
  using assms persist_record_str [of p idf i t] by (simp add: add_record_def insert_record_def)

text \<open>Any sequence of additions and status moves, with any arguments and answers of clock and disk.\<close>

inductive record_run :: "string \<Rightarrow> string \<Rightarrow> ('x \<Rightarrow> string \<Rightarrow> dict \<Rightarrow> exn + dict) \<Rightarrow> rec_store \<Rightarrow> rec_store \<Rightarrow> bool"
  for idf what step where
  finish: "record_run idf what step s s"
| add: "add_record idf what t p s = (r, s') \<Longrightarrow> record_run idf what step s' s'' \<Longrightarrow>
    record_run idf what step s s''"
| move: "set_status_record idf (step x new) t jid s = (r, s') \<Longrightarrow> record_run idf what step s' s'' \<Longrightarrow>
    record_run idf what step s s''"

context record_machine begin

lemma run_sound:
  "record_run idf what step s s' \<Longrightarrow> store_ok idf s \<Longrightarrow> store_ok idf s' \<and> store_evolves T idf dflt s s'"
proof (induction rule: record_run.induct)
  case (add t p s r s' s'')
  then have "store_ok idf s'" using preserves_run [OF add_record_keeps] by blast
  with add show ?case using add_record_evolves store_evolves_trans by blast
next
  case (move x new t jid s r s' s'')
  then have "store_ok idf s'" using preserves_run [OF set_status_keeps] by blast
  with move show ?case using set_status_evolves store_evolves_trans by blast
qed simp

text \<open>The history of one record over a run: it stays, unchanged or further along the table.\<close>

lemma run_history:
  assumes "store_ok idf s" and "record_run idf what step s s'" and "map_of (mem s) k = Some p"
  shows "\<exists>q. map_of (mem s') k = Some q \<and>
    (q = p \<or> (\<exists>st st' n. status_of dflt p = JStr st \<and> status_of dflt q = JStr st' \<and>
       status_path T st (Suc n) st' \<and> st' \<noteq> st \<and> Suc n \<le> rank st))"
proof -
  obtain q where q: "map_of (mem s') k = Some q" "record_evolves T idf dflt p q"
    using run_sound [OF assms(2,1)] assms(3) by (blast dest: store_evolves_D)
  have "st' \<noteq> st \<and> Suc n \<le> rank st" if "status_path T st (Suc n) st'" for st st' n
    using path_rank [OF that] by auto
  with q show ?thesis unfolding record_evolves_def by blast
qed

lemma run_final:
  assumes "store_ok idf s" and "record_run idf what step s s'" and "map_of (mem s) k = Some p"
    and "status_of dflt p = JStr st" and "successors T st = []"
  shows "map_of (mem s') k = Some p"
  using run_sound [OF assms(2,1)] evolves_final [OF _ assms(3-5)] by blast

end

subsection \<open>Memory and directory agree\<close>

text \<open>
  A call is healthy when the disk accepts its writes. \<open>mirrored_upto idf D s\<close>: every record has a
  plain string id, every file is the file of a stored record, and for the records outside \<open>D\<close>
  the file holds the record. A method that has changed memory and not yet persisted is in the
  middle state where \<open>D\<close> holds the keys it still has to write.
\<close>

definition healthy :: "tick \<Rightarrow> bool" where
  "healthy t \<longleftrightarrow> dirs_ok t \<and> write_ok t"

definition plain_id :: "string \<Rightarrow> pkey \<Rightarrow> dict \<Rightarrow> bool" where
  "plain_id idf k p \<longleftrightarrow> (\<exists>i. k = KStr i \<and> i \<noteq> [] \<and> plain_name i \<and> dget p idf = JStr i)"

fun key_file :: "pkey \<Rightarrow> string" where
  "key_file (KStr i) = i @ ''.json''"
| "key_file _ = []"

definition mirrored_upto :: "string \<Rightarrow> pkey set \<Rightarrow> rec_store \<Rightarrow> bool" where
  "mirrored_upto idf D s \<longleftrightarrow>
     distinct (map fst (disk s)) \<and>
     (\<forall>k p. map_of (mem s) k = Some p \<longrightarrow>
        plain_id idf k p \<and> (k \<notin> D \<longrightarrow> map_of (disk s) (key_file k) = Some (Doc (JObj p)))) \<and>
     (\<forall>f d. map_of (disk s) f = Some d \<longrightarrow>
        (\<exists>k p q. f = key_file k \<and> d = Doc (JObj q) \<and> plain_id idf k q \<and> map_of (mem s) k = Some p))"

abbreviation mirrored :: "string \<Rightarrow> rec_store \<Rightarrow> bool" where
  "mirrored idf s \<equiv> mirrored_upto idf {} s"

lemma mirrored_file:
  "mirrored_upto idf D s \<Longrightarrow> map_of (disk s) f = Some d \<Longrightarrow>
   \<exists>k p q. f = key_file k \<and> d = Doc (JObj q) \<and> plain_id idf k q \<and> map_of (mem s) k = Some p"
  by (simp add: mirrored_upto_def)

lemma plain_id_file_inj: "plain_id idf k p \<Longrightarrow> plain_id idf k' q \<Longrightarrow> key_file k = key_file k' \<Longrightarrow> k = k'"
  by (auto simp: plain_id_def)

lemma mirrored_persist:
  assumes m: "mirrored_upto idf D s" and q: "map_of (mem s) k = Some q" and t: "healthy t"
  shows "mirrored_upto idf (D - {k}) (snd (persist_record idf t q s))"
    and "fst (persist_record idf t q s) = Inr ()"
proof -
  from m q have "plain_id idf k q" by (simp add: mirrored_upto_def)
  then obtain i where i: "k = KStr i" "i \<noteq> []" "plain_name i" "dget q idf = JStr i"
    by (auto simp: plain_id_def)
  with t have eq: "persist_record idf t q s =
      (Inr (), s\<lparr>disk := AList.update (i @ ''.json'') (Doc (JObj q)) (disk s)\<rparr>)"
    by (auto simp: persist_record_def healthy_def dget_def split: option.splits)
  show "fst (persist_record idf t q s) = Inr ()" by (simp add: eq)
  have kf: "key_file k = i @ ''.json''" by (simp add: i)
  have "map_of (AList.update (key_file k) (Doc (JObj q)) (disk s)) (key_file k') = Some (Doc (JObj p))"
    if "map_of (mem s) k' = Some p" "k' \<notin> D - {k}" for k' p
    using that m q plain_id_file_inj [of idf k' p k q] unfolding mirrored_upto_def
    by (cases "k' = k") auto
  moreover have "\<exists>k' p' q'. f = key_file k' \<and> d = Doc (JObj q') \<and> plain_id idf k' q' \<and> map_of (mem s) k' = Some p'"
    if "map_of (AList.update (key_file k) (Doc (JObj q)) (disk s)) f = Some d" for f d
    using that m q \<open>plain_id idf k q\<close> unfolding mirrored_upto_def by (auto split: if_splits)
  ultimately show "mirrored_upto idf (D - {k}) (snd (persist_record idf t q s))"
    using m unfolding eq by (simp add: mirrored_upto_def flip: kf)
qed

lemma mirrored_change:
  assumes "mirrored_upto idf D s" and "plain_id idf k q"
  shows "mirrored_upto idf (insert k D) (s\<lparr>mem := AList.update k q (mem s)\<rparr>)"
  using assms unfolding mirrored_upto_def by auto metis+

lemma mirrored_write:
  assumes "mirrored idf s" and "plain_id idf k q" and "healthy t"
  shows "mirrored idf (snd (persist_record idf t q (s\<lparr>mem := AList.update k q (mem s)\<rparr>)))"
  using mirrored_persist(1) [OF mirrored_change [OF assms(1,2)] _ assms(3), of k q]
  by simp

lemma mirrored_insert:
  assumes "mirrored idf s" and "healthy t" and "dget p idf = JStr i" "i \<noteq> []" "plain_name i"
  shows "mirrored idf (snd (insert_record idf t p s))"
  using assms mirrored_write [of idf s "KStr i" p t]
  by (auto simp: insert_record_def plain_id_def split: sum.split)

lemma mirrored_upto_mono: "mirrored_upto idf D s \<Longrightarrow> D \<subseteq> E \<Longrightarrow> mirrored_upto idf E s"
  unfolding mirrored_upto_def by blast

lemma mirrored_plain: "mirrored_upto idf D s \<Longrightarrow> map_of (mem s) k = Some p \<Longrightarrow> plain_id idf k p"
  by (simp add: mirrored_upto_def)

context record_machine begin

lemma mirrored_set_status:
  assumes "mirrored idf s" and "healthy t"
  shows "mirrored idf (snd (set_status_record idf (step x new) t jid s))"
proof -
  have "mirrored idf (snd (persist_record idf t q (s\<lparr>mem := AList.update k q (mem s)\<rparr>)))"
    if "map_of (mem s) k = Some p" and "step x new p = Inr q" for k p q
  proof (rule mirrored_write [OF assms(1) _ assms(2)])
    show "plain_id idf k q"
      using mirrored_plain [OF assms(1) that(1)] step_id [OF that(2)] by (simp add: plain_id_def)
  qed
  with assms(1) show ?thesis
    by (auto simp: set_status_record_def split: sum.split option.split)
qed

end

text \<open>Restart: reading a mirrored directory back gives the same records.\<close>

definition reloaded :: "(string \<times> doc) list \<Rightarrow> (pkey \<times> dict) list \<Rightarrow> pkey \<Rightarrow> dict option" where
  "reloaded fs m k =
     (case k of
        KStr i \<Rightarrow> (case map_of fs (i @ ''.json'') of Some (Doc (JObj p)) \<Rightarrow> Some p | _ \<Rightarrow> map_of m k)
      | _ \<Rightarrow> map_of m k)"

lemma load_records_files:
  assumes "\<And>f d. (f, d) \<in> set fs \<Longrightarrow> \<exists>k q. f = key_file k \<and> d = Doc (JObj q) \<and> plain_id idf k q"
    and "distinct (map fst fs)"
  shows "\<exists>m'. load_records idf m fs = Inr m' \<and> map_of m' = reloaded fs m"
  using assms
proof (induction fs arbitrary: m)
  case Nil
  then show ?case by (simp add: reloaded_def fun_eq_iff split: pkey.split)
next
  case (Cons x fs)
  obtain k0 q0 where x: "x = (key_file k0, Doc (JObj q0))" and pl: "plain_id idf k0 q0"
    using Cons.prems(1) [of "fst x" "snd x"] by (metis list.set_intros(1) prod.collapse)
  then obtain i0 where i0: "k0 = KStr i0" "i0 \<noteq> []" "dget q0 idf = JStr i0" by (auto simp: plain_id_def)
  have step: "load_records idf m (x # fs) = load_records idf (AList.update k0 q0 m) fs"
    by (simp add: x load_one_def i0)
  have fresh: "map_of fs (i0 @ ''.json'') = None"
    using Cons.prems(2) x i0 by (simp add: map_of_eq_None_iff)
  obtain m' where "load_records idf (AList.update k0 q0 m) fs = Inr m'"
    and m': "map_of m' = reloaded fs (AList.update k0 q0 m)"
    using Cons.IH [of "AList.update k0 q0 m"] Cons.prems by auto
  moreover have "reloaded fs (AList.update k0 q0 m) = reloaded (x # fs) m"
    using fresh by (auto simp: reloaded_def x i0 fun_eq_iff split: pkey.split option.split doc.split json.split)
  ultimately show ?case by (simp add: step)
qed

lemma load_mirrored:
  assumes m: "mirrored idf s"
  shows "\<exists>m'. load_records idf [] (disk s) = Inr m' \<and> map_of m' = map_of (mem s)"
proof -
  have files: "\<exists>k q. f = key_file k \<and> d = Doc (JObj q) \<and> plain_id idf k q" if "(f, d) \<in> set (disk s)" for f d
  proof -
    have "map_of (disk s) f = Some d" using that m by (simp add: mirrored_upto_def)
    from mirrored_file [OF m this] show ?thesis by blast
  qed
  have "reloaded (disk s) [] k = map_of (mem s) k" for k
  proof (cases "map_of (mem s) k")
    case (Some p)
    with m have "plain_id idf k p" "map_of (disk s) (key_file k) = Some (Doc (JObj p))"
      by (auto simp: mirrored_upto_def)
    with Some show ?thesis by (auto simp: reloaded_def plain_id_def)
  next
    case None
    have "map_of (disk s) (i @ ''.json'') = None" if "k = KStr i" for i
    proof (rule ccontr)
      assume "map_of (disk s) (i @ ''.json'') \<noteq> None"
      then obtain d where "map_of (disk s) (i @ ''.json'') = Some d" by blast
      from mirrored_file [OF m this] obtain k' p q
        where "i @ ''.json'' = key_file k'" "plain_id idf k' q" "map_of (mem s) k' = Some p"
        by blast
      with that None show False by (auto simp: plain_id_def)
    qed
    with None show ?thesis by (simp add: reloaded_def split: pkey.split)
  qed
  then have "reloaded (disk s) [] = map_of (mem s)" by (rule ext)
  moreover have "distinct (map fst (disk s))" using m by (simp add: mirrored_upto_def)
  ultimately show ?thesis using load_records_files [of "disk s" idf "[]"] files by metis
qed

end
