(* ===== verification/Proposals.thy ===== *)
theory Proposals
  imports Record_Store
begin

section \<open>Proposals: model, store, expiry, policy\<close>

text \<open>
  \<open>proposal/model.py\<close>, \<open>proposal/manager.py\<close> and \<open>proposal/policy.py\<close>. A proposal is a
  dictionary with a status that a human reviewer moves; pending proposals past their time to
  live are swept to \<open>expired\<close> whenever the store is read.

  The sweep reads the clock once for the age test; its transitions take their \<open>updated_at\<close> from
  the same tick.
\<close>

subsection \<open>Model\<close>

definition proposal_VALID_STATUSES :: "string list" where
  "proposal_VALID_STATUSES =
     [''pending'', ''approved'', ''rejected'', ''applied'', ''failed'', ''rolled_back'', ''expired'']"

definition proposal_TERMINAL_STATUSES :: "string list" where
  "proposal_TERMINAL_STATUSES = [''applied'', ''failed'', ''rolled_back'', ''expired'']"

definition proposal_TRANSITIONS :: status_table where
  "proposal_TRANSITIONS =
     [(''pending'', [''approved'', ''rejected'', ''expired'']),
      (''approved'', [''applied'', ''failed'']),
      (''rejected'', []),
      (''applied'', [''rolled_back'']),
      (''failed'', []),
      (''rolled_back'', []),
      (''expired'', [])]"

definition make_proposal :: "tick \<Rightarrow> dict \<Rightarrow> dict" where
  "make_proposal t data =
     (let p = (if truthy (dget data ''proposal_id'') then data
               else dset ''proposal_id'' (JStr (''p_'' @ uid t)) data);
          p = setdefault ''schema_version'' (JStr ''0.1'') p;
          p = setdefault ''status'' (JStr ''pending'') p;
          p = setdefault ''created_by'' (JStr ''agent'') p;
          p = setdefault ''requires_user_approval'' (JBool True) p;
          p = setdefault ''changes'' (JList []) p;
          p = (if has_key p ''created_at'' then p else dset ''created_at'' (JStr (stamp t)) p);
          p = setdefault ''created_ts'' (now_json t) p
      in dset ''updated_at'' (JStr (stamp t)) p)"

definition proposal_transition :: "tick \<Rightarrow> string \<Rightarrow> dict \<Rightarrow> exn + dict" where
  "proposal_transition t new p =
     (let current = dget_or p ''status'' (JStr ''pending'')
      in case allowed_from proposal_TRANSITIONS current of
           Inl e \<Rightarrow> Inl e
         | Inr allowed \<Rightarrow>
             (if new \<notin> set allowed then Inl (bad_transition current new allowed)
              else Inr (dset ''updated_at'' (JStr (stamp t)) (dset ''status'' (JStr new) p))))"

text \<open>The policy stubs.\<close>

definition check_approve :: "dict \<Rightarrow> bool \<times> string" where
  "check_approve p = (True, ''ok'')"

definition check_apply :: "dict \<Rightarrow> bool \<times> string" where
  "check_apply p =
     (if dget p ''status'' \<noteq> JStr ''approved''
      then (False, ''proposal must be in '' @ CHR 0x27 # ''approved'' @ CHR 0x27 #
              '' state to apply (got '' @ py_repr (dget p ''status'') @ '')'')
      else (True, ''ok''))"

subsection \<open>Store\<close>

definition ProposalStore_load :: "(string \<times> doc) list \<Rightarrow> exn + rec_store" where
  "ProposalStore_load files =
     map_sum id (\<lambda>m. \<lparr>mem = m, disk = files\<rparr>) (load_records ''proposal_id'' [] files)"

definition proposal_persist :: "tick \<Rightarrow> dict \<Rightarrow> (rec_store, exn, unit) op" where
  "proposal_persist = persist_record ''proposal_id''"

definition proposal_create :: "tick \<Rightarrow> dict \<Rightarrow> (rec_store, exn, dict) op" where
  "proposal_create t data = insert_record ''proposal_id'' t (make_proposal t data)"

text \<open>The body of the sweep's loop: \<open>None\<close> for \<open>continue\<close>, else the expired record.\<close>

definition expire_one :: "int \<Rightarrow> tick \<Rightarrow> dict \<Rightarrow> exn + dict option" where
  "expire_one ttl t p =
     (if dget p ''status'' \<noteq> JStr ''pending'' then Inr None
      else let ts = dget p ''created_ts''
           in if ts = JNull then Inr None
              else case float_minus (Fin (now t)) ts of
                     Inl e \<Rightarrow> Inl e
                   | Inr age \<Rightarrow>
                       (if flt_le age (Fin (of_int ttl)) then Inr None
                        else case proposal_transition t ''expired'' p of
                               Inl e \<Rightarrow> Inl e
                             | Inr q \<Rightarrow>
                                 Inr (Some (dset ''expired_reason''
                                   (JStr (''no approval within '' @ show_int ttl @ ''s TTL'')) q))))"

fun expire_loop :: "int \<Rightarrow> tick \<Rightarrow> (pkey \<times> dict) list \<Rightarrow> (pkey \<times> dict) list \<Rightarrow>
    exn option \<times> (pkey \<times> dict) list \<times> dict list" where
  "expire_loop ttl t [] m = (None, m, [])"
| "expire_loop ttl t ((k, p) # items) m =
     (case expire_one ttl t p of
        Inl e \<Rightarrow> (Some e, m, [])
      | Inr None \<Rightarrow> expire_loop ttl t items m
      | Inr (Some q) \<Rightarrow>
          (case expire_loop ttl t items (AList.update k q m) of (e, m', qs) \<Rightarrow> (e, m', q # qs)))"

fun persist_all :: "tick \<Rightarrow> dict list \<Rightarrow> (rec_store, exn, unit) op" where
  "persist_all t [] = ret ()"
| "persist_all t (q # qs) = seq (proposal_persist t q) (persist_all t qs)"

definition expire_stale :: "int \<Rightarrow> tick \<Rightarrow> (rec_store, exn, json list) op" where
  "expire_stale ttl t s =
     (if ttl \<le> 0 then (Inr [], s)
      else case expire_loop ttl t (mem s) (mem s) of
             (Some e, m, _) \<Rightarrow> (Inl e, s\<lparr>mem := m\<rparr>)
           | (None, m, newly) \<Rightarrow>
               seq (persist_all t newly) (ret (map (\<lambda>u. dget u ''proposal_id'') newly)) (s\<lparr>mem := m\<rparr>))"

definition proposal_get :: "int \<Rightarrow> tick \<Rightarrow> json \<Rightarrow> (rec_store, exn, dict option) op" where
  "proposal_get ttl t pid =
     seq (expire_stale ttl t) (\<lambda>s. (lookup_record s pid, s))"

definition proposal_list :: "int \<Rightarrow> tick \<Rightarrow> json \<Rightarrow> (rec_store, exn, dict list) op" where
  "proposal_list ttl t status =
     seq (expire_stale ttl t)
       (\<lambda>s. (sorted_desc (\<lambda>p. dget_or p ''created_at'' (JStr []))
               (with_status status (map snd (mem s))), s))"

definition proposal_set_status :: "tick \<Rightarrow> json \<Rightarrow> string \<Rightarrow> (rec_store, exn, dict) op" where
  "proposal_set_status t pid new =
     set_status_record ''proposal_id'' (proposal_transition t new) t pid"

definition proposal_approve :: "tick \<Rightarrow> json \<Rightarrow> (rec_store, exn, dict) op" where
  "proposal_approve t pid = proposal_set_status t pid ''approved''"

definition proposal_reject :: "tick \<Rightarrow> json \<Rightarrow> (rec_store, exn, dict) op" where
  "proposal_reject t pid = proposal_set_status t pid ''rejected''"

definition proposal_mark_applied :: "tick \<Rightarrow> json \<Rightarrow> (rec_store, exn, dict) op" where
  "proposal_mark_applied t pid = proposal_set_status t pid ''applied''"

definition proposal_mark_failed :: "tick \<Rightarrow> json \<Rightarrow> (rec_store, exn, dict) op" where
  "proposal_mark_failed t pid = proposal_set_status t pid ''failed''"

definition proposal_mark_rolled_back :: "tick \<Rightarrow> json \<Rightarrow> (rec_store, exn, dict) op" where
  "proposal_mark_rolled_back t pid = proposal_set_status t pid ''rolled_back''"

lemmas proposal_moves =
  proposal_approve_def proposal_reject_def proposal_mark_applied_def proposal_mark_failed_def
  proposal_mark_rolled_back_def

subsection \<open>The status machine\<close>

definition proposal_rank :: "string \<Rightarrow> nat" where
  "proposal_rank s =
     (if s = ''pending'' then 3 else if s = ''approved'' then 2 else if s = ''applied'' then 1 else 0)"

lemma successors_proposal:
  "successors proposal_TRANSITIONS s =
     (if s = ''pending'' then [''approved'', ''rejected'', ''expired'']
      else if s = ''approved'' then [''applied'', ''failed'']
      else if s = ''applied'' then [''rolled_back''] else [])"
  by (simp add: successors_def proposal_TRANSITIONS_def)

lemma proposal_transition_Inr:
  "proposal_transition t new p = Inr q \<longleftrightarrow>
   (\<exists>st. status_of ''pending'' p = JStr st \<and> new \<in> set (successors proposal_TRANSITIONS st) \<and>
      q = dset ''updated_at'' (JStr (stamp t)) (dset ''status'' (JStr new) p))"
  by (auto simp: proposal_transition_def status_of_def Let_def dest: allowed_from_mem split: sum.splits)

interpretation proposals:
  record_machine proposal_TRANSITIONS proposal_rank "''proposal_id''" "''pending''" proposal_transition
proof unfold_locales
  show "proposal_rank t < proposal_rank s" if "t \<in> set (successors proposal_TRANSITIONS s)" for s t
    using that by (auto simp: successors_proposal proposal_rank_def split: if_splits)
qed (auto simp: proposal_transition_Inr)

lemma proposal_set_status_keeps [keeps]:
  "preserves (store_ok ''proposal_id'') (proposal_set_status t pid new)"
  unfolding proposal_set_status_def by (rule proposals.set_status_keeps)

abbreviation proposals_evolve :: "rec_store \<Rightarrow> rec_store \<Rightarrow> bool" where
  "proposals_evolve \<equiv> store_evolves proposal_TRANSITIONS ''proposal_id'' ''pending''"

subsection \<open>Creation\<close>

lemma make_proposal_id:
  "dget (make_proposal t data) ''proposal_id'' =
     (if truthy (dget data ''proposal_id'') then dget data ''proposal_id'' else JStr (''p_'' @ uid t))"
  by (simp add: make_proposal_def Let_def)

lemma make_proposal_id_truthy [simp]: "truthy (dget (make_proposal t data) ''proposal_id'')"
  by (simp add: make_proposal_id)

lemma make_proposal_status:
  "dget (make_proposal t data) ''status'' = dget_or data ''status'' (JStr ''pending'')"
  by (simp add: make_proposal_def Let_def dget_or_eq)

lemma proposal_create_keeps [keeps]:
  "preserves (store_ok ''proposal_id'') (proposal_create t data)"
  unfolding proposal_create_def by (rule insert_record_keeps) simp

lemma proposal_create_evolves:
  "proposal_create t data s = (r, s') \<Longrightarrow> proposals_evolve s s'"
  unfolding proposal_create_def by (rule insert_record_evolves)

subsection \<open>The sweep\<close>

lemma expire_one_Some:
  assumes "expire_one ttl t p = Inr (Some q)"
  shows "dget p ''status'' = JStr ''pending'' \<and> map_of q ''status'' = Some (JStr ''expired'') \<and>
    dget q ''proposal_id'' = dget p ''proposal_id'' \<and>
    record_evolves proposal_TRANSITIONS ''proposal_id'' ''pending'' p q"
proof -
  from assms obtain p1 where p: "dget p ''status'' = JStr ''pending''"
    and p1: "proposal_transition t ''expired'' p = Inr p1"
    and q: "q = dset ''expired_reason'' (JStr (''no approval within '' @ show_int ttl @ ''s TTL'')) p1"
    by (auto simp: expire_one_def Let_def split: if_splits sum.splits)
  from p have "status_of ''pending'' p = JStr ''pending''"
    by (simp add: status_of_def dget_or_present)
  moreover from q proposals.step_status [OF p1] have st: "map_of q ''status'' = Some (JStr ''expired'')"
    by simp
  then have "status_of ''pending'' q = JStr ''expired''"
    by (simp add: status_of_def dget_or_def)
  moreover have "status_path proposal_TRANSITIONS ''pending'' (Suc 0) ''expired''"
    using status_path_1 [of "''expired''" proposal_TRANSITIONS "''pending''"]
    by (simp add: successors_proposal)
  moreover from q proposals.step_id [OF p1] have id: "dget q ''proposal_id'' = dget p ''proposal_id''"
    by simp
  ultimately have "record_evolves proposal_TRANSITIONS ''proposal_id'' ''pending'' p q"
    unfolding record_evolves_def by blast
  with p st id show ?thesis by blast
qed

lemma expire_one_expired [simp]:
  "expire_one ttl t p = Inr (Some q) \<Longrightarrow> expire_one ttl' t' q = Inr None"
  by (drule expire_one_Some) (simp add: expire_one_def dget_def)

text \<open>What the sweep makes of one record.\<close>

definition swept :: "int \<Rightarrow> tick \<Rightarrow> dict \<Rightarrow> dict" where
  "swept ttl t p = (case expire_one ttl t p of Inr (Some q) \<Rightarrow> q | _ \<Rightarrow> p)"

definition newly_expired :: "int \<Rightarrow> tick \<Rightarrow> (pkey \<times> dict) list \<Rightarrow> dict list" where
  "newly_expired ttl t items =
     List.map_filter (\<lambda>(k, p). case expire_one ttl t p of Inr o' \<Rightarrow> o' | Inl _ \<Rightarrow> None) items"

lemma expire_loop_Some_key:
  "expire_loop ttl t items m = (e, m', qs) \<Longrightarrow> k \<notin> fst ` set items \<Longrightarrow> map_of m' k = map_of m k"
  by (induction ttl t items m arbitrary: m' qs rule: expire_loop.induct)
     (auto split: sum.splits option.splits prod.splits)

lemma expire_loop_evolves:
  assumes "expire_loop ttl t items m = (e, m', qs)" and "distinct (map fst items)"
    and "\<And>k p. (k, p) \<in> set items \<Longrightarrow> map_of m k = Some p"
  shows "proposals_evolve \<lparr>mem = m, disk = d\<rparr> \<lparr>mem = m', disk = d\<rparr>"
  using assms
proof (induction ttl t items m arbitrary: m' qs rule: expire_loop.induct)
  case (2 ttl t k p items m)
  show ?case
  proof (cases "expire_one ttl t p")
    case (Inr o')
    show ?thesis
    proof (cases o')
      case (Some q)
      with Inr 2(3) obtain qs' where
        rest: "expire_loop ttl t items (AList.update k q m) = (e, m', qs')"
        by (auto split: prod.splits)
      have "proposals_evolve \<lparr>mem = AList.update k q m, disk = d\<rparr> \<lparr>mem = m', disk = d\<rparr>"
        using 2(2) [OF Inr Some rest] 2(4,5) by force
      moreover have "proposals_evolve \<lparr>mem = m, disk = d\<rparr> \<lparr>mem = AList.update k q m, disk = d\<rparr>"
        using 2(5) [of k p] expire_one_Some [of ttl t p q] Inr Some
        by (auto simp: store_evolves_def)
      ultimately show ?thesis by (rule store_evolves_trans [rotated])
    qed (use 2 Inr in auto)
  qed (use 2 in auto)
qed auto

lemma expire_loop_total:
  "expire_loop ttl t items m = (None, m', qs) \<Longrightarrow> (k, p) \<in> set items \<Longrightarrow>
   \<exists>o'. expire_one ttl t p = Inr o'"
  by (induction ttl t items m arbitrary: m' qs rule: expire_loop.induct)
     (fastforce split: sum.splits option.splits prod.splits)+

lemma expire_loop_newly:
  "expire_loop ttl t items m = (None, m', qs) \<Longrightarrow> qs = newly_expired ttl t items"
  by (induction ttl t items m arbitrary: m' qs rule: expire_loop.induct)
     (auto simp: newly_expired_def map_filter_simps split: sum.splits option.splits prod.splits)

lemma expire_loop_map_of:
  "expire_loop ttl t items m = (None, m', qs) \<Longrightarrow> distinct (map fst items) \<Longrightarrow>
   map_of m' k = (case map_of items k of
        Some p \<Rightarrow> (if expire_one ttl t p = Inr None then map_of m k else Some (swept ttl t p))
      | None \<Rightarrow> map_of m k)"
  by (induction ttl t items m arbitrary: m' qs rule: expire_loop.induct)
     (auto simp: swept_def split: sum.splits option.splits prod.splits dest: expire_loop_Some_key)

lemma mem_persist_all [simp]: "mem (snd (persist_all t qs s)) = mem s"
  by (induction qs arbitrary: s) (simp_all add: snd_seq proposal_persist_def split: sum.split)

lemma mem_expire_stale:
  "mem (snd (expire_stale ttl t s)) =
     (if ttl \<le> 0 then mem s else fst (snd (expire_loop ttl t (mem s) (mem s))))"
  by (auto simp: expire_stale_def seq_ret split: option.split prod.split)

lemma expire_stale_evolves:
  assumes "store_ok ''proposal_id'' s" and "expire_stale ttl t s = (r, s')"
  shows "proposals_evolve s s'"
proof (cases "0 < ttl")
  case True
  obtain e m qs where loop: "expire_loop ttl t (mem s) (mem s) = (e, m, qs)" by (metis prod_cases3)
  have "distinct (map fst (mem s))" using assms(1) by (simp add: store_ok_def)
  with loop have ev: "proposals_evolve \<lparr>mem = mem s, disk = disk s\<rparr> \<lparr>mem = m, disk = disk s\<rparr>"
    by (intro expire_loop_evolves) auto
  have "mem s' = m"
    using mem_expire_stale [of ttl t s] True loop assms(2) by simp
  with ev show ?thesis by (simp add: store_evolves_def)
next
  case False
  with assms(2) show ?thesis by (simp add: expire_stale_def)
qed

lemma expire_loop_keys:
  "expire_loop ttl t items m = (e, m', qs) \<Longrightarrow> (\<And>k p. (k, p) \<in> set items \<Longrightarrow> map_of m k \<noteq> None) \<Longrightarrow>
   map fst m' = map fst m"
proof (induction ttl t items m arbitrary: m' qs rule: expire_loop.induct)
  case (2 ttl t k p items m)
  have k: "map_of m k \<noteq> None" by (rule 2(4) [of k p]) simp
  show ?case
  proof (cases "expire_one ttl t p")
    case (Inr o')
    show ?thesis
    proof (cases o')
      case None
      with Inr 2(3) have "expire_loop ttl t items m = (e, m', qs)" by simp
      from 2(1) [OF Inr None this] show ?thesis using 2(4) by (meson list.set_intros(2))
    next
      case (Some q)
      with Inr 2(3) obtain qs' where
        rest: "expire_loop ttl t items (AList.update k q m) = (e, m', qs')"
        by (auto split: prod.splits)
      have "map fst m' = map fst (AList.update k q m)"
        using 2(2) [OF Inr Some rest] 2(4) by auto
      with k show ?thesis by (simp add: map_fst_update_present)
    qed
  qed (use 2 in auto)
qed simp

lemma expire_stale_keeps [keeps]: "preserves (store_ok ''proposal_id'') (expire_stale ttl t)"
proof (rule preservesI)
  fix s assume ok: "store_ok ''proposal_id'' s"
  obtain r s' where r: "expire_stale ttl t s = (r, s')" by fastforce
  have "map fst (mem s') = map fst (mem s)"
  proof (cases "ttl \<le> 0")
    case False
    obtain e m qs where loop: "expire_loop ttl t (mem s) (mem s) = (e, m, qs)" by (metis prod_cases3)
    then have "map fst m = map fst (mem s)"
      by (rule expire_loop_keys) (metis map_of_eq_None_iff fst_conv image_eqI)
    with False loop r mem_expire_stale [of ttl t s] show ?thesis by simp
  qed (use r mem_expire_stale [of ttl t s] in simp)
  with expire_stale_evolves [OF ok r] ok r show "store_ok ''proposal_id'' (snd (expire_stale ttl t s))"
    by (simp add: store_ok_evolves)
qed

text \<open>A sweep that does not raise: each record is what \<open>swept\<close> says, and the ids returned are
  those of the records that expired.\<close>

lemma expire_stale_map_of:
  assumes "store_ok ''proposal_id'' s" and "expire_stale ttl t s = (Inr ids, s')" and "0 < ttl"
  shows "map_of (mem s') k = map_option (swept ttl t) (map_of (mem s) k)"
    and "map_of (mem s) k = Some p \<Longrightarrow> \<exists>o'. expire_one ttl t p = Inr o'"
    and "ids = map (\<lambda>u. dget u ''proposal_id'') (newly_expired ttl t (mem s))"
proof -
  from assms obtain m qs where loop: "expire_loop ttl t (mem s) (mem s) = (None, m, qs)"
    and ids: "ids = map (\<lambda>u. dget u ''proposal_id'') qs"
    by (auto simp: expire_stale_def seq_ret map_sum_def split: option.splits prod.splits sum.splits)
  have "mem s' = m" using assms mem_expire_stale [of ttl t s] loop by simp
  moreover have "distinct (map fst (mem s))" using assms(1) by (simp add: store_ok_def)
  ultimately show "map_of (mem s') k = map_option (swept ttl t) (map_of (mem s) k)"
    using expire_loop_map_of [OF loop, of k] by (auto simp: swept_def split: option.splits)
  show "\<exists>o'. expire_one ttl t p = Inr o'" if "map_of (mem s) k = Some p"
    using expire_loop_total [OF loop] that by (blast dest: map_of_SomeD)
  show "ids = map (\<lambda>u. dget u ''proposal_id'') (newly_expired ttl t (mem s))"
    using ids expire_loop_newly [OF loop] by simp
qed

subsection \<open>Runs of the store\<close>

text \<open>
  Every public method, with any arguments and any answer of the clock and the disk. \<open>list\<close> and
  \<open>get\<close> change the store only by their sweep, which has its own rule.
\<close>

inductive proposal_step :: "rec_store \<Rightarrow> rec_store \<Rightarrow> bool" where
  create: "proposal_create t data s = (r, s') \<Longrightarrow> proposal_step s s'"
| sweep: "expire_stale ttl t s = (r, s') \<Longrightarrow> proposal_step s s'"
| get: "proposal_get ttl t pid s = (r', s') \<Longrightarrow> proposal_step s s'"
| listing: "proposal_list ttl t st s = (r'', s') \<Longrightarrow> proposal_step s s'"
| set_status: "proposal_set_status t pid new s = (r, s') \<Longrightarrow> proposal_step s s'"

inductive_cases proposal_stepE: "proposal_step s s'"

inductive proposal_run :: "rec_store \<Rightarrow> rec_store \<Rightarrow> bool" where
  finish: "proposal_run s s"
| more: "proposal_step s s' \<Longrightarrow> proposal_run s' s'' \<Longrightarrow> proposal_run s s''"

lemma snd_proposal_get [simp]: "snd (proposal_get ttl t pid s) = snd (expire_stale ttl t s)"
  by (simp add: proposal_get_def snd_seq split: sum.split)

lemma snd_proposal_list [simp]: "snd (proposal_list ttl t st s) = snd (expire_stale ttl t s)"
  by (simp add: proposal_list_def snd_seq split: sum.split)

lemma proposal_get_keeps [keeps]: "preserves (store_ok ''proposal_id'') (proposal_get ttl t pid)"
  using expire_stale_keeps by (simp add: preserves_def)

lemma proposal_list_keeps [keeps]: "preserves (store_ok ''proposal_id'') (proposal_list ttl t st)"
  using expire_stale_keeps by (simp add: preserves_def)

lemma proposal_step_sound:
  assumes "proposal_step s s'" and ok: "store_ok ''proposal_id'' s"
  shows "store_ok ''proposal_id'' s' \<and> proposals_evolve s s'"
  using assms(1)
proof (cases rule: proposal_step.cases)
  case (create t data r)
  then show ?thesis
    using ok proposal_create_evolves preserves_run [OF proposal_create_keeps] by blast
next
  case (sweep ttl t r)
  then show ?thesis
    using ok expire_stale_evolves preserves_run [OF expire_stale_keeps] by blast
next
  case (get ttl t pid r)
  then have "s' = snd (expire_stale ttl t s)" by (metis snd_conv snd_proposal_get)
  then show ?thesis
    using ok expire_stale_evolves preserves_run [OF expire_stale_keeps] by (metis prod.collapse)
next
  case (listing ttl t st r)
  then have "s' = snd (expire_stale ttl t s)" by (metis snd_conv snd_proposal_list)
  then show ?thesis
    using ok expire_stale_evolves preserves_run [OF expire_stale_keeps] by (metis prod.collapse)
next
  case (set_status t pid new r)
  then show ?thesis
    using ok proposals.set_status_evolves preserves_run [OF proposal_set_status_keeps]
    unfolding proposal_set_status_def by blast
qed

lemma proposal_run_sound:
  "proposal_run s s' \<Longrightarrow> store_ok ''proposal_id'' s \<Longrightarrow>
   store_ok ''proposal_id'' s' \<and> proposals_evolve s s'"
proof (induction rule: proposal_run.induct)
  case (more s s' s'')
  then show ?case using proposal_step_sound store_evolves_trans by blast
qed simp

lemma ProposalStore_load_ok:
  "ProposalStore_load files = Inr s \<Longrightarrow> store_ok ''proposal_id'' s"
  unfolding ProposalStore_load_def
  by (cases "load_records ''proposal_id'' [] files")
     (auto dest!: load_records_ok [where e = files] simp: store_ok_def)

subsection \<open>Properties\<close>

text \<open>
  History of a proposal. From a store loaded from any directory, whatever sequence of store
  methods runs, a proposal that is stored stays stored, and it is either untouched or its status
  has moved forward along the transition table; in particular its status never returns to one
  it has left, and it makes at most three moves.
\<close>

theorem proposal_history:
  assumes "ProposalStore_load files = Inr s0" and "proposal_run s0 s" and "proposal_run s s'"
    and "map_of (mem s) k = Some p"
  shows "\<exists>q. map_of (mem s') k = Some q \<and>
    (q = p \<or> (\<exists>st st' n. status_of ''pending'' p = JStr st \<and> status_of ''pending'' q = JStr st' \<and>
       status_path proposal_TRANSITIONS st (Suc n) st' \<and> st' \<noteq> st \<and> Suc n \<le> 3))"
proof -
  have "store_ok ''proposal_id'' s"
    using ProposalStore_load_ok [OF assms(1)] proposal_run_sound [OF assms(2)] by blast
  then have "proposals_evolve s s'" using proposal_run_sound [OF assms(3)] by blast
  then obtain q where q: "map_of (mem s') k = Some q"
    "record_evolves proposal_TRANSITIONS ''proposal_id'' ''pending'' p q"
    using assms(4) by (blast dest: store_evolves_D)
  have "st' \<noteq> st \<and> Suc n \<le> 3" if "status_path proposal_TRANSITIONS st (Suc n) st'" for st st' n
  proof -
    have "proposal_rank st \<le> 3" by (simp add: proposal_rank_def)
    with proposals.path_rank [OF that] show ?thesis by auto
  qed
  with q show ?thesis unfolding record_evolves_def by blast
qed

text \<open>
  Finality. A proposal that is rejected, failed, rolled back or expired is never changed again
  by any sequence of store methods.
\<close>

theorem proposal_final:
  assumes "store_ok ''proposal_id'' s" and "proposal_run s s'"
    and "map_of (mem s) k = Some p" and "status_of ''pending'' p = JStr st"
    and "st \<in> {''rejected'', ''failed'', ''rolled_back'', ''expired''}"
  shows "map_of (mem s') k = Some p"
  using proposal_run_sound [OF assms(2,1)] assms(3-5) proposals.evolves_final [of s s' k p st]
  by (auto simp: successors_proposal)

text \<open>
  The review state machine, per call. On a stored proposal with a string id, each of the five
  status methods succeeds exactly in the statuses the workflow intends: approve and reject on
  pending, applied and failed on approved, rolled_back on applied. Otherwise it raises and the
  store is unchanged.
\<close>

theorem proposal_moves_iff:
  assumes ok: "store_ok ''proposal_id'' s" and p: "map_of (mem s) (KStr i) = Some p"
    and st: "status_of ''pending'' p = JStr st"
  shows "((\<exists>q s'. proposal_approve t (JStr i) s = (Inr q, s')) \<longleftrightarrow> st = ''pending'') \<and>
    ((\<exists>q s'. proposal_reject t (JStr i) s = (Inr q, s')) \<longleftrightarrow> st = ''pending'') \<and>
    ((\<exists>q s'. proposal_mark_applied t (JStr i) s = (Inr q, s')) \<longleftrightarrow> st = ''approved'') \<and>
    ((\<exists>q s'. proposal_mark_failed t (JStr i) s = (Inr q, s')) \<longleftrightarrow> st = ''approved'') \<and>
    ((\<exists>q s'. proposal_mark_rolled_back t (JStr i) s = (Inr q, s')) \<longleftrightarrow> st = ''applied'') \<and>
    (\<forall>new e s'. proposal_set_status t (JStr i) new s = (Inl e, s') \<longrightarrow> s' = s)"
proof -
  have enabled: "(\<exists>q s'. proposal_set_status t (JStr i) new s = (Inr q, s')) \<longleftrightarrow>
      new \<in> set (successors proposal_TRANSITIONS st)" for new
    unfolding proposal_set_status_def by (rule proposals.set_status_enabled [OF ok p st])
  have "s' = s" if "proposal_set_status t (JStr i) new s = (Inl e, s')" for new e s'
    using that unfolding proposal_set_status_def proposals.set_status_str [OF ok]
    by (auto split: option.splits sum.splits)
  then show ?thesis
    unfolding proposal_moves enabled by (auto simp: successors_proposal)
qed

subsection \<open>Expiry, listing, creation: properties\<close>

text \<open>A pending proposal whose age, as the code computes it, exceeds the time to live.\<close>

definition overdue :: "int \<Rightarrow> tick \<Rightarrow> dict \<Rightarrow> bool" where
  "overdue ttl t p \<longleftrightarrow>
     dget p ''status'' = JStr ''pending'' \<and> dget p ''created_ts'' \<noteq> JNull \<and>
     (\<exists>age. float_minus (Fin (now t)) (dget p ''created_ts'') = Inr age \<and>
        \<not> flt_le age (Fin (of_int ttl)))"

definition expired_copy :: "int \<Rightarrow> tick \<Rightarrow> dict \<Rightarrow> dict" where
  "expired_copy ttl t p =
     dset ''expired_reason'' (JStr (''no approval within '' @ show_int ttl @ ''s TTL''))
       (dset ''updated_at'' (JStr (stamp t)) (dset ''status'' (JStr ''expired'') p))"

lemma expire_one_overdue:
  assumes "expire_one ttl t p = Inr o'"
  shows "o' = (if overdue ttl t p then Some (expired_copy ttl t p) else None)"
proof (cases "dget p ''status'' = JStr ''pending''")
  case True
  then have st: "status_of ''pending'' p = JStr ''pending''"
    by (simp add: status_of_def dget_or_present)
  then have "proposal_transition t ''expired'' p =
      Inr (dset ''updated_at'' (JStr (stamp t)) (dset ''status'' (JStr ''expired'') p))"
    by (simp add: proposal_transition_Inr successors_proposal)
  with assms True show ?thesis
    by (auto simp: expire_one_def overdue_def expired_copy_def Let_def split: if_splits sum.splits)
next
  case False
  with assms show ?thesis by (auto simp: expire_one_def overdue_def)
qed

lemma swept_overdue:
  "expire_one ttl t p = Inr o' \<Longrightarrow> swept ttl t p = (if overdue ttl t p then expired_copy ttl t p else p)"
  using expire_one_overdue [of ttl t p o'] by (simp add: swept_def)

lemma not_overdue_expired_copy [simp]: "\<not> overdue ttl' t' (expired_copy ttl t p)"
  by (simp add: overdue_def expired_copy_def)

lemma expired_copy_id: "dget (expired_copy ttl t p) ''proposal_id'' = dget p ''proposal_id''"
  by (simp add: expired_copy_def)

lemma set_newly_expired:
  "set (newly_expired ttl t items) = {q. \<exists>k p. (k, p) \<in> set items \<and> expire_one ttl t p = Inr (Some q)}"
proof (induction items)
  case (Cons x items)
  obtain k p where "x = (k, p)" by fastforce
  with Cons show ?case
    by (auto simp: newly_expired_def map_filter_simps split: sum.splits option.splits)
qed (simp add: newly_expired_def map_filter_simps)

lemma expire_stale_result:
  assumes "store_ok ''proposal_id'' s" and "0 < ttl" and "expire_stale ttl t s = (Inr ids, s')"
  shows "(\<forall>k. map_of (mem s') k =
      map_option (\<lambda>p. if overdue ttl t p then expired_copy ttl t p else p) (map_of (mem s) k)) \<and>
    set ids = {dget p ''proposal_id'' | k p. map_of (mem s) k = Some p \<and> overdue ttl t p}"
proof -
  note spec = expire_stale_map_of [OF assms(1,3,2)]
  have "map_of (mem s') k =
      map_option (\<lambda>p. if overdue ttl t p then expired_copy ttl t p else p) (map_of (mem s) k)" for k
    using spec(1) [of k] spec(2) [of k] swept_overdue by (cases "map_of (mem s) k") fastforce+
  moreover have "set ids = {dget p ''proposal_id'' | k p. map_of (mem s) k = Some p \<and> overdue ttl t p}"
  proof -
    have dist: "distinct (map fst (mem s))" using assms(1) by (simp add: store_ok_def)
    have one: "expire_one ttl t p = Inr (if overdue ttl t p then Some (expired_copy ttl t p) else None)"
      if "map_of (mem s) k = Some p" for k p
      using spec(2) [OF that] expire_one_overdue by blast
    have "set (newly_expired ttl t (mem s)) = {q. \<exists>k p. map_of (mem s) k = Some p \<and> expire_one ttl t p = Inr (Some q)}"
      using dist by (simp add: set_newly_expired)
    also have "\<dots> = {q. \<exists>k p. map_of (mem s) k = Some p \<and> overdue ttl t p \<and> q = expired_copy ttl t p}"
      by (intro Collect_cong ex_cong1) (auto simp: one split: if_splits)
    finally have "set ids = (\<lambda>u. dget u ''proposal_id'') `
        {q. \<exists>k p. map_of (mem s) k = Some p \<and> overdue ttl t p \<and> q = expired_copy ttl t p}"
      unfolding spec(3) set_map by simp
    also have "\<dots> = {dget (expired_copy ttl t p) ''proposal_id'' | k p.
        map_of (mem s) k = Some p \<and> overdue ttl t p}"
      by blast
    finally show ?thesis by (simp add: expired_copy_id)
  qed
  ultimately show ?thesis by blast
qed

text \<open>
  C15. The sweep. With a positive time to live, a sweep that returns has turned exactly the overdue
  pending proposals into expired ones (with the reason recorded), changed nothing else, and
  returned the ids of those it expired.
\<close>

theorem expire_stale_exact:
  assumes "store_ok ''proposal_id'' s" and "0 < ttl" and "expire_stale ttl t s = (Inr ids, s')"
  shows "(\<forall>k. map_of (mem s') k =
      map_option (\<lambda>p. if overdue ttl t p then expired_copy ttl t p else p) (map_of (mem s) k)) \<and>
    set ids = {dget p ''proposal_id'' | k p. map_of (mem s) k = Some p \<and> overdue ttl t p}"
  using assms by (rule expire_stale_result)

text \<open>
  No stale answer. \<open>list(status="pending")\<close> returns exactly the stored proposals that are
  pending and not overdue at the moment of the call.
\<close>

theorem proposal_list_pending:
  assumes "store_ok ''proposal_id'' s" and "0 < ttl"
    and "proposal_list ttl t (JStr ''pending'') s = (Inr ps, s')"
  shows "set ps = {p. (\<exists>k. map_of (mem s) k = Some p) \<and> dget p ''status'' = JStr ''pending'' \<and>
    \<not> overdue ttl t p}"
proof -
  from assms(3) obtain ids where sw: "expire_stale ttl t s = (Inr ids, s')"
    and srt: "sorted_desc (\<lambda>p. dget_or p ''created_at'' (JStr []))
        (with_status (JStr ''pending'') (map snd (mem s'))) = Inr ps"
    by (auto simp: proposal_list_def seq_def elim!: bind_InrE)
  have "store_ok ''proposal_id'' s'"
    using preserves_run [OF expire_stale_keeps] sw assms(1) by blast
  then have "distinct (map fst (mem s'))" by (simp add: store_ok_def)
  then have "set (map snd (mem s')) = {p. \<exists>k. map_of (mem s') k = Some p}"
    by (simp add: vals_map_of)
  moreover have "set ps = set (with_status (JStr ''pending'') (map snd (mem s')))"
    using sorted_desc_set [OF srt] by simp
  ultimately have "set ps = {p. (\<exists>k. map_of (mem s') k = Some p) \<and> dget p ''status'' = JStr ''pending''}"
    by (auto simp: with_status_def)
  moreover have s': "map_of (mem s') k =
      map_option (\<lambda>p. if overdue ttl t p then expired_copy ttl t p else p) (map_of (mem s) k)" for k
    using expire_stale_result [OF assms(1,2) sw] by blast
  have "dget (expired_copy ttl t p) ''status'' \<noteq> JStr ''pending''" for p
    by (simp add: expired_copy_def)
  then have "(\<exists>k. map_of (mem s') k = Some p) \<and> dget p ''status'' = JStr ''pending'' \<longleftrightarrow>
      (\<exists>k. map_of (mem s) k = Some p) \<and> dget p ''status'' = JStr ''pending'' \<and> \<not> overdue ttl t p" for p
    unfolding s' by (auto split: if_splits)
  ultimately show ?thesis by blast
qed

definition listable :: "dict \<Rightarrow> bool" where
  "listable p \<longleftrightarrow> is_str (dget p ''proposal_id'') \<and> is_str (dget_or p ''created_at'' (JStr [])) \<and>
     (dget p ''created_ts'' = JNull \<or> (\<exists>x. dget p ''created_ts'' = JFloat x))"

definition created_at :: "dict \<Rightarrow> string" where
  "created_at p = (case dget_or p ''created_at'' (JStr []) of JStr s \<Rightarrow> s | _ \<Rightarrow> [])"

lemma listable_created_at:
  "listable p \<Longrightarrow> dget_or p ''created_at'' (JStr []) = JStr (created_at p)"
  by (auto simp: listable_def created_at_def is_str_conv)

lemma listable_expire_one: "listable p \<Longrightarrow> \<exists>o'. expire_one ttl t p = Inr o'"
proof (cases "dget p ''status'' = JStr ''pending''")
  case True
  then have "status_of ''pending'' p = JStr ''pending''"
    by (simp add: status_of_def dget_or_present)
  then have "proposal_transition t ''expired'' p =
      Inr (dset ''updated_at'' (JStr (stamp t)) (dset ''status'' (JStr ''expired'') p))"
    by (simp add: proposal_transition_Inr successors_proposal)
  then show "listable p \<Longrightarrow> ?thesis"
    by (auto simp: expire_one_def listable_def Let_def split: if_splits)
qed (simp add: expire_one_def)

lemma listable_swept: "listable p \<Longrightarrow> listable (swept ttl t p)"
  using listable_expire_one [of p ttl t] swept_overdue [of ttl t p]
  by (auto simp: listable_def expired_copy_def split: if_splits)

lemma expire_loop_listable:
  "(\<And>k p. (k, p) \<in> set items \<Longrightarrow> listable p) \<Longrightarrow>
   \<exists>m' qs. expire_loop ttl t items m = (None, m', qs) \<and> (\<forall>q \<in> set qs. listable q)"
proof (induction ttl t items m rule: expire_loop.induct)
  case (2 ttl t k p items m)
  have p: "listable p" by (rule 2(3) [of k p]) simp
  then obtain o' where o': "expire_one ttl t p = Inr o'" using listable_expire_one by blast
  show ?case
  proof (cases o')
    case None
    with 2 o' show ?thesis by auto
  next
    case (Some q)
    have "listable q" using listable_swept [OF p, of ttl t] o' Some by (simp add: swept_def)
    moreover obtain m' qs where
      "expire_loop ttl t items (AList.update k q m) = (None, m', qs)" "\<forall>q \<in> set qs. listable q"
      using 2(2) [OF o' Some] 2(3) by auto
    ultimately show ?thesis using o' Some by simp
  qed
qed simp

lemma persist_all_listable:
  "\<forall>q \<in> set qs. is_str (dget q ''proposal_id'') \<Longrightarrow> fst (persist_all t qs s) = Inr ()"
proof (induction qs arbitrary: s)
  case (Cons q qs)
  then obtain i where "dget q ''proposal_id'' = JStr i" by (auto simp: is_str_conv)
  then have "fst (proposal_persist t q s) = Inr ()"
    by (simp add: proposal_persist_def persist_record_str)
  then have "persist_all t (q # qs) s = persist_all t qs (snd (proposal_persist t q s))"
    by (auto simp: seq_def bind_def split: prod.split sum.split)
  with Cons show ?case by simp
qed (simp add: ret_def)

lemma expire_stale_listable:
  assumes "\<And>k p. (k, p) \<in> set (mem s) \<Longrightarrow> listable p"
  shows "\<exists>ids s'. expire_stale ttl t s = (Inr ids, s')"
proof -
  obtain m qs where "expire_loop ttl t (mem s) (mem s) = (None, m, qs)" "\<forall>q \<in> set qs. listable q"
    using expire_loop_listable [of "mem s" ttl t "mem s"] assms by auto
  then show ?thesis
    using persist_all_listable [of qs t "s\<lparr>mem := m\<rparr>"]
    by (auto simp: expire_stale_def seq_ret listable_def)
qed

text \<open>
  Totality and order of a listing. When the stored ids are strings, every \<open>created_at\<close> is a
  string or absent and every \<open>created_ts\<close> is absent or a float, \<open>list\<close> returns, and what it
  returns is a permutation of the swept store's records of that status, newest first.
\<close>

theorem proposal_list_sorted:
  assumes ok: "store_ok ''proposal_id'' s" and "0 < ttl"
    and listable: "\<forall>k p. map_of (mem s) k = Some p \<longrightarrow> listable p"
  shows "\<exists>ps s'. proposal_list ttl t st s = (Inr ps, s') \<and>
    mset ps = mset (with_status st (map snd (mem s'))) \<and>
    sorted_wrt (\<lambda>p q. \<not> str_less (created_at p) (created_at q)) ps"
proof -
  have dist: "distinct (map fst (mem s))" using ok by (simp add: store_ok_def)
  then obtain ids s' where sw: "expire_stale ttl t s = (Inr ids, s')"
    using expire_stale_listable [of s ttl t] listable by auto
  note spec = expire_stale_map_of [OF ok sw \<open>0 < ttl\<close>]
  have "distinct (map fst (mem s'))"
    using preserves_run [OF expire_stale_keeps] sw ok unfolding store_ok_def by blast
  then have "\<exists>k. map_of (mem s') k = Some p" if "p \<in> snd ` set (mem s')" for p
    using that by (simp add: vals_map_of)
  moreover have "listable p" if "map_of (mem s') k = Some p" for k p
    using that listable listable_swept unfolding spec(1) by (cases "map_of (mem s) k") auto
  ultimately have "listable p" if "p \<in> set (with_status st (map snd (mem s')))" for p
    using that by (auto simp: with_status_def split: if_splits)
  then have key: "dget_or p ''created_at'' (JStr []) = JStr (created_at p)"
    if "p \<in> set (with_status st (map snd (mem s')))" for p
    using that by (simp add: listable_created_at)
  from sorted_desc_strings [where f = "\<lambda>p. dget_or p ''created_at'' (JStr [])", OF key]
  show ?thesis by (simp add: proposal_list_def seq_def bind_Inr [where m = "expire_stale ttl t", OF sw])
qed

text \<open>
  The poison record. \<open>created_ts\<close> is taken from the client as it is. Once one pending proposal
  holds a string there, every \<open>get\<close> and every \<open>list\<close> of the store raises, whatever they ask for.
\<close>

theorem proposal_poison:
  assumes "store_ok ''proposal_id'' s" and "0 < ttl" and p: "map_of (mem s) k = Some p"
    and "dget p ''status'' = JStr ''pending''" and "dget p ''created_ts'' = JStr x"
  shows "(\<exists>e s'. proposal_get ttl t pid s = (Inl e, s')) \<and>
    (\<exists>e s'. proposal_list ttl t st s = (Inl e, s'))"
proof -
  obtain r s' where sw: "expire_stale ttl t s = (r, s')" by fastforce
  have "\<exists>e. expire_one ttl t p = Inl e" using assms(4,5) by (simp add: expire_one_def)
  then have "r \<noteq> Inr ids" for ids
    using expire_stale_map_of(2) [OF assms(1) _ assms(2) p, of t ids s'] sw by auto
  then obtain e where "r = Inl e" by (cases r) auto
  with sw show ?thesis by (auto simp: proposal_get_def proposal_list_def seq_def bind_def)
qed

definition proposal_fields :: "string list" where
  "proposal_fields = [''proposal_id'', ''schema_version'', ''status'', ''created_by'',
     ''requires_user_approval'', ''changes'', ''created_at'', ''created_ts'', ''updated_at'']"

lemma make_proposal_other: "f \<notin> set proposal_fields \<Longrightarrow> dget (make_proposal t data) f = dget data f"
  by (simp add: make_proposal_def proposal_fields_def Let_def)

text \<open>
  Creation. A proposal with a fresh id is stored under it with exactly the normalised
  fields: the client's value of \<open>status\<close>, \<open>created_by\<close> and \<open>created_at\<close> wins over the default, so
  a client that sends \<open>status = "approved"\<close> gets an approved proposal without a review. A known id
  is refused and changes nothing.
\<close>

theorem proposal_create_spec:
  assumes "dget (make_proposal t data) ''proposal_id'' = JStr i"
  shows "(map_of (mem s) (KStr i) = None \<longrightarrow>
      (\<exists>p s'. proposal_create t data s = (Inr p, s') \<and> map_of (mem s') = (map_of (mem s))(KStr i \<mapsto> p) \<and>
        dget p ''status'' = dget_or data ''status'' (JStr ''pending'') \<and>
        dget p ''created_by'' = dget_or data ''created_by'' (JStr ''agent'') \<and>
        dget p ''created_at'' = dget_or data ''created_at'' (JStr (stamp t)) \<and>
        dget p ''created_ts'' = dget_or data ''created_ts'' (now_json t) \<and>
        dget p ''updated_at'' = JStr (stamp t) \<and>
        (\<forall>f. f \<notin> set proposal_fields \<longrightarrow> dget p f = dget data f))) \<and>
    (map_of (mem s) (KStr i) \<noteq> None \<longrightarrow>
      proposal_create t data s = (Inl (ValueError (''duplicate proposal_id: '' @ i)), s))"
proof (intro conjI impI)
  assume "map_of (mem s) (KStr i) = None"
  let ?p = "make_proposal t data"
  have "fst (persist_record ''proposal_id'' t ?p s0) = Inr ()" for s0
    using assms by (rule persist_record_str)
  then have "proposal_create t data s =
      (Inr ?p, snd (persist_record ''proposal_id'' t ?p (s\<lparr>mem := AList.update (KStr i) ?p (mem s)\<rparr>)))"
    using assms \<open>map_of (mem s) (KStr i) = None\<close>
    by (simp add: proposal_create_def insert_record_def)
  moreover have "dget ?p ''status'' = dget_or data ''status'' (JStr ''pending'')"
      "dget ?p ''created_by'' = dget_or data ''created_by'' (JStr ''agent'')"
      "dget ?p ''created_at'' = dget_or data ''created_at'' (JStr (stamp t))"
      "dget ?p ''created_ts'' = dget_or data ''created_ts'' (now_json t)"
      "dget ?p ''updated_at'' = JStr (stamp t)"
    by (auto simp: make_proposal_def Let_def dget_or_eq)
  ultimately show "\<exists>p s'. proposal_create t data s = (Inr p, s') \<and> map_of (mem s') = (map_of (mem s))(KStr i \<mapsto> p) \<and>
        dget p ''status'' = dget_or data ''status'' (JStr ''pending'') \<and>
        dget p ''created_by'' = dget_or data ''created_by'' (JStr ''agent'') \<and>
        dget p ''created_at'' = dget_or data ''created_at'' (JStr (stamp t)) \<and>
        dget p ''created_ts'' = dget_or data ''created_ts'' (now_json t) \<and>
        dget p ''updated_at'' = JStr (stamp t) \<and>
        (\<forall>f. f \<notin> set proposal_fields \<longrightarrow> dget p f = dget data f)"
    using make_proposal_other by (auto simp: fun_eq_iff)
qed (use assms in \<open>simp add: proposal_create_def insert_record_def\<close>)

subsection \<open>Restart\<close>

text \<open>Store calls at which the disk accepts every write, new ids are plain names, and no call raises
  in the middle of a sweep.\<close>

inductive healthy_proposal_step :: "rec_store \<Rightarrow> rec_store \<Rightarrow> bool" where
  create: "\<lbrakk>proposal_create t data s = (r, s'); healthy t;
     dget (make_proposal t data) ''proposal_id'' = JStr i; i \<noteq> []; plain_name i\<rbrakk> \<Longrightarrow>
   healthy_proposal_step s s'"
| sweep: "\<lbrakk>expire_stale ttl t s = (Inr ids, s'); healthy t\<rbrakk> \<Longrightarrow> healthy_proposal_step s s'"
| set_status: "\<lbrakk>proposal_set_status t pid new s = (r, s'); healthy t\<rbrakk> \<Longrightarrow> healthy_proposal_step s s'"

inductive healthy_proposal_run :: "rec_store \<Rightarrow> rec_store \<Rightarrow> bool" where
  finish: "healthy_proposal_run s s"
| more: "healthy_proposal_step s s' \<Longrightarrow> healthy_proposal_run s' s'' \<Longrightarrow> healthy_proposal_run s s''"

lemma expire_loop_mirrored:
  assumes "expire_loop ttl t items m = (None, m', qs)" and "distinct (map fst items)"
    and "\<And>k p. (k, p) \<in> set items \<Longrightarrow> map_of m k = Some p"
    and "mirrored_upto ''proposal_id'' D (s\<lparr>mem := m\<rparr>)"
  shows "\<exists>K. mirrored_upto ''proposal_id'' (D \<union> set K) (s\<lparr>mem := m'\<rparr>) \<and>
    list_all2 (\<lambda>k q. map_of m' k = Some q) K qs"
  using assms
proof (induction ttl t items m arbitrary: m' qs D rule: expire_loop.induct)
  case (1 ttl t m)
  then show ?case by (intro exI [of _ "[]"]) simp
next
  case (2 ttl t k p items m)
  show ?case
  proof (cases "expire_one ttl t p")
    case (Inr o')
    show ?thesis
    proof (cases o')
      case (Some q)
      with Inr 2(3) obtain qs' where qs: "qs = q # qs'" and
        rest: "expire_loop ttl t items (AList.update k q m) = (None, m', qs')"
        by (auto split: prod.splits)
      have one: "expire_one ttl t p = Inr (Some q)" using Inr Some by simp
      have p: "map_of m k = Some p" using 2(5) [of k p] by simp
      then have "plain_id ''proposal_id'' k p" using mirrored_plain [OF 2(6)] by simp
      then have "plain_id ''proposal_id'' k q"
        using expire_one_Some [OF one] by (simp add: plain_id_def)
      from mirrored_change [OF 2(6) this]
      have mi: "mirrored_upto ''proposal_id'' (insert k D) (s\<lparr>mem := AList.update k q m\<rparr>)" by simp
      have items: "map_of (AList.update k q m) k' = Some p'" if "(k', p') \<in> set items" for k' p'
        using that 2(4) 2(5) [of k' p'] by force
      have "distinct (map fst items)" using 2(4) by simp
      from 2(2) [OF Inr Some rest this items mi] obtain K where K:
        "mirrored_upto ''proposal_id'' (insert k D \<union> set K) (s\<lparr>mem := m'\<rparr>)"
        "list_all2 (\<lambda>k q. map_of m' k = Some q) K qs'" by blast
      have "k \<notin> fst ` set items" using 2(4) by simp
      then have "map_of m' k = Some q" using expire_loop_Some_key [OF rest] by simp
      with K qs show ?thesis by (intro exI [of _ "k # K"]) simp
    qed (use 2 Inr in auto)
  qed (use 2 in auto)
qed

lemma persist_all_mirrored:
  assumes "healthy t"
  shows "list_all2 (\<lambda>k q. map_of (mem s) k = Some q) K qs \<Longrightarrow>
    mirrored_upto ''proposal_id'' (set K) s \<Longrightarrow> mirrored ''proposal_id'' (snd (persist_all t qs s))"
proof (induction qs arbitrary: K s)
  case (Cons q qs)
  then obtain k K' where K: "K = k # K'" and q: "map_of (mem s) k = Some q"
    and rest: "list_all2 (\<lambda>k q. map_of (mem s) k = Some q) K' qs"
    by (auto simp: list_all2_Cons2)
  note step = mirrored_persist [OF Cons.prems(2) q assms]
  let ?s = "snd (proposal_persist t q s)"
  have "persist_all t (q # qs) s = persist_all t qs ?s"
    using step(2) by (auto simp: proposal_persist_def seq_def bind_def split: prod.split sum.split)
  moreover have "mirrored_upto ''proposal_id'' (set K') ?s"
    using step(1) unfolding proposal_persist_def by (rule mirrored_upto_mono) (auto simp: K)
  moreover have "list_all2 (\<lambda>k q. map_of (mem ?s) k = Some q) K' qs"
    using rest by (simp add: proposal_persist_def)
  ultimately show ?case using Cons.IH [of ?s K'] by simp
qed simp

lemma expire_stale_mirrored:
  assumes "mirrored ''proposal_id'' s" and ok: "store_ok ''proposal_id'' s" and "healthy t"
    and sw: "expire_stale ttl t s = (Inr ids, s')"
  shows "mirrored ''proposal_id'' s'"
proof (cases "ttl \<le> 0")
  case False
  with sw obtain m qs where loop: "expire_loop ttl t (mem s) (mem s) = (None, m, qs)"
    and s': "s' = snd (persist_all t qs (s\<lparr>mem := m\<rparr>))"
    by (auto simp: expire_stale_def seq_ret split: option.splits prod.splits)
  have "distinct (map fst (mem s))" using ok by (simp add: store_ok_def)
  then obtain K where "mirrored_upto ''proposal_id'' (set K) (s\<lparr>mem := m\<rparr>)"
      "list_all2 (\<lambda>k q. map_of m k = Some q) K qs"
    using expire_loop_mirrored [OF loop, of "{}" s] assms(1) by auto
  then show ?thesis unfolding s' using persist_all_mirrored [OF \<open>healthy t\<close>] by simp
qed (use assms in \<open>simp add: expire_stale_def\<close>)

lemma healthy_proposal_step_mirrored:
  assumes "healthy_proposal_step s s'" and m: "mirrored ''proposal_id'' s"
    and ok: "store_ok ''proposal_id'' s"
  shows "mirrored ''proposal_id'' s' \<and> proposal_step s s'"
  using assms(1)
proof (cases rule: healthy_proposal_step.cases)
  case (create t data r i)
  with m show ?thesis
    using mirrored_insert [of "''proposal_id''" s t "make_proposal t data" i] proposal_step.create
    by (auto simp: proposal_create_def)
next
  case (set_status t pid new r)
  with m show ?thesis
    using proposals.mirrored_set_status [of s t t new pid] proposal_step.set_status
    by (auto simp: proposal_set_status_def)
qed (use m ok in \<open>auto intro: expire_stale_mirrored proposal_step.sweep\<close>)

lemma healthy_proposal_run_mirrored:
  "healthy_proposal_run s s' \<Longrightarrow> mirrored ''proposal_id'' s \<Longrightarrow> store_ok ''proposal_id'' s \<Longrightarrow>
   mirrored ''proposal_id'' s'"
proof (induction rule: healthy_proposal_run.induct)
  case (more s s' s'')
  then show ?case using healthy_proposal_step_mirrored proposal_step_sound by blast
qed simp


subsection \<open>Concrete instances\<close>

definition demo_proposal :: "string \<Rightarrow> dict" where
  "demo_proposal st = [(''proposal_id'', JStr ''p_1''), (''status'', JStr st),
     (''created_at'', JStr ''2026-01-01T00:00:00''), (''created_ts'', JFloat (Fin 0))]"

definition demo_proposals :: "string \<Rightarrow> rec_store" where
  "demo_proposals st = \<lparr>mem = [(KStr ''p_1'', demo_proposal st)],
     disk = [(''p_1.json'', Doc (JObj (demo_proposal st)))]\<rparr>"

lemma demo_proposals_ok [simp]: "store_ok ''proposal_id'' (demo_proposals st)"
  by (simp add: store_ok_def demo_proposals_def demo_proposal_def)

lemma demo_proposals_p_1 [simp]: "map_of (mem (demo_proposals st)) (KStr ''p_1'') = Some (demo_proposal st)"
  by (simp add: demo_proposals_def)

lemma demo_proposal_status [simp]: "status_of ''pending'' (demo_proposal st) = JStr st"
  by (simp add: status_of_def demo_proposal_def)

lemma demo_proposals_load:
  "ProposalStore_load [(''p_1.json'', Doc (JObj (demo_proposal st)))] = Inr (demo_proposals st)"
  by (simp add: ProposalStore_load_def load_one_def demo_proposals_def demo_proposal_def)

lemma proposal_run_1: "proposal_step s s' \<Longrightarrow> proposal_run s s'"
  by (blast intro: proposal_run.intros)

lemma proposal_run_approve:
  "proposal_run s (snd (proposal_approve t pid s))"
  by (rule proposal_run_1, rule proposal_step.set_status [of t pid "''approved''" s "fst (proposal_approve t pid s)"])
     (simp add: proposal_approve_def)

lemma demo_stale: "expire_stale 600 (good_tick 1000) (demo_proposals ''pending'') =
  (Inr [JStr ''p_1''],
   \<lparr>mem = [(KStr ''p_1'', expired_copy 600 (good_tick 1000) (demo_proposal ''pending''))],
     disk = [(''p_1.json'', Doc (JObj (expired_copy 600 (good_tick 1000) (demo_proposal ''pending''))))]\<rparr>)"
proof -
  let ?p = "demo_proposal ''pending''"
  have one: "expire_one 600 (good_tick 1000) ?p = Inr (Some (expired_copy 600 (good_tick 1000) ?p))"
    by (simp add: expire_one_def proposal_transition_def allowed_from_def proposal_TRANSITIONS_def
        demo_proposal_def good_tick_def expired_copy_def Let_def successors_def to_double_numeral)
  have id: "map_of (expired_copy ttl t ?p) ''proposal_id'' = Some (JStr ''p_1'')" for ttl t
    by (simp add: expired_copy_def demo_proposal_def)
  from one show ?thesis
    by (simp add: expire_stale_def demo_proposals_def proposal_persist_def persist_record_def id
        op_defs dget_def good_tick_def plain_name_def)
qed

lemma demo_overdue: "overdue 600 (good_tick 1000) (demo_proposal ''pending'')"
  by (simp add: overdue_def demo_proposal_def good_tick_def to_double_numeral)

lemma demo_approve:
  "\<exists>q. map_of (mem (snd (proposal_approve (good_tick 5) (JStr ''p_1'') (demo_proposals ''pending''))))
     (KStr ''p_1'') = Some q \<and> dget q ''status'' = JStr ''approved''"
  by (simp add: proposal_approve_def proposal_set_status_def set_status_record_def demo_proposals_def
      demo_proposal_def proposal_transition_def Let_def successors_proposal)

theorem proposal_history_witness:
  "\<exists>q. map_of (mem (snd (proposal_approve (good_tick 5) (JStr ''p_1'') (demo_proposals ''pending''))))
       (KStr ''p_1'') = Some q \<and> dget q ''status'' = JStr ''approved'' \<and>
     (\<exists>st st' n. status_of ''pending'' (demo_proposal ''pending'') = JStr st \<and>
       status_of ''pending'' q = JStr st' \<and> status_path proposal_TRANSITIONS st (Suc n) st' \<and>
       st' \<noteq> st \<and> Suc n \<le> 3)"
proof -
  have "dget (demo_proposal ''pending'') ''status'' = JStr ''pending''"
    by (simp add: demo_proposal_def)
  then show ?thesis
    using demo_approve proposal_history [OF demo_proposals_load [of "''pending''"] proposal_run.finish
      proposal_run_approve [of _ "good_tick 5" "JStr ''p_1''"] demo_proposals_p_1]
    by fastforce
qed

theorem proposal_final_witness:
  "map_of (mem (snd (proposal_approve (good_tick 5) (JStr ''p_1'') (demo_proposals ''expired''))))
     (KStr ''p_1'') = Some (demo_proposal ''expired'')"
  by (rule proposal_final [OF demo_proposals_ok proposal_run_approve demo_proposals_p_1
        demo_proposal_status]) simp

theorem proposal_moves_iff_witness:
  "(\<exists>q s'. proposal_approve (good_tick 5) (JStr ''p_1'') (demo_proposals ''pending'') = (Inr q, s')) \<and>
   \<not> (\<exists>q s'. proposal_mark_applied (good_tick 5) (JStr ''p_1'') (demo_proposals ''pending'') = (Inr q, s'))"
  using proposal_moves_iff [OF demo_proposals_ok demo_proposals_p_1 demo_proposal_status,
    of "good_tick 5" "''pending''"] by simp

theorem expire_stale_exact_witness:
  "\<exists>ids s'. expire_stale 600 (good_tick 1000) (demo_proposals ''pending'') = (Inr ids, s') \<and>
     map_of (mem s') (KStr ''p_1'') = Some (expired_copy 600 (good_tick 1000) (demo_proposal ''pending'')) \<and>
     JStr ''p_1'' \<in> set ids"
proof -
  let ?p = "demo_proposal ''pending''"
  have "\<exists>k p. JStr ''p_1'' = dget p ''proposal_id'' \<and> map_of (mem (demo_proposals ''pending'')) k = Some p \<and>
      overdue 600 (good_tick 1000) p"
    by (rule exI [of _ "KStr ''p_1''"], rule exI [of _ ?p]) (use demo_overdue in \<open>simp add: demo_proposal_def\<close>)
  with expire_stale_exact [OF demo_proposals_ok _ demo_stale] show ?thesis
    using demo_overdue by (simp add: demo_stale)
qed

lemma demo_list:
  "\<exists>ps s'. proposal_list 600 (good_tick 1000) (JStr ''pending'') (demo_proposals ''pending'') = (Inr ps, s')"
  by (simp add: proposal_list_def seq_def bind_Inr [where m = "expire_stale _ _", OF demo_stale]
      with_status_def expired_copy_def sorted_desc_def sorted_by_def order_error_def)

theorem proposal_list_pending_witness:
  "\<exists>ps s'. proposal_list 600 (good_tick 1000) (JStr ''pending'') (demo_proposals ''pending'') = (Inr ps, s') \<and>
     demo_proposal ''pending'' \<notin> set ps"
  using demo_list proposal_list_pending [OF demo_proposals_ok, of 600 "good_tick 1000" "''pending''"]
    demo_overdue by auto

theorem proposal_list_sorted_witness:
  "\<exists>ps s'. proposal_list 600 (good_tick 1000) JNull (demo_proposals ''approved'') = (Inr ps, s') \<and>
     mset ps = mset (with_status JNull (map snd (mem s')))"
proof -
  have "\<forall>k p. map_of (mem (demo_proposals ''approved'')) k = Some p \<longrightarrow> listable p"
    by (simp add: demo_proposals_def demo_proposal_def listable_def)
  then show ?thesis
    using proposal_list_sorted [OF demo_proposals_ok, of 600 "''approved''" "good_tick 1000" JNull]
    by auto
qed

theorem proposal_poison_witness:
  "\<exists>e s'. proposal_list 600 (good_tick 1000) JNull
     \<lparr>mem = [(KStr ''p_2'', [(''proposal_id'', JStr ''p_2''), (''status'', JStr ''pending''),
        (''created_ts'', JStr ''today'')])], disk = []\<rparr> = (Inl e, s')"
  by (rule proposal_poison [of _ _ "KStr ''p_2''" "[(''proposal_id'', JStr ''p_2''),
       (''status'', JStr ''pending''), (''created_ts'', JStr ''today'')]" "''today''", THEN conjunct2])
     (simp_all add: store_ok_def)

theorem proposal_create_spec_witness:
  "\<exists>p s'. proposal_create (good_tick 5) [(''status'', JStr ''approved'')] \<lparr>mem = [], disk = []\<rparr> = (Inr p, s') \<and>
     dget p ''status'' = JStr ''approved''"
proof -
  have "dget (make_proposal (good_tick 5) [(''status'', JStr ''approved'')]) ''proposal_id'' =
      JStr ''p_0a1b2c3d4e5f''"
    by (simp add: make_proposal_id good_tick_def)
  from proposal_create_spec [OF this, of "\<lparr>mem = [], disk = []\<rparr>"] show ?thesis by auto
qed


end
