(* ===== verification/Transactions.thy ===== *)
theory Transactions
  imports Record_Store
begin

section \<open>Transactions\<close>

text \<open>
  \<open>transaction/model.py\<close> and \<open>transaction/manager.py\<close>: the before/after record of an applied
  proposal. The store is the shared one of \<open>Record_Store\<close>; its listing orders by the pair of
  epoch seconds and ISO timestamp.
\<close>

subsection \<open>Model\<close>

definition transaction_VALID_STATUSES :: "string list" where
  "transaction_VALID_STATUSES = [''applied'', ''failed'', ''rolled_back'']"

definition transaction_TRANSITIONS :: status_table where
  "transaction_TRANSITIONS =
     [(''applied'', [''rolled_back'', ''failed'']), (''failed'', []), (''rolled_back'', [])]"

definition make_transaction :: "tick \<Rightarrow> dict \<Rightarrow> dict" where
  "make_transaction t data =
     (let p = (if truthy (dget data ''transaction_id'') then data
               else dset ''transaction_id'' (JStr (''t_'' @ uid t)) data);
          p = setdefault ''schema_version'' (JStr ''0.1'') p;
          p = setdefault ''status'' (JStr ''applied'') p;
          p = setdefault ''before'' (JList []) p;
          p = setdefault ''after'' (JList []) p;
          p = (if has_key p ''timestamp'' then p else dset ''timestamp'' (JStr (stamp t)) p)
      in setdefault ''created_ts'' (now_json t) p)"

definition transaction_transition :: "unit \<Rightarrow> string \<Rightarrow> dict \<Rightarrow> exn + dict" where
  "transaction_transition _ new p =
     (let current = dget_or p ''status'' (JStr ''applied'')
      in case allowed_from transaction_TRANSITIONS current of
           Inl e \<Rightarrow> Inl e
         | Inr allowed \<Rightarrow>
             (if new \<notin> set allowed then Inl (bad_transition current new allowed)
              else Inr (dset ''status'' (JStr new) p)))"

subsection \<open>Store\<close>

definition TransactionStore_load :: "(string \<times> doc) list \<Rightarrow> exn + rec_store" where
  "TransactionStore_load files =
     map_sum id (\<lambda>m. \<lparr>mem = m, disk = files\<rparr>) (load_records ''transaction_id'' [] files)"

definition transaction_add :: "tick \<Rightarrow> dict \<Rightarrow> (rec_store, exn, dict) op" where
  "transaction_add t p = add_record ''transaction_id'' ''transaction'' t p"

definition transaction_create :: "tick \<Rightarrow> dict \<Rightarrow> (rec_store, exn, dict) op" where
  "transaction_create t data = transaction_add t (make_transaction t data)"

definition transaction_get :: "rec_store \<Rightarrow> json \<Rightarrow> exn + dict option" where
  "transaction_get s tid = lookup_record s tid"

definition transaction_key :: "dict \<Rightarrow> json" where
  "transaction_key p = JList [dget_or p ''created_ts'' (JInt 0), dget_or p ''timestamp'' (JStr [])]"

definition transaction_list :: "json \<Rightarrow> rec_store \<Rightarrow> exn + dict list" where
  "transaction_list status s = sorted_desc transaction_key (with_status status (map snd (mem s)))"

definition transaction_last :: "json \<Rightarrow> rec_store \<Rightarrow> exn + dict option" where
  "transaction_last status s =
     map_sum id (\<lambda>items. case items of [] \<Rightarrow> None | p # _ \<Rightarrow> Some p) (transaction_list status s)"

definition transaction_set_status :: "tick \<Rightarrow> json \<Rightarrow> string \<Rightarrow> (rec_store, exn, dict) op" where
  "transaction_set_status t tid new =
     set_status_record ''transaction_id'' (transaction_transition () new) t tid"

definition transaction_mark_rolled_back :: "tick \<Rightarrow> json \<Rightarrow> (rec_store, exn, dict) op" where
  "transaction_mark_rolled_back t tid = transaction_set_status t tid ''rolled_back''"

definition transaction_mark_failed :: "tick \<Rightarrow> json \<Rightarrow> (rec_store, exn, dict) op" where
  "transaction_mark_failed t tid = transaction_set_status t tid ''failed''"

subsection \<open>The status machine\<close>

definition transaction_rank :: "string \<Rightarrow> nat" where
  "transaction_rank s = (if s = ''applied'' then 1 else 0)"

lemma successors_transaction:
  "successors transaction_TRANSITIONS s =
     (if s = ''applied'' then [''rolled_back'', ''failed''] else [])"
  by (simp add: successors_def transaction_TRANSITIONS_def)

lemma transaction_transition_Inr:
  "transaction_transition x new p = Inr q \<longleftrightarrow>
   (\<exists>st. status_of ''applied'' p = JStr st \<and> new \<in> set (successors transaction_TRANSITIONS st) \<and>
      q = dset ''status'' (JStr new) p)"
  by (auto simp: transaction_transition_def status_of_def Let_def dest: allowed_from_mem split: sum.splits)

interpretation transactions:
  record_machine transaction_TRANSITIONS transaction_rank "''transaction_id''" "''applied''"
    transaction_transition
proof unfold_locales
  show "transaction_rank t < transaction_rank s"
    if "t \<in> set (successors transaction_TRANSITIONS s)" for s t
    using that by (auto simp: successors_transaction transaction_rank_def split: if_splits)
qed (auto simp: transaction_transition_Inr)

lemma transaction_set_status_keeps [keeps]:
  "preserves (store_ok ''transaction_id'') (transaction_set_status t tid new)"
  unfolding transaction_set_status_def by (rule transactions.set_status_keeps)

lemma transaction_create_keeps [keeps]:
  "preserves (store_ok ''transaction_id'') (transaction_create t data)"
  unfolding transaction_create_def transaction_add_def by (rule add_record_keeps)

abbreviation transaction_run :: "rec_store \<Rightarrow> rec_store \<Rightarrow> bool" where
  "transaction_run \<equiv> record_run ''transaction_id'' ''transaction'' transaction_transition"

lemma make_transaction_id:
  "dget (make_transaction t data) ''transaction_id'' =
     (if truthy (dget data ''transaction_id'') then dget data ''transaction_id'' else JStr (''t_'' @ uid t))"
  by (simp add: make_transaction_def Let_def)

lemma make_transaction_fields:
  "dget (make_transaction t data) ''status'' = dget_or data ''status'' (JStr ''applied'')"
  "dget (make_transaction t data) ''before'' = dget_or data ''before'' (JList [])"
  "dget (make_transaction t data) ''after'' = dget_or data ''after'' (JList [])"
  "dget (make_transaction t data) ''created_ts'' = dget_or data ''created_ts'' (now_json t)"
  by (auto simp: make_transaction_def Let_def)

subsection \<open>Properties\<close>

text \<open>
  A rollback is forever. Along any sequence of additions and status moves a transaction is
  never lost; it is unchanged or has made exactly one move, from applied to rolled_back or failed,
  and a transaction that is rolled back or failed never changes again.
\<close>

theorem transaction_history:
  assumes "store_ok ''transaction_id'' s" and "transaction_run s s'" and "map_of (mem s) k = Some p"
  shows "\<exists>q. map_of (mem s') k = Some q \<and>
    (q = p \<or> (status_of ''applied'' p = JStr ''applied'' \<and>
       status_of ''applied'' q \<in> {JStr ''rolled_back'', JStr ''failed''}))"
proof -
  obtain q where q: "map_of (mem s') k = Some q" and
    ev: "q = p \<or> (\<exists>st st' n. status_of ''applied'' p = JStr st \<and> status_of ''applied'' q = JStr st' \<and>
       status_path transaction_TRANSITIONS st (Suc n) st' \<and> st' \<noteq> st \<and> Suc n \<le> transaction_rank st)"
    using transactions.run_history [OF assms] by blast
  have "st = ''applied'' \<and> st' \<in> {''rolled_back'', ''failed''}"
    if "status_path transaction_TRANSITIONS st (Suc n) st'" "Suc n \<le> transaction_rank st" for st st' n
    using that by (auto simp: successors_transaction transaction_rank_def split: if_splits)
  with q ev show ?thesis by fastforce
qed

text \<open>
  Rolling back. Marking a stored transaction as rolled back succeeds exactly when it is
  applied; it then changes the status of that one transaction and keeps its before and after
  values, and otherwise raises and changes nothing.
\<close>

theorem transaction_rollback:
  assumes ok: "store_ok ''transaction_id'' s" and p: "map_of (mem s) (KStr i) = Some p"
  shows "if status_of ''applied'' p = JStr ''applied''
    then \<exists>q s'. transaction_mark_rolled_back t (JStr i) s = (Inr q, s') \<and>
      map_of (mem s') = (map_of (mem s))(KStr i \<mapsto> q) \<and> dget q ''status'' = JStr ''rolled_back'' \<and>
      (\<forall>f. f \<noteq> ''status'' \<longrightarrow> dget q f = dget p f)
    else \<exists>e. transaction_mark_rolled_back t (JStr i) s = (Inl e, s)"
proof -
  have step: "(\<exists>q. transaction_transition () ''rolled_back'' p = Inr q) \<longleftrightarrow>
      status_of ''applied'' p = JStr ''applied''"
    by (auto simp: transaction_transition_Inr successors_transaction split: if_splits)
  have eq: "transaction_mark_rolled_back t (JStr i) s =
    (case transaction_transition () ''rolled_back'' p of
       Inl e \<Rightarrow> (Inl e, s)
     | Inr q \<Rightarrow> (Inr q, snd (persist_record ''transaction_id'' t q (s\<lparr>mem := AList.update (KStr i) q (mem s)\<rparr>))))"
    using p unfolding transaction_mark_rolled_back_def transaction_set_status_def
      transactions.set_status_str [OF ok] by simp
  show ?thesis
  proof (cases "status_of ''applied'' p = JStr ''applied''")
    case True
    then have "transaction_transition () ''rolled_back'' p = Inr (dset ''status'' (JStr ''rolled_back'') p)"
      by (auto simp: transaction_transition_Inr successors_transaction)
    with True eq show ?thesis by (auto simp: fun_eq_iff)
  next
    case False
    with step obtain e where "transaction_transition () ''rolled_back'' p = Inl e"
      by (cases "transaction_transition () ''rolled_back'' p") auto
    with False eq show ?thesis by simp
  qed
qed

subsection \<open>Ordering\<close>

text \<open>Records whose sort key is a finite float (or absent) and a string (or absent).\<close>

definition ordered_tx :: "dict \<Rightarrow> bool" where
  "ordered_tx p \<longleftrightarrow> (\<exists>q. dget p ''created_ts'' = JFloat (Fin q)) \<and> (\<exists>w. dget p ''timestamp'' = JStr w)"

definition tx_time :: "dict \<Rightarrow> rat" where
  "tx_time p = (case dget p ''created_ts'' of JFloat (Fin q) \<Rightarrow> q | _ \<Rightarrow> 0)"

definition tx_stamp :: "dict \<Rightarrow> string" where
  "tx_stamp p = (case dget p ''timestamp'' of JStr w \<Rightarrow> w | _ \<Rightarrow> [])"

definition tx_before :: "dict \<Rightarrow> dict \<Rightarrow> bool" where
  "tx_before p q \<longleftrightarrow> tx_time p < tx_time q \<or> tx_time p = tx_time q \<and> str_less (tx_stamp p) (tx_stamp q)"

lemma tx_key_lt:
  assumes "ordered_tx p" and "ordered_tx q"
  shows "py_lt (transaction_key p) (transaction_key q) = Inr (tx_before p q)"
proof -
  have key: "transaction_key r = JList [JFloat (Fin (tx_time r)), JStr (tx_stamp r)]" if "ordered_tx r" for r
    using that by (auto simp: ordered_tx_def transaction_key_def tx_time_def tx_stamp_def dget_or_present)
  show ?thesis unfolding key [OF assms(1)] key [OF assms(2)]
    by (auto simp: tx_before_def)
qed

lemma transaction_list_sorted_aux:
  assumes "\<And>p. p \<in> set (with_status st (map snd (mem s))) \<Longrightarrow> ordered_tx p"
  shows "\<exists>ps. transaction_list st s = Inr ps \<and> mset ps = mset (with_status st (map snd (mem s))) \<and>
    sorted_wrt (\<lambda>p q. \<not> tx_before p q) ps"
  unfolding transaction_list_def
proof (rule sorted_desc_weak)
  fix p q assume "p \<in> set (with_status st (map snd (mem s)))" "q \<in> set (with_status st (map snd (mem s)))"
  then show "py_lt (transaction_key p) (transaction_key q) = Inr (tx_before p q)"
    using assms by (intro tx_key_lt)
  show "tx_before p q \<Longrightarrow> \<not> tx_before q p"
    unfolding tx_before_def using str_less_trans str_less_irrefl by fastforce
next
  fix p q r assume "\<not> tx_before q p" "\<not> tx_before r q"
  then show "\<not> tx_before r p"
    unfolding tx_before_def using str_less_trans str_less_total by (smt (verit) less_trans not_less_iff_gr_or_eq)
qed

text \<open>
  The last transaction. When every stored transaction has a float \<open>created_ts\<close> and a string
  \<open>timestamp\<close> (as the builder writes them), \<open>last\<close> returns: no transaction of the asked status if
  there is none, and otherwise one of them such that none is later in the order of the pair
  (epoch seconds, ISO timestamp).
\<close>

theorem transaction_last_newest:
  assumes "store_ok ''transaction_id'' s"
    and ordered: "\<forall>k p. map_of (mem s) k = Some p \<longrightarrow> ordered_tx p" and "w \<noteq> []"
  shows "\<exists>r. transaction_last (JStr w) s = Inr r \<and>
    (case r of
       None \<Rightarrow> \<forall>k p. map_of (mem s) k = Some p \<longrightarrow> dget p ''status'' \<noteq> JStr w
     | Some p \<Rightarrow> (\<exists>k. map_of (mem s) k = Some p) \<and> dget p ''status'' = JStr w \<and>
         (\<forall>k q. map_of (mem s) k = Some q \<and> dget q ''status'' = JStr w \<longrightarrow> \<not> tx_before p q))"
proof -
  have dist: "distinct (map fst (mem s))" using assms(1) by (simp add: store_ok_def)
  have vals: "set (with_status (JStr w) (map snd (mem s))) =
      {p. (\<exists>k. map_of (mem s) k = Some p) \<and> dget p ''status'' = JStr w}"
    using vals_map_of [OF dist] \<open>w \<noteq> []\<close> by (auto simp: with_status_def)
  then obtain ps where ps: "transaction_list (JStr w) s = Inr ps"
      "mset ps = mset (with_status (JStr w) (map snd (mem s)))" "sorted_wrt (\<lambda>p q. \<not> tx_before p q) ps"
    using transaction_list_sorted_aux [of "JStr w" s] ordered by auto
  then have set: "set ps = {p. (\<exists>k. map_of (mem s) k = Some p) \<and> dget p ''status'' = JStr w}"
    using vals by (metis set_mset_mset)
  show ?thesis
  proof (cases ps)
    case Nil
    with set have "{p. (\<exists>k. map_of (mem s) k = Some p) \<and> dget p ''status'' = JStr w} = {}" by simp
    with ps Nil show ?thesis by (auto simp: transaction_last_def)
  next
    case (Cons p rest)
    have "\<not> tx_before p p" by (simp add: tx_before_def)
    with ps(3) Cons have "\<not> tx_before p q" if "q \<in> set ps" for q using that by auto
    with ps(1) Cons set show ?thesis by (auto simp: transaction_last_def)
  qed
qed

text \<open>
  Creation. A transaction built from fresh data is stored under its id with the client's
  before and after values, applied unless the client says otherwise; adding a known id raises and
  changes nothing.
\<close>

theorem transaction_create_spec:
  assumes "dget (make_transaction t data) ''transaction_id'' = JStr i" and "i \<noteq> []"
  shows "if map_of (mem s) (KStr i) \<noteq> None
    then transaction_create t data s = (Inl (ValueError (''duplicate transaction_id: '' @ i)), s)
    else \<exists>p s'. transaction_create t data s = (Inr p, s') \<and>
      map_of (mem s') = (map_of (mem s))(KStr i \<mapsto> p) \<and>
      dget p ''status'' = dget_or data ''status'' (JStr ''applied'') \<and>
      dget p ''before'' = dget_or data ''before'' (JList []) \<and>
      dget p ''after'' = dget_or data ''after'' (JList []) \<and>
      dget p ''created_ts'' = dget_or data ''created_ts'' (now_json t)"
  using add_record_str [OF assms, of "''transaction''" t s]
  by (auto simp: transaction_create_def transaction_add_def make_transaction_fields fun_eq_iff)

subsection \<open>Concrete instances\<close>

definition demo_transaction :: "string \<Rightarrow> dict" where
  "demo_transaction st = [(''transaction_id'', JStr ''t_1''), (''status'', JStr st),
     (''timestamp'', JStr ''2026-01-01T00:00:00''), (''created_ts'', JFloat (Fin 7))]"

definition demo_transactions :: "string \<Rightarrow> rec_store" where
  "demo_transactions st = \<lparr>mem = [(KStr ''t_1'', demo_transaction st)], disk = []\<rparr>"

lemma demo_transactions_ok [simp]: "store_ok ''transaction_id'' (demo_transactions st)"
  by (simp add: store_ok_def demo_transactions_def demo_transaction_def)

lemma demo_transactions_1 [simp]:
  "map_of (mem (demo_transactions st)) (KStr ''t_1'') = Some (demo_transaction st)"
  by (simp add: demo_transactions_def)

theorem transaction_history_witness:
  "\<exists>q. map_of (mem (snd (transaction_mark_rolled_back (good_tick 9) (JStr ''t_1'') (demo_transactions ''failed''))))
     (KStr ''t_1'') = Some q \<and> q = demo_transaction ''failed''"
proof -
  have "transaction_run (demo_transactions ''failed'')
      (snd (transaction_mark_rolled_back (good_tick 9) (JStr ''t_1'') (demo_transactions ''failed'')))"
    unfolding transaction_mark_rolled_back_def transaction_set_status_def
    by (rule record_run.move [OF prod.collapse [symmetric] record_run.finish])
  from transaction_history [OF demo_transactions_ok this demo_transactions_1] show ?thesis
    by (auto simp: status_of_def demo_transaction_def)
qed

theorem transaction_rollback_witness:
  "\<exists>q s'. transaction_mark_rolled_back (good_tick 9) (JStr ''t_1'') (demo_transactions ''applied'') = (Inr q, s') \<and>
     dget q ''status'' = JStr ''rolled_back''"
  using transaction_rollback [OF demo_transactions_ok demo_transactions_1 [of "''applied''"],
    where t = "good_tick 9"]
  by (auto simp: status_of_def demo_transaction_def)

theorem transaction_last_newest_witness:
  "\<exists>r. transaction_last (JStr ''applied'') (demo_transactions ''applied'') = Inr r \<and> r \<noteq> None"
proof -
  have "\<forall>k p. map_of (mem (demo_transactions ''applied'')) k = Some p \<longrightarrow> ordered_tx p"
    by (simp add: demo_transactions_def demo_transaction_def ordered_tx_def)
  from transaction_last_newest [OF demo_transactions_ok this, of "''applied''"]
  obtain r where r: "transaction_last (JStr ''applied'') (demo_transactions ''applied'') = Inr r"
    and none: "r = None \<Longrightarrow> \<forall>k p. map_of (mem (demo_transactions ''applied'')) k = Some p \<longrightarrow>
        dget p ''status'' \<noteq> JStr ''applied''"
    by (auto split: option.splits)
  have "dget (demo_transaction ''applied'') ''status'' = JStr ''applied''"
    by (simp add: demo_transaction_def)
  with none have "r \<noteq> None" using demo_transactions_1 by blast
  with r show ?thesis by blast
qed

theorem transaction_create_spec_witness:
  "\<exists>p s'. transaction_create (good_tick 9) [] (demo_transactions ''applied'') = (Inr p, s') \<and>
     dget p ''status'' = JStr ''applied''"
proof -
  have "dget (make_transaction (good_tick 9) []) ''transaction_id'' = JStr ''t_0a1b2c3d4e5f''"
    by (simp add: make_transaction_id good_tick_def)
  from transaction_create_spec [OF this, of "demo_transactions ''applied''"] show ?thesis
    by (auto simp: demo_transactions_def)
qed

end
