(* ===== verification/Permissions.thy ===== *)
theory Permissions
  imports Py_Strings
begin

section \<open>Modify permissions\<close>

text \<open>
  \<open>transaction/permissions.py\<close>: glob patterns over \<open><instance>.<param>\<close> targets. The standard
  library's \<open>fnmatch.fnmatchcase\<close> is modelled as CPython 3.7 and later define it: \<open>*\<close>, \<open>?\<close>,
  \<open>[seq]\<close> and \<open>[!seq]\<close> with ranges, an unclosed bracket being a literal one and a reversed range
  being empty. A pattern is parsed to tokens, and a token has a language of its own, so that the
  backtracking matcher is proved against a specification that does not mention backtracking.
\<close>

subsection \<open>Patterns\<close>

datatype glob_token =
    Star
  | Anyone
  | Lit char
  | Class bool "(char \<times> char) list"

text \<open>The items of a bracket: ranges, a single character being a range of one.\<close>

fun class_items :: "string \<Rightarrow> (char \<times> char) list" where
  "class_items (c # d # e # cs) =
     (if d = CHR ''-'' then (c, e) # class_items cs else (c, c) # class_items (d # e # cs))"
| "class_items (c # cs) = (c, c) # class_items cs"
| "class_items [] = []"

text \<open>
  The text between the brackets and what follows them: the first character (after a \<open>!\<close>) is never
  the closing bracket.
\<close>

fun up_to_bracket :: "string \<Rightarrow> (string \<times> string) option" where
  "up_to_bracket [] = None"
| "up_to_bracket (c # cs) =
     (if c = CHR '']'' then Some ([], cs)
      else map_option (\<lambda>(body, rest). (c # body, rest)) (up_to_bracket cs))"

definition bracket_body :: "string \<Rightarrow> (string \<times> string) option" where
  "bracket_body p =
     (case p of
        [] \<Rightarrow> None
      | c # cs \<Rightarrow> map_option (\<lambda>(body, rest). (c # body, rest)) (up_to_bracket cs))"

definition bracket :: "string \<Rightarrow> (glob_token \<times> string) option" where
  "bracket p =
     (case p of
        CHR ''!'' # cs \<Rightarrow> map_option (\<lambda>(body, rest). (Class True (class_items body), rest)) (bracket_body cs)
      | _ \<Rightarrow> map_option (\<lambda>(body, rest). (Class False (class_items body), rest)) (bracket_body p))"

lemma up_to_bracket_shorter: "up_to_bracket p = Some (b, r) \<Longrightarrow> length r < length p"
  by (induction p arbitrary: b) (auto split: if_splits)

lemma bracket_shorter: "bracket p = Some (t, r) \<Longrightarrow> length r < length p"
proof -
  have "length r < length q" if "bracket_body q = Some (b, r)" for q b
    using that by (auto simp: bracket_body_def split: list.splits dest: up_to_bracket_shorter)
  then show "bracket p = Some (t, r) \<Longrightarrow> length r < length p"
    by (fastforce simp: bracket_def split: list.splits char.splits bool.splits)
qed

function glob_tokens :: "string \<Rightarrow> glob_token list" where
  "glob_tokens [] = []"
| "glob_tokens (c # cs) =
     (if c = CHR ''*'' then Star # glob_tokens cs
      else if c = CHR ''?'' then Anyone # glob_tokens cs
      else if c = CHR ''['' then
        (case bracket cs of
           None \<Rightarrow> Lit c # glob_tokens cs
         | Some (t, rest) \<Rightarrow> t # glob_tokens rest)
      else Lit c # glob_tokens cs)"
  by pat_completeness auto
termination
  by (relation "measure length") (auto dest: bracket_shorter)

fun in_class :: "(char \<times> char) list \<Rightarrow> char \<Rightarrow> bool" where
  "in_class [] c = False"
| "in_class ((a, b) # rs) c =
     ((of_char a \<le> (of_char c :: nat) \<and> (of_char c :: nat) \<le> of_char b) \<or> in_class rs c)"

fun token_char :: "glob_token \<Rightarrow> char \<Rightarrow> bool" where
  "token_char Star c = False"
| "token_char Anyone c = True"
| "token_char (Lit d) c = (c = d)"
| "token_char (Class neg rs) c = (in_class rs c \<noteq> neg)"

fun glob_match :: "glob_token list \<Rightarrow> string \<Rightarrow> bool" where
  "glob_match [] s = (s = [])"
| "glob_match (Star # ts) [] = glob_match ts []"
| "glob_match (Star # ts) (c # cs) = (glob_match ts (c # cs) \<or> glob_match (Star # ts) cs)"
| "glob_match (t # ts) [] = False"
| "glob_match (t # ts) (c # cs) = (token_char t c \<and> glob_match ts cs)"

text \<open>\<open>fnmatch.fnmatchcase(name, pat)\<close>; a pattern that is no string raises.\<close>

definition glob :: "string \<Rightarrow> string \<Rightarrow> bool" where
  "glob pat name = glob_match (glob_tokens pat) name"

fun fnmatchcase :: "string \<Rightarrow> json \<Rightarrow> exn + bool" where
  "fnmatchcase name (JStr pat) = Inr (glob pat name)"
| "fnmatchcase name v =
     (case py_key v of
        Inl e \<Rightarrow> Inl e
      | Inr _ \<Rightarrow> Inl (TypeError (''object of type '' @ CHR 0x27 # type_name v @ CHR 0x27 # '' has no len()'')))"

subsection \<open>Permissions\<close>

definition target_of :: "json \<Rightarrow> exn + string" where
  "target_of ch =
     (case ch of
        JObj d \<Rightarrow> Inr (py_str (dget_or d ''instance'' (JStr [])) @ ''.'' @ py_str (dget_or d ''param'' (JStr [])))
      | v \<Rightarrow> map_sum id (\<lambda>_. []) (jget v ''instance''))"

text \<open>The first pattern that matches, and \<open>any\<close> over the patterns; both stop at the first hit.\<close>

fun first_match :: "string \<Rightarrow> json list \<Rightarrow> exn + json option" where
  "first_match target [] = Inr None"
| "first_match target (p # ps) =
     (case fnmatchcase target p of
        Inl e \<Rightarrow> Inl e
      | Inr True \<Rightarrow> Inr (Some p)
      | Inr False \<Rightarrow> first_match target ps)"

definition is_allowed :: "string \<Rightarrow> json \<Rightarrow> json \<Rightarrow> exn + (bool \<times> string)" where
  "is_allowed target allow deny =
     (case py_iter (py_or deny (JList [])) of
        Inl e \<Rightarrow> Inl e
      | Inr ds \<Rightarrow>
          (case first_match target ds of
             Inl e \<Rightarrow> Inl e
           | Inr (Some p) \<Rightarrow> Inr (False, ''denied by deny_modify pattern '' @ py_repr p)
           | Inr None \<Rightarrow>
               (if \<not> truthy allow then Inr (True, ''ok'')
                else case py_iter allow of
                       Inl e \<Rightarrow> Inl e
                     | Inr as \<Rightarrow>
                         (case first_match target as of
                            Inl e \<Rightarrow> Inl e
                          | Inr None \<Rightarrow> Inr (False, ''not matched by any allow_modify pattern'')
                          | Inr (Some _) \<Rightarrow> Inr (True, ''ok'')))))"

fun violations_loop :: "json list \<Rightarrow> json \<Rightarrow> json \<Rightarrow> exn + json list" where
  "violations_loop [] allow deny = Inr []"
| "violations_loop (ch # chs) allow deny =
     (case target_of ch of
        Inl e \<Rightarrow> Inl e
      | Inr target \<Rightarrow>
          (case is_allowed target allow deny of
             Inl e \<Rightarrow> Inl e
           | Inr (ok, reason) \<Rightarrow>
               map_sum id (\<lambda>out. if ok then out
                    else JObj [(''target'', JStr target), (''reason'', JStr reason)] # out)
                 (violations_loop chs allow deny)))"

definition violations :: "json \<Rightarrow> json \<Rightarrow> json \<Rightarrow> exn + json list" where
  "violations changes allow deny =
     (case py_iter (py_or changes (JList [])) of
        Inl e \<Rightarrow> Inl e
      | Inr chs \<Rightarrow> violations_loop chs allow deny)"

subsection \<open>What a pattern means\<close>

fun token_lang :: "glob_token \<Rightarrow> string \<Rightarrow> bool" where
  "token_lang Star s = True"
| "token_lang t s = (\<exists>c. s = [c] \<and> token_char t c)"

lemma glob_match_Star:
  "glob_match (Star # ts) s \<longleftrightarrow> (\<exists>u v. s = u @ v \<and> glob_match ts v)"
proof (induction s)
  case (Cons c cs)
  have "(\<exists>u v. c # cs = u @ v \<and> glob_match ts v) \<longleftrightarrow>
      glob_match ts (c # cs) \<or> (\<exists>u v. cs = u @ v \<and> glob_match ts v)"
    by (metis append_Cons append_Nil list.exhaust list.inject)
  with Cons show ?case by simp
qed simp

lemma glob_match_char:
  "t \<noteq> Star \<Longrightarrow> glob_match (t # ts) s \<longleftrightarrow> (\<exists>c cs. s = c # cs \<and> token_char t c \<and> glob_match ts cs)"
  by (cases t; cases s) auto

lemma token_lang_char: "t \<noteq> Star \<Longrightarrow> token_lang t s \<longleftrightarrow> (\<exists>c. s = [c] \<and> token_char t c)"
  by (cases t) auto


lemma first_match_strings:
  "first_match target (map JStr ps) = Inr (map_option JStr (find (\<lambda>p. glob p target) ps))"
  by (induction ps) auto

lemma find_None_ball: "find P xs = None \<longleftrightarrow> (\<forall>x \<in> set xs. \<not> P x)"
  by (induction xs) auto

lemma is_allowed_strings:
  "is_allowed target (JList (map JStr allow)) (JList (map JStr deny)) =
    Inr (case find (\<lambda>p. glob p target) deny of
           Some p \<Rightarrow> (False, ''denied by deny_modify pattern '' @ repr_str p)
         | None \<Rightarrow> (if allow \<noteq> [] \<and> (\<forall>p \<in> set allow. \<not> glob p target)
                   then (False, ''not matched by any allow_modify pattern'') else (True, ''ok'')))"
proof -
  have iter: "py_iter (py_or (JList (map JStr deny)) (JList [])) = Inr (map JStr deny)"
    by (simp add: py_or_def)
  show ?thesis
  proof (cases "find (\<lambda>p. glob p target) deny")
    case (Some p)
    with iter show ?thesis by (simp add: is_allowed_def first_match_strings)
  next
    case None
    with iter show ?thesis
      by (cases "find (\<lambda>p. glob p target) allow")
         (auto simp: is_allowed_def first_match_strings find_None_ball [symmetric])
  qed
qed

text \<open>
  The permission rule. For lists of patterns, a target is permitted exactly when no deny
  pattern matches it and, if there are allow patterns, one of them does; a deny pattern blocks
  whatever the allow patterns say.
\<close>

theorem is_allowed_spec:
  "(\<exists>why. is_allowed target (JList (map JStr allow)) (JList (map JStr deny)) = Inr (True, why)) \<longleftrightarrow>
    (\<forall>p \<in> set deny. \<not> glob p target) \<and> (allow = [] \<or> (\<exists>p \<in> set allow. glob p target))"
  by (auto simp: is_allowed_strings find_None_ball [symmetric] split: option.split)

theorem is_allowed_spec_witness:
  "\<exists>why. is_allowed ''M1.w'' (JList [JStr ''M*.w'']) (JList [JStr ''VDD.*'']) = Inr (True, why)"
  using is_allowed_spec [of "''M1.w''" "[''M*.w'']" "[''VDD.*'']"]
  by (simp add: glob_def)

text \<open>The permitted changes of a list, by the code's own test of one change.\<close>

definition permitted :: "json \<Rightarrow> json \<Rightarrow> json \<Rightarrow> bool" where
  "permitted allow deny ch \<longleftrightarrow>
     (\<exists>target why. target_of ch = Inr target \<and> is_allowed target allow deny = Inr (True, why))"

text \<open>
  The change filter. \<open>violations\<close> returns the empty list exactly when every change of the list
  is an object whose target is permitted: it never passes a list with a blocked change, and never
  blocks a list without one.
\<close>

theorem violations_empty_iff:
  "violations (JList chs) allow deny = Inr [] \<longleftrightarrow> (\<forall>ch \<in> set chs. permitted allow deny ch)"
proof -
  have iter: "py_iter (py_or (JList chs) (JList [])) = Inr chs" by (simp add: py_or_def)
  have "violations_loop chs allow deny = Inr [] \<longleftrightarrow> (\<forall>ch \<in> set chs. permitted allow deny ch)"
  proof (induction chs)
    case (Cons ch chs)
    show ?case
    proof (cases "\<exists>target ok why. target_of ch = Inr target \<and> is_allowed target allow deny = Inr (ok, why)")
      case True
      then obtain target ok why where
        "target_of ch = Inr target" "is_allowed target allow deny = Inr (ok, why)" by blast
      with Cons show ?thesis
        by (cases "violations_loop chs allow deny") (auto simp: permitted_def)
    next
      case False
      then have "\<not> permitted allow deny ch" by (auto simp: permitted_def)
      moreover from False have "\<exists>e. violations_loop (ch # chs) allow deny = Inl e"
        by (cases "target_of ch"; cases "is_allowed (projr (target_of ch)) allow deny") auto
      ultimately show ?thesis by (metis Inl_Inr_False list.set_intros(1))
    qed
  qed simp
  with iter show ?thesis by (simp add: violations_def)
qed

theorem violations_empty_iff_witness:
  "violations (JList [JObj [(''instance'', JStr ''M1''), (''param'', JStr ''w'')]])
     (JList [JStr ''M*.w'']) JNull = Inr []"
  unfolding violations_empty_iff
  by (simp add: permitted_def target_of_def is_allowed_def py_or_def glob_def)

end
