(* ===== verification/Fingerprint.thy ===== *)
theory Fingerprint
  imports Py_Strings "HOL-Library.Word"
begin

section \<open>Input fingerprints\<close>

text \<open>
  \<open>compute_fingerprint\<close> of \<open>sim/job.py\<close>: the compact JSON text of the inputs with sorted keys
  (\<open>json.dumps(..., sort_keys=True, separators=(",", ":"))\<close>), hashed with SHA-1, the first sixteen
  hexadecimal digits kept. The text is ASCII, so its UTF-8 bytes are its characters. Both library
  functions are written out, SHA-1 on 32-bit words that wrap around.
\<close>

subsection \<open>Canonical JSON text\<close>

definition json_char :: "char \<Rightarrow> string" where
  "json_char c =
     (let n = of_char c :: nat
      in if c = CHR 0x22 then [CHR 0x5C, CHR 0x22]
         else if c = CHR 0x5C then [CHR 0x5C, CHR 0x5C]
         else if n = 10 then [CHR 0x5C, CHR ''n'']
         else if n = 13 then [CHR 0x5C, CHR ''r'']
         else if n = 9 then [CHR 0x5C, CHR ''t'']
         else if n = 12 then [CHR 0x5C, CHR ''f'']
         else if n = 8 then [CHR 0x5C, CHR ''b'']
         else if 32 \<le> n \<and> n \<le> 126 then [c]
         else [CHR 0x5C, CHR ''u'', CHR ''0'', CHR ''0'', hex_digit (n div 16), hex_digit (n mod 16)])"

definition json_str :: "string \<Rightarrow> string" where
  "json_str s = CHR 0x22 # concat (map json_char s) @ [CHR 0x22]"

definition json_float :: "pyfloat \<Rightarrow> string" where
  "json_float x =
     (case x of NaN \<Rightarrow> ''NaN'' | PInf \<Rightarrow> ''Infinity'' | NInf \<Rightarrow> ''-Infinity'' | Fin _ \<Rightarrow> flt_repr x)"

definition by_key :: "(string \<times> 'a) \<Rightarrow> (string \<times> 'a) \<Rightarrow> bool" where
  "by_key x y = str_less (fst x) (fst y)"

fun dumps_sorted :: "json \<Rightarrow> string" where
  "dumps_sorted JNull = ''null''"
| "dumps_sorted (JBool b) = (if b then ''true'' else ''false'')"
| "dumps_sorted (JInt i) = show_int i"
| "dumps_sorted (JFloat x) = json_float x"
| "dumps_sorted (JStr s) = json_str s"
| "dumps_sorted (JList xs) = ''['' @ join '','' (map dumps_sorted xs) @ '']''"
| "dumps_sorted (JObj d) =
     ''{'' @ join '','' (map (\<lambda>(k, t). json_str k @ '':'' @ t)
        (isort_lt by_key (map (\<lambda>(k, v). (k, dumps_sorted v)) d))) @ ''}''"

subsection \<open>SHA-1\<close>

type_synonym sha_word = "32 word"

fun pack_word :: "nat list \<Rightarrow> sha_word" where
  "pack_word [a, b, c, d] = word_of_nat (((a * 256 + b) * 256 + c) * 256 + d)"
| "pack_word _ = 0"

fun be_bytes :: "nat \<Rightarrow> nat \<Rightarrow> nat list" where
  "be_bytes 0 n = []"
| "be_bytes (Suc k) n = be_bytes k (n div 256) @ [n mod 256]"

definition sha_pad :: "nat list \<Rightarrow> nat list" where
  "sha_pad m = m @ 128 # replicate ((119 - length m mod 64) mod 64) 0 @ be_bytes 8 (8 * length m)"

fun chunks :: "nat \<Rightarrow> nat \<Rightarrow> 'a list \<Rightarrow> 'a list list" where
  "chunks n 0 xs = []"
| "chunks n (Suc k) xs = take n xs # chunks n k (drop n xs)"

primrec sha_schedule :: "nat \<Rightarrow> sha_word list \<Rightarrow> sha_word list" where
  "sha_schedule 0 w = w"
| "sha_schedule (Suc k) w =
     (let n = length w
      in sha_schedule k (w @ [word_rotl 1
           (xor (xor (w ! (n - 3)) (w ! (n - 8))) (xor (w ! (n - 14)) (w ! (n - 16))))]))"

definition sha_f :: "nat \<Rightarrow> sha_word \<Rightarrow> sha_word \<Rightarrow> sha_word \<Rightarrow> sha_word \<times> sha_word" where
  "sha_f i b c d =
     (if i < 20 then (or (and b c) (and (not b) d), 0x5A827999)
      else if i < 40 then (xor (xor b c) d, 0x6ED9EBA1)
      else if i < 60 then (or (or (and b c) (and b d)) (and c d), 0x8F1BBCDC)
      else (xor (xor b c) d, 0xCA62C1D6))"

type_synonym sha_state = "sha_word \<times> sha_word \<times> sha_word \<times> sha_word \<times> sha_word"

fun sha_rounds :: "nat \<Rightarrow> sha_word list \<Rightarrow> sha_state \<Rightarrow> sha_state" where
  "sha_rounds i [] s = s"
| "sha_rounds i (w # ws) (a, b, c, d, e) =
     (case sha_f i b c d of (f, k) \<Rightarrow>
        sha_rounds (Suc i) ws (word_rotl 5 a + f + e + k + w, a, word_rotl 30 b, c, d))"

fun sha_block :: "sha_state \<Rightarrow> nat list \<Rightarrow> sha_state" where
  "sha_block (a, b, c, d, e) bytes =
     (case sha_rounds 0 (sha_schedule 64 (map pack_word (chunks 4 16 bytes))) (a, b, c, d, e) of
        (a', b', c', d', e') \<Rightarrow> (a + a', b + b', c + c', d + d', e + e'))"

definition sha1 :: "nat list \<Rightarrow> sha_word list" where
  "sha1 m =
     (let p = sha_pad m
      in case foldl sha_block (0x67452301, 0xEFCDAB89, 0x98BADCFE, 0x10325476, 0xC3D2E1F0)
                (chunks 64 (length p div 64) p) of
           (a, b, c, d, e) \<Rightarrow> [a, b, c, d, e])"

fun hex_digits :: "nat \<Rightarrow> nat \<Rightarrow> string" where
  "hex_digits 0 n = []"
| "hex_digits (Suc k) n = hex_digits k (n div 16) @ [hex_digit (n mod 16)]"

definition sha1_hex :: "string \<Rightarrow> string" where
  "sha1_hex s = concat (map (\<lambda>w. hex_digits 8 (unat w)) (sha1 (map of_char s)))"

definition compute_fingerprint :: "json \<Rightarrow> json \<Rightarrow> json \<Rightarrow> string" where
  "compute_fingerprint cellview test extra =
     (let payload = JObj [(''cellview'', py_or cellview (JObj [])), (''test'', py_or test (JStr [])),
                          (''extra'', py_or extra (JObj []))]
      in ''fp_'' @ take 16 (sha1_hex (dumps_sorted payload)))"

subsection \<open>Sizes\<close>

lemma length_be_bytes [simp]: "length (be_bytes k n) = k"
  by (induction k arbitrary: n) auto

text \<open>Padding fills whole blocks, so the block loop drops no byte.\<close>

lemma sha_pad_blocks: "length (sha_pad m) mod 64 = 0"
proof -
  have "(r + 9 + (119 - r) mod 64) mod 64 = 0" if "r < 64" for r :: nat
  proof (cases "r \<le> 55")
    case True
    then have "(119 - r) mod 64 = 55 - r" by (subst mod_if) simp
    with True show ?thesis by simp
  next
    case False
    with that have "(119 - r) mod 64 = 119 - r" by simp
    with False that show ?thesis by simp
  qed
  from this [of "length m mod 64"]
  have "(length m mod 64 + (9 + (119 - length m mod 64) mod 64)) mod 64 = 0"
    by (simp add: add.assoc)
  then have "(length m + (9 + (119 - length m mod 64) mod 64)) mod 64 = 0"
    by (simp only: mod_add_left_eq)
  then show ?thesis by (simp add: sha_pad_def ac_simps)
qed

lemma concat_chunks: "length xs = n * k \<Longrightarrow> concat (chunks n k xs) = xs"
  by (induction k arbitrary: xs) auto

lemma length_hex_digits [simp]: "length (hex_digits k n) = k"
  by (induction k arbitrary: n) auto

lemma length_sha1 [simp]: "length (sha1 m) = 5"
  by (simp add: sha1_def Let_def split: prod.split)

lemma length_sha1_hex [simp]: "length (sha1_hex s) = 40"
proof -
  have "length (concat (map (\<lambda>w. hex_digits 8 (unat w)) ws)) = 8 * length ws" for ws :: "sha_word list"
    by (induction ws) auto
  then show ?thesis by (simp add: sha1_hex_def)
qed

subsection \<open>Reordering keys does not change the text\<close>

inductive reorder :: "json \<Rightarrow> json \<Rightarrow> bool" where
  same: "reorder v v"
| items: "list_all2 reorder xs ys \<Longrightarrow> reorder (JList xs) (JList ys)"
| fields: "\<lbrakk>list_all2 (rel_prod (=) reorder) d e'; mset e' = mset e; distinct (map fst d)\<rbrakk> \<Longrightarrow>
    reorder (JObj d) (JObj e)"

lemma sorted_wrt_unique:
  assumes "\<And>x. \<not> R x x" and "\<And>x y. R x y \<Longrightarrow> \<not> R y x"
  shows "sorted_wrt R xs \<Longrightarrow> sorted_wrt R ys \<Longrightarrow> set xs = set ys \<Longrightarrow> xs = ys"
proof (induction xs arbitrary: ys)
  case (Cons x xs)
  then obtain y ys' where ys: "ys = y # ys'" by (cases ys) auto
  have "x = y"
  proof (rule ccontr)
    assume "x \<noteq> y"
    then have "x \<in> set ys'" "y \<in> set xs" using Cons.prems(3) ys by auto
    then show False using Cons.prems(1,2) ys assms(2) by auto
  qed
  moreover have "x \<notin> set xs" "y \<notin> set ys'" using Cons.prems(1,2) ys assms(1) by auto
  moreover from calculation have "set xs = set ys'" using Cons.prems(3) ys by auto
  ultimately show ?case using Cons.IH [of ys'] Cons.prems(1,2) ys by simp
qed simp

lemma sorted_wrt_strict:
  "distinct (map fst ys) \<Longrightarrow> sorted_wrt (\<lambda>a b. \<not> by_key b a) ys \<Longrightarrow> sorted_wrt by_key ys"
  unfolding by_key_def by (induction ys) (auto, metis fst_conv image_eqI str_less_total)

lemma by_key_sorted:
  assumes "distinct (map fst xs)"
  shows "sorted_wrt by_key (isort_lt by_key xs)"
proof -
  have weak: "sorted_wrt (\<lambda>a b. \<not> by_key b a) (isort_lt by_key xs)"
    by (rule isort_lt_sorted [where A = UNIV])
       (auto simp: by_key_def dest: str_less_trans, metis str_less_total str_less_trans)
  have "mset (map fst (isort_lt by_key xs)) = mset (map fst xs)" by simp
  then have "distinct (map fst (isort_lt by_key xs))" using assms by (metis mset_eq_imp_distinct_iff)
  from this weak show ?thesis by (rule sorted_wrt_strict)
qed

lemma dumps_isort_cong:
  assumes "distinct (map fst xs)" and "mset xs = mset ys"
  shows "isort_lt by_key xs = isort_lt by_key ys"
proof (rule sorted_wrt_unique [where R = by_key])
  have "distinct (map fst ys)" using assms by (metis mset_eq_imp_distinct_iff mset_map)
  then show "sorted_wrt by_key (isort_lt by_key ys)" by (rule by_key_sorted)
  show "sorted_wrt by_key (isort_lt by_key xs)" using assms(1) by (rule by_key_sorted)
  show "set (isort_lt by_key xs) = set (isort_lt by_key ys)"
    using assms(2) by (simp) (metis set_mset_mset)
qed (auto simp: by_key_def dest: str_less_trans)

lemma dumps_reorder: "reorder v w \<Longrightarrow> dumps_sorted v = dumps_sorted w"
proof (induction rule: reorder.induct)
  case (items xs ys)
  then have "map dumps_sorted xs = map dumps_sorted ys"
    by (induction rule: list_all2_induct) auto
  then show ?case by simp
next
  case (fields d e' e)
  let ?f = "\<lambda>(k, v). (k, dumps_sorted v)"
  have "map ?f d = map ?f e'"
    using fields(1) by (induction rule: list_all2_induct) auto
  moreover have "distinct (map fst (map ?f d))" using fields(3) by (simp add: comp_def case_prod_beta)
  moreover have "mset (map ?f e') = mset (map ?f e)" using fields(2) by simp
  ultimately have "isort_lt by_key (map ?f d) = isort_lt by_key (map ?f e)"
    using dumps_isort_cong by metis
  then show ?case by simp
qed simp

lemma reorder_truthy:
  assumes "reorder v w"
  shows "truthy v = truthy w"
  using assms
proof cases
  case (fields d e' e)
  then have "length d = length e" by (metis list_all2_lengthD size_mset)
  with fields show ?thesis by auto
qed auto

lemma reorder_py_or: "reorder v w \<Longrightarrow> reorder (py_or v u) (py_or w u)"
  using reorder_truthy [of v w] by (simp add: py_or_def reorder.same)

text \<open>
  Fingerprints do not depend on how a client orders its keys. Two descriptions of the same
  inputs that differ only in the order of object keys, at any depth, have the same fingerprint,
  and a fingerprint is always \<open>fp_\<close> and sixteen characters.
\<close>

theorem fingerprint_key_order:
  assumes "reorder cv cv'" and "reorder extra extra'"
  shows "compute_fingerprint cv test extra = compute_fingerprint cv' test extra' \<and>
    length (compute_fingerprint cv test extra) = 19"
proof
  have "reorder (py_or cv (JObj [])) (py_or cv' (JObj []))" "reorder (py_or extra (JObj [])) (py_or extra' (JObj []))"
    using assms by (auto intro: reorder_py_or)
  then have "reorder
      (JObj [(''cellview'', py_or cv (JObj [])), (''test'', py_or test (JStr [])), (''extra'', py_or extra (JObj []))])
      (JObj [(''cellview'', py_or cv' (JObj [])), (''test'', py_or test (JStr [])), (''extra'', py_or extra' (JObj []))])"
    by (intro reorder.fields [OF _ refl]) (auto intro: reorder.same)
  then show "compute_fingerprint cv test extra = compute_fingerprint cv' test extra'"
    unfolding compute_fingerprint_def Let_def by (simp only: dumps_reorder)
  show "length (compute_fingerprint cv test extra) = 19"
    by (simp add: compute_fingerprint_def)
qed

theorem fingerprint_key_order_witness:
  "compute_fingerprint (JObj [(''lib'', JStr ''L''), (''cell'', JStr ''C'')]) (JStr ''tb'') JNull =
   compute_fingerprint (JObj [(''cell'', JStr ''C''), (''lib'', JStr ''L'')]) (JStr ''tb'') JNull"
proof (rule fingerprint_key_order [THEN conjunct1])
  show "reorder (JObj [(''lib'', JStr ''L''), (''cell'', JStr ''C'')])
      (JObj [(''cell'', JStr ''C''), (''lib'', JStr ''L'')])"
    by (rule reorder.fields [of _ "[(''lib'', JStr ''L''), (''cell'', JStr ''C'')]"])
       (auto intro: reorder.same)
qed (rule reorder.same)

end
