(* ===== verification/Jobs.thy ===== *)
theory Jobs
  imports Record_Store Fingerprint
begin

section \<open>Simulation jobs\<close>

text \<open>
  \<open>sim/job.py\<close> and \<open>sim/job_store.py\<close>. The store is the shared one of \<open>Record_Store\<close>; its
  transition also writes the extra fields of the call, and \<open>fresh_done\<close> finds a finished job
  with the same input fingerprint so that a simulation is not run twice.
\<close>

subsection \<open>Model\<close>

definition job_VALID_STATUSES :: "string list" where
  "job_VALID_STATUSES = [''queued'', ''running'', ''done'', ''failed'', ''cancelled'']"

definition job_TERMINAL_STATUSES :: "string list" where
  "job_TERMINAL_STATUSES = [''done'', ''failed'', ''cancelled'']"

definition job_TRANSITIONS :: status_table where
  "job_TRANSITIONS =
     [(''queued'', [''running'', ''cancelled'']),
      (''running'', [''done'', ''failed'', ''cancelled'']),
      (''done'', []),
      (''failed'', []),
      (''cancelled'', [])]"

definition make_job :: "tick \<Rightarrow> json \<Rightarrow> dict" where
  "make_job t data =
     (let j = (case data of JObj d \<Rightarrow> d | _ \<Rightarrow> []);
          j = (if truthy (dget j ''job_id'') then j else dset ''job_id'' (JStr (''job_'' @ uid t)) j);
          j = setdefault ''schema_version'' (JStr ''0.1'') j;
          j = setdefault ''status'' (JStr ''queued'') j;
          j = (if truthy (dget j ''inputs_fingerprint'') then j
               else dset ''inputs_fingerprint''
                      (JStr (compute_fingerprint (dget j ''cellview'') (dget j ''test'') JNull)) j);
          j = setdefault ''created_at'' (JStr (stamp t)) j
      in dset ''updated_at'' (JStr (stamp t)) j)"

text \<open>The call's clock and its extra fields come as a pair.\<close>

definition job_transition :: "tick \<times> dict \<Rightarrow> string \<Rightarrow> dict \<Rightarrow> exn + dict" where
  "job_transition x new j =
     (case x of (t, kwargs) \<Rightarrow>
        (let current = dget_or j ''status'' (JStr ''queued'')
         in case allowed_from job_TRANSITIONS current of
              Inl e \<Rightarrow> Inl e
            | Inr allowed \<Rightarrow>
                (if new \<notin> set allowed then Inl (bad_transition current new allowed)
                 else Inr (dset ''updated_at'' (JStr (stamp t))
                             (dset ''status'' (JStr new) (dict_update j kwargs))))))"

subsection \<open>Store\<close>

definition JobStore_load :: "(string \<times> doc) list \<Rightarrow> exn + rec_store" where
  "JobStore_load files = map_sum id (\<lambda>m. \<lparr>mem = m, disk = files\<rparr>) (load_records ''job_id'' [] files)"

definition job_add :: "tick \<Rightarrow> dict \<Rightarrow> (rec_store, exn, dict) op" where
  "job_add t j = add_record ''job_id'' ''job'' t j"

definition job_create :: "tick \<Rightarrow> json \<Rightarrow> (rec_store, exn, dict) op" where
  "job_create t data = job_add t (make_job t data)"

definition job_get :: "rec_store \<Rightarrow> json \<Rightarrow> exn + dict option" where
  "job_get s jid = lookup_record s jid"

definition job_list :: "json \<Rightarrow> rec_store \<Rightarrow> exn + dict list" where
  "job_list status s =
     sorted_desc (\<lambda>j. dget_or j ''created_at'' (JStr [])) (with_status status (map snd (mem s)))"

definition fresh_done :: "json \<Rightarrow> rec_store \<Rightarrow> exn + dict option" where
  "fresh_done fingerprint s =
     (if \<not> truthy fingerprint then Inr None
      else map_sum id
             (\<lambda>js. case filter (\<lambda>j. py_eq (dget j ''inputs_fingerprint'') fingerprint) js of
                      [] \<Rightarrow> None | j # _ \<Rightarrow> Some j)
             (job_list (JStr ''done'') s))"

definition job_set :: "tick \<Rightarrow> json \<Rightarrow> string \<Rightarrow> dict \<Rightarrow> (rec_store, exn, dict) op" where
  "job_set t jid new kwargs = set_status_record ''job_id'' (job_transition (t, kwargs) new) t jid"

definition job_mark_running :: "tick \<Rightarrow> json \<Rightarrow> (rec_store, exn, dict) op" where
  "job_mark_running t jid = job_set t jid ''running'' []"

definition job_mark_done :: "tick \<Rightarrow> json \<Rightarrow> json \<Rightarrow> json \<Rightarrow> (rec_store, exn, dict) op" where
  "job_mark_done t jid result_id run_id =
     job_set t jid ''done''
       ((if result_id \<noteq> JNull then [(''result_id'', result_id)] else []) @
        (if run_id \<noteq> JNull then [(''run_id'', run_id)] else []))"

definition job_mark_failed :: "tick \<Rightarrow> json \<Rightarrow> json \<Rightarrow> (rec_store, exn, dict) op" where
  "job_mark_failed t jid error =
     job_set t jid ''failed'' (if truthy error then [(''error'', error)] else [])"

definition job_cancel :: "tick \<Rightarrow> json \<Rightarrow> (rec_store, exn, dict) op" where
  "job_cancel t jid = job_set t jid ''cancelled'' []"

lemmas job_moves = job_mark_running_def job_mark_done_def job_mark_failed_def job_cancel_def

subsection \<open>The status machine\<close>

text \<open>The fields that the store's own calls write never include the id or the status.\<close>

definition safe_fields :: "dict \<Rightarrow> bool" where
  "safe_fields kwargs \<longleftrightarrow> ''job_id'' \<notin> fst ` set kwargs"

definition job_step :: "tick \<times> dict \<Rightarrow> string \<Rightarrow> dict \<Rightarrow> exn + dict" where
  "job_step x new j = job_transition (fst x, if safe_fields (snd x) then snd x else []) new j"

definition job_rank :: "string \<Rightarrow> nat" where
  "job_rank s = (if s = ''queued'' then 2 else if s = ''running'' then 1 else 0)"

lemma successors_job:
  "successors job_TRANSITIONS s =
     (if s = ''queued'' then [''running'', ''cancelled'']
      else if s = ''running'' then [''done'', ''failed'', ''cancelled''] else [])"
  by (simp add: successors_def job_TRANSITIONS_def)

lemma job_transition_Inr:
  "job_transition (t, kwargs) new j = Inr q \<longleftrightarrow>
   (\<exists>st. status_of ''queued'' j = JStr st \<and> new \<in> set (successors job_TRANSITIONS st) \<and>
      q = dset ''updated_at'' (JStr (stamp t)) (dset ''status'' (JStr new) (dict_update j kwargs)))"
  by (auto simp: job_transition_def status_of_def Let_def dest: allowed_from_mem split: sum.splits)

lemma job_step_safe: "safe_fields kwargs \<Longrightarrow> job_step (t, kwargs) = job_transition (t, kwargs)"
  by (simp add: job_step_def fun_eq_iff)

interpretation jobs: record_machine job_TRANSITIONS job_rank "''job_id''" "''queued''" job_step
proof unfold_locales
  show "job_rank t < job_rank s" if "t \<in> set (successors job_TRANSITIONS s)" for s t
    using that by (auto simp: successors_job job_rank_def split: if_splits)
next
  fix x :: "tick \<times> dict" and new j q
  let ?fs = "if safe_fields (snd x) then snd x else []"
  have inr: "job_step x new j = Inr q \<longleftrightarrow>
    (\<exists>st. status_of ''queued'' j = JStr st \<and> new \<in> set (successors job_TRANSITIONS st) \<and>
      q = dset ''updated_at'' (JStr (stamp (fst x))) (dset ''status'' (JStr new) (dict_update j ?fs)))" for q
    unfolding job_step_def by (rule job_transition_Inr)
  show "\<exists>st. status_of ''queued'' j = JStr st \<and> new \<in> set (successors job_TRANSITIONS st)"
    if "job_step x new j = Inr q" using that inr by blast
  show "\<exists>q. job_step x new j = Inr q"
    if "status_of ''queued'' j = JStr st" "new \<in> set (successors job_TRANSITIONS st)" for st
    using that inr by blast
  show "map_of q ''status'' = Some (JStr new)" if "job_step x new j = Inr q"
    using that by (auto simp: inr)
  have "''job_id'' \<notin> fst ` set ?fs" by (cases "safe_fields (snd x)") (auto simp: safe_fields_def)
  then show "dget q ''job_id'' = dget j ''job_id''" if "job_step x new j = Inr q"
    using that by (auto simp: inr dget_dict_update_other)
qed

lemma job_moves_safe:
  "job_mark_running t jid = set_status_record ''job_id'' (job_step (t, []) ''running'') t jid"
  "job_mark_done t jid r run = set_status_record ''job_id'' (job_step (t,
     (if r \<noteq> JNull then [(''result_id'', r)] else []) @ (if run \<noteq> JNull then [(''run_id'', run)] else []))
     ''done'') t jid"
  "job_mark_failed t jid err = set_status_record ''job_id''
     (job_step (t, if truthy err then [(''error'', err)] else []) ''failed'') t jid"
  "job_cancel t jid = set_status_record ''job_id'' (job_step (t, []) ''cancelled'') t jid"
  by (simp_all add: job_moves job_set_def job_step_safe safe_fields_def)

lemma job_moves_keep [keeps]:
  "preserves (store_ok ''job_id'') (job_mark_running t jid)"
  "preserves (store_ok ''job_id'') (job_mark_done t jid r run)"
  "preserves (store_ok ''job_id'') (job_mark_failed t jid err)"
  "preserves (store_ok ''job_id'') (job_cancel t jid)"
  unfolding job_moves_safe by (rule jobs.set_status_keeps)+

lemma job_add_keeps [keeps]: "preserves (store_ok ''job_id'') (job_add t j)"
  unfolding job_add_def by (rule add_record_keeps)

text \<open>Every sequence of the store's calls, with any arguments and answers of clock and disk.\<close>

inductive job_run :: "rec_store \<Rightarrow> rec_store \<Rightarrow> bool" where
  finish: "job_run s s"
| add: "job_add t j s = (r, s') \<Longrightarrow> job_run s' s'' \<Longrightarrow> job_run s s''"
| running: "job_mark_running t jid s = (r, s') \<Longrightarrow> job_run s' s'' \<Longrightarrow> job_run s s''"
| finished: "job_mark_done t jid res run s = (r, s') \<Longrightarrow> job_run s' s'' \<Longrightarrow> job_run s s''"
| failed: "job_mark_failed t jid err s = (r, s') \<Longrightarrow> job_run s' s'' \<Longrightarrow> job_run s s''"
| cancel: "job_cancel t jid s = (r, s') \<Longrightarrow> job_run s' s'' \<Longrightarrow> job_run s s''"

lemma job_run_record: "job_run s s' \<Longrightarrow> record_run ''job_id'' ''job'' job_step s s'"
  by (induction rule: job_run.induct)
     (auto simp: job_add_def job_moves_safe intro: record_run.intros)

subsection \<open>Properties\<close>

definition forward_job :: "string \<Rightarrow> string \<Rightarrow> bool" where
  "forward_job st st' \<longleftrightarrow>
     st = ''queued'' \<and> st' \<in> {''running'', ''done'', ''failed'', ''cancelled''} \<or>
     st = ''running'' \<and> st' \<in> {''done'', ''failed'', ''cancelled''}"

text \<open>
  Life of a job. Along any sequence of store calls a job is never lost; it is unchanged or has
  moved from queued to running or cancelled, or from queued or running to a terminal status, and a
  done, failed or cancelled job never changes again.
\<close>

theorem job_history:
  assumes "store_ok ''job_id'' s" and "job_run s s'" and "map_of (mem s) k = Some j"
  shows "\<exists>q. map_of (mem s') k = Some q \<and>
    (q = j \<or> (\<exists>st st'. status_of ''queued'' j = JStr st \<and> status_of ''queued'' q = JStr st' \<and>
       forward_job st st'))"
proof -
  obtain q where q: "map_of (mem s') k = Some q" and
    ev: "q = j \<or> (\<exists>st st' n. status_of ''queued'' j = JStr st \<and> status_of ''queued'' q = JStr st' \<and>
       status_path job_TRANSITIONS st (Suc n) st' \<and> st' \<noteq> st \<and> Suc n \<le> job_rank st)"
    using jobs.run_history [OF assms(1) job_run_record [OF assms(2)] assms(3)] by blast
  have "forward_job st st'" if "status_path job_TRANSITIONS st (Suc n) st'" for st st' n
  proof -
    from that obtain t where t: "t \<in> set (successors job_TRANSITIONS st)" "status_path job_TRANSITIONS t n st'"
      by blast
    have "u = t \<or> t = ''running'' \<and> u \<in> {''done'', ''failed'', ''cancelled''}"
      if "status_path job_TRANSITIONS t n u" "t \<noteq> ''queued''" for t n u
      using that
    proof (cases rule: status_path.cases)
      case (move v m)
      then have v: "t = ''running''" "v \<in> {''done'', ''failed'', ''cancelled''}"
        using that(2) by (auto simp: successors_job split: if_splits)
      then have "successors job_TRANSITIONS v = []" by (auto simp: successors_job)
      with v jobs.terminal_path move(3) show ?thesis by blast
    qed simp
    from this [OF t(2)] t(1) show ?thesis by (auto simp: forward_job_def successors_job split: if_splits)
  qed
  with q ev show ?thesis by blast
qed

text \<open>
  Marking done. On a stored job with a string id, \<open>mark_done\<close> succeeds exactly when the job is
  running; the job then is done and carries the result and run ids of the call, its fingerprint
  and id unchanged. Otherwise it raises and changes nothing; so does \<open>cancel\<close> on a finished job.
\<close>

theorem job_mark_done_spec:
  assumes ok: "store_ok ''job_id'' s" and j: "map_of (mem s) (KStr i) = Some j"
    and st: "status_of ''queued'' j = JStr st"
  shows "(if st = ''running''
     then \<exists>q s'. job_mark_done t (JStr i) (JStr res) (JStr run) s = (Inr q, s') \<and>
       map_of (mem s') = (map_of (mem s))(KStr i \<mapsto> q) \<and> dget q ''status'' = JStr ''done'' \<and>
       dget q ''result_id'' = JStr res \<and> dget q ''run_id'' = JStr run \<and>
       dget q ''inputs_fingerprint'' = dget j ''inputs_fingerprint'' \<and> dget q ''job_id'' = dget j ''job_id''
     else \<exists>e. job_mark_done t (JStr i) (JStr res) (JStr run) s = (Inl e, s)) \<and>
    (if st \<in> {''queued'', ''running''}
     then \<exists>q s'. job_cancel t (JStr i) s = (Inr q, s') \<and> dget q ''status'' = JStr ''cancelled''
     else \<exists>e. job_cancel t (JStr i) s = (Inl e, s))"
proof -
  have eq: "set_status_record ''job_id'' (job_step (t, fs) new) t (JStr i) s =
    (case job_step (t, fs) new j of
       Inl e \<Rightarrow> (Inl e, s)
     | Inr q \<Rightarrow> (Inr q, snd (persist_record ''job_id'' t q (s\<lparr>mem := AList.update (KStr i) q (mem s)\<rparr>))))"
    for fs new
    using j unfolding jobs.set_status_str [OF ok] by simp
  have step: "job_step (t, fs) new j =
    (if new \<in> set (successors job_TRANSITIONS st)
     then Inr (dset ''updated_at'' (JStr (stamp t)) (dset ''status'' (JStr new) (dict_update j fs)))
     else Inl (bad_transition (JStr st) new (successors job_TRANSITIONS st)))" if "safe_fields fs" for fs new
    using st that by (simp add: job_step_safe job_transition_def Let_def status_of_def)
  have safe: "safe_fields [(''result_id'', JStr res), (''run_id'', JStr run)]" "safe_fields []"
    by (simp_all add: safe_fields_def)
  show ?thesis
    by (auto simp: job_moves_safe eq step safe successors_job fun_eq_iff)
qed

subsection \<open>The freshness guard\<close>

definition job_created :: "dict \<Rightarrow> string" where
  "job_created j = (case dget_or j ''created_at'' (JStr []) of JStr s \<Rightarrow> s | _ \<Rightarrow> [])"

definition reusable :: "string \<Rightarrow> rec_store \<Rightarrow> dict \<Rightarrow> bool" where
  "reusable fp s j \<longleftrightarrow> (\<exists>k. map_of (mem s) k = Some j) \<and> dget j ''status'' = JStr ''done'' \<and>
     dget j ''inputs_fingerprint'' = JStr fp"

text \<open>
  The freshness guard. When the jobs' creation stamps are strings (or absent), \<open>fresh_done\<close>
  returns: nothing exactly when no stored job is done with that fingerprint, and otherwise such a
  job, created no earlier than any other such job. A queued, running, failed or cancelled job is
  never reused.
\<close>

lemma fresh_done_spec:
  assumes "store_ok ''job_id'' s" and "fp \<noteq> []"
    and stamps: "\<forall>k j. map_of (mem s) k = Some j \<longrightarrow> is_str (dget_or j ''created_at'' (JStr []))"
  shows "\<exists>r. fresh_done (JStr fp) s = Inr r \<and>
    (case r of
       None \<Rightarrow> \<forall>j. \<not> reusable fp s j
     | Some j \<Rightarrow> reusable fp s j \<and> (\<forall>j'. reusable fp s j' \<longrightarrow> \<not> str_less (job_created j) (job_created j')))"
proof -
  have dist: "distinct (map fst (mem s))" using assms(1) by (simp add: store_ok_def)
  let ?dn = "with_status (JStr ''done'') (map snd (mem s))"
  have vals: "set ?dn = {j. (\<exists>k. map_of (mem s) k = Some j) \<and> dget j ''status'' = JStr ''done''}"
    using vals_map_of [OF dist] by (auto simp: with_status_def)
  then have "dget_or j ''created_at'' (JStr []) = JStr (job_created j)" if "j \<in> set ?dn" for j
    using that stamps by (fastforce simp: job_created_def is_str_conv)
  from sorted_desc_strings [where f = "\<lambda>j. dget_or j ''created_at'' (JStr [])", OF this]
  obtain js where js: "job_list (JStr ''done'') s = Inr js" "mset js = mset ?dn"
    and srt: "sorted_wrt (\<lambda>a b. \<not> str_less (job_created a) (job_created b)) js"
    unfolding job_list_def by blast
  define hits where "hits = filter (\<lambda>j. py_eq (dget j ''inputs_fingerprint'') (JStr fp)) js"
  have set: "set hits = {j. reusable fp s j}"
    using mset_eq_setD [OF js(2)] vals by (auto simp: hits_def reusable_def)
  have hits_srt: "sorted_wrt (\<lambda>a b. \<not> str_less (job_created a) (job_created b)) hits"
    unfolding hits_def using srt by (rule sorted_wrt_filter)
  have "fresh_done (JStr fp) s = Inr (case hits of [] \<Rightarrow> None | j # _ \<Rightarrow> Some j)"
    using js(1) \<open>fp \<noteq> []\<close> by (simp add: fresh_done_def hits_def)
  moreover have "\<forall>j. \<not> reusable fp s j" if "hits = []" using set that by auto
  moreover have "reusable fp s j \<and> (\<forall>j'. reusable fp s j' \<longrightarrow> \<not> str_less (job_created j) (job_created j'))"
    if "hits = j # rest" for j rest
  proof -
    have "\<not> str_less (job_created j) (job_created j')" if "j' \<in> set hits" for j'
      using that hits_srt \<open>hits = j # rest\<close> by auto
    with set \<open>hits = j # rest\<close> show ?thesis by auto
  qed
  ultimately show ?thesis by (cases hits) auto
qed

text \<open>
  Creation. A new job gets a string id, the queued status and a fingerprint computed from its
  cellview and test unless the client supplies them; what the client supplies is kept, the status
  included.
\<close>

theorem make_job_spec:
  "dget (make_job t (JObj d)) ''status'' = dget_or d ''status'' (JStr ''queued'') \<and>
   dget (make_job t (JObj d)) ''job_id'' =
     (if truthy (dget d ''job_id'') then dget d ''job_id'' else JStr (''job_'' @ uid t)) \<and>
   dget (make_job t (JObj d)) ''inputs_fingerprint'' =
     (if truthy (dget d ''inputs_fingerprint'') then dget d ''inputs_fingerprint''
      else JStr (compute_fingerprint (dget d ''cellview'') (dget d ''test'') JNull)) \<and>
   dget (make_job t (JObj d)) ''updated_at'' = JStr (stamp t)"
  by (simp add: make_job_def Let_def)

subsection \<open>Concrete instances\<close>

definition demo_job :: "string \<Rightarrow> dict" where
  "demo_job st = [(''job_id'', JStr ''job_1''), (''status'', JStr st),
     (''inputs_fingerprint'', JStr ''fp_1''), (''created_at'', JStr ''2026-01-01T00:00:00'')]"

definition demo_jobs :: "string \<Rightarrow> rec_store" where
  "demo_jobs st = \<lparr>mem = [(KStr ''job_1'', demo_job st)], disk = []\<rparr>"

lemma demo_jobs_ok [simp]: "store_ok ''job_id'' (demo_jobs st)"
  by (simp add: store_ok_def demo_jobs_def demo_job_def)

lemma demo_jobs_1 [simp]: "map_of (mem (demo_jobs st)) (KStr ''job_1'') = Some (demo_job st)"
  by (simp add: demo_jobs_def)

lemma demo_job_status [simp]: "status_of ''queued'' (demo_job st) = JStr st"
  by (simp add: status_of_def demo_job_def)

theorem job_history_witness:
  "\<exists>q. map_of (mem (snd (job_cancel (good_tick 3) (JStr ''job_1'') (demo_jobs ''done'')))) (KStr ''job_1'') = Some q \<and>
     q = demo_job ''done''"
proof -
  have "job_run (demo_jobs ''done'') (snd (job_cancel (good_tick 3) (JStr ''job_1'') (demo_jobs ''done'')))"
    by (rule job_run.cancel [OF prod.collapse [symmetric] job_run.finish])
  from job_history [OF demo_jobs_ok this demo_jobs_1] show ?thesis by (auto simp: forward_job_def)
qed

theorem job_mark_done_spec_witness:
  "\<exists>q s'. job_mark_done (good_tick 3) (JStr ''job_1'') (JStr ''r_1'') (JStr ''run_1'') (demo_jobs ''running'') = (Inr q, s') \<and>
     dget q ''result_id'' = JStr ''r_1''"
  using job_mark_done_spec [OF demo_jobs_ok demo_jobs_1 demo_job_status [of "''running''"],
    where t = "good_tick 3" and res = "''r_1''" and run = "''run_1''"]
  by auto

end
