(* ===== verification/Sessions.thy ===== *)
theory Sessions
  imports Record_Store
begin

section \<open>Sessions\<close>

text \<open>
  \<open>session/registry.py\<close>: one record per connected client. A client that reports the process id
  and start time of its Virtuoso is recognised when it reconnects; idle sessions are reaped.
  Records are changed in place, so a session keeps its place in the dictionary.

  The state is a \<open>rec_store\<close> with the id field \<open>session_id\<close>; where the code iterates over the
  dictionary's keys the model reads the id field of the record.
\<close>

subsection \<open>Fingerprints\<close>

definition client_text :: "dict \<Rightarrow> string \<Rightarrow> string" where
  "client_text c k = strip (py_str (py_or (dget c k) (JStr [])))"

fun session_fingerprint :: "json \<Rightarrow> (string \<times> string) option" where
  "session_fingerprint (JObj c) =
     (let pid = client_text c ''virtuoso_pid''; start = client_text c ''virtuoso_start''
      in if pid \<noteq> [] \<and> start \<noteq> [] then Some (pid, start) else None)"
| "session_fingerprint _ = None"

subsection \<open>Store\<close>

definition Registry_load :: "(string \<times> doc) list \<Rightarrow> exn + rec_store" where
  "Registry_load files = map_sum id (\<lambda>m. \<lparr>mem = m, disk = files\<rparr>) (load_records ''session_id'' [] files)"

definition session_persist :: "tick \<Rightarrow> dict \<Rightarrow> (rec_store, exn, unit) op" where
  "session_persist = persist_record ''session_id''"

text \<open>The first record with the fingerprint, in the order of the dictionary.\<close>

fun find_fingerprint :: "string \<times> string \<Rightarrow> (pkey \<times> dict) list \<Rightarrow> (pkey \<times> dict) option" where
  "find_fingerprint fp [] = None"
| "find_fingerprint fp ((k, rec) # m) =
     (if session_fingerprint (dget rec ''client'') = Some fp then Some (k, rec) else find_fingerprint fp m)"

text \<open>\<open>x + 1\<close>\<close>

fun plus_one :: "json \<Rightarrow> exn + json" where
  "plus_one (JInt i) = Inr (JInt (i + 1))"
| "plus_one (JBool b) = Inr (JInt (if b then 2 else 1))"
| "plus_one (JFloat x) = Inr (JFloat (flt_sub x (Fin (- 1))))"
| "plus_one (JStr s) = Inl (TypeError (''can only concatenate str (not '' @ CHR 0x22 # ''int'' @ CHR 0x22 # '') to str''))"
| "plus_one (JList xs) = Inl (TypeError (''can only concatenate list (not '' @ CHR 0x22 # ''int'' @ CHR 0x22 # '') to list''))"
| "plus_one v = Inl (TypeError (''unsupported operand type(s) for +: '' @ CHR 0x27 # type_name v @ CHR 0x27 #
     '' and '' @ CHR 0x27 # ''int'' @ [CHR 0x27]))"

definition seen_record :: "tick \<Rightarrow> dict \<Rightarrow> dict" where
  "seen_record t rec = dset ''_last_ts'' (now_json t) (dset ''last_seen'' (JStr (stamp t)) rec)"

definition new_session :: "tick \<Rightarrow> json \<Rightarrow> dict" where
  "new_session t client =
     [(''session_id'', JStr (''s_'' @ uid t)), (''client'', client), (''created_at'', JStr (stamp t)),
      (''last_seen'', JStr (stamp t)), (''reconnects'', JInt 0), (''_created_ts'', now_json t),
      (''_last_ts'', now_json t)]"

definition session_register :: "tick \<Rightarrow> json \<Rightarrow> (rec_store, exn, dict) op" where
  "session_register t client0 s =
     (let client = py_or client0 (JObj []);
          existing = (case session_fingerprint client of
                        None \<Rightarrow> None
                      | Some fp \<Rightarrow> find_fingerprint fp (mem s))
      in case existing of
           Some (k, rec0) \<Rightarrow>
             (let rec1 = seen_record t (dset ''client'' client rec0)
              in case plus_one (dget_or rec1 ''reconnects'' (JInt 0)) of
                   Inl e \<Rightarrow> (Inl e, s\<lparr>mem := AList.update k rec1 (mem s)\<rparr>)
                 | Inr n \<Rightarrow>
                     (let rec2 = dset ''reconnects'' n rec1
                      in seq (session_persist t rec2) (ret rec2) (s\<lparr>mem := AList.update k rec2 (mem s)\<rparr>)))
         | None \<Rightarrow>
             (let rec2 = new_session t client
              in seq (session_persist t rec2) (ret rec2)
                   (s\<lparr>mem := AList.update (KStr (''s_'' @ uid t)) rec2 (mem s)\<rparr>)))"

text \<open>\<open>v < cutoff\<close> over all the records; the first pair without an order raises.\<close>

fun idle_sessions :: "pyfloat \<Rightarrow> (pkey \<times> dict) list \<Rightarrow> exn + (pkey \<times> dict) list" where
  "idle_sessions cutoff [] = Inr []"
| "idle_sessions cutoff ((k, r) # m) =
     (case py_lt (dget_or r ''_last_ts'' (JInt 0)) (JFloat cutoff) of
        Inl e \<Rightarrow> Inl e
      | Inr b \<Rightarrow> map_sum id (\<lambda>rs. if b then (k, r) # rs else rs) (idle_sessions cutoff m))"

fun unlink_sessions :: "tick \<Rightarrow> json list \<Rightarrow> (rec_store, exn, unit) op" where
  "unlink_sessions t [] s = (Inr (), s)"
| "unlink_sessions t (JStr i # sids) s =
     unlink_sessions t sids
       (if write_ok t \<and> plain_name i then s\<lparr>disk := AList.delete (i @ ''.json'') (disk s)\<rparr> else s)"
| "unlink_sessions t (v # sids) s = (Inl (not_str_plus v), s)"

text \<open>The idle limit is a number: the configured int, or a float of the client's.\<close>

definition session_reap :: "tick \<Rightarrow> json \<Rightarrow> (rec_store, exn, json list) op" where
  "session_reap t max_idle s =
     (case as_num max_idle of
        None \<Rightarrow> (Inl (no_order max_idle (JInt 0)), s)
      | Some x \<Rightarrow>
          (if \<not> truthy max_idle \<or> flt_le x (Fin 0) then (Inr [], s)
           else case float_minus (Fin (now t)) max_idle of
                  Inl e \<Rightarrow> (Inl e, s)
                | Inr cutoff \<Rightarrow>
                    (case idle_sessions cutoff (mem s) of
                       Inl e \<Rightarrow> (Inl e, s)
                     | Inr removed \<Rightarrow>
                         (let sids = map (\<lambda>(k, r). dget r ''session_id'') removed
                          in seq (unlink_sessions t sids) (ret sids)
                               (s\<lparr>mem := filter (\<lambda>(k, r). k \<notin> fst ` set removed) (mem s)\<rparr>)))))"

definition session_touch :: "tick \<Rightarrow> json \<Rightarrow> (rec_store, exn, dict option) op" where
  "session_touch t sid s =
     (case lookup_record s sid of
        Inl e \<Rightarrow> (Inl e, s)
      | Inr None \<Rightarrow> (Inr None, s)
      | Inr (Some rec0) \<Rightarrow>
          (case py_key sid of
             Inl e \<Rightarrow> (Inl e, s)
           | Inr k \<Rightarrow>
               (let rec1 = seen_record t rec0
                in seq (session_persist t rec1) (ret (Some rec1)) (s\<lparr>mem := AList.update k rec1 (mem s)\<rparr>))))"

definition session_get :: "rec_store \<Rightarrow> json \<Rightarrow> exn + dict option" where
  "session_get s sid = lookup_record s sid"

definition session_list :: "rec_store \<Rightarrow> exn + dict list" where
  "session_list s = sorted_by (\<lambda>r. dget_or r ''_created_ts'' (JInt 0)) (map snd (mem s))"

text \<open>\<open>max(values, key=...)\<close>: the first of the greatest.\<close>

fun max_by :: "('a \<Rightarrow> json) \<Rightarrow> 'a \<Rightarrow> 'a list \<Rightarrow> exn + 'a" where
  "max_by f best [] = Inr best"
| "max_by f best (x # xs) =
     (case py_lt (f best) (f x) of
        Inl e \<Rightarrow> Inl e
      | Inr b \<Rightarrow> max_by f (if b then x else best) xs)"

definition session_current :: "rec_store \<Rightarrow> exn + dict option" where
  "session_current s =
     (case map snd (mem s) of
        [] \<Rightarrow> Inr None
      | r # rs \<Rightarrow> map_sum id Some (max_by (\<lambda>r. dget_or r ''_last_ts'' (JInt 0)) r rs))"

definition public :: "dict \<Rightarrow> dict" where
  "public rec = filter (\<lambda>(k, v). \<not> startswith k ''_'') rec"

subsection \<open>The registry invariant\<close>

text \<open>
  What the registry itself writes: string ids, float times, an int count; and no two sessions
  with one fingerprint.
\<close>

definition session_rec :: "pkey \<Rightarrow> dict \<Rightarrow> bool" where
  "session_rec k r \<longleftrightarrow> (\<exists>i. k = KStr i \<and> dget r ''session_id'' = JStr i) \<and>
     (\<exists>q. dget r ''_last_ts'' = JFloat (Fin q)) \<and> (\<exists>q. dget r ''_created_ts'' = JFloat (Fin q)) \<and>
     (\<exists>n. dget r ''reconnects'' = JInt n)"

definition one_per_process :: "(pkey \<times> dict) list \<Rightarrow> bool" where
  "one_per_process m \<longleftrightarrow>
     (\<forall>k k' r r'. map_of m k = Some r \<and> map_of m k' = Some r' \<and>
        session_fingerprint (dget r ''client'') \<noteq> None \<and>
        session_fingerprint (dget r ''client'') = session_fingerprint (dget r' ''client'') \<longrightarrow> k = k')"

definition registry_ok :: "rec_store \<Rightarrow> bool" where
  "registry_ok s \<longleftrightarrow> distinct (map fst (mem s)) \<and>
     (\<forall>k r. map_of (mem s) k = Some r \<longrightarrow> session_rec k r) \<and> one_per_process (mem s)"

lemma registry_ok_mem: "registry_ok s \<Longrightarrow> mem s' = mem s \<Longrightarrow> registry_ok s'"
  by (simp add: registry_ok_def)

lemma mem_session_persist [simp]: "mem (snd (session_persist t r s)) = mem s"
  by (simp add: session_persist_def)

lemma session_persist_ok:
  "session_rec k r \<Longrightarrow> fst (session_persist t r s) = Inr ()"
  by (auto simp: session_rec_def session_persist_def intro: persist_record_str)

lemma seq_session_persist:
  "session_rec k r \<Longrightarrow> seq (session_persist t r) (ret x) s = (Inr x, snd (session_persist t r s))"
  using session_persist_ok [of k r t s] by (simp add: seq_ret)

lemma find_fingerprint_Some:
  "find_fingerprint fp m = Some (k, r) \<Longrightarrow>
   (k, r) \<in> set m \<and> session_fingerprint (dget r ''client'') = Some fp"
  by (induction m) (auto split: if_splits)

lemma find_fingerprint_None:
  "find_fingerprint fp m = None \<longleftrightarrow> (\<forall>(k, r) \<in> set m. session_fingerprint (dget r ''client'') \<noteq> Some fp)"
  by (induction fp m rule: find_fingerprint.induct) auto

lemma seen_record_simps [simp]:
  "dget (seen_record t r) f =
     (if f = ''_last_ts'' then now_json t else if f = ''last_seen'' then JStr (stamp t) else dget r f)"
  "dget_or (seen_record t r) ''reconnects'' v = dget_or r ''reconnects'' v"
  by (simp_all add: seen_record_def)

lemma session_rec_seen: "session_rec k r \<Longrightarrow> session_rec k (seen_record t r)"
  by (auto simp: session_rec_def now_json_def)

lemma session_rec_new: "session_rec (KStr (''s_'' @ uid t)) (new_session t c)"
  by (simp add: session_rec_def new_session_def now_json_def)

text \<open>The two outcomes of a registration in a store that satisfies the invariant.\<close>

lemma session_register_cases:
  assumes ok: "registry_ok s"
  obtains (reuse) k r0 r fp where "map_of (mem s) k = Some r0"
      "session_fingerprint (py_or c (JObj [])) = Some fp" "session_fingerprint (dget r0 ''client'') = Some fp"
      "r = dset ''reconnects'' (JInt (1 + (case dget r0 ''reconnects'' of JInt n \<Rightarrow> n | _ \<Rightarrow> 0)))
             (seen_record t (dset ''client'' (py_or c (JObj [])) r0))"
      "session_rec k r"
      "session_register t c s = (Inr r, snd (session_persist t r (s\<lparr>mem := AList.update k r (mem s)\<rparr>)))"
    | (fresh) r where "r = new_session t (py_or c (JObj []))"
      "\<And>fp k q. session_fingerprint (py_or c (JObj [])) = Some fp \<Longrightarrow> map_of (mem s) k = Some q \<Longrightarrow>
         session_fingerprint (dget q ''client'') \<noteq> Some fp"
      "session_register t c s = (Inr r, snd (session_persist t r
         (s\<lparr>mem := AList.update (KStr (''s_'' @ uid t)) r (mem s)\<rparr>)))"
proof (cases "case session_fingerprint (py_or c (JObj [])) of None \<Rightarrow> None
    | Some fp \<Rightarrow> find_fingerprint fp (mem s)")
  case None
  define r where "r = new_session t (py_or c (JObj []))"
  have "session_rec (KStr (''s_'' @ uid t)) r" unfolding r_def by (rule session_rec_new)
  with None have eq: "session_register t c s = (Inr r, snd (session_persist t r
      (s\<lparr>mem := AList.update (KStr (''s_'' @ uid t)) r (mem s)\<rparr>)))"
    by (simp add: session_register_def Let_def r_def [symmetric] seq_session_persist)
  have "session_fingerprint (dget q ''client'') \<noteq> Some fp"
    if "session_fingerprint (py_or c (JObj [])) = Some fp" "map_of (mem s) k = Some q" for fp k q
    using None that find_fingerprint_None [of fp "mem s"] by (auto dest: map_of_SomeD)
  with eq r_def fresh show ?thesis by blast
next
  case (Some x)
  obtain k r0 where x: "x = (k, r0)" by fastforce
  with Some obtain fp where fp: "session_fingerprint (py_or c (JObj [])) = Some fp"
    and f: "find_fingerprint fp (mem s) = Some (k, r0)" by (auto split: option.splits)
  from find_fingerprint_Some [OF f] have m: "map_of (mem s) k = Some r0"
    and fp0: "session_fingerprint (dget r0 ''client'') = Some fp"
    using ok by (auto simp: registry_ok_def)
  with ok have sr: "session_rec k r0" by (simp add: registry_ok_def)
  then obtain n where n: "dget r0 ''reconnects'' = JInt n" by (auto simp: session_rec_def)
  define r where "r = dset ''reconnects'' (JInt (1 + n)) (seen_record t (dset ''client'' (py_or c (JObj [])) r0))"
  have rec: "session_rec k r"
    using sr by (auto simp: session_rec_def r_def now_json_def)
  have "dget_or r0 ''reconnects'' (JInt 0) = JInt n" using n by (simp add: dget_or_present)
  with rec fp f have "session_register t c s = (Inr r, snd (session_persist t r (s\<lparr>mem := AList.update k r (mem s)\<rparr>)))"
    by (simp add: session_register_def Let_def seq_session_persist add.commute r_def)
  with reuse [OF m fp fp0 _ rec] n show ?thesis by (simp add: r_def)
qed

lemma registry_ok_rec: "registry_ok s \<Longrightarrow> map_of (mem s) k = Some r \<Longrightarrow> session_rec k r"
  by (simp add: registry_ok_def)

lemma registry_ok_same:
  "\<lbrakk>registry_ok s; map_of (mem s) k = Some r; map_of (mem s) k' = Some r';
    session_fingerprint (dget r ''client'') = Some fp; session_fingerprint (dget r' ''client'') = Some fp\<rbrakk> \<Longrightarrow> k = k'"
  unfolding registry_ok_def one_per_process_def by (metis option.distinct(1))

subsection \<open>Every operation keeps the invariant\<close>

lemma registry_ok_update:
  assumes ok: "registry_ok s" and r: "session_rec k r"
    and fp: "\<And>k' q. map_of (mem s) k' = Some q \<Longrightarrow> k' \<noteq> k \<Longrightarrow> session_fingerprint (dget r ''client'') \<noteq> None \<Longrightarrow>
      session_fingerprint (dget q ''client'') \<noteq> session_fingerprint (dget r ''client'')"
  shows "registry_ok (s\<lparr>mem := AList.update k r (mem s)\<rparr>)"
  unfolding registry_ok_def
proof (intro conjI allI impI)
  show "distinct (map fst (mem (s\<lparr>mem := AList.update k r (mem s)\<rparr>)))"
    using ok by (simp add: registry_ok_def)
  show "session_rec k' r'" if "map_of (mem (s\<lparr>mem := AList.update k r (mem s)\<rparr>)) k' = Some r'" for k' r'
    using that ok r by (auto simp: registry_ok_def split: if_splits)
  have "one_per_process (mem s)" using ok by (simp add: registry_ok_def)
  then show "one_per_process (mem (s\<lparr>mem := AList.update k r (mem s)\<rparr>))"
    unfolding one_per_process_def by (auto split: if_splits) (metis fp option.distinct(1))+
qed

lemma session_register_keeps [keeps]: "preserves registry_ok (session_register t c)"
proof (rule preservesI)
  fix s assume ok: "registry_ok s"
  let ?c = "py_or c (JObj [])"
  from ok show "registry_ok (snd (session_register t c s))"
  proof (cases rule: session_register_cases [where c = c and t = t])
    case (reuse k r0 r fp)
    have client: "dget r ''client'' = ?c" using reuse(4) by simp
    have "registry_ok (s\<lparr>mem := AList.update k r (mem s)\<rparr>)"
    proof (rule registry_ok_update [OF ok reuse(5)])
      fix k' q assume "map_of (mem s) k' = Some q" "k' \<noteq> k"
      then show "session_fingerprint (dget q ''client'') \<noteq> session_fingerprint (dget r ''client'')"
        using registry_ok_same [OF ok reuse(1), of k' q fp] reuse(2,3) by (auto simp: client)
    qed
    then show ?thesis unfolding reuse(6) by (rule registry_ok_mem) simp
  next
    case (fresh r)
    have client: "dget r ''client'' = ?c" using fresh(1) by (simp add: new_session_def)
    have "session_rec (KStr (''s_'' @ uid t)) r" unfolding fresh(1) by (rule session_rec_new)
    then have "registry_ok (s\<lparr>mem := AList.update (KStr (''s_'' @ uid t)) r (mem s)\<rparr>)"
      by (rule registry_ok_update [OF ok]) (use fresh(2) in \<open>auto simp: client\<close>)
    then show ?thesis unfolding fresh(3) by (rule registry_ok_mem) simp
  qed
qed

lemma mem_unlink_sessions [simp]: "mem (snd (unlink_sessions t sids s)) = mem s"
  by (induction t sids s rule: unlink_sessions.induct) auto

lemma registry_ok_filter:
  assumes "registry_ok s"
  shows "registry_ok (s\<lparr>mem := filter (\<lambda>(k, r). P k) (mem s)\<rparr>)"
proof -
  have dist: "distinct (map fst (mem s))" using assms by (simp add: registry_ok_def)
  have sub: "map_of (mem s) k = Some r" if "map_of (filter (\<lambda>(k, r). P k) (mem s)) k = Some r" for k r
    using that filter_vals_map_of [OF dist, of "\<lambda>k r. P k" k] by (auto split: option.splits if_splits)
  have "distinct (map fst (filter (\<lambda>(k, r). P k) (mem s)))"
    using dist by (rule distinct_map_filter)
  moreover have "one_per_process (filter (\<lambda>(k, r). P k) (mem s))"
    unfolding one_per_process_def
  proof (intro allI impI, elim conjE)
    fix k k' r r'
    assume "map_of (filter (\<lambda>(k, r). P k) (mem s)) k = Some r" "map_of (filter (\<lambda>(k, r). P k) (mem s)) k' = Some r'"
      and fp: "session_fingerprint (dget r ''client'') \<noteq> None"
        "session_fingerprint (dget r ''client'') = session_fingerprint (dget r' ''client'')"
    then have "map_of (mem s) k = Some r" "map_of (mem s) k' = Some r'" using sub by blast+
    with fp show "k = k'" using registry_ok_same [OF assms, of k r k' r'] by auto
  qed
  moreover have "session_rec k r" if "map_of (filter (\<lambda>(k, r). P k) (mem s)) k = Some r" for k r
    using sub [OF that] by (rule registry_ok_rec [OF assms])
  ultimately show ?thesis by (simp add: registry_ok_def)
qed

lemma session_reap_keeps [keeps]: "preserves registry_ok (session_reap t limit)"
proof (rule preservesI)
  fix s assume ok: "registry_ok s"
  have "registry_ok (snd (seq (unlink_sessions t sids) (ret sids) (s\<lparr>mem := filter (\<lambda>(k, r). P k) (mem s)\<rparr>)))"
    for sids P
    using registry_ok_filter [OF ok, of P] by (rule registry_ok_mem) (simp add: seq_ret)
  with ok show "registry_ok (snd (session_reap t limit s))"
    by (auto simp: session_reap_def Let_def split: option.split sum.split)
qed

lemma session_touch_Some:
  assumes "registry_ok s" and "map_of (mem s) (KStr i) = Some r"
  shows "session_touch t (JStr i) s = (Inr (Some (seen_record t r)),
    snd (session_persist t (seen_record t r) (s\<lparr>mem := AList.update (KStr i) (seen_record t r) (mem s)\<rparr>)))"
proof -
  have "session_rec (KStr i) (seen_record t r)"
    using assms by (simp add: registry_ok_def session_rec_seen)
  with assms(2) show ?thesis
    by (simp add: session_touch_def lookup_record_def Let_def seq_session_persist)
qed

lemma session_touch_keeps [keeps]: "preserves registry_ok (session_touch t sid)"
proof (rule preservesI)
  fix s assume ok: "registry_ok s"
  show "registry_ok (snd (session_touch t sid s))"
  proof (cases "\<exists>k r. py_key sid = Inr k \<and> map_of (mem s) k = Some r")
    case True
    then obtain k r where k: "py_key sid = Inr k" and r: "map_of (mem s) k = Some r" by blast
    with ok have rec: "session_rec k r" by (simp add: registry_ok_def)
    have "registry_ok (s\<lparr>mem := AList.update k (seen_record t r) (mem s)\<rparr>)"
    proof (rule registry_ok_update [OF ok session_rec_seen [OF rec]])
      fix k' q assume "map_of (mem s) k' = Some q" "k' \<noteq> k"
        "session_fingerprint (dget (seen_record t r) ''client'') \<noteq> None"
      then show "session_fingerprint (dget q ''client'') \<noteq> session_fingerprint (dget (seen_record t r) ''client'')"
        using registry_ok_same [OF ok r, of k' q] by auto
    qed
    then have "registry_ok (snd (seq (session_persist t (seen_record t r)) (ret (Some (seen_record t r)))
        (s\<lparr>mem := AList.update k (seen_record t r) (mem s)\<rparr>)))"
      by (rule registry_ok_mem) (simp add: seq_ret)
    with k r show ?thesis by (simp add: session_touch_def lookup_record_def Let_def)
  next
    case False
    with ok show ?thesis
      by (auto simp: session_touch_def lookup_record_def split: sum.split option.split)
  qed
qed

inductive session_run :: "rec_store \<Rightarrow> rec_store \<Rightarrow> bool" where
  finish: "session_run s s"
| register: "session_register t c s = (r, s') \<Longrightarrow> session_run s' s'' \<Longrightarrow> session_run s s''"
| touch: "session_touch t sid s = (r, s') \<Longrightarrow> session_run s' s'' \<Longrightarrow> session_run s s''"
| reap: "session_reap t limit s = (r', s') \<Longrightarrow> session_run s' s'' \<Longrightarrow> session_run s s''"

lemma session_run_ok: "session_run s s' \<Longrightarrow> registry_ok s \<Longrightarrow> registry_ok s'"
proof (induction rule: session_run.induct)
  case (register t c s r s' s'')
  then show ?case using preserves_run [OF session_register_keeps] by blast
next
  case (touch t sid s r s' s'')
  then show ?case using preserves_run [OF session_touch_keeps] by blast
next
  case (reap t limit s r' s' s'')
  then show ?case using preserves_run [OF session_reap_keeps] by blast
qed

subsection \<open>Properties\<close>


text \<open>A stored session of that process, and the two shapes of a registration.\<close>

definition known_process :: "rec_store \<Rightarrow> json \<Rightarrow> bool" where
  "known_process s c \<longleftrightarrow> (\<exists>k q. map_of (mem s) k = Some q \<and> session_fingerprint c \<noteq> None \<and>
     session_fingerprint (dget q ''client'') = session_fingerprint c)"

definition reconnected :: "rec_store \<Rightarrow> rec_store \<Rightarrow> json \<Rightarrow> dict \<Rightarrow> bool" where
  "reconnected s s' c r \<longleftrightarrow> (\<exists>k q n. map_of (mem s) k = Some q \<and>
     session_fingerprint (dget q ''client'') = session_fingerprint c \<and>
     map_of (mem s') = (map_of (mem s))(k \<mapsto> r) \<and>
     dget r ''session_id'' = dget q ''session_id'' \<and> dget r ''created_at'' = dget q ''created_at'' \<and>
     dget q ''reconnects'' = JInt n \<and> dget r ''reconnects'' = JInt (n + 1))"

definition connected :: "tick \<Rightarrow> rec_store \<Rightarrow> rec_store \<Rightarrow> dict \<Rightarrow> bool" where
  "connected t s s' r \<longleftrightarrow> map_of (mem s') = (map_of (mem s))(KStr (''s_'' @ uid t) \<mapsto> r) \<and>
     dget r ''session_id'' = JStr (''s_'' @ uid t) \<and> dget r ''reconnects'' = JInt 0"

text \<open>
  Reconnection. Registering a client whose process is already known gives that session back:
  same id and creation time, the client data replaced, the reconnect count one higher, and no
  other session touched. An unknown or anonymous client gets a session under a new id and changes
  no other.
\<close>

theorem session_reconnect:
  assumes ok: "registry_ok s" and "truthy c"
  shows "\<exists>r s'. session_register t c s = (Inr r, s') \<and> dget r ''client'' = c \<and>
    dget r ''_last_ts'' = now_json t \<and>
    (if known_process s c then reconnected s s' c r else connected t s s' r)"
proof -
  have c: "py_or c (JObj []) = c" using \<open>truthy c\<close> by (simp add: py_or_def)
  from ok show ?thesis
  proof (cases rule: session_register_cases [where c = c and t = t])
    case (reuse k r0 r fp)
    from registry_ok_rec [OF ok reuse(1)] obtain n where n: "dget r0 ''reconnects'' = JInt n"
      by (auto simp: session_rec_def)
    have "reconnected s (snd (session_persist t r (s\<lparr>mem := AList.update k r (mem s)\<rparr>))) c r"
      unfolding reconnected_def using n reuse(1-4) c
      by (intro exI [of _ k] exI [of _ r0] exI [of _ n]) (simp add: fun_eq_iff add.commute)
    moreover have "dget r ''client'' = c" "dget r ''_last_ts'' = now_json t" using reuse(4) c by simp_all
    moreover have "known_process s c" using reuse(1-3) c by (auto simp: known_process_def)
    ultimately show ?thesis unfolding reuse(6) by simp
  next
    case (fresh r)
    have "\<not> known_process s c" using fresh(2) c by (fastforce simp: known_process_def)
    moreover have "connected t s (snd (session_persist t r (s\<lparr>mem := AList.update (KStr (''s_'' @ uid t)) r (mem s)\<rparr>))) r"
      using fresh(1) by (simp add: connected_def new_session_def fun_eq_iff)
    moreover have "dget r ''client'' = c" "dget r ''_last_ts'' = now_json t"
      using fresh(1) c by (simp_all add: new_session_def)
    ultimately show ?thesis unfolding fresh(3) by simp
  qed
qed

subsection \<open>Reaping\<close>

definition last_ts :: "dict \<Rightarrow> rat" where
  "last_ts r = (case dget r ''_last_ts'' of JFloat (Fin q) \<Rightarrow> q | _ \<Rightarrow> 0)"

lemma session_rec_last: "session_rec k r \<Longrightarrow> dget_or r ''_last_ts'' v = JFloat (Fin (last_ts r))"
  by (auto simp: session_rec_def last_ts_def dget_or_present)

lemma idle_sessions_eq:
  "(\<And>k r. (k, r) \<in> set m \<Longrightarrow> session_rec k r) \<Longrightarrow>
   idle_sessions cutoff m = Inr (filter (\<lambda>(k, r). flt_less (Fin (last_ts r)) cutoff) m)"
proof (induction m)
  case (Cons x m)
  obtain k r where x: "x = (k, r)" by fastforce
  have "session_rec k r" by (rule Cons.prems) (simp add: x)
  moreover have "idle_sessions cutoff m = Inr (filter (\<lambda>(k, r). flt_less (Fin (last_ts r)) cutoff) m)"
    by (rule Cons.IH) (rule Cons.prems, simp)
  ultimately show ?case by (simp add: x session_rec_last)
qed simp

lemma unlink_sessions_str: "list_all is_str sids \<Longrightarrow> fst (unlink_sessions t sids s) = Inr ()"
  by (induction t sids s rule: unlink_sessions.induct) auto

text \<open>
  Reaping. With a positive limit of whole seconds, a reap removes exactly the sessions whose
  last heartbeat is older than the limit at the time of the call, returns their ids and leaves the
  others as they are; with a limit of zero or less it does nothing.
\<close>

theorem session_reap_exact:
  assumes ok: "registry_ok s" and small: "\<bar>limit\<bar> < 2 ^ 53"
  shows "\<exists>sids s'. session_reap t (JInt limit) s = (Inr sids, s') \<and>
    (if limit \<le> 0 then sids = [] \<and> s' = s
     else (\<forall>k. map_of (mem s') k =
            (case map_of (mem s) k of
               Some r \<Rightarrow> if flt_less (Fin (last_ts r)) (to_double (now t - of_int limit)) then None else Some r
             | None \<Rightarrow> None)) \<and>
       set sids = {JStr i | i r. map_of (mem s) (KStr i) = Some r \<and>
          flt_less (Fin (last_ts r)) (to_double (now t - of_int limit))})"
proof (cases "limit \<le> 0")
  case True
  then show ?thesis by (simp add: session_reap_def)
next
  case False
  let ?P = "\<lambda>r. flt_less (Fin (last_ts r)) (to_double (now t - of_int limit))"
  let ?idle = "filter (\<lambda>(k, r). ?P r) (mem s)"
  let ?sids = "map (\<lambda>(k, r). dget r ''session_id'') ?idle"
  have dist: "distinct (map fst (mem s))" using ok by (simp add: registry_ok_def)
  have rec: "session_rec k r" if "(k, r) \<in> set (mem s)" for k r
    using that registry_ok_rec [OF ok, of k r] dist by simp
  have idle: "idle_sessions (to_double (now t - of_int limit)) (mem s) = Inr ?idle"
    using rec by (rule idle_sessions_eq)
  have cut: "float_minus (Fin (now t)) (JInt limit) = Inr (to_double (now t - of_int limit))"
    using to_double_int [OF small] by simp
  have id: "\<exists>i. k = KStr i \<and> dget r ''session_id'' = JStr i" if "(k, r) \<in> set (mem s)" for k r
    using rec [OF that] by (simp add: session_rec_def)
  then have "is_str (dget r ''session_id'')" if "(k, r) \<in> set (mem s)" for k r
    using that by fastforce
  then have "list_all is_str ?sids" by (auto simp: list_all_iff)
  then have "fst (unlink_sessions t ?sids s0) = Inr ()" for s0 by (rule unlink_sessions_str)
  then have "session_reap t (JInt limit) s = (Inr ?sids, snd (unlink_sessions t ?sids
      (s\<lparr>mem := filter (\<lambda>(k, r). k \<notin> fst ` set ?idle) (mem s)\<rparr>)))"
    using False cut idle by (simp add: session_reap_def Let_def seq_ret)
  moreover have "map_of (filter (\<lambda>(k, r). k \<notin> fst ` set ?idle) (mem s)) k =
      (case map_of (mem s) k of Some r \<Rightarrow> if ?P r then None else Some r | None \<Rightarrow> None)" for k
  proof -
    have "k \<in> fst ` set ?idle \<longleftrightarrow> ?P r" if "map_of (mem s) k = Some r" for r
    proof
      assume "k \<in> fst ` set ?idle"
      then obtain r' where "(k, r') \<in> set (mem s)" "?P r'" by auto
      with that dist show "?P r" by simp
    next
      assume "?P r"
      with that show "k \<in> fst ` set ?idle" by (force dest: map_of_SomeD)
    qed
    then show ?thesis
      using filter_vals_map_of [OF dist, of "\<lambda>k r. k \<notin> fst ` set ?idle" k]
      by (cases "map_of (mem s) k") auto
  qed
  moreover have "set ?sids = {JStr i | i r. map_of (mem s) (KStr i) = Some r \<and> ?P r}"
  proof (rule set_eqI, rule iffI)
    fix v assume "v \<in> set ?sids"
    then obtain k r where kr: "(k, r) \<in> set (mem s)" "?P r" "v = dget r ''session_id''" by auto
    from id [OF kr(1)] obtain i where "k = KStr i" "v = JStr i" using kr(3) by auto
    with kr(1,2) dist show "v \<in> {JStr i | i r. map_of (mem s) (KStr i) = Some r \<and> ?P r}" by auto
  next
    fix v assume "v \<in> {JStr i | i r. map_of (mem s) (KStr i) = Some r \<and> ?P r}"
    then obtain i r where ir: "v = JStr i" "(KStr i, r) \<in> set (mem s)" "?P r" by (auto dest: map_of_SomeD)
    from id [OF ir(2)] have "dget r ''session_id'' = JStr i" by simp
    with ir show "v \<in> set ?sids" by (auto intro!: image_eqI [where x = "(KStr i, r)"])
  qed
  ultimately show ?thesis using False by simp
qed

subsection \<open>The current session and the public view\<close>

lemma max_by_spec:
  assumes "\<And>x. x \<in> set (b # xs) \<Longrightarrow> f x = JFloat (Fin (g x))"
  shows "\<exists>y. max_by f b xs = Inr y \<and> y \<in> set (b # xs) \<and> (\<forall>x \<in> set (b # xs). g x \<le> g y)"
  using assms
proof (induction f b xs rule: max_by.induct)
  case (2 f b x xs)
  define c where "c = (if g b < g x then x else b)"
  have lt: "py_lt (f b) (f x) = Inr (g b < g x)" using 2(2) [of b] 2(2) [of x] by simp
  have "f z = JFloat (Fin (g z))" if "z \<in> set (c # xs)" for z
    using that by (intro 2(2)) (auto simp: c_def split: if_splits)
  then obtain y where "max_by f c xs = Inr y" "y \<in> set (c # xs)" "\<forall>z \<in> set (c # xs). g z \<le> g y"
    using 2(1) [OF lt] unfolding c_def [symmetric] by blast
  then show ?case
    unfolding max_by.simps lt sum.case c_def [symmetric] by (auto simp: c_def split: if_splits)
qed simp

text \<open>
  The current session. On a registry that keeps its invariant, \<open>current\<close> answers None exactly
  when there are no sessions, and otherwise a stored session with the latest heartbeat.
\<close>

theorem session_current_latest:
  assumes ok: "registry_ok s"
  shows "\<exists>c. session_current s = Inr c \<and>
    (case c of
       None \<Rightarrow> mem s = []
     | Some r \<Rightarrow> (\<exists>k. map_of (mem s) k = Some r) \<and>
         (\<forall>k q. map_of (mem s) k = Some q \<longrightarrow> last_ts q \<le> last_ts r))"
proof (cases "mem s")
  case (Cons kr m)
  let ?vals = "map snd (mem s)"
  have dist: "distinct (map fst (mem s))" using ok by (simp add: registry_ok_def)
  have vals: "set ?vals = {r. \<exists>k. map_of (mem s) k = Some r}" using vals_map_of [OF dist] by simp
  then have key: "dget_or r ''_last_ts'' (JInt 0) = JFloat (Fin (last_ts r))" if "r \<in> set ?vals" for r
    using that registry_ok_rec [OF ok] session_rec_last by blast
  have "?vals = snd kr # map snd m" using Cons by simp
  then obtain r where "max_by (\<lambda>r. dget_or r ''_last_ts'' (JInt 0)) (snd kr) (map snd m) = Inr r"
      and r: "r \<in> set ?vals" "\<forall>x \<in> set ?vals. last_ts x \<le> last_ts r"
    using max_by_spec [of "snd kr" "map snd m" "\<lambda>r. dget_or r ''_last_ts'' (JInt 0)" last_ts] key by auto
  then have "session_current s = Inr (Some r)" using Cons by (simp add: session_current_def)
  moreover have "\<exists>k. map_of (mem s) k = Some r" using r(1) unfolding vals by blast
  moreover have "last_ts q \<le> last_ts r" if "map_of (mem s) k = Some q" for k q
    using r(2) that unfolding vals by blast
  ultimately show ?thesis by simp
qed (simp add: session_current_def)

text \<open>
  What leaves the daemon. The public view of a session has none of the underscore fields and
  all the others, unchanged.
\<close>

theorem public_hides_internal:
  assumes "distinct (map fst r)"
  shows "map_of (public r) f = (if startswith f ''_'' then None else map_of r f)"
  using filter_vals_map_of [OF assms, of "\<lambda>k v. \<not> startswith k ''_''" f]
  by (auto simp: public_def split: option.splits)

subsection \<open>Concrete instances\<close>

definition demo_client :: json where
  "demo_client = JObj [(''virtuoso_pid'', JStr ''4711''), (''virtuoso_start'', JStr ''08:00'')]"

definition demo_registry :: rec_store where
  "demo_registry = \<lparr>mem = [(KStr ''s_1'', [(''session_id'', JStr ''s_1''), (''client'', demo_client),
     (''created_at'', JStr ''2026''), (''reconnects'', JInt 0), (''_created_ts'', JFloat (Fin 10)),
     (''_last_ts'', JFloat (Fin 20))])], disk = []\<rparr>"

lemma demo_registry_ok: "registry_ok demo_registry"
  by (simp add: registry_ok_def demo_registry_def session_rec_def one_per_process_def)

lemma demo_fingerprint: "session_fingerprint demo_client = Some (''4711'', ''08:00'')"
  by (simp add: demo_client_def client_text_def py_or_def strip_def show_int_def show_nat.simps is_space_def Let_def rstrip_def lstrip_def py_str_def)


theorem session_reconnect_witness:
  "\<exists>r s'. session_register (good_tick 30) demo_client demo_registry = (Inr r, s') \<and>
     reconnected demo_registry s' demo_client r"
proof -
  have "truthy demo_client" by (simp add: demo_client_def)
  moreover have "known_process demo_registry demo_client"
    unfolding known_process_def demo_fingerprint
    by (rule exI [of _ "KStr ''s_1''"]) (simp add: demo_registry_def demo_fingerprint)
  ultimately show ?thesis
    using session_reconnect [OF demo_registry_ok, of demo_client "good_tick 30"] by auto
qed

theorem session_reap_exact_witness:
  "\<exists>sids s'. session_reap (good_tick 1000) (JInt 60) demo_registry = (Inr sids, s') \<and> JStr ''s_1'' \<in> set sids"
proof -
  have "flt_less (Fin (last_ts (snd (hd (mem demo_registry))))) (to_double (now (good_tick 1000) - of_int 60))"
    by (simp add: demo_registry_def last_ts_def good_tick_def to_double_numeral)
  moreover have "map_of (mem demo_registry) (KStr ''s_1'') = Some (snd (hd (mem demo_registry)))"
    by (simp add: demo_registry_def)
  ultimately show ?thesis
    using session_reap_exact [OF demo_registry_ok, of 60 "good_tick 1000"] by auto
qed

theorem session_current_latest_witness: "\<exists>r. session_current demo_registry = Inr (Some r)"
  using session_current_latest [OF demo_registry_ok] by (auto simp: demo_registry_def split: option.splits)

theorem public_hides_internal_witness:
  "map_of (public [(''session_id'', JStr ''s_1''), (''_last_ts'', JInt 3)]) ''_last_ts'' = None"
  by (subst public_hides_internal) (simp_all)

end
