(* ===== verification/Events.thy ===== *)
theory Events
  imports Record_Store "HOL-Library.Multiset" "HOL-Library.Sublist"
begin

section \<open>The event log\<close>

text \<open>
  \<open>event/manager.py\<close>: an append-only log with increasing sequence numbers, the last \<open>retain\<close>
  events kept in memory and every event appended to a JSONL file. \<open>emit\<close> works in two phases: under
  the lock it numbers the event and puts it into memory (\<open>publish\<close>), after the lock is released it
  appends the line (\<open>append_disk\<close>). The two phases of different threads interleave; the step
  relation \<open>emit_step\<close> has one rule per phase.

  \<open>wait\<close> is a loop over wake-ups: each element of its schedule is a clock reading together with the
  log at the moment the condition variable wakes the thread.
\<close>

record event_log =
  evs :: "dict list"
  seqno :: int
  retain :: nat
  boot_id :: string
  jsonl :: "doc list"

text \<open>\<open>isinstance(s, int)\<close>; a bool is an int.\<close>

fun as_int :: "json \<Rightarrow> int option" where
  "as_int (JInt i) = Some i"
| "as_int (JBool b) = Some (if b then 1 else 0)"
| "as_int _ = None"

definition event_seq :: "dict \<Rightarrow> int" where
  "event_seq e = (case as_int (dget e ''seq'') of Some i \<Rightarrow> i | None \<Rightarrow> 0)"

text \<open>\<open>xs[-n:]\<close> for a positive \<open>n\<close>, all of \<open>xs\<close> for zero.\<close>

definition py_tail :: "nat \<Rightarrow> 'a list \<Rightarrow> 'a list" where
  "py_tail n xs = drop (length xs - n) xs"

definition tail_retain :: "nat \<Rightarrow> 'a list \<Rightarrow> 'a list" where
  "tail_retain n xs = (if n = 0 then xs else py_tail n xs)"

fun line_event :: "doc \<Rightarrow> dict option" where
  "line_event (Doc (JObj e)) = (if as_int (dget e ''seq'') = None then None else Some e)"
| "line_event _ = None"

fun line_seq :: "doc \<Rightarrow> int option" where
  "line_seq (Doc (JObj e)) = as_int (dget e ''seq'')"
| "line_seq _ = None"

fun max_seq :: "int \<Rightarrow> doc list \<Rightarrow> int" where
  "max_seq s [] = s"
| "max_seq s (d # ds) =
     (case line_seq d of Some i \<Rightarrow> (if s < i then max_seq i ds else max_seq s ds) | None \<Rightarrow> max_seq s ds)"

text \<open>The constructor: the file's lines, or None when it is absent or cannot be read.\<close>

definition EventLog_load :: "nat \<Rightarrow> string \<Rightarrow> doc list option \<Rightarrow> event_log" where
  "EventLog_load n boot content =
     (case content of
        None \<Rightarrow> \<lparr>evs = [], seqno = 0, retain = n, boot_id = boot, jsonl = []\<rparr>
      | Some lns \<Rightarrow>
          \<lparr>evs = List.map_filter line_event (tail_retain n lns), seqno = max_seq 0 lns,
           retain = n, boot_id = boot, jsonl = lns\<rparr>)"

definition new_event :: "tick \<Rightarrow> int \<Rightarrow> string \<Rightarrow> json \<Rightarrow> dict" where
  "new_event t n etype payload =
     [(''seq'', JInt n), (''ts'', JStr (stamp t)), (''type'', JStr etype),
      (''payload'', py_or payload (JObj []))]"

text \<open>The part of \<open>emit\<close> under the lock.\<close>

definition publish :: "tick \<Rightarrow> string \<Rightarrow> json \<Rightarrow> event_log \<Rightarrow> dict \<times> event_log" where
  "publish t etype payload l =
     (let n = seqno l + 1;
          e = new_event t n etype payload;
          es = evs l @ [e];
          es = (if retain l \<noteq> 0 \<and> retain l < length es then py_tail (retain l) es else es)
      in (e, l\<lparr>evs := es, seqno := n\<rparr>))"

definition append_disk :: "tick \<Rightarrow> dict \<Rightarrow> event_log \<Rightarrow> event_log" where
  "append_disk t e l = (if dirs_ok t \<and> write_ok t then l\<lparr>jsonl := jsonl l @ [Doc (JObj e)]\<rparr> else l)"

definition emit :: "tick \<Rightarrow> string \<Rightarrow> json \<Rightarrow> event_log \<Rightarrow> dict \<times> event_log" where
  "emit t etype payload l = (case publish t etype payload l of (e, l') \<Rightarrow> (e, append_disk t e l'))"

record snapshot =
  events :: "dict list"
  latest_seq :: int
  oldest_seq :: int
  snap_boot :: string

definition take_snapshot :: "event_log \<Rightarrow> int \<Rightarrow> snapshot" where
  "take_snapshot l since =
     \<lparr>events = filter (\<lambda>e. since < event_seq e) (evs l), latest_seq = seqno l,
      oldest_seq = (case evs l of [] \<Rightarrow> 0 | e # _ \<Rightarrow> event_seq e), snap_boot = boot_id l\<rparr>"

definition event_list :: "event_log \<Rightarrow> int \<Rightarrow> snapshot" where
  "event_list l since = take_snapshot l since"

text \<open>The wait loop over its wake-ups; \<open>None\<close> when the schedule ends while it is still waiting.\<close>

fun wait_loop :: "int \<Rightarrow> pyfloat \<Rightarrow> snapshot \<Rightarrow> (rat \<times> event_log) list \<Rightarrow> snapshot option" where
  "wait_loop since deadline snap sched =
     (if events snap \<noteq> [] then Some snap
      else case sched of
             [] \<Rightarrow> None
           | (clock, l) # rest \<Rightarrow>
               (if flt_le (flt_sub deadline (Fin clock)) (Fin 0) then Some snap
                else wait_loop since deadline (take_snapshot l since) rest))"

declare wait_loop.simps [simp del]

definition flt_plus :: "pyfloat \<Rightarrow> pyfloat \<Rightarrow> pyfloat" where
  "flt_plus x y = flt_sub x (flt_sub (Fin 0) y)"

definition event_wait :: "rat \<Rightarrow> event_log \<Rightarrow> int \<Rightarrow> pyfloat \<Rightarrow> (rat \<times> event_log) list \<Rightarrow> snapshot option" where
  "event_wait start l since timeout sched =
     (let deadline = flt_plus (Fin start) (if flt_less (Fin 0) timeout then timeout else Fin 0)
      in wait_loop since deadline (take_snapshot l since) sched)"

subsection \<open>The log invariant\<close>

definition log_ok :: "event_log \<Rightarrow> bool" where
  "log_ok l \<longleftrightarrow>
     sorted_wrt (<) (map event_seq (evs l)) \<and>
     (\<forall>e \<in> set (evs l). event_seq e \<le> seqno l \<and> as_int (dget e ''seq'') \<noteq> None) \<and>
     (retain l \<noteq> 0 \<longrightarrow> length (evs l) \<le> retain l)"

lemma event_seq_new [simp]: "event_seq (new_event t n ty p) = n"
  by (simp add: event_seq_def new_event_def)

lemma as_int_new [simp]: "as_int (dget (new_event t n ty p) ''seq'') = Some n"
  by (simp add: new_event_def)

lemma publish_evs:
  "publish t ty p l = (e, l') \<Longrightarrow>
   e = new_event t (seqno l + 1) ty p \<and> seqno l' = seqno l + 1 \<and> retain l' = retain l \<and>
   boot_id l' = boot_id l \<and> jsonl l' = jsonl l \<and>
   evs l' = (if retain l = 0 then evs l @ [e] else py_tail (retain l) (evs l @ [e]))"
  by (auto simp: publish_def Let_def py_tail_def)

lemma suffix_py_tail [simp]: "suffix (py_tail n xs) xs"
  by (simp add: py_tail_def suffix_drop)

lemma length_py_tail [simp]: "length (py_tail n xs) \<le> n"
  by (simp add: py_tail_def)

lemma sorted_wrt_suffix: "suffix ys xs \<Longrightarrow> sorted_wrt R (map f xs) \<Longrightarrow> sorted_wrt R (map f ys)"
  by (auto simp: suffix_def sorted_wrt_append)

lemma set_suffix: "suffix ys xs \<Longrightarrow> set ys \<subseteq> set xs"
  by (rule set_mono_suffix)

lemma publish_ok:
  assumes ok: "log_ok l" and p: "publish t ty p l = (e, l')"
  shows "log_ok l'"
proof -
  note spec = publish_evs [OF p]
  have sorted: "sorted_wrt (<) (map event_seq (evs l @ [e]))"
    using ok spec by (force simp: log_ok_def sorted_wrt_append)
  have suf: "suffix (evs l') (evs l @ [e])" using spec suffix_py_tail by (metis suffix_order.refl)
  have "sorted_wrt (<) (map event_seq (evs l'))" using suf sorted by (rule sorted_wrt_suffix)
  moreover have "event_seq x \<le> seqno l' \<and> as_int (dget x ''seq'') \<noteq> None" if "x \<in> set (evs l')" for x
  proof -
    have "x \<in> set (evs l @ [e])" using that set_suffix [OF suf] by blast
    then show ?thesis using ok spec by (force simp: log_ok_def)
  qed
  moreover have "retain l' \<noteq> 0 \<longrightarrow> length (evs l') \<le> retain l'" using spec by simp
  ultimately show ?thesis by (simp add: log_ok_def)
qed

fun publish_all :: "(tick \<times> string \<times> json) list \<Rightarrow> event_log \<Rightarrow> dict list \<times> event_log" where
  "publish_all [] l = ([], l)"
| "publish_all ((t, ty, p) # xs) l =
     (case publish t ty p l of (e, l') \<Rightarrow> (case publish_all xs l' of (es, l'') \<Rightarrow> (e # es, l'')))"

lemma publish_all_spec:
  "publish_all xs l = (es, l') \<Longrightarrow> log_ok l \<Longrightarrow>
   log_ok l' \<and> suffix (evs l') (evs l @ es) \<and> seqno l' = seqno l + int (length xs) \<and>
   map event_seq es = map (\<lambda>i. seqno l + 1 + int i) [0..<length xs] \<and>
   retain l' = retain l \<and> (retain l = 0 \<longrightarrow> evs l' = evs l @ es)"
proof (induction xs l arbitrary: es l' rule: publish_all.induct)
  case (2 t ty p xs l)
  obtain e l1 where pub: "publish t ty p l = (e, l1)" by fastforce
  obtain es1 where rest: "publish_all xs l1 = (es1, l')" and es: "es = e # es1"
    using 2(2) pub by (auto split: prod.splits)
  note spec = publish_evs [OF pub]
  note ih = 2(1) [OF pub [symmetric] rest publish_ok [OF 2(3) pub]]
  have "suffix (evs l1) (evs l @ [e])" using spec suffix_py_tail by (metis suffix_order.refl)
  then have "suffix (evs l1 @ es1) (evs l @ es)" using es by (auto simp: suffix_def)
  with ih have "suffix (evs l') (evs l @ es)" by (metis suffix_order.trans)
  moreover have "map event_seq es = map (\<lambda>i. seqno l + 1 + int i) [0..<length ((t, ty, p) # xs)]"
  proof -
    have "map (\<lambda>i. seqno l + 1 + int i) [Suc 0..<Suc (length xs)] =
        map (\<lambda>i. seqno l + 2 + int i) [0..<length xs]"
      unfolding map_Suc_upt [symmetric] map_map by (simp add: comp_def)
    with ih spec es show ?thesis by (simp add: upt_conv_Cons del: upt_Suc)
  qed
  ultimately show ?case using ih spec es by auto
qed simp

subsection \<open>How a log grows\<close>

text \<open>The events that emitting adds: a number and a type each, as every reader expects.\<close>

definition well_formed_event :: "dict \<Rightarrow> bool" where
  "well_formed_event e \<longleftrightarrow> dget e ''seq'' = JInt (event_seq e) \<and> is_str (dget e ''type'')"

text \<open>\<open>new\<close> is what has been emitted between two logs: numbered without a gap, of which the window keeps the end.\<close>

definition log_adds :: "event_log \<Rightarrow> dict list \<Rightarrow> event_log \<Rightarrow> bool" where
  "log_adds l new l' \<longleftrightarrow>
     seqno l \<le> seqno l' \<and> map event_seq new = [seqno l + 1..seqno l'] \<and> list_all well_formed_event new \<and>
     suffix (evs l') (evs l @ new) \<and> (evs l' = [] \<longrightarrow> evs l @ new = [])"

lemma log_adds_refl [simp]: "log_adds l [] l"
  by (simp add: log_adds_def)

lemma log_adds_trans:
  assumes "log_adds l new l'" and "log_adds l' new' l''"
  shows "log_adds l (new @ new') l''"
proof -
  have "suffix (evs l' @ new') ((evs l @ new) @ new')" using assms by (auto simp: log_adds_def suffix_def)
  then have "suffix (evs l'') (evs l @ new @ new')" using assms by (auto simp: log_adds_def intro: suffix_order.trans)
  moreover have "[seqno l + 1..seqno l'] @ [seqno l' + 1..seqno l''] = [seqno l + 1..seqno l'']"
    using assms upto_split2 [of "seqno l + 1" "seqno l'" "seqno l''"]
    by (cases "seqno l = seqno l'") (auto simp: log_adds_def)
  ultimately show ?thesis using assms by (auto simp: log_adds_def)
qed

lemma emit_adds: "log_adds l [fst (emit t ty p l)] (snd (emit t ty p l))"
proof -
  obtain e l' where p: "publish t ty p l = (e, l')" by fastforce
  have "well_formed_event (new_event t n ty p)" for n
    by (simp add: well_formed_event_def) (simp add: new_event_def)
  moreover have "suffix (evs l') (evs l @ [e])" using publish_evs [OF p] suffix_py_tail by (metis suffix_order.refl)
  moreover have "evs l' \<noteq> []" using publish_evs [OF p] by (simp add: py_tail_def)
  ultimately show ?thesis
    using publish_evs [OF p] by (simp add: emit_def p append_disk_def log_adds_def)
qed

subsection \<open>Properties\<close>

text \<open>
  C19. Numbering. Whatever is published, and whatever the retention, the events get consecutive
  sequence numbers that continue from the last one, and the log in memory stays strictly
  ascending and within its retention bound.
\<close>

theorem publish_consecutive:
  assumes "log_ok l" and "publish_all xs l = (es, l')"
  shows "map event_seq es = map (\<lambda>i. seqno l + 1 + int i) [0..<length xs] \<and>
    seqno l' = seqno l + int (length xs) \<and> sorted_wrt (<) (map event_seq (evs l')) \<and>
    (retain l \<noteq> 0 \<longrightarrow> length (evs l') \<le> retain l)"
  using publish_all_spec [OF assms(2,1)] by (auto simp: log_ok_def)

lemma suffix_complete:
  assumes suf: "suffix (y # ys) xs" and srt: "sorted_wrt (<) (map event_seq xs)"
    and x: "x \<in> set xs" "event_seq y \<le> event_seq x"
  shows "x \<in> set (y # ys)"
proof -
  from suf obtain old where xs: "xs = old @ y # ys" by (auto simp: suffix_def)
  have "event_seq z < event_seq y" if "z \<in> set old" for z
    using that srt xs by (auto simp: sorted_wrt_append)
  with x xs show ?thesis by force
qed

lemma log_history_sorted:
  assumes ok: "log_ok l" and p: "publish_all xs l = (es, l')"
  shows "sorted_wrt (<) (map event_seq (evs l @ es))"
proof -
  note spec = publish_all_spec [OF p ok]
  have es: "map event_seq es = map (\<lambda>i. seqno l + 1 + int i) [0..<length xs]" using spec by blast
  have "sorted_wrt (<) (map event_seq es)"
    unfolding es by (simp add: sorted_wrt_map)
  moreover have "seqno l < event_seq e" if "e \<in> set es" for e
  proof -
    have "event_seq e \<in> set (map (\<lambda>i. seqno l + 1 + int i) [0..<length xs])"
      using that unfolding es [symmetric] by simp
    then show ?thesis by auto
  qed
  ultimately show ?thesis using ok by (force simp: log_ok_def sorted_wrt_append)
qed

text \<open>
  C20. No event is missed within the window. A client that asks for the events after \<open>since\<close> gets
  them in ascending order, and unless the answer's oldest served number tells it that it has
  fallen behind (\<open>oldest_seq > since + 1\<close>), it gets exactly the events of the whole history with a
  larger number.
\<close>

theorem snapshot_complete:
  assumes ok: "log_ok l" and p: "publish_all xs l = (es, l')" and "evs l' \<noteq> []"
    and window: "oldest_seq (take_snapshot l' since) \<le> since + 1"
  shows "set (events (take_snapshot l' since)) = {e \<in> set (evs l @ es). since < event_seq e} \<and>
    sorted_wrt (<) (map event_seq (events (take_snapshot l' since)))"
proof -
  note spec = publish_all_spec [OF p ok]
  obtain y ys where y: "evs l' = y # ys" using \<open>evs l' \<noteq> []\<close> by (cases "evs l'") auto
  have suf: "suffix (evs l') (evs l @ es)" using spec by blast
  have "x \<in> set (evs l')" if "x \<in> set (evs l @ es)" "since < event_seq x" for x
  proof -
    have "event_seq y \<le> event_seq x" using that window y by (simp add: take_snapshot_def)
    then show ?thesis
      using suffix_complete [of y ys "evs l @ es" x] suf log_history_sorted [OF ok p] that(1) unfolding y by blast
  qed
  moreover have "set (evs l') \<subseteq> set (evs l @ es)" using suf by (rule set_suffix)
  ultimately have "set (events (take_snapshot l' since)) = {e \<in> set (evs l @ es). since < event_seq e}"
    by (auto simp: take_snapshot_def)
  moreover have "sorted_wrt (<) (map event_seq (events (take_snapshot l' since)))"
    using spec by (auto simp: take_snapshot_def log_ok_def sorted_wrt_map sorted_wrt_filter)
  ultimately show ?thesis by blast
qed

definition news :: "event_log \<Rightarrow> int \<Rightarrow> bool" where
  "news l since \<longleftrightarrow> (\<exists>e \<in> set (evs l). since < event_seq e)"

definition overrun :: "pyfloat \<Rightarrow> rat \<Rightarrow> bool" where
  "overrun deadline clock \<longleftrightarrow> flt_le (flt_sub deadline (Fin clock)) (Fin 0)"

lemma events_snapshot: "events (take_snapshot l since) \<noteq> [] \<longleftrightarrow> news l since"
  by (auto simp: take_snapshot_def news_def filter_empty_conv)

lemma ex_le_Suc: "(\<exists>i \<le> Suc n. P i) \<longleftrightarrow> P 0 \<or> (\<exists>i \<le> n. P (Suc i))"
  by (metis Suc_le_mono le0 not0_implies_Suc)

definition answers_at :: "int \<Rightarrow> pyfloat \<Rightarrow> event_log \<Rightarrow> (rat \<times> event_log) list \<Rightarrow> nat \<Rightarrow> bool" where
  "answers_at since deadline l sched i \<longleftrightarrow>
     (\<forall>j < i. \<not> overrun deadline (fst (sched ! j)) \<and> \<not> news ((l # map snd sched) ! j) since) \<and>
     (news ((l # map snd sched) ! i) since \<or> i < length sched \<and> overrun deadline (fst (sched ! i)))"

lemma answers_at_0:
  "answers_at since deadline l sched 0 \<longleftrightarrow>
   news l since \<or> (\<exists>clock l1 rest. sched = (clock, l1) # rest \<and> overrun deadline clock)"
  by (cases sched) (auto simp: answers_at_def)

lemma all_less_Suc0: "(\<forall>j < Suc i. P j) \<longleftrightarrow> P 0 \<and> (\<forall>j < i. P (Suc j))"
  by (metis less_Suc_eq_0_disj)

lemma answers_at_Suc:
  "answers_at since deadline l ((clock, l1) # rest) (Suc i) \<longleftrightarrow>
   \<not> overrun deadline clock \<and> \<not> news l since \<and> answers_at since deadline l1 rest i"
  by (auto simp: answers_at_def all_less_Suc0)

lemma wait_loop_spec:
  "wait_loop since deadline (take_snapshot l since) sched = Some snap \<longleftrightarrow>
   (\<exists>i \<le> length sched. answers_at since deadline l sched i \<and>
      snap = take_snapshot ((l # map snd sched) ! i) since)"
proof (induction sched arbitrary: l)
  case Nil
  then show ?case by (auto simp: wait_loop.simps events_snapshot answers_at_0)
next
  case (Cons x sched)
  obtain clock l1 where x: "x = (clock, l1)" by fastforce
  show ?case
  proof (cases "news l since \<or> overrun deadline clock")
    case True
    then have "wait_loop since deadline (take_snapshot l since) (x # sched) = Some (take_snapshot l since)"
      by (subst wait_loop.simps) (auto simp: x events_snapshot overrun_def)
    then show ?thesis using True by (auto simp: x ex_le_Suc answers_at_0 answers_at_Suc)
  next
    case False
    then have "wait_loop since deadline (take_snapshot l since) (x # sched) =
        wait_loop since deadline (take_snapshot l1 since) sched"
      by (subst wait_loop.simps) (auto simp: x events_snapshot overrun_def)
    then show ?thesis using False by (simp add: x ex_le_Suc answers_at_0 answers_at_Suc Cons.IH)
  qed
qed

text \<open>
  The long poll. \<open>wait\<close> never answers with an empty list before its deadline: whatever the
  wake-ups, when it returns, it returns the snapshot of the first log (the one at the call, or at
  a wake-up) that has an event after \<open>since\<close>, or an empty one after the first clock reading at
  or past the deadline; and it does return as soon as a wake-up finds such a log or such a reading.
\<close>

theorem event_wait_spec:
  "event_wait start l since timeout sched = Some snap \<longleftrightarrow>
   (\<exists>i \<le> length sched.
      answers_at since (flt_plus (Fin start) (if flt_less (Fin 0) timeout then timeout else Fin 0)) l sched i \<and>
      snap = take_snapshot ((l # map snd sched) ! i) since)"
  unfolding event_wait_def Let_def by (rule wait_loop_spec)

subsection \<open>Concurrent emitters and restarts\<close>

text \<open>
  The two phases of \<open>emit\<close> as steps of a system that holds the log and the events whose lines are
  still to be written; a write may fail, in which case its line is lost.
\<close>

type_synonym emit_state = "event_log \<times> dict multiset"

inductive emit_step :: "emit_state \<Rightarrow> emit_state \<Rightarrow> bool" where
  locked: "publish t ty p l = (e, l') \<Longrightarrow> emit_step (l, M) (l', add_mset e M)"
| unlocked: "e \<in># M \<Longrightarrow> emit_step (l, M) (append_disk t e l, M - {#e#})"

inductive emit_steps :: "emit_state \<Rightarrow> emit_state \<Rightarrow> bool" where
  finish: "emit_steps s s"
| more: "emit_step s s' \<Longrightarrow> emit_steps s' s'' \<Longrightarrow> emit_steps s s''"

inductive_cases emit_stepE: "emit_step s s'"

lemma max_seq_ge: "s \<le> max_seq s ds \<and> (\<forall>d \<in> set ds. \<forall>i. line_seq d = Some i \<longrightarrow> i \<le> max_seq s ds)"
proof (induction s ds rule: max_seq.induct)
  case (2 s d ds)
  show ?case
  proof (cases "line_seq d")
    case (Some i)
    with 2 show ?thesis by (cases "s < i") auto
  qed (use 2 in auto)
qed simp

definition once_each :: "'a multiset \<Rightarrow> bool" where
  "once_each A \<longleftrightarrow> (\<forall>x. count A x \<le> 1)"

lemma once_each_empty [simp]: "once_each {#}"
  by (simp add: once_each_def)

lemma once_each_add [simp]: "once_each (add_mset x A) \<longleftrightarrow> x \<notin># A \<and> once_each A"
proof
  assume once: "once_each (add_mset x A)"
  then have "count (add_mset x A) x \<le> 1" unfolding once_each_def by blast
  then have "x \<notin># A" by (simp add: not_in_iff)
  moreover have "count A y \<le> 1" for y
  proof -
    have "count A y \<le> count (add_mset x A) y" by simp
    also have "\<dots> \<le> 1" using once unfolding once_each_def by blast
    finally show ?thesis .
  qed
  ultimately show "x \<notin># A \<and> once_each A" by (simp add: once_each_def)
next
  assume "x \<notin># A \<and> once_each A"
  then show "once_each (add_mset x A)" by (auto simp: once_each_def not_in_iff)
qed

lemma once_each_left: "once_each (A + B) \<Longrightarrow> once_each A"
  unfolding once_each_def by (metis count_union le_add1 le_trans)

lemma once_each_distinct: "once_each (mset xs) \<Longrightarrow> distinct xs"
  by (induction xs) auto

definition boot_inv :: "int \<Rightarrow> doc list \<Rightarrow> emit_state \<Rightarrow> bool" where
  "boot_inv n0 old s \<longleftrightarrow> (case s of (l, M) \<Rightarrow>
     n0 \<le> seqno l \<and>
     (\<exists>new. jsonl l = old @ map (\<lambda>e. Doc (JObj e)) new \<and>
        once_each (image_mset event_seq (mset new + M)) \<and>
        (\<forall>e \<in># mset new + M. n0 < event_seq e \<and> event_seq e \<le> seqno l)))"

lemma boot_inv_step:
  assumes "emit_step s s'" and "boot_inv n0 old s"
  shows "boot_inv n0 old s'"
  using assms(1)
proof (cases rule: emit_step.cases)
  case (locked t ty p l e l' M)
  from assms(2) locked obtain new where new: "jsonl l = old @ map (\<lambda>e. Doc (JObj e)) new"
      "once_each (image_mset event_seq (mset new + M))"
      "\<forall>e \<in># mset new + M. n0 < event_seq e \<and> event_seq e \<le> seqno l" and n0: "n0 \<le> seqno l"
    by (auto simp: boot_inv_def)
  note spec = publish_evs [OF locked(3)]
  have e: "event_seq e = seqno l + 1" using spec by simp
  then have "event_seq e \<notin># image_mset event_seq (mset new + M)" using new(3) by force
  then have "once_each (image_mset event_seq (mset new + add_mset e M))"
    using new(2) by simp
  moreover have "\<forall>x \<in># mset new + add_mset e M. n0 < event_seq x \<and> event_seq x \<le> seqno l'"
    using new(3) e n0 spec by force
  ultimately show ?thesis
    using new(1) n0 spec unfolding locked boot_inv_def by auto
next
  case (unlocked e M l t)
  from assms(2) unlocked obtain new where new: "jsonl l = old @ map (\<lambda>e. Doc (JObj e)) new"
      "once_each (image_mset event_seq (mset new + M))"
      "\<forall>e \<in># mset new + M. n0 < event_seq e \<and> event_seq e \<le> seqno l" and n0: "n0 \<le> seqno l"
    by (auto simp: boot_inv_def)
  from \<open>e \<in># M\<close> obtain M' where M: "M = add_mset e M'" by (metis insert_DiffM)
  show ?thesis
  proof (cases "dirs_ok t \<and> write_ok t")
    case True
    then have "jsonl (append_disk t e l) = old @ map (\<lambda>e. Doc (JObj e)) (new @ [e])"
      "seqno (append_disk t e l) = seqno l"
      using new(1) by (simp_all add: append_disk_def)
    with new n0 M show ?thesis unfolding unlocked boot_inv_def
      by (intro case_prodI conjI exI [of _ "new @ [e]"]) auto
  next
    case False
    then have "append_disk t e l = l" by (simp add: append_disk_def)
    with new n0 M show ?thesis unfolding unlocked boot_inv_def by auto
  qed
qed

lemma boot_inv_steps: "emit_steps s s' \<Longrightarrow> boot_inv n0 old s \<Longrightarrow> boot_inv n0 old s'"
  by (induction rule: emit_steps.induct) (auto intro: boot_inv_step)

text \<open>
  Sequence numbers on disk. From a log loaded from any file, under any interleaving of
  concurrent emitters and any write failures, the lines appended since the start carry pairwise
  distinct numbers, all larger than every number the file held before.
\<close>

theorem disk_numbers_fresh:
  assumes "emit_steps (EventLog_load n boot (Some old), {#}) (l, M)"
  shows "\<exists>new. jsonl l = old @ map (\<lambda>e. Doc (JObj e)) new \<and> distinct (map event_seq new) \<and>
    (\<forall>e \<in> set new. \<forall>d \<in> set old. \<forall>i. line_seq d = Some i \<longrightarrow> i < event_seq e)"
proof -
  have "boot_inv (max_seq 0 old) old (EventLog_load n boot (Some old), {#})"
    by (simp add: boot_inv_def EventLog_load_def)
  from boot_inv_steps [OF assms this] obtain new where
    new: "jsonl l = old @ map (\<lambda>e. Doc (JObj e)) new"
      "once_each (image_mset event_seq (mset new + M))"
      "\<forall>e \<in># mset new + M. max_seq 0 old < event_seq e" by (auto simp: boot_inv_def)
  have "distinct (map event_seq new)"
    using once_each_left [of "image_mset event_seq (mset new)"] new(2) once_each_distinct [of "map event_seq new"]
    by simp
  moreover have "i < event_seq e" if "e \<in> set new" "d \<in> set old" "line_seq d = Some i" for e d i
    using that new(3) max_seq_ge [of 0 old] by force
  ultimately show ?thesis using new(1) by blast
qed

text \<open>
  The order on disk is not the order of the numbers. The file is written outside the lock, so
  two concurrent emitters can append their lines in the opposite order; a daemon that then loads
  this file holds its events out of order and reports the second one as the oldest it serves.
\<close>

theorem disk_order_race:
  "\<exists>l. emit_steps (EventLog_load 2000 ''b1'' None, {#}) (l, {#}) \<and>
     map event_seq (evs l) = [1, 2] \<and>
     map event_seq (evs (EventLog_load 2000 ''b2'' (Some (jsonl l)))) = [2, 1] \<and>
     oldest_seq (take_snapshot (EventLog_load 2000 ''b2'' (Some (jsonl l))) 0) = 2"
proof -
  let ?t = "good_tick 1"
  let ?start = "EventLog_load 2000 ''b1'' None"
  let ?e1 = "new_event ?t 1 ''run.done'' JNull" and ?e2 = "new_event ?t 2 ''run.done'' JNull"
  let ?mid = "?start\<lparr>evs := [?e1, ?e2], seqno := 2\<rparr>"
  let ?fin = "append_disk ?t ?e1 (append_disk ?t ?e2 ?mid)"
  have p1: "publish ?t ''run.done'' JNull ?start = (?e1, ?start\<lparr>evs := [?e1], seqno := 1\<rparr>)"
    and p2: "publish ?t ''run.done'' JNull (?start\<lparr>evs := [?e1], seqno := 1\<rparr>) = (?e2, ?mid)"
    by (simp_all add: publish_def EventLog_load_def Let_def)
  have "emit_steps (?start, {#}) (?fin, {#})"
    by (rule emit_steps.more [OF emit_step.locked [OF p1]], rule emit_steps.more [OF emit_step.locked [OF p2]],
        rule emit_steps.more [OF emit_step.unlocked [of ?e2 _ _ ?t]], simp,
        rule emit_steps.more [OF emit_step.unlocked [of ?e1 _ _ ?t]], simp, simp, rule emit_steps.finish)
  moreover have jl: "jsonl ?fin = [Doc (JObj ?e2), Doc (JObj ?e1)]" "evs ?fin = [?e1, ?e2]"
    by (simp_all add: append_disk_def good_tick_def EventLog_load_def)
  moreover have "evs (EventLog_load 2000 ''b2'' (Some (jsonl ?fin))) = [?e2, ?e1]"
    unfolding jl by (simp add: EventLog_load_def tail_retain_def py_tail_def map_filter_simps)
  ultimately show ?thesis
    by (intro exI [of _ ?fin]) (simp add: take_snapshot_def)
qed

subsection \<open>Concrete instances\<close>

definition demo_log :: event_log where
  "demo_log = \<lparr>evs = [new_event (good_tick 1) 4 ''run.done'' JNull], seqno = 4, retain = 2,
     boot_id = ''b'', jsonl = []\<rparr>"

lemma demo_log_ok: "log_ok demo_log"
  by (simp add: log_ok_def demo_log_def)

definition demo_burst :: "(tick \<times> string \<times> json) list" where
  "demo_burst = replicate 2 (good_tick 2, ''job.done'', JNull)"

lemma demo_published: "publish_all demo_burst demo_log =
  ([new_event (good_tick 2) 5 ''job.done'' JNull, new_event (good_tick 2) 6 ''job.done'' JNull],
   demo_log\<lparr>evs := [new_event (good_tick 2) 5 ''job.done'' JNull, new_event (good_tick 2) 6 ''job.done'' JNull],
     seqno := 6\<rparr>)"
  by (simp add: demo_burst_def demo_log_def publish_def py_tail_def Let_def numeral_2_eq_2)

theorem publish_consecutive_witness:
  "map event_seq (fst (publish_all demo_burst demo_log)) = [5, 6]"
  using publish_consecutive [OF demo_log_ok demo_published]
  by (simp add: demo_published)

theorem snapshot_complete_witness:
  "event_seq ` set (events (take_snapshot (snd (publish_all demo_burst demo_log)) 4)) = {5, 6}"
proof -
  have "set (events (take_snapshot (snd (publish_all demo_burst demo_log)) 4)) =
      {e \<in> set (evs demo_log @ fst (publish_all demo_burst demo_log)). 4 < event_seq e}"
    unfolding demo_published fst_conv snd_conv
    by (rule snapshot_complete [OF demo_log_ok demo_published, THEN conjunct1]) (simp_all add: take_snapshot_def)
  also have "\<dots> = {new_event (good_tick 2) 5 ''job.done'' JNull, new_event (good_tick 2) 6 ''job.done'' JNull}"
    unfolding demo_published fst_conv by (auto simp: demo_log_def)
  finally show ?thesis by simp
qed

theorem event_wait_spec_witness:
  "\<exists>snap. event_wait 0 demo_log 4 (Fin 25) [(1, snd (publish_all demo_burst demo_log))] = Some snap \<and>
     map event_seq (events snap) = [5, 6]"
proof -
  let ?l = "snd (publish_all demo_burst demo_log)"
  have "answers_at 4 (flt_plus (Fin 0) (if flt_less (Fin 0) (Fin 25) then Fin 25 else Fin 0)) demo_log [(1, ?l)] 1"
  proof -
    have "to_double (- 25) = Fin (- 25)" using to_double_int [of "- 25"] by simp
    then have "\<not> overrun (flt_plus (Fin 0) (if flt_less (Fin 0) (Fin 25) then Fin 25 else Fin 0)) 1"
      by (simp add: overrun_def flt_plus_def to_double_numeral)
    moreover have "\<not> news demo_log 4" "news ?l 4"
      by (simp_all add: news_def demo_published) (simp add: demo_log_def)
    ultimately show ?thesis by (simp add: answers_at_def)
  qed
  then have "event_wait 0 demo_log 4 (Fin 25) [(1, ?l)] = Some (take_snapshot ?l 4)"
    by (subst event_wait_spec) (auto intro!: exI [of _ 1])
  then show ?thesis by (simp add: take_snapshot_def demo_published)
qed

theorem disk_numbers_fresh_witness:
  "\<exists>l e. emit_steps (EventLog_load 9 ''b'' (Some [Unreadable, Doc (JObj [(''seq'', JInt 7)])]), {#}) (l, {#}) \<and>
     7 < event_seq e \<and> Doc (JObj e) \<in> set (jsonl l)"
proof -
  let ?old = "[Unreadable, Doc (JObj [(''seq'', JInt 7)])]"
  let ?l0 = "EventLog_load 9 ''b'' (Some ?old)"
  obtain e l where p: "publish (good_tick 2) ''run.done'' JNull ?l0 = (e, l)" by fastforce
  have run: "emit_steps (?l0, {#}) (append_disk (good_tick 2) e l, {#})"
    by (rule emit_steps.more [OF emit_step.locked [OF p]],
        rule emit_steps.more [OF emit_step.unlocked [of e _ _ "good_tick 2"]], simp, simp, rule emit_steps.finish)
  have l: "jsonl (append_disk (good_tick 2) e l) = ?old @ [Doc (JObj e)]"
    using publish_evs [OF p] by (simp add: append_disk_def good_tick_def EventLog_load_def)
  from disk_numbers_fresh [OF run] have "7 < event_seq e" unfolding l by (auto simp: map_eq_Cons_conv)
  moreover have "Doc (JObj e) \<in> set (jsonl (append_disk (good_tick 2) e l))" unfolding l by simp
  ultimately show ?thesis using run by blast
qed

end
