(* ===== verification/Channels.thy ===== *)
theory Channels
  imports Record_Store
begin

section \<open>Request channels and the extension registry\<close>

text \<open>
  \<open>sim/netlist_requests.py\<close> and \<open>extension/registry.py\<close>. A request is created \<open>pending\<close>, a
  servicer pulls the pending ones and completes them, the client polls. The netlist store and the
  action store are two copies of this channel, in memory only. Both promise the interface
  \<open>request_channel\<close>; what a client may rely on is proved there once.

  Ids come from \<open>uuid4\<close>; that a new id is not in use is a hypothesis of the runs.
\<close>

type_synonym reqs = "(pkey \<times> dict) list"

subsection \<open>Netlist requests\<close>

definition netlist_create :: "tick \<Rightarrow> json \<times> json \<Rightarrow> (reqs, exn, dict) op" where
  "netlist_create t args m =
     (case args of (cellview, corner) \<Rightarrow>
        (let rid = ''nlr_'' @ uid t;
             r = [(''request_id'', JStr rid), (''status'', JStr ''pending''), (''cellview'', cellview),
                  (''corner'', py_or corner (JStr ''Nominal'')), (''deck'', JNull), (''error'', JNull),
                  (''created_at'', JStr (stamp t)), (''updated_at'', JStr (stamp t))]
         in (Inr r, AList.update (KStr rid) r m)))"

definition netlist_complete :: "tick \<Rightarrow> json \<Rightarrow> json \<Rightarrow> json \<Rightarrow> (reqs, exn, dict option) op" where
  "netlist_complete t rid deck error m =
     (case py_key rid of
        Inl e \<Rightarrow> (Inl e, m)
      | Inr k \<Rightarrow>
          (case map_of m k of
             None \<Rightarrow> (Inr None, m)
           | Some r \<Rightarrow>
               (let r = dset ''status'' (JStr (if truthy error then ''failed'' else ''done'')) r;
                    r = dset ''deck'' deck r;
                    r = dset ''error'' error r;
                    r = dset ''updated_at'' (JStr (stamp t)) r
                in (Inr (Some r), AList.update k r m))))"

definition request_get :: "json \<Rightarrow> reqs \<Rightarrow> exn + dict option" where
  "request_get rid m = (case py_key rid of Inl e \<Rightarrow> Inl e | Inr k \<Rightarrow> Inr (map_of m k))"

definition netlist_pending :: "reqs \<Rightarrow> dict list" where
  "netlist_pending m = filter (\<lambda>r. dget r ''status'' = JStr ''pending'') (map snd m)"

subsection \<open>Actions\<close>

definition action_create :: "tick \<Rightarrow> json \<times> json \<times> json \<Rightarrow> (reqs, exn, dict) op" where
  "action_create t args m =
     (case args of (namespace, meth, params) \<Rightarrow>
        (if \<not> truthy namespace \<or> \<not> truthy meth
         then (Inl (ValueError ''namespace and method are required''), m)
         else
           (let aid = ''act_'' @ uid t;
                r = [(''action_id'', JStr aid), (''namespace'', namespace), (''method'', meth),
                     (''params'', if is_dict params then params else JObj []),
                     (''status'', JStr ''pending''), (''result'', JNull), (''error'', JNull),
                     (''created_at'', JStr (stamp t)), (''updated_at'', JStr (stamp t))]
            in (Inr r, AList.update (KStr aid) r m))))"

definition action_complete :: "tick \<Rightarrow> json \<Rightarrow> json \<Rightarrow> json \<Rightarrow> (reqs, exn, dict option) op" where
  "action_complete t aid result error m =
     (case py_key aid of
        Inl e \<Rightarrow> (Inl e, m)
      | Inr k \<Rightarrow>
          (case map_of m k of
             None \<Rightarrow> (Inr None, m)
           | Some r \<Rightarrow>
               (let r = dset ''status'' (JStr (if truthy error then ''failed'' else ''done'')) r;
                    r = dset ''result'' result r;
                    r = dset ''error'' error r;
                    r = dset ''updated_at'' (JStr (stamp t)) r
                in (Inr (Some r), AList.update k r m))))"

definition action_pending :: "json \<Rightarrow> reqs \<Rightarrow> dict list" where
  "action_pending namespace m =
     filter (\<lambda>r. dget r ''status'' = JStr ''pending'' \<and>
                 (namespace = JNull \<or> py_eq (dget r ''namespace'') namespace)) (map snd m)"

subsection \<open>Extensions\<close>

definition extension_register ::
  "tick \<Rightarrow> json \<Rightarrow> json \<Rightarrow> json \<Rightarrow> json \<Rightarrow> (reqs, exn, dict) op" where
  "extension_register t namespace methods description meta m =
     (case namespace of
        JStr ns \<Rightarrow>
          (if ns = [] then (Inl (ValueError ''namespace must be a non-empty string''), m)
           else case py_iter (py_or methods (JList [])) of
                  Inl e \<Rightarrow> (Inl e, m)
                | Inr ms \<Rightarrow>
                    (if \<not> list_all is_str ms then (Inl (ValueError ''methods must be a list of strings''), m)
                     else
                       (let r = [(''namespace'', namespace), (''methods'', JList ms),
                                 (''description'', py_or description (JStr [])),
                                 (''meta'', if is_dict meta then meta else JObj []),
                                 (''registered_at'', JStr (stamp t)), (''updated_at'', JStr (stamp t))];
                            r = (case map_of m (KStr ns) of
                                   None \<Rightarrow> r
                                 | Some old \<Rightarrow> (if old = [] then r
                                                else dset ''registered_at'' (dget old ''registered_at'') r))
                        in (Inr r, AList.update (KStr ns) r m))))
      | _ \<Rightarrow> (Inl (ValueError ''namespace must be a non-empty string''), m))"

definition extension_unregister :: "json \<Rightarrow> (reqs, exn, bool) op" where
  "extension_unregister namespace m =
     (case py_key namespace of
        Inl e \<Rightarrow> (Inl e, m)
      | Inr k \<Rightarrow> (Inr (map_of m k \<noteq> None), AList.delete k m))"

definition extension_list :: "reqs \<Rightarrow> dict list" where
  "extension_list m = map snd m"

text \<open>An empty record would be falsy.\<close>

definition extension_get :: "json \<Rightarrow> reqs \<Rightarrow> exn + dict option" where
  "extension_get namespace m =
     (case py_key namespace of
        Inl e \<Rightarrow> Inl e
      | Inr k \<Rightarrow> Inr (case map_of m k of None \<Rightarrow> None | Some r \<Rightarrow> (if r = [] then None else Some r)))"

definition extension_knows :: "json \<Rightarrow> reqs \<Rightarrow> exn + bool" where
  "extension_knows namespace m =
     (case py_key namespace of Inl e \<Rightarrow> Inl e | Inr k \<Rightarrow> Inr (map_of m k \<noteq> None))"

subsection \<open>The interface of a channel\<close>

text \<open>
  What both stores promise: a creation stores a pending record under its own new id and touches no
  other; a completion of a known id makes that record done or failed, keeps the fields of the
  request, and touches no other.
\<close>

definition same_request :: "string list \<Rightarrow> dict \<Rightarrow> dict \<Rightarrow> bool" where
  "same_request fs r r' \<longleftrightarrow> (\<forall>f \<in> set fs. dget r' f = dget r f)"

definition closed_request :: "dict \<Rightarrow> bool" where
  "closed_request r \<longleftrightarrow> dget r ''status'' \<in> {JStr ''done'', JStr ''failed''}"

locale request_channel =
  fixes idf pre :: string and fixed :: "string list"
    and create :: "tick \<Rightarrow> 'a \<Rightarrow> (reqs, exn, dict) op"
    and complete :: "tick \<Rightarrow> json \<Rightarrow> json \<Rightarrow> json \<Rightarrow> (reqs, exn, dict option) op"
  assumes create_Inr: "create t a m = (Inr r, m') \<Longrightarrow>
      dget r idf = JStr (pre @ uid t) \<and> dget r ''status'' = JStr ''pending'' \<and>
      m' = AList.update (KStr (pre @ uid t)) r m"
    and create_Inl: "create t a m = (Inl e, m') \<Longrightarrow> m' = m"
    and complete_known: "\<lbrakk>py_key rid = Inr k; map_of m k = Some r\<rbrakk> \<Longrightarrow>
      \<exists>r'. complete t rid v err m = (Inr (Some r'), AList.update k r' m) \<and> same_request fixed r r' \<and>
        dget r' ''status'' = JStr (if truthy err then ''failed'' else ''done'')"
    and complete_unknown: "py_key rid = Inr k \<Longrightarrow> map_of m k = None \<Longrightarrow> complete t rid v err m = (Inr None, m)"
    and complete_Inl: "py_key rid = Inl e \<Longrightarrow> complete t rid v err m = (Inl e, m)"

text \<open>Runs of a channel with fresh ids.\<close>

inductive channel_run ::
  "string \<Rightarrow> (tick \<Rightarrow> 'a \<Rightarrow> (reqs, exn, dict) op) \<Rightarrow>
   (tick \<Rightarrow> json \<Rightarrow> json \<Rightarrow> json \<Rightarrow> (reqs, exn, dict option) op) \<Rightarrow> reqs \<Rightarrow> reqs \<Rightarrow> bool"
  for pre create complete where
  finish: "channel_run pre create complete m m"
| create: "\<lbrakk>create t a m = (r, m'); map_of m (KStr (pre @ uid t)) = None; channel_run pre create complete m' m''\<rbrakk> \<Longrightarrow>
    channel_run pre create complete m m''"
| complete: "\<lbrakk>complete t rid v err m = (r', m'); channel_run pre create complete m' m''\<rbrakk> \<Longrightarrow>
    channel_run pre create complete m m''"

definition request_keeps :: "string list \<Rightarrow> dict \<Rightarrow> dict \<Rightarrow> bool" where
  "request_keeps fs r r' \<longleftrightarrow> r' = r \<or> same_request fs r r' \<and> closed_request r'"

context request_channel begin

lemma complete_step:
  assumes "complete t rid v err m = (x, m')" and "map_of m k = Some r"
  shows "\<exists>r'. map_of m' k = Some r' \<and> request_keeps fixed r r'"
proof (cases "py_key rid")
  case (Inl e)
  with assms complete_Inl show ?thesis by (auto simp: request_keeps_def)
next
  case (Inr k')
  show ?thesis
  proof (cases "map_of m k'")
    case None
    with Inr assms complete_unknown show ?thesis by (auto simp: request_keeps_def)
  next
    case (Some r0)
    from complete_known [OF Inr Some, of t v err] assms(1) obtain r' where
      "m' = AList.update k' r' m" "same_request fixed r0 r'"
      "dget r' ''status'' = JStr (if truthy err then ''failed'' else ''done'')" by auto
    with assms(2) Some show ?thesis
      by (cases "k = k'") (auto simp: request_keeps_def closed_request_def)
  qed
qed

lemma create_step:
  assumes "create t a m = (x, m')" and "map_of m (KStr (pre @ uid t)) = None" and "map_of m k = Some r"
  shows "map_of m' k = Some r"
proof (cases x)
  case (Inl e)
  with assms(1) have "m' = m" using create_Inl [of t a m e m'] by simp
  with assms(3) show ?thesis by simp
next
  case (Inr r')
  with create_Inr [of t a m r' m'] assms show ?thesis by auto
qed

lemma request_keeps_trans:
  "request_keeps fixed r r' \<Longrightarrow> request_keeps fixed r' r'' \<Longrightarrow> request_keeps fixed r r''"
  unfolding request_keeps_def same_request_def by auto

text \<open>
  Over any run a request is never lost, the fields that describe it never change, and its status
  changes only to done or failed: a request that left \<open>pending\<close> never becomes pending again.
\<close>

lemma run_keeps:
  "channel_run pre create complete m m' \<Longrightarrow> map_of m k = Some r \<Longrightarrow>
   \<exists>r'. map_of m' k = Some r' \<and> request_keeps fixed r r'"
proof (induction arbitrary: r rule: channel_run.induct)
  case (finish m)
  then show ?case by (simp add: request_keeps_def)
next
  case (create t a m x m' m'')
  then show ?case using create_step by blast
next
  case (complete t rid v err m x m' m'')
  then show ?case using complete_step request_keeps_trans by meson
qed

end

lemmas channel_defs = netlist_create_def netlist_complete_def action_create_def action_complete_def

interpretation netlists:
  request_channel "''request_id''" "''nlr_''" "[''request_id'', ''cellview'', ''corner'', ''created_at'']"
    netlist_create netlist_complete
  by unfold_locales
    (auto simp: channel_defs Let_def same_request_def split: prod.splits sum.splits option.splits)

interpretation actions:
  request_channel "''action_id''" "''act_''"
    "[''action_id'', ''namespace'', ''method'', ''params'', ''created_at'']" action_create action_complete
  by unfold_locales
    (auto simp: channel_defs Let_def same_request_def split: prod.splits sum.splits option.splits if_splits)

subsection \<open>Properties\<close>

text \<open>
  An action is decided at most once into a final state and is what was asked. Over any
  sequence of creations and completions, a stored action stays stored with its id, namespace,
  method and parameters; it is either untouched or done or failed, so it is never handed to a
  servicer again once it has been completed.
\<close>

theorem action_requests_kept:
  assumes "channel_run ''act_'' action_create action_complete m m'" and "map_of m k = Some r"
  shows "\<exists>r'. map_of m' k = Some r' \<and>
    (r' = r \<or> dget r' ''status'' \<in> {JStr ''done'', JStr ''failed''} \<and>
       dget r' ''action_id'' = dget r ''action_id'' \<and> dget r' ''namespace'' = dget r ''namespace'' \<and>
       dget r' ''method'' = dget r ''method'' \<and> dget r' ''params'' = dget r ''params'') \<and>
    (closed_request r \<longrightarrow> r' \<notin> set (action_pending JNull m'))"
proof -
  obtain r' where r': "map_of m' k = Some r'"
    and keeps: "request_keeps [''action_id'', ''namespace'', ''method'', ''params'', ''created_at''] r r'"
    using actions.run_keeps [OF assms] by blast
  from keeps have "closed_request r \<longrightarrow> dget r' ''status'' \<noteq> JStr ''pending''"
    by (auto simp: request_keeps_def closed_request_def)
  with r' keeps show ?thesis
    by (auto simp: request_keeps_def same_request_def closed_request_def action_pending_def)
qed

text \<open>
  What a servicer pulls. The pending netlist requests are exactly the stored ones that are
  pending; completing a stored request removes it from them, stores the deck it was given and
  leaves every other request as it was. An unknown id is answered with None and changes nothing.
\<close>

theorem netlist_complete_spec:
  assumes "distinct (map fst m)"
  shows "set (netlist_pending m) = {r. (\<exists>k. map_of m k = Some r) \<and> dget r ''status'' = JStr ''pending''} \<and>
    (case map_of m (KStr i) of
       None \<Rightarrow> netlist_complete t (JStr i) deck err m = (Inr None, m)
     | Some r \<Rightarrow> \<exists>r' m'. netlist_complete t (JStr i) deck err m = (Inr (Some r'), m') \<and>
         map_of m' = (map_of m)(KStr i \<mapsto> r') \<and> r' \<notin> set (netlist_pending m') \<and>
         dget r' ''deck'' = deck \<and> dget r' ''error'' = err \<and>
         dget r' ''status'' = JStr (if truthy err then ''failed'' else ''done'') \<and>
         dget r' ''cellview'' = dget r ''cellview'')"
proof
  show "set (netlist_pending m) = {r. (\<exists>k. map_of m k = Some r) \<and> dget r ''status'' = JStr ''pending''}"
    using vals_map_of [OF assms] by (auto simp: netlist_pending_def)
  show "case map_of m (KStr i) of
       None \<Rightarrow> netlist_complete t (JStr i) deck err m = (Inr None, m)
     | Some r \<Rightarrow> \<exists>r' m'. netlist_complete t (JStr i) deck err m = (Inr (Some r'), m') \<and>
         map_of m' = (map_of m)(KStr i \<mapsto> r') \<and> r' \<notin> set (netlist_pending m') \<and>
         dget r' ''deck'' = deck \<and> dget r' ''error'' = err \<and>
         dget r' ''status'' = JStr (if truthy err then ''failed'' else ''done'') \<and>
         dget r' ''cellview'' = dget r ''cellview''"
    by (auto simp: netlist_complete_def netlist_pending_def Let_def fun_eq_iff split: option.split)
qed

text \<open>
  Capability discovery. A registration of a non-empty namespace with string methods succeeds,
  is known and listed afterwards with exactly those methods, and keeps the first registration
  time across re-registrations; unregistering it makes it unknown. Other namespaces are untouched.
\<close>

theorem extension_register_spec:
  assumes "distinct (map fst m)" and "ns \<noteq> []" and known: "\<forall>k r. map_of m k = Some r \<longrightarrow> r \<noteq> []"
  shows "\<exists>r m'. extension_register t (JStr ns) (JList (map JStr ms)) descr meta m = (Inr r, m') \<and>
    map_of m' = (map_of m)(KStr ns \<mapsto> r) \<and> dget r ''methods'' = JList (map JStr ms) \<and>
    dget r ''registered_at'' =
      (case map_of m (KStr ns) of None \<Rightarrow> JStr (stamp t) | Some old \<Rightarrow> dget old ''registered_at'') \<and>
    extension_knows (JStr ns) m' = Inr True \<and> extension_get (JStr ns) m' = Inr (Some r) \<and> r \<in> set (extension_list m') \<and>
    (\<exists>m''. extension_unregister (JStr ns) m' = (Inr True, m'') \<and> map_of m'' = (map_of m)(KStr ns := None))"
proof -
  have iter: "py_iter (py_or (JList (map JStr ms)) (JList [])) = Inr (map JStr ms)"
    by (simp add: py_or_def)
  have strs: "list_all is_str (map JStr ms)" by (simp add: list_all_iff)
  obtain r where r: "extension_register t (JStr ns) (JList (map JStr ms)) descr meta m =
      (Inr r, AList.update (KStr ns) r m)" "dget r ''methods'' = JList (map JStr ms)"
      "dget r ''registered_at'' =
        (case map_of m (KStr ns) of None \<Rightarrow> JStr (stamp t) | Some old \<Rightarrow> dget old ''registered_at'')"
    using \<open>ns \<noteq> []\<close> iter strs known by (auto simp: extension_register_def Let_def split: option.split)
  have "r \<in> set (extension_list (AList.update (KStr ns) r m))"
    using set_update_distinct [OF assms(1), of "KStr ns" r] by (force simp: extension_list_def)
  moreover have "r \<noteq> []" using r(2) by auto
  ultimately show ?thesis using r
    by (intro exI [of _ r] exI [of _ "AList.update (KStr ns) r m"])
       (auto simp: extension_knows_def extension_get_def extension_unregister_def fun_eq_iff delete_conv')
qed

subsection \<open>Concrete instances\<close>

definition demo_action :: dict where
  "demo_action = [(''action_id'', JStr ''act_1''), (''namespace'', JStr ''layout''), (''method'', JStr ''draw''),
     (''params'', JObj []), (''status'', JStr ''pending''), (''result'', JNull), (''error'', JNull)]"

theorem action_requests_kept_witness:
  "\<exists>r'. map_of (snd (action_complete (good_tick 1) (JStr ''act_1'') (JInt 3) JNull [(KStr ''act_1'', demo_action)]))
     (KStr ''act_1'') = Some r' \<and> dget r' ''method'' = JStr ''draw''"
proof -
  let ?m = "[(KStr ''act_1'', demo_action)]"
  have run: "channel_run ''act_'' action_create action_complete ?m
      (snd (action_complete (good_tick 1) (JStr ''act_1'') (JInt 3) JNull ?m))"
    by (rule channel_run.complete [OF prod.collapse [symmetric] channel_run.finish])
  have "map_of ?m (KStr ''act_1'') = Some demo_action" by simp
  from action_requests_kept [OF run this] show ?thesis by (auto simp: demo_action_def)
qed

theorem netlist_complete_spec_witness:
  "\<exists>r' m'. netlist_complete (good_tick 1) (JStr ''nlr_1'') (JStr ''deck'') JNull
     [(KStr ''nlr_1'', [(''status'', JStr ''pending'')])] = (Inr (Some r'), m') \<and> netlist_pending m' = []"
proof -
  let ?m = "[(KStr ''nlr_1'', [(''status'', JStr ''pending'')])]"
  have "distinct (map fst ?m)" by simp
  from netlist_complete_spec [OF this, where i = "''nlr_1''" and t = "good_tick 1" and deck = "JStr ''deck''" and err = JNull]
  show ?thesis by (auto simp: netlist_complete_def netlist_pending_def Let_def)
qed

theorem extension_register_spec_witness:
  "\<exists>r m'. extension_register (good_tick 1) (JStr ''layout'') (JList [JStr ''draw'']) JNull JNull [] = (Inr r, m') \<and>
     extension_knows (JStr ''layout'') m' = Inr True"
  using extension_register_spec [of "[]" "''layout''" "good_tick 1" "[''draw'']" JNull JNull] by auto

end
