(* ===== verification/Artifacts.thy ===== *)
theory Artifacts
  imports Record_Store
begin

section \<open>Runs, their artifacts, and the latest result and context\<close>

text \<open>
  \<open>artifact/manager.py\<close>, \<open>sim/manager.py\<close> and \<open>design/context.py\<close>. A run is a record with a
  directory of its own that also holds the text artifacts attached to it; records are changed in
  place. The result and the context store keep the latest value and a stamped history.

  Paths are POSIX paths as \<open>pathlib\<close> joins and prints them: an absolute second part replaces the
  first, empty and \<open>.\<close> components vanish, \<open>..\<close> stays. The directory of all runs is the argument
  \<open>base\<close> of the operations that build a path.
\<close>

subsection \<open>Paths\<close>

fun split_slash :: "string \<Rightarrow> string \<Rightarrow> string list" where
  "split_slash acc [] = [rev acc]"
| "split_slash acc (c # cs) =
     (if c = CHR ''/'' then rev acc # split_slash [] cs else split_slash (c # acc) cs)"

definition path_parts :: "string \<Rightarrow> string list" where
  "path_parts p = filter (\<lambda>x. x \<noteq> [] \<and> x \<noteq> ''.'') (split_slash [] p)"

definition is_absolute :: "string \<Rightarrow> bool" where
  "is_absolute p = startswith p ''/''"

definition path_text :: "bool \<Rightarrow> string list \<Rightarrow> string" where
  "path_text ab ps =
     (if ab then ''/'' @ join ''/'' ps else if ps = [] then ''.'' else join ''/'' ps)"

text \<open>\<open>str(Path(base) / f)\<close>\<close>

definition path_join :: "string \<Rightarrow> string \<Rightarrow> string" where
  "path_join base f =
     (if is_absolute f then path_text True (path_parts f)
      else path_text (is_absolute base) (path_parts base @ path_parts f))"

definition not_a_path :: "json \<Rightarrow> exn" where
  "not_a_path v = TypeError (''unsupported operand type(s) for /: '' @ CHR 0x27 # ''PosixPath'' @ CHR 0x27 #
     '' and '' @ CHR 0x27 # type_name v @ [CHR 0x27])"

subsection \<open>Runs\<close>

record run_store =
  rs :: rec_store
  texts :: "(string \<times> string) list"

definition run_VALID_STATUSES :: "string list" where
  "run_VALID_STATUSES = [''created'', ''running'', ''done'', ''failed'']"

definition RunStore_load :: "(string \<times> doc) list \<Rightarrow> exn + run_store" where
  "RunStore_load files =
     map_sum id (\<lambda>m. \<lparr>rs = \<lparr>mem = m, disk = files\<rparr>, texts = []\<rparr>) (load_records ''run_id'' [] files)"

definition run_persist :: "tick \<Rightarrow> dict \<Rightarrow> (run_store, exn, unit) op" where
  "run_persist t r s =
     (if \<not> dirs_ok t then (Inr (), s)
      else case map_of r ''run_id'' of
             None \<Rightarrow> (Inl (KeyError ''run_id''), s)
           | Some (JStr i) \<Rightarrow>
               (Inr (), if write_ok t \<and> plain_name i
                        then s\<lparr>rs := (rs s)\<lparr>disk := AList.update (i @ ''/run.json'') (Doc (JObj r)) (disk (rs s))\<rparr>\<rparr>
                        else s)
           | Some v \<Rightarrow> (Inl (not_a_path v), s))"

definition put_run :: "pkey \<Rightarrow> dict \<Rightarrow> run_store \<Rightarrow> run_store" where
  "put_run k r s = s\<lparr>rs := (rs s)\<lparr>mem := AList.update k r (mem (rs s))\<rparr>\<rparr>"

definition new_run :: "tick \<Rightarrow> dict \<Rightarrow> dict" where
  "new_run t meta =
     (let r = dset ''run_id'' (JStr (''run_'' @ uid t)) meta;
          r = setdefault ''status'' (JStr ''created'') r;
          r = dset ''created_at'' (JStr (stamp t)) r;
          r = setdefault ''artifacts'' (JObj []) r
      in setdefault ''result_id'' JNull r)"

definition run_create :: "tick \<Rightarrow> dict \<Rightarrow> (run_store, exn, dict) op" where
  "run_create t meta s =
     (let r = new_run t meta
      in seq (run_persist t r) (ret r) (put_run (KStr (''run_'' @ uid t)) r s))"

definition run_get :: "run_store \<Rightarrow> json \<Rightarrow> exn + dict option" where
  "run_get s rid = lookup_record (rs s) rid"

definition run_list :: "json \<Rightarrow> run_store \<Rightarrow> exn + dict list" where
  "run_list status s =
     sorted_desc (\<lambda>r. dget_or r ''created_at'' (JStr [])) (with_status status (map snd (mem (rs s))))"

definition run_latest :: "run_store \<Rightarrow> exn + dict option" where
  "run_latest s = map_sum id (\<lambda>items. case items of [] \<Rightarrow> None | r # _ \<Rightarrow> Some r) (run_list JNull s)"

definition run_update :: "tick \<Rightarrow> json \<Rightarrow> (dict \<Rightarrow> exn + dict) \<Rightarrow> (run_store, exn, dict) op" where
  "run_update t rid mutate s =
     (case py_key rid of
        Inl e \<Rightarrow> (Inl e, s)
      | Inr k \<Rightarrow>
          (case map_of (mem (rs s)) k of
             None \<Rightarrow> (Inl (KeyError (''unknown run_id: '' @ py_str rid)), s)
           | Some r0 \<Rightarrow>
               (case mutate r0 of
                  Inl e \<Rightarrow> (Inl e, s)
                | Inr r1 \<Rightarrow>
                    (let r = dset ''updated_at'' (JStr (stamp t)) r1
                     in seq (run_persist t r) (ret r) (put_run k r s)))))"

definition run_set_status :: "tick \<Rightarrow> json \<Rightarrow> json \<Rightarrow> (run_store, exn, dict) op" where
  "run_set_status t rid status s =
     (if status \<notin> JStr ` set run_VALID_STATUSES
      then (Inl (ValueError (''invalid run status: '' @ py_str status)), s)
      else run_update t rid (\<lambda>r. Inr (dset ''status'' status r)) s)"

definition run_link_result :: "tick \<Rightarrow> json \<Rightarrow> json \<Rightarrow> (run_store, exn, dict) op" where
  "run_link_result t rid result_id = run_update t rid (\<lambda>r. Inr (dset ''result_id'' result_id r))"

text \<open>
  \<open>r["artifacts"][label] = path\<close>. A label that is a number becomes the text it has in the JSON
  file.
\<close>

definition set_artifact :: "json \<Rightarrow> string \<Rightarrow> dict \<Rightarrow> exn + dict" where
  "set_artifact label path r =
     (case map_of r ''artifacts'' of
        None \<Rightarrow> Inl (KeyError ''artifacts'')
      | Some (JObj a) \<Rightarrow>
          (case py_key label of
             Inl e \<Rightarrow> Inl e
           | Inr _ \<Rightarrow> Inr (dset ''artifacts'' (JObj (dset (py_str label) (JStr path) a)) r))
      | Some v \<Rightarrow> Inl (TypeError (CHR 0x27 # type_name v @ CHR 0x27 # '' object does not support item assignment'')))"

definition run_attach_text ::
  "string \<Rightarrow> tick \<Rightarrow> json \<Rightarrow> json \<Rightarrow> json \<Rightarrow> json \<Rightarrow> (run_store, exn, dict) op" where
  "run_attach_text base t rid label filename content s =
     (case lookup_record (rs s) rid of
        Inl e \<Rightarrow> (Inl e, s)
      | Inr None \<Rightarrow> (Inl (KeyError (''unknown run_id: '' @ py_str rid)), s)
      | Inr (Some r) \<Rightarrow>
          (case rid of
             JStr i \<Rightarrow>
               (if \<not> dirs_ok t then (Inl (OSError (path_join base i)), s)
                else case filename of
                       JStr f \<Rightarrow>
                         (case content of
                            JStr x \<Rightarrow>
                              (let path = path_join (path_join base i) f
                               in if \<not> write_ok t then (Inl (OSError path), s)
                                  else run_update t rid (set_artifact label path)
                                         (s\<lparr>texts := AList.update path x (texts s)\<rparr>))
                          | v \<Rightarrow> (Inl (TypeError (''data must be str, not '' @ type_name v)), s))
                     | v \<Rightarrow> (Inl (not_a_path v), s))
           | v \<Rightarrow> (Inl (not_a_path v), s)))"

text \<open>\<open>attach_file\<close> copies a file: \<open>content\<close> is what the source holds, None when it cannot be
  read.\<close>

definition base_name :: "string \<Rightarrow> string" where
  "base_name p = last (split_slash [] p)"

definition run_attach_file ::
  "string \<Rightarrow> tick \<Rightarrow> json \<Rightarrow> json \<Rightarrow> string \<Rightarrow> string option \<Rightarrow> (run_store, exn, dict) op" where
  "run_attach_file base t rid label src content s =
     (case lookup_record (rs s) rid of
        Inl e \<Rightarrow> (Inl e, s)
      | Inr None \<Rightarrow> (Inl (KeyError (''unknown run_id: '' @ py_str rid)), s)
      | Inr (Some r) \<Rightarrow>
          (case rid of
             JStr i \<Rightarrow>
               (if \<not> dirs_ok t then (Inl (OSError (path_join base i)), s)
                else let path = path_join (path_join base i) (base_name src)
                     in case content of
                          None \<Rightarrow> (Inl (OSError src), s)
                        | Some x \<Rightarrow>
                            (if \<not> write_ok t then (Inl (OSError path), s)
                             else run_update t rid (set_artifact label path)
                                    (s\<lparr>texts := AList.update path x (texts s)\<rparr>)))
           | v \<Rightarrow> (Inl (not_a_path v), s)))"

subsection \<open>Latest value with a history\<close>

text \<open>
  \<open>ResultStore\<close> and \<open>ContextStore\<close> are one design, with the name of the kept thing as a
  parameter. \<open>None\<close> is the state before the first value. A failing directory or write raises out
  of \<open>update\<close>, the new value already being the latest in memory.
\<close>

record latest_store =
  latest :: "json option"
  files :: "(string \<times> doc) list"

definition compact_stamp :: "tick \<Rightarrow> string" where
  "compact_stamp t =
     map (\<lambda>c. if c = CHR ''T'' then CHR ''_'' else c)
       (filter (\<lambda>c. c \<noteq> CHR ''-'' \<and> c \<noteq> CHR '':'') (stamp t))"

definition load_latest :: "string \<Rightarrow> (string \<times> doc) list \<Rightarrow> latest_store" where
  "load_latest nm fs =
     \<lparr>latest = (case map_of fs (''latest_'' @ nm @ ''.json'') of Some (Doc v) \<Rightarrow> Some v | _ \<Rightarrow> None),
      files = fs\<rparr>"

definition latest_update :: "string \<Rightarrow> string \<Rightarrow> tick \<Rightarrow> json \<Rightarrow> (latest_store, exn, json) op" where
  "latest_update dir nm t v s =
     (if \<not> dirs_ok t then (Inl (OSError dir), s)
      else if \<not> write_ok t then (Inl (OSError (path_join dir (''latest_'' @ nm @ ''.json''))), s\<lparr>latest := Some v\<rparr>)
      else (Inr (JObj [(''stored'', JBool True), (''path'', JStr (path_join dir (''latest_'' @ nm @ ''.json'')))]),
            s\<lparr>latest := Some v,
              files := AList.update (nm @ ''_'' @ compact_stamp t @ ''.json'') (Doc v)
                        (AList.update (''latest_'' @ nm @ ''.json'') (Doc v) (files s))\<rparr>))"

definition ResultStore_update :: "string \<Rightarrow> tick \<Rightarrow> json \<Rightarrow> (latest_store, exn, json) op" where
  "ResultStore_update dir = latest_update dir ''result''"

definition ContextStore_update :: "string \<Rightarrow> tick \<Rightarrow> json \<Rightarrow> (latest_store, exn, json) op" where
  "ContextStore_update dir = latest_update dir ''context''"

definition latest_value :: "latest_store \<Rightarrow> json" where
  "latest_value s = (case latest s of None \<Rightarrow> JNull | Some v \<Rightarrow> v)"

subsection \<open>The run store invariant\<close>

definition runs_ok :: "run_store \<Rightarrow> bool" where
  "runs_ok s \<longleftrightarrow> store_ok ''run_id'' (rs s)"

lemma mem_run_persist [simp]: "mem (rs (snd (run_persist t r s))) = mem (rs s)"
  by (simp add: run_persist_def split: option.split json.split)

lemma texts_run_persist [simp]: "texts (snd (run_persist t r s)) = texts s"
  by (simp add: run_persist_def split: option.split json.split)

lemma run_persist_str: "dget r ''run_id'' = JStr i \<Longrightarrow> fst (run_persist t r s) = Inr ()"
  by (auto simp: run_persist_def dget_def split: option.splits)

lemma runs_ok_mem: "runs_ok s \<Longrightarrow> mem (rs s') = mem (rs s) \<Longrightarrow> runs_ok s'"
  by (simp add: runs_ok_def store_ok_def)

lemma runs_ok_put:
  "runs_ok s \<Longrightarrow> truthy (dget r ''run_id'') \<Longrightarrow> py_key (dget r ''run_id'') = Inr k \<Longrightarrow> runs_ok (put_run k r s)"
  unfolding runs_ok_def put_run_def using store_ok_update [of "''run_id''" "rs s" r k] by simp

lemma new_run_id [simp]: "dget (new_run t meta) ''run_id'' = JStr (''run_'' @ uid t)"
  by (simp add: new_run_def Let_def)

lemma run_create_eq:
  "run_create t meta s =
     (Inr (new_run t meta), snd (run_persist t (new_run t meta) (put_run (KStr (''run_'' @ uid t)) (new_run t meta) s)))"
  using run_persist_str [of "new_run t meta"] by (simp add: run_create_def seq_ret Let_def)

lemma run_create_keeps [keeps]: "preserves runs_ok (run_create t meta)"
proof (rule preservesI)
  fix s assume ok: "runs_ok s"
  have "runs_ok (put_run (KStr (''run_'' @ uid t)) (new_run t meta) s)"
    by (rule runs_ok_put [OF ok]) simp_all
  then show "runs_ok (snd (run_create t meta s))"
    unfolding run_create_eq by (rule runs_ok_mem) simp
qed

lemma run_update_eq:
  assumes "runs_ok s" and "map_of (mem (rs s)) (KStr i) = Some r0" and "mutate r0 = Inr r1"
    and "dget r1 ''run_id'' = dget r0 ''run_id''"
  shows "run_update t (JStr i) mutate s =
    (Inr (dset ''updated_at'' (JStr (stamp t)) r1),
     snd (run_persist t (dset ''updated_at'' (JStr (stamp t)) r1)
       (put_run (KStr i) (dset ''updated_at'' (JStr (stamp t)) r1) s)))"
proof -
  have "dget r0 ''run_id'' = JStr i"
    using assms(1,2) by (auto simp: runs_ok_def dest: store_okD)
  then have "fst (run_persist t (dset ''updated_at'' (JStr (stamp t)) r1) s') = Inr ()" for s'
    using assms(4) by (intro run_persist_str) simp
  then show ?thesis using assms(2,3) by (simp add: run_update_def Let_def seq_ret)
qed

lemma run_update_keeps:
  assumes "\<And>r r'. mutate r = Inr r' \<Longrightarrow> dget r' ''run_id'' = dget r ''run_id''"
  shows "preserves runs_ok (run_update t rid mutate)"
proof (rule preservesI)
  fix s assume ok: "runs_ok s"
  have "runs_ok (snd (seq (run_persist t r) (ret r) (put_run k r s)))"
    if "map_of (mem (rs s)) k = Some r0" "mutate r0 = Inr r1" "r = dset ''updated_at'' (JStr (stamp t)) r1" for k r0 r1 r
  proof -
    have "truthy (dget r0 ''run_id'') \<and> py_key (dget r0 ''run_id'') = Inr k"
      using ok that(1) by (auto simp: runs_ok_def dest: store_okD)
    then have "runs_ok (put_run k r s)"
      by (intro runs_ok_put [OF ok]) (simp_all add: that(3) assms [OF that(2)])
    then show ?thesis by (rule runs_ok_mem) (simp add: seq_ret)
  qed
  with ok show "runs_ok (snd (run_update t rid mutate s))"
    by (auto simp: run_update_def Let_def split: sum.split option.split)
qed

lemma set_artifact_id: "set_artifact label path r = Inr r' \<Longrightarrow> dget r' ''run_id'' = dget r ''run_id''"
  by (auto simp: set_artifact_def split: option.splits json.splits sum.splits)

lemma run_set_status_keeps [keeps]: "preserves runs_ok (run_set_status t rid st)"
  using run_update_keeps [of "\<lambda>r. Inr (dset ''status'' st r)" t rid]
  by (auto simp: preserves_def run_set_status_def)

lemma run_link_result_keeps [keeps]: "preserves runs_ok (run_link_result t rid res)"
  unfolding run_link_result_def by (rule run_update_keeps) auto

lemma run_attach_text_keeps [keeps]: "preserves runs_ok (run_attach_text base t rid label f x)"
proof (rule preservesI)
  fix s assume ok: "runs_ok s"
  have "runs_ok (snd (run_update t rid (set_artifact label path) (s\<lparr>texts := y\<rparr>)))" for path y
  proof (rule preservesD [OF run_update_keeps])
    show "runs_ok (s\<lparr>texts := y\<rparr>)" using ok by (rule runs_ok_mem) simp
  qed (rule set_artifact_id)
  with ok show "runs_ok (snd (run_attach_text base t rid label f x s))"
    by (auto simp: run_attach_text_def Let_def split: sum.split option.split json.split)
qed

subsection \<open>Properties\<close>

text \<open>
  Artifacts can be read back, and where they land. Attaching a text to a stored run with a
  relative one-component file name writes exactly that text to the file of that name in the run's
  own directory and records the path under the label. With an absolute file name the code writes
  to that path instead, outside every run directory.
\<close>

theorem run_attach_text_spec:
  assumes ok: "runs_ok s" and r: "map_of (mem (rs s)) (KStr i) = Some r"
    and a: "map_of r ''artifacts'' = Some (JObj a)" and t: "healthy t"
  shows "\<exists>q s' path. run_attach_text base t (JStr i) (JStr label) (JStr f) (JStr x) s = (Inr q, s') \<and>
    path = (if is_absolute f then path_text True (path_parts f) else path_join (path_join base i) f) \<and>
    map_of (texts s') = (map_of (texts s))(path \<mapsto> x) \<and>
    map_of (mem (rs s')) = (map_of (mem (rs s)))(KStr i \<mapsto> q) \<and>
    dget q ''artifacts'' = JObj (dset label (JStr path) a) \<and>
    dget q ''status'' = dget r ''status'' \<and> dget q ''run_id'' = JStr i"
proof -
  let ?path = "path_join (path_join base i) f"
  let ?s = "s\<lparr>texts := AList.update ?path x (texts s)\<rparr>"
  have ok': "runs_ok ?s" using ok by (rule runs_ok_mem) simp
  have set: "set_artifact (JStr label) ?path r = Inr (dset ''artifacts'' (JObj (dset label (JStr ?path) a)) r)"
    using a by (simp add: set_artifact_def)
  define q where "q = dset ''updated_at'' (JStr (stamp t)) (dset ''artifacts'' (JObj (dset label (JStr ?path) a)) r)"
  have upd: "run_update t (JStr i) (set_artifact (JStr label) ?path) ?s =
      (Inr q, snd (run_persist t q (put_run (KStr i) q ?s)))"
    unfolding q_def by (rule run_update_eq [where ?r0.0 = r]) (use ok' r set in simp_all)
  have id: "dget r ''run_id'' = JStr i"
    using ok r by (auto simp: runs_ok_def dest: store_okD)
  from t r have "run_attach_text base t (JStr i) (JStr label) (JStr f) (JStr x) s =
      run_update t (JStr i) (set_artifact (JStr label) ?path) ?s"
    by (simp add: run_attach_text_def lookup_record_def healthy_def Let_def)
  then show ?thesis
    unfolding upd using id
    by (auto simp: q_def path_join_def put_run_def fun_eq_iff)
qed

text \<open>
  Run status. Setting one of the four statuses on a stored run succeeds whatever its current
  status is (the store has no transition table), changes only the status and the update stamp of
  that run, and any other status value raises and changes nothing.
\<close>

theorem run_set_status_spec:
  assumes ok: "runs_ok s" and r: "map_of (mem (rs s)) (KStr i) = Some r"
  shows "if st \<in> set run_VALID_STATUSES
    then \<exists>q s'. run_set_status t (JStr i) (JStr st) s = (Inr q, s') \<and>
      map_of (mem (rs s')) = (map_of (mem (rs s)))(KStr i \<mapsto> q) \<and> dget q ''status'' = JStr st \<and>
      (\<forall>f. f \<noteq> ''status'' \<and> f \<noteq> ''updated_at'' \<longrightarrow> dget q f = dget r f) \<and> texts s' = texts s
    else run_set_status t (JStr i) (JStr st) s = (Inl (ValueError (''invalid run status: '' @ st)), s)"
proof (cases "st \<in> set run_VALID_STATUSES")
  case True
  have "run_set_status t (JStr i) (JStr st) s = run_update t (JStr i) (\<lambda>r. Inr (dset ''status'' (JStr st) r)) s"
    using True by (simp add: run_set_status_def)
  also have "\<dots> = (Inr (dset ''updated_at'' (JStr (stamp t)) (dset ''status'' (JStr st) r)),
     snd (run_persist t (dset ''updated_at'' (JStr (stamp t)) (dset ''status'' (JStr st) r))
       (put_run (KStr i) (dset ''updated_at'' (JStr (stamp t)) (dset ''status'' (JStr st) r)) s)))"
    by (rule run_update_eq [OF ok r]) simp_all
  finally show ?thesis using True by (auto simp: put_run_def fun_eq_iff)
next
  case False
  then have "JStr st \<notin> JStr ` set run_VALID_STATUSES" by auto
  with False show ?thesis by (simp add: run_set_status_def)
qed

text \<open>
  The latest value survives a restart. After an update that the disk accepts, the store's
  latest value is the new one, and a store loaded from the directory has the same; when the disk
  refuses the write the update raises although the new value is already the latest in memory.
\<close>

theorem latest_update_restart:
  "(healthy t \<longrightarrow>
     (\<exists>v' s'. ResultStore_update dir t v s = (Inr v', s') \<and> latest s' = Some v \<and>
        latest (load_latest ''result'' (files s')) = Some v)) \<and>
   (dirs_ok t \<and> \<not> write_ok t \<longrightarrow>
     (\<exists>e s'. ResultStore_update dir t v s = (Inl e, s') \<and> latest s' = Some v \<and> files s' = files s))"
proof -
  have "''latest_result.json'' \<noteq> ''result'' @ ''_'' @ compact_stamp t @ ''.json''" by simp
  then show ?thesis
    by (auto simp: healthy_def ResultStore_update_def latest_update_def load_latest_def)
qed

subsection \<open>Concrete instances\<close>

definition demo_runs :: run_store where
  "demo_runs = \<lparr>rs = \<lparr>mem = [(KStr ''run_1'', [(''run_id'', JStr ''run_1''), (''status'', JStr ''created''),
     (''artifacts'', JObj [])])], disk = []\<rparr>, texts = []\<rparr>"

lemma demo_runs_ok: "runs_ok demo_runs"
  by (simp add: runs_ok_def store_ok_def demo_runs_def)

lemma demo_runs_1: "map_of (mem (rs demo_runs)) (KStr ''run_1'') =
  Some [(''run_id'', JStr ''run_1''), (''status'', JStr ''created''), (''artifacts'', JObj [])]"
  by (simp add: demo_runs_def)

lemma good_tick_healthy [simp]: "healthy (good_tick n)"
  by (simp add: healthy_def good_tick_def)

theorem run_attach_text_spec_witness:
  "(\<exists>q s'. run_attach_text ''/vfp/runs'' (good_tick 1) (JStr ''run_1'') (JStr ''log'') (JStr ''sim.log'') (JStr ''ok'') demo_runs =
      (Inr q, s') \<and> map_of (texts s') ''/vfp/runs/run_1/sim.log'' = Some ''ok'') \<and>
   (\<exists>q s'. run_attach_text ''/vfp/runs'' (good_tick 1) (JStr ''run_1'') (JStr ''log'') (JStr ''/home/u/x'') (JStr ''ok'') demo_runs =
      (Inr q, s') \<and> map_of (texts s') ''/home/u/x'' = Some ''ok'')"
proof -
  have a: "map_of [(''run_id'', JStr ''run_1''), (''status'', JStr ''created''), (''artifacts'', JObj [])] ''artifacts'' = Some (JObj [])"
    by simp
  note spec = run_attach_text_spec [OF demo_runs_ok demo_runs_1 a good_tick_healthy, where base = "''/vfp/runs''"
    and label = "''log''" and x = "''ok''"]
  have p1: "path_join (path_join ''/vfp/runs'' ''run_1'') ''sim.log'' = ''/vfp/runs/run_1/sim.log''"
    by (simp add: path_join_def is_absolute_def path_text_def path_parts_def)
  have p2: "path_text True (path_parts ''/home/u/x'') = ''/home/u/x''"
    by (simp add: path_text_def path_parts_def)
  show ?thesis
    using spec [of 1 "''sim.log''"] spec [of 1 "''/home/u/x''"] p1 p2
    by (auto simp: is_absolute_def)
qed

theorem run_set_status_spec_witness:
  "(\<exists>q s'. run_set_status (good_tick 1) (JStr ''run_1'') (JStr ''done'') demo_runs = (Inr q, s') \<and>
      dget q ''status'' = JStr ''done'') \<and>
   run_set_status (good_tick 1) (JStr ''run_1'') (JStr ''lost'') demo_runs =
     (Inl (ValueError ''invalid run status: lost''), demo_runs)"
  using run_set_status_spec [OF demo_runs_ok demo_runs_1, of "''done''" "good_tick 1"]
    run_set_status_spec [OF demo_runs_ok demo_runs_1, of "''lost''" "good_tick 1"]
  by (auto simp: run_VALID_STATUSES_def)

theorem latest_update_restart_witness:
  "\<exists>v' s'. ResultStore_update ''/vfp/results'' (good_tick 1) (JObj []) \<lparr>latest = None, files = []\<rparr> = (Inr v', s') \<and>
     latest (load_latest ''result'' (files s')) = Some (JObj [])"
  using latest_update_restart [of "good_tick 1" "''/vfp/results''" "JObj []" "\<lparr>latest = None, files = []\<rparr>"] by auto

end
