(* ===== verification/Metrics.thy ===== *)
theory Metrics
  imports Record_Store
begin

section \<open>Metrics, results and constraint verdicts\<close>

text \<open>
  \<open>sim/metrics.py\<close>, \<open>sim/parser.py\<close> and \<open>constraints/engine.py\<close>: how a metrics file becomes a
  result, and how a result is judged. Parsing a JSON text is the argument \<open>loads\<close> of
  \<open>parse_result_file\<close> (None for a text that is no JSON).
\<close>

subsection \<open>Metrics\<close>

definition finite_number :: "json \<Rightarrow> json option" where
  "finite_number v = (case v of JFloat x \<Rightarrow> (if isfinite x then Some v else None) | _ \<Rightarrow> Some v)"

fun coerce_number :: "json \<Rightarrow> json option" where
  "coerce_number (JBool b) = None"
| "coerce_number (JInt i) = Some (JInt i)"
| "coerce_number (JFloat x) = finite_number (JFloat x)"
| "coerce_number (JStr s) = (case parse_float s of None \<Rightarrow> None | Some x \<Rightarrow> finite_number (JFloat x))"
| "coerce_number _ = None"

fun metrics_of :: "dict \<Rightarrow> dict \<Rightarrow> dict" where
  "metrics_of [] out = out"
| "metrics_of ((k, v) # d) out =
     metrics_of d (case coerce_number v of None \<Rightarrow> out | Some n \<Rightarrow> dset k n out)"

definition extract_metrics :: "json \<Rightarrow> dict" where
  "extract_metrics obj =
     (let src = (case obj of
                   JObj d \<Rightarrow> (case map_of d ''metrics'' of Some m \<Rightarrow> m | None \<Rightarrow> obj)
                 | _ \<Rightarrow> obj)
      in case src of JObj d \<Rightarrow> metrics_of d [] | _ \<Rightarrow> [])"

definition make_result :: "tick \<Rightarrow> json \<Rightarrow> dict" where
  "make_result t data =
     (let r = (case data of JObj d \<Rightarrow> d | _ \<Rightarrow> []);
          r = (if truthy (dget r ''result_id'') then r else dset ''result_id'' (JStr (''r_'' @ uid t)) r);
          r = dset ''metrics'' (JObj (extract_metrics (JObj r))) r;
          has_02 = truthy (dget r ''provenance'') \<or> truthy (dget r ''metric_quality'');
          r = setdefault ''schema_version'' (JStr (if has_02 then ''0.2'' else ''0.1'')) r;
          r = setdefault ''source'' (JStr ''manual'') r
      in setdefault ''created_at'' (JStr (stamp t)) r)"

subsection \<open>Metrics files\<close>

definition split_line :: "string \<Rightarrow> (string \<times> string) option" where
  "split_line row =
     (case find (\<lambda>sep. sep \<in> set row) [CHR ''='', CHR '','', CHR 0x09, CHR '' ''] of
        None \<Rightarrow> None
      | Some sep \<Rightarrow> (case partition_at sep row of (key, val) \<Rightarrow> Some (strip key, strip val)))"

definition parse_line :: "string \<Rightarrow> dict \<Rightarrow> dict" where
  "parse_line raw m =
     (let row = strip raw
      in if row = [] \<or> startswith row ''#'' \<or> startswith row '';'' then m
         else case split_line row of
                None \<Rightarrow> m
              | Some (key, val) \<Rightarrow>
                  (case parse_float val of None \<Rightarrow> m | Some x \<Rightarrow> dset key (JFloat x) m))"

definition parse_text :: "string \<Rightarrow> dict" where
  "parse_text text = fold parse_line (splitlines text) []"

definition parse_result_file :: "(string \<Rightarrow> json option) \<Rightarrow> string \<Rightarrow> exn + dict" where
  "parse_result_file loads text =
     (let stripped = lstrip text
      in if startswith stripped ''{'' \<or> startswith stripped ''['' then
           (case loads text of
              None \<Rightarrow> Inl (ValueError ''not a JSON text'')
            | Some obj \<Rightarrow>
                (let out = [(''metrics'', JObj (extract_metrics obj))]
                 in Inr (case obj of
                      JObj d \<Rightarrow>
                        fold (\<lambda>key out. case dget d key of
                                 JObj block \<Rightarrow> (if block = [] then out else dset key (JObj block) out)
                               | _ \<Rightarrow> out) [''provenance'', ''metric_quality''] out
                    | _ \<Rightarrow> out)))
         else Inr [(''metrics'', JObj (parse_text text))])"

definition parse_metrics_file :: "(string \<Rightarrow> json option) \<Rightarrow> string \<Rightarrow> exn + json" where
  "parse_metrics_file loads text = map_sum id (\<lambda>d. dget d ''metrics'') (parse_result_file loads text)"

subsection \<open>Constraints\<close>

text \<open>The error text of \<open>>\<close> names its own operator and operand order.\<close>

definition py_gt :: "json \<Rightarrow> json \<Rightarrow> exn + bool" where
  "py_gt v w =
     (case py_lt w v of
        Inr b \<Rightarrow> Inr b
      | Inl _ \<Rightarrow> Inl (TypeError (CHR 0x27 # ''>'' @ CHR 0x27 # '' not supported between instances of '' @
          CHR 0x27 # type_name v @ CHR 0x27 # '' and '' @ CHR 0x27 # type_name w @ [CHR 0x27])))"

definition failed_item :: "string \<Rightarrow> json \<Rightarrow> string \<Rightarrow> dict" where
  "failed_item metric v reason =
     [(''metric'', JStr metric), (''value'', v), (''status'', JStr ''fail''), (''reason'', JStr reason)]"

definition evaluate_max :: "string \<Rightarrow> json \<Rightarrow> json \<Rightarrow> exn + dict" where
  "evaluate_max metric v hi =
     (let ok = [(''metric'', JStr metric), (''value'', v), (''status'', JStr ''pass'')]
      in if hi = JNull then Inr ok
         else case py_gt v hi of
                Inl e \<Rightarrow> Inl e
              | Inr b \<Rightarrow> Inr (if b then failed_item metric v (py_str v @ '' > max '' @ py_str hi) else ok))"

definition evaluate_one :: "string \<Rightarrow> json \<Rightarrow> json \<Rightarrow> exn + dict" where
  "evaluate_one metric v spec =
     (if v = JNull
      then Inr [(''metric'', JStr metric), (''status'', JStr ''fail''), (''reason'', JStr ''not reported'')]
      else case spec of
             JObj sp \<Rightarrow>
               (let lo = dget sp ''min''; hi = dget sp ''max''
                in if lo = JNull then evaluate_max metric v hi
                   else case py_lt v lo of
                          Inl e \<Rightarrow> Inl e
                        | Inr True \<Rightarrow> Inr (failed_item metric v (py_str v @ '' < min '' @ py_str lo))
                        | Inr False \<Rightarrow> evaluate_max metric v hi)
           | _ \<Rightarrow> map_sum id (\<lambda>_. []) (jget spec ''min''))"

fun evaluate_all :: "dict \<Rightarrow> dict \<Rightarrow> string list \<Rightarrow> exn + dict list" where
  "evaluate_all metrics limits [] = Inr []"
| "evaluate_all metrics limits (k # ks) =
     (case evaluate_one k (dget metrics k) (py_or (dget limits k) (JObj [])) of
        Inl e \<Rightarrow> Inl e
      | Inr item \<Rightarrow> map_sum id ((#) item) (evaluate_all metrics limits ks))"

definition constraint_check :: "dict \<Rightarrow> dict \<Rightarrow> exn + dict" where
  "constraint_check metrics limits =
     map_sum id
       (\<lambda>items. [(''overall'', JStr (if list_all (\<lambda>i. dget i ''status'' = JStr ''pass'') items
                                     then ''pass'' else ''fail'')),
                 (''items'', JList (map JObj items))])
       (evaluate_all metrics limits (isort_lt str_less (map fst limits)))"

subsection \<open>Facts about metrics\<close>

definition finite_json :: "json \<Rightarrow> bool" where
  "finite_json v \<longleftrightarrow> (\<exists>i. v = JInt i) \<or> (\<exists>q. v = JFloat (Fin q))"

lemma isfinite_conv: "isfinite x \<longleftrightarrow> (\<exists>q. x = Fin q)"
  by (cases x) auto

lemma coerce_finite: "coerce_number v = Some n \<Longrightarrow> finite_json n"
  by (cases v rule: coerce_number.cases)
     (auto simp: finite_json_def finite_number_def isfinite_conv split: option.splits if_splits)

lemma coerce_fixed: "finite_json n \<Longrightarrow> coerce_number n = Some n"
  by (auto simp: finite_json_def finite_number_def)

lemma metrics_of_lookup:
  "distinct (map fst d) \<Longrightarrow>
   map_of (metrics_of d out) k =
     (case map_of d k of
        Some v \<Rightarrow> (case coerce_number v of Some n \<Rightarrow> Some n | None \<Rightarrow> map_of out k)
      | None \<Rightarrow> map_of out k)"
proof (induction d out rule: metrics_of.induct)
  case (2 k' v d out)
  then have "map_of d k' = None" by (simp add: map_of_eq_None_iff)
  with 2 show ?case by (auto split: option.splits)
qed simp

lemma metrics_of_finite:
  "(\<And>k v. map_of out k = Some v \<Longrightarrow> finite_json v) \<Longrightarrow> map_of (metrics_of d out) k = Some n \<Longrightarrow> finite_json n"
proof (induction d out arbitrary: k n rule: metrics_of.induct)
  case (1 out)
  show ?case by (rule 1(1) [of k]) (use 1(2) in simp)
next
  case (2 k' v d out)
  show ?case
  proof (rule 2(1))
    show "map_of (metrics_of d (case coerce_number v of None \<Rightarrow> out | Some n \<Rightarrow> dset k' n out)) k = Some n"
      using 2(3) by simp
  next
    fix k'' w assume "map_of (case coerce_number v of None \<Rightarrow> out | Some n \<Rightarrow> dset k' n out) k'' = Some w"
    then show "finite_json w"
      using 2(2) coerce_finite [of v] by (auto split: option.splits if_splits)
  qed
qed

lemma extract_metrics_finite: "map_of (extract_metrics v) k = Some n \<Longrightarrow> finite_json n"
  by (auto simp: extract_metrics_def Let_def split: json.splits option.splits
      dest!: metrics_of_finite [rotated])

subsection \<open>Properties\<close>

text \<open>
  C21. Only finite numbers cross as metrics. Whatever a client or a metrics file supplies, every
  metric of a built result is an int or a finite float; and the metrics of an object with a
  \<open>metrics\<close> block are exactly the numeric entries of that block, numeric strings converted.
\<close>

theorem result_metrics_finite:
  "(\<exists>m. map_of (make_result t data) ''metrics'' = Some (JObj m) \<and>
      (\<forall>k n. map_of m k = Some n \<longrightarrow> finite_json n)) \<and>
   (data = JObj d \<and> map_of d ''metrics'' = Some (JObj src) \<and> distinct (map fst src) \<longrightarrow>
      (\<exists>m. map_of (make_result t data) ''metrics'' = Some (JObj m) \<and>
         map_of m k = (case map_of src k of None \<Rightarrow> None | Some v \<Rightarrow> coerce_number v)))"
proof
  show "\<exists>m. map_of (make_result t data) ''metrics'' = Some (JObj m) \<and>
      (\<forall>k n. map_of m k = Some n \<longrightarrow> finite_json n)"
    using extract_metrics_finite by (simp add: make_result_def Let_def)
  show "data = JObj d \<and> map_of d ''metrics'' = Some (JObj src) \<and> distinct (map fst src) \<longrightarrow>
      (\<exists>m. map_of (make_result t data) ''metrics'' = Some (JObj m) \<and>
         map_of m k = (case map_of src k of None \<Rightarrow> None | Some v \<Rightarrow> coerce_number v))"
    by (auto simp: make_result_def extract_metrics_def metrics_of_lookup Let_def split: option.split)
qed

text \<open>
  A result without a \<open>metrics\<close> block turns its own bookkeeping into metrics: the extraction
  runs over the whole object, so a numeric string such as the schema version becomes a metric.
\<close>

theorem result_without_metrics:
  assumes "distinct (map fst d)" and "map_of d ''metrics'' = None" and "truthy (dget d ''result_id'')"
  shows "\<exists>m. map_of (make_result t (JObj d)) ''metrics'' = Some (JObj m) \<and>
    (\<forall>k. map_of m k = (case map_of d k of None \<Rightarrow> None | Some v \<Rightarrow> coerce_number v))"
  using assms by (auto simp: make_result_def extract_metrics_def metrics_of_lookup Let_def split: option.split)

text \<open>A metric within its limits, for numeric limits.\<close>

definition in_limits :: "json \<Rightarrow> dict \<Rightarrow> bool" where
  "in_limits v sp \<longleftrightarrow>
     (dget sp ''min'' = JNull \<or> \<not> lt_true v (dget sp ''min'')) \<and>
     (dget sp ''max'' = JNull \<or> \<not> lt_true (dget sp ''max'') v)"

definition numeric_spec :: "dict \<Rightarrow> bool" where
  "numeric_spec sp \<longleftrightarrow> (dget sp ''min'' = JNull \<or> as_num (dget sp ''min'') \<noteq> None) \<and>
     (dget sp ''max'' = JNull \<or> as_num (dget sp ''max'') \<noteq> None)"

lemma evaluate_one_numeric:
  assumes "numeric_spec sp" and "v = JNull \<or> as_num v \<noteq> None"
  shows "\<exists>item. evaluate_one k v (JObj sp) = Inr item \<and> dget item ''metric'' = JStr k \<and>
    (dget item ''status'' = JStr ''pass'' \<longleftrightarrow> v \<noteq> JNull \<and> in_limits v sp) \<and>
    (dget item ''status'' = JStr ''pass'' \<or> dget item ''status'' = JStr ''fail'')"
proof (cases "v = JNull")
  case False
  have lo: "\<exists>b. py_lt v (dget sp ''min'') = Inr b" if "dget sp ''min'' \<noteq> JNull"
    using assms that False py_lt_num by (auto simp: numeric_spec_def)
  have hi: "\<exists>b. py_lt (dget sp ''max'') v = Inr b" if "dget sp ''max'' \<noteq> JNull"
    using assms that False py_lt_num by (auto simp: numeric_spec_def)
  have mx: "\<exists>item. evaluate_max k v (dget sp ''max'') = Inr item \<and> dget item ''metric'' = JStr k \<and>
      (dget item ''status'' = JStr ''pass'' \<longleftrightarrow> dget sp ''max'' = JNull \<or> \<not> lt_true (dget sp ''max'') v) \<and>
      (dget item ''status'' = JStr ''pass'' \<or> dget item ''status'' = JStr ''fail'')"
    using hi by (auto simp: evaluate_max_def py_gt_def failed_item_def lt_true_def Let_def)
  show ?thesis
  proof (cases "dget sp ''min'' = JNull")
    case True
    with mx False show ?thesis by (simp add: evaluate_one_def in_limits_def Let_def)
  next
    case False
    with lo obtain b where "py_lt v (dget sp ''min'') = Inr b" by blast
    with mx False \<open>v \<noteq> JNull\<close> show ?thesis
      by (cases b) (auto simp: evaluate_one_def in_limits_def failed_item_def lt_true_def Let_def)
  qed
qed (simp add: evaluate_one_def)

lemma evaluate_all_numeric:
  assumes "\<And>k. k \<in> set ks \<Longrightarrow> \<exists>sp. py_or (dget limits k) (JObj []) = JObj sp \<and> numeric_spec sp \<and>
      (dget metrics k = JNull \<or> as_num (dget metrics k) \<noteq> None)"
  shows "\<exists>items. evaluate_all metrics limits ks = Inr items \<and> map (\<lambda>i. dget i ''metric'') items = map JStr ks \<and>
    list_all2 (\<lambda>k i. dget i ''status'' = JStr ''pass'' \<longleftrightarrow> dget metrics k \<noteq> JNull \<and>
      (\<exists>sp. py_or (dget limits k) (JObj []) = JObj sp \<and> in_limits (dget metrics k) sp)) ks items"
  using assms
proof (induction ks)
  case (Cons k ks)
  from Cons.prems [of k] obtain sp where sp: "py_or (dget limits k) (JObj []) = JObj sp" "numeric_spec sp"
    and v: "dget metrics k = JNull \<or> as_num (dget metrics k) \<noteq> None" by auto
  obtain item where item: "evaluate_one k (dget metrics k) (JObj sp) = Inr item" "dget item ''metric'' = JStr k"
    "dget item ''status'' = JStr ''pass'' \<longleftrightarrow> dget metrics k \<noteq> JNull \<and> in_limits (dget metrics k) sp"
    using evaluate_one_numeric [OF sp(2) v, of k] by blast
  obtain items where "evaluate_all metrics limits ks = Inr items" "map (\<lambda>i. dget i ''metric'') items = map JStr ks"
    "list_all2 (\<lambda>k i. dget i ''status'' = JStr ''pass'' \<longleftrightarrow> dget metrics k \<noteq> JNull \<and>
      (\<exists>sp. py_or (dget limits k) (JObj []) = JObj sp \<and> in_limits (dget metrics k) sp)) ks items"
    using Cons.IH Cons.prems by auto
  with item sp show ?case by (intro exI [of _ "item # items"]) simp
qed simp

text \<open>
  The verdict. When the metrics and limits are numbers (missing metrics and open limits
  allowed), the check returns one item per limit, in the order of the metric names, and the
  overall verdict is pass exactly when every limited metric is reported and within its limits.
  A NaN metric is within any limits.
\<close>

theorem constraint_verdict:
  assumes num: "\<And>k. k \<in> fst ` set limits \<Longrightarrow> \<exists>sp. py_or (dget limits k) (JObj []) = JObj sp \<and> numeric_spec sp \<and>
      (dget metrics k = JNull \<or> as_num (dget metrics k) \<noteq> None)"
  shows "\<exists>items. constraint_check metrics limits =
      Inr [(''overall'', JStr (if \<forall>k \<in> fst ` set limits. dget metrics k \<noteq> JNull \<and>
               (\<exists>sp. py_or (dget limits k) (JObj []) = JObj sp \<and> in_limits (dget metrics k) sp)
             then ''pass'' else ''fail'')), (''items'', JList (map JObj items))] \<and>
    map (\<lambda>i. dget i ''metric'') items = map JStr (isort_lt str_less (map fst limits)) \<and>
    in_limits (JFloat NaN) sp0"
proof -
  let ?ks = "isort_lt str_less (map fst limits)"
  have "\<And>k. k \<in> set ?ks \<Longrightarrow> \<exists>sp. py_or (dget limits k) (JObj []) = JObj sp \<and> numeric_spec sp \<and>
      (dget metrics k = JNull \<or> as_num (dget metrics k) \<noteq> None)"
    using num by simp
  from evaluate_all_numeric [OF this] obtain items where
    items: "evaluate_all metrics limits ?ks = Inr items" "map (\<lambda>i. dget i ''metric'') items = map JStr ?ks"
      "list_all2 (\<lambda>k i. dget i ''status'' = JStr ''pass'' \<longleftrightarrow> dget metrics k \<noteq> JNull \<and>
        (\<exists>sp. py_or (dget limits k) (JObj []) = JObj sp \<and> in_limits (dget metrics k) sp)) ?ks items" by blast
  have "list_all (\<lambda>i. dget i ''status'' = JStr ''pass'') items \<longleftrightarrow>
      (\<forall>k \<in> set ?ks. dget metrics k \<noteq> JNull \<and> (\<exists>sp. py_or (dget limits k) (JObj []) = JObj sp \<and> in_limits (dget metrics k) sp))"
    using items(3) by (induction rule: list_all2_induct) auto
  moreover have "in_limits (JFloat NaN) sp0"
  proof -
    have "\<not> lt_true (JFloat NaN) w" "\<not> lt_true w (JFloat NaN)" for w
      by (cases w; simp add: lt_true_def)+
    then show ?thesis by (simp add: in_limits_def)
  qed
  ultimately show ?thesis
    using items(1,2) by (intro exI [of _ items]) (simp add: constraint_check_def)
qed

subsection \<open>Concrete instances\<close>

theorem result_metrics_finite_witness:
  "\<exists>m. map_of (make_result (good_tick 1) (JObj [(''metrics'', JObj [(''gain'', JInt 40), (''gm'', JFloat NaN)])])) ''metrics'' =
     Some (JObj m) \<and> map_of m ''gain'' = Some (JInt 40)"
  using result_metrics_finite [of "good_tick 1" "JObj [(''metrics'', JObj [(''gain'', JInt 40), (''gm'', JFloat NaN)])]"
    "[(''metrics'', JObj [(''gain'', JInt 40), (''gm'', JFloat NaN)])]"
    "[(''gain'', JInt 40), (''gm'', JFloat NaN)]" "''gain''"] by auto

theorem result_without_metrics_witness:
  "\<exists>m. map_of (make_result (good_tick 1) (JObj [(''result_id'', JStr ''r_1''), (''attempt'', JInt 3)])) ''metrics'' =
     Some (JObj m) \<and> map_of m ''attempt'' = Some (JInt 3)"
  using result_without_metrics [of "[(''result_id'', JStr ''r_1''), (''attempt'', JInt 3)]" "good_tick 1"] by auto

theorem constraint_verdict_witness:
  "\<exists>items. constraint_check [(''gain'', JInt 40)] [(''gain'', JObj [(''min'', JInt 30)])] =
     Inr [(''overall'', JStr ''pass''), (''items'', JList (map JObj items))]"
proof -
  have "\<exists>sp. py_or (dget [(''gain'', JObj [(''min'', JInt 30)])] k) (JObj []) = JObj sp \<and> numeric_spec sp \<and>
      (dget [(''gain'', JInt 40)] k = JNull \<or> as_num (dget [(''gain'', JInt 40)] k) \<noteq> None)"
    if "k \<in> fst ` set [(''gain'', JObj [(''min'', JInt 30)])]" for k
    using that by (simp add: py_or_def numeric_spec_def)
  from constraint_verdict [OF this, where ?sp0.0 = "[]"] show ?thesis
    by (auto simp: py_or_def in_limits_def lt_true_def)
qed

end
