(* ===== verification/JsonRpc.thy ===== *)
theory JsonRpc
  imports Record_Store
begin

section \<open>JSON-RPC: dispatcher, server loop, client\<close>

text \<open>
  \<open>rpc/jsonrpc.py\<close>, \<open>rpc/errors.py\<close>, \<open>rpc/schemas.py\<close> and \<open>rpc/transport.py\<close>. A registered
  method is an operation on the daemon's state; the dispatcher turns its outcome into a response
  object, the server loop reads one message per line, and the client's \<open>call\<close> reads the response
  back. A line is blank, garbled or a JSON value; \<open>Wire\<close> has its bytes.
\<close>

subsection \<open>Error codes\<close>

definition PARSE_ERROR :: int where "PARSE_ERROR = - 32700"
definition INVALID_REQUEST :: int where "INVALID_REQUEST = - 32600"
definition METHOD_NOT_FOUND :: int where "METHOD_NOT_FOUND = - 32601"
definition INVALID_PARAMS :: int where "INVALID_PARAMS = - 32602"
definition INTERNAL_ERROR :: int where "INTERNAL_ERROR = - 32603"
definition SERVER_ERROR :: int where "SERVER_ERROR = - 32000"
definition NOT_FOUND :: int where "NOT_FOUND = - 32001"
definition PERMISSION_DENIED :: int where "PERMISSION_DENIED = - 32002"
definition INVALID_STATE :: int where "INVALID_STATE = - 32003"
definition CONFLICT :: int where "CONFLICT = - 32004"
definition STALE :: int where "STALE = - 32005"

text \<open>The bottoms of the ranges kept for later use\<close>

definition SESSION_BASE :: int where "SESSION_BASE = - 32010"
definition JOB_BASE :: int where "JOB_BASE = - 32020"
definition RESULT_BASE :: int where "RESULT_BASE = - 32030"

lemmas error_codes = PARSE_ERROR_def INVALID_REQUEST_def METHOD_NOT_FOUND_def INVALID_PARAMS_def
  INTERNAL_ERROR_def SERVER_ERROR_def NOT_FOUND_def PERMISSION_DENIED_def INVALID_STATE_def
  CONFLICT_def STALE_def

definition message_for :: "int \<Rightarrow> string" where
  "message_for code =
     (case map_of
        [(PARSE_ERROR, ''parse error''), (INVALID_REQUEST, ''invalid request''),
         (METHOD_NOT_FOUND, ''method not found''), (INVALID_PARAMS, ''invalid params''),
         (INTERNAL_ERROR, ''internal error''), (SERVER_ERROR, ''server error''),
         (NOT_FOUND, ''not found''), (PERMISSION_DENIED, ''permission denied''),
         (INVALID_STATE, ''invalid state''), (CONFLICT, ''conflict''), (STALE, ''stale'')] code of
        None \<Rightarrow> ''error'' | Some m \<Rightarrow> m)"

subsection \<open>Responses\<close>

definition rpc_response :: "json \<Rightarrow> json \<Rightarrow> json" where
  "rpc_response mid result = JObj [(''jsonrpc'', JStr ''2.0''), (''id'', mid), (''result'', result)]"

definition rpc_error :: "json \<Rightarrow> int \<Rightarrow> string \<Rightarrow> json option \<Rightarrow> json" where
  "rpc_error mid code message data =
     (let err = [(''code'', JInt code), (''message'', JStr message)];
          err = (case data of None \<Rightarrow> err | Some v \<Rightarrow> dset ''data'' v err)
      in JObj [(''jsonrpc'', JStr ''2.0''), (''id'', mid), (''error'', JObj err)])"

subsection \<open>Dispatcher\<close>

type_synonym 's rpc_method = "dict \<Rightarrow> ('s, exn, json) op"

text \<open>What the dispatcher makes of an exception: a structured error or the last-resort guard.\<close>

fun guard_error :: "json \<Rightarrow> exn \<Rightarrow> json" where
  "guard_error mid (RpcError code message data) = rpc_error mid code message data"
| "guard_error mid e = rpc_error mid INTERNAL_ERROR (exn_name e @ '': '' @ exn_str e) None"

definition call_method :: "json \<Rightarrow> 's rpc_method \<Rightarrow> dict \<Rightarrow> ('s, exn, json option) op" where
  "call_method mid fn params s =
     (case fn params s of
        (Inl e, s') \<Rightarrow> (Inr (Some (guard_error mid e)), s')
      | (Inr result, s') \<Rightarrow>
          (Inr (if mid = JNull then None else Some (rpc_response mid result)), s'))"

definition dispatch :: "(string \<Rightarrow> 's rpc_method option) \<Rightarrow> json \<Rightarrow> ('s, exn, json option) op" where
  "dispatch methods msg s =
     (case msg of
        JObj d \<Rightarrow>
          (if dget d ''jsonrpc'' \<noteq> JStr ''2.0'' \<or> \<not> has_key d ''method''
           then (Inr (Some (rpc_error (dget d ''id'') INVALID_REQUEST ''Invalid Request'' None)), s)
           else
             (let mid = dget d ''id''; meth = dget d ''method'';
                  params = (if dget d ''params'' = JNull then JObj [] else dget d ''params'')
              in case params of
                   JObj p \<Rightarrow>
                     (case py_key meth of
                        Inl e \<Rightarrow> (Inl e, s)
                      | Inr k \<Rightarrow>
                          (case (case k of KStr name \<Rightarrow> methods name | _ \<Rightarrow> None) of
                             None \<Rightarrow>
                               (Inr (if mid = JNull then None
                                     else Some (rpc_error mid METHOD_NOT_FOUND
                                                 (''Method not found: '' @ py_str meth) None)), s)
                           | Some fn \<Rightarrow> call_method mid fn p s))
                 | _ \<Rightarrow> (Inr (Some (rpc_error mid INVALID_PARAMS ''params must be an object'' None)), s)))
      | _ \<Rightarrow> (Inr (Some (rpc_error JNull INVALID_REQUEST ''Invalid Request'' None)), s))"

subsection \<open>Optional schema validation\<close>

text \<open>
  \<open>valid name data\<close> stands for the schema check: \<open>None\<close> when it passes or cannot run (no
  \<open>jsonschema\<close>, no schema file), else the violation's message.
\<close>

definition validate_or_raise :: "(string \<Rightarrow> json \<Rightarrow> string option) \<Rightarrow> string \<Rightarrow> json \<Rightarrow> exn + unit" where
  "validate_or_raise valid name data =
     (case valid name data of
        None \<Rightarrow> Inr ()
      | Some m \<Rightarrow> Inl (RpcError INVALID_PARAMS (name @ '' failed schema validation: '' @ m) None))"

subsection \<open>Server loop\<close>

datatype wire_line = Blank | Garbled | Message json

text \<open>
  One connection: the lines in order, the replies in order. An exception out of the dispatcher
  ends the connection; the later lines are not read.
\<close>

fun serve_lines :: "(json \<Rightarrow> ('s, exn, json option) op) \<Rightarrow> wire_line list \<Rightarrow> 's \<Rightarrow> json list \<times> 's" where
  "serve_lines f [] s = ([], s)"
| "serve_lines f (Blank # ls) s = serve_lines f ls s"
| "serve_lines f (Garbled # ls) s =
     (case serve_lines f ls s of
        (rs, s') \<Rightarrow> (rpc_error JNull PARSE_ERROR ''Parse error'' None # rs, s'))"
| "serve_lines f (Message msg # ls) s =
     (case f msg s of
        (Inl e, s') \<Rightarrow> ([], s')
      | (Inr None, s') \<Rightarrow> serve_lines f ls s'
      | (Inr (Some r), s') \<Rightarrow> (case serve_lines f ls s' of (rs, s'') \<Rightarrow> (r # rs, s'')))"

subsection \<open>Client\<close>

definition rpc_request :: "string \<Rightarrow> string \<Rightarrow> dict \<Rightarrow> json" where
  "rpc_request mid meth params =
     JObj [(''jsonrpc'', JStr ''2.0''), (''id'', JStr mid), (''method'', JStr meth), (''params'', JObj params)]"

text \<open>The reply line as the client reads it: none at all, or a JSON object.\<close>

definition decode_reply :: "json option \<Rightarrow> exn + json" where
  "decode_reply reply =
     (case reply of
        None \<Rightarrow> Inl (RpcError (- 32000) ''no response from tunnel'' None)
      | Some (JObj resp) \<Rightarrow>
          (if truthy (dget resp ''error'')
           then (case dget resp ''error'' of
                   JObj e \<Rightarrow>
                     Inl (RpcError (case dget e ''code'' of JInt c \<Rightarrow> c | _ \<Rightarrow> 0) (py_str (dget e ''message''))
                        (if dget e ''data'' = JNull then None else Some (dget e ''data'')))
                 | v \<Rightarrow> map_sum id (\<lambda>_. JNull) (jget v ''code''))
           else Inr (dget resp ''result''))
      | Some v \<Rightarrow> jget v ''error'')"

text \<open>A call: one request on a connection of its own, and the first reply.\<close>

definition call :: "(string \<Rightarrow> 's rpc_method option) \<Rightarrow> string \<Rightarrow> string \<Rightarrow> dict \<Rightarrow> ('s, exn, json) op" where
  "call methods mid meth params s =
     (case serve_lines (dispatch methods) [Message (rpc_request mid meth params)] s of
        (rs, s') \<Rightarrow> (decode_reply (case rs of [] \<Rightarrow> None | r # _ \<Rightarrow> Some r), s'))"

subsection \<open>Properties\<close>

text \<open>What a caller sees of a method's outcome.\<close>

fun seen_outcome :: "exn + json \<Rightarrow> exn + json" where
  "seen_outcome (Inr v) = Inr v"
| "seen_outcome (Inl (RpcError c m data)) =
     Inl (RpcError c m (case data of Some JNull \<Rightarrow> None | _ \<Rightarrow> data))"
| "seen_outcome (Inl e) = Inl (RpcError INTERNAL_ERROR (exn_name e @ '': '' @ exn_str e) None)"

lemma dispatch_request:
  "dispatch methods (rpc_request i name params) s =
     (case methods name of
        None \<Rightarrow> (Inr (Some (rpc_error (JStr i) METHOD_NOT_FOUND (''Method not found: '' @ name) None)), s)
      | Some fn \<Rightarrow> call_method (JStr i) fn params s)"
  by (simp add: dispatch_def rpc_request_def Let_def split: option.split)

lemma decode_error [simp]:
  "decode_reply (Some (rpc_error i c m data)) =
     Inl (RpcError c m (case data of Some JNull \<Rightarrow> None | _ \<Rightarrow> data))"
  by (auto simp: decode_reply_def rpc_error_def Let_def split: option.split json.split)

lemma decode_response [simp]: "decode_reply (Some (rpc_response i v)) = Inr v"
  by (simp add: decode_reply_def rpc_response_def)

lemma decode_guard: "decode_reply (Some (guard_error i e)) = seen_outcome (Inl e)"
  by (cases e) auto

lemma call_known:
  assumes "methods name = Some fn" and "fn params s = (r, s')"
  shows "call methods i name params s = (seen_outcome r, s')"
proof (cases r)
  case (Inl e)
  with assms show ?thesis by (simp add: call_def dispatch_request call_method_def decode_guard)
next
  case (Inr v)
  with assms show ?thesis by (simp add: call_def dispatch_request call_method_def)
qed

text \<open>
  C22. Calls round-trip. Calling a registered method runs exactly that method once on the daemon's
  state and gives back what it returned; a structured error it raised comes back with the same
  code, message and data, and any other exception as an internal error that names it. Calling a
  name that is not registered is answered with "method not found" and leaves the state alone.
\<close>

theorem call_roundtrip:
  "call methods i name params s =
     (case methods name of
        None \<Rightarrow> (Inl (RpcError METHOD_NOT_FOUND (''Method not found: '' @ name) None), s)
      | Some fn \<Rightarrow> (case fn params s of (r, s') \<Rightarrow> (seen_outcome r, s')))"
proof (cases "methods name")
  case None
  then show ?thesis by (simp add: call_def dispatch_request)
next
  case (Some fn)
  then show ?thesis by (simp add: call_known split: prod.split)
qed

text \<open>A reply to a request with this id: version 2.0, the id, and a result or an error.\<close>

definition reply_to :: "json \<Rightarrow> json \<Rightarrow> bool" where
  "reply_to mid r \<longleftrightarrow> (\<exists>d. r = JObj d \<and> dget d ''jsonrpc'' = JStr ''2.0'' \<and> dget d ''id'' = mid \<and>
     (has_key d ''result'' \<longleftrightarrow> \<not> has_key d ''error''))"

lemma reply_to_simps [simp]: "reply_to i (rpc_error i c m data)" "reply_to i (rpc_response i v)"
  by (simp_all add: reply_to_def rpc_error_def rpc_response_def Let_def)

lemma reply_to_guard [simp]: "reply_to i (guard_error i e)"
  by (cases e) simp_all

text \<open>
  Every request is answered, with its own id. Unless the method field is a list or an object,
  dispatching a message never raises; a message with an id gets exactly one reply that carries
  this id, and a message without an id that succeeds gets none. A method field that is a list or
  an object raises out of the dispatcher before any reply is made.
\<close>

theorem dispatch_answers:
  assumes "msg = JObj d"
  shows "(\<exists>r s'. dispatch methods msg s = (Inr r, s') \<and>
      (case r of Some v \<Rightarrow> reply_to (dget d ''id'') v | None \<Rightarrow> dget d ''id'' = JNull)) \<or>
    (\<exists>e. py_key (dget d ''method'') = Inl e \<and> dispatch methods msg s = (Inl e, s))"
proof (cases "\<exists>k p. dget d ''jsonrpc'' = JStr ''2.0'' \<and> has_key d ''method'' \<and> py_key (dget d ''method'') = Inr k \<and>
    (if dget d ''params'' = JNull then JObj [] else dget d ''params'') = JObj p")
  case False
  then show ?thesis
    using assms by (cases "dget d ''params''"; cases "py_key (dget d ''method'')")
      (auto simp: dispatch_def Let_def split: if_splits)
next
  case True
  then obtain k p where k: "py_key (dget d ''method'') = Inr k" "dget d ''jsonrpc'' = JStr ''2.0''" "has_key d ''method''"
    and p: "(if dget d ''params'' = JNull then JObj [] else dget d ''params'') = JObj p" by blast
  show ?thesis
  proof (cases "case k of KStr name \<Rightarrow> methods name | _ \<Rightarrow> None")
    case None
    with k p assms show ?thesis by (simp add: dispatch_def Let_def)
  next
    case (Some fn)
    with k p assms have "dispatch methods msg s = call_method (dget d ''id'') fn p s"
      by (simp add: dispatch_def Let_def)
    then show ?thesis
      by (auto simp: call_method_def split: prod.split sum.split)
  qed
qed

text \<open>
  A poisoned line closes the connection. A message whose method field is a list makes the
  server drop every later line of the same connection without a reply, although the state is
  unchanged and each of them would have been answered on its own.
\<close>

theorem unhashable_method_drops:
  "serve_lines (dispatch methods)
     (Message (JObj [(''jsonrpc'', JStr ''2.0''), (''id'', JInt 1), (''method'', JList [])]) # rest) s = ([], s)"
  by (simp add: dispatch_def)

subsection \<open>Concrete instance\<close>

theorem dispatch_answers_witness:
  "\<exists>r s'. dispatch (\<lambda>n. if n = ''ping'' then Some (\<lambda>p s. (Inr (JStr ''pong''), s + 1)) else None)
      (JObj [(''jsonrpc'', JStr ''2.0''), (''id'', JInt 1), (''method'', JStr ''ping'')]) (0 :: nat) = (Inr (Some r), s') \<and>
    reply_to (JInt 1) r"
  using dispatch_answers [OF refl, of "\<lambda>n. if n = ''ping'' then Some (\<lambda>p s. (Inr (JStr ''pong''), s + 1)) else None"
    "[(''jsonrpc'', JStr ''2.0''), (''id'', JInt 1), (''method'', JStr ''ping'')]" "0 :: nat"]
  by (auto split: option.splits)

end
