(* ===== verification/Config.thy ===== *)
theory Config
  imports Artifacts
begin

section \<open>Configuration\<close>

text \<open>
  \<open>config.py\<close>: settings from environment variables, command lines, and the on-disk layout. The
  environment is a function from names to values. Reading a JSON text is the argument \<open>loads\<close>;
  \<open>shlex.split\<close> (POSIX mode) is written out as the state machine it is.
\<close>

type_synonym environ = "string \<Rightarrow> string option"

definition DEFAULT_HOST :: string where "DEFAULT_HOST = ''127.0.0.1''"
definition DEFAULT_PORT :: int where "DEFAULT_PORT = 47891"
definition DEFAULT_SIM_TIMEOUT_S :: int where "DEFAULT_SIM_TIMEOUT_S = 600"
definition DEFAULT_SIM_METRICS_FILE :: string where "DEFAULT_SIM_METRICS_FILE = ''metrics.json''"
definition DEFAULT_PROPOSAL_TTL_S :: int where "DEFAULT_PROPOSAL_TTL_S = 300"
definition DEFAULT_SESSION_TTL_S :: int where "DEFAULT_SESSION_TTL_S = 0"

subsection \<open>Layout\<close>

definition vfp_home :: "environ \<Rightarrow> string \<Rightarrow> string" where
  "vfp_home env cwd =
     (case env ''VFP_HOME'' of
        Some h \<Rightarrow> (if h = [] then path_join cwd ''.vfp'' else path_text (is_absolute h) (path_parts h))
      | None \<Rightarrow> path_join cwd ''.vfp'')"

definition sub_dir :: "string \<Rightarrow> environ \<Rightarrow> string \<Rightarrow> string" where
  "sub_dir nm env cwd = path_join (vfp_home env cwd) nm"

definition state_file :: "environ \<Rightarrow> string \<Rightarrow> string" where "state_file = sub_dir ''tunnel.json''"
definition log_dir :: "environ \<Rightarrow> string \<Rightarrow> string" where "log_dir = sub_dir ''logs''"
definition sessions_dir :: "environ \<Rightarrow> string \<Rightarrow> string" where "sessions_dir = sub_dir ''sessions''"
definition proposals_dir :: "environ \<Rightarrow> string \<Rightarrow> string" where "proposals_dir = sub_dir ''proposals''"
definition transactions_dir :: "environ \<Rightarrow> string \<Rightarrow> string" where "transactions_dir = sub_dir ''transactions''"
definition results_dir :: "environ \<Rightarrow> string \<Rightarrow> string" where "results_dir = sub_dir ''results''"
definition runs_dir :: "environ \<Rightarrow> string \<Rightarrow> string" where "runs_dir = sub_dir ''runs''"
definition events_dir :: "environ \<Rightarrow> string \<Rightarrow> string" where "events_dir = sub_dir ''events''"
definition jobs_dir :: "environ \<Rightarrow> string \<Rightarrow> string" where "jobs_dir = sub_dir ''jobs''"
definition contexts_dir :: "environ \<Rightarrow> string \<Rightarrow> string" where "contexts_dir = sub_dir ''contexts''"

definition ensured_dirs :: "environ \<Rightarrow> string \<Rightarrow> string list" where
  "ensured_dirs env cwd =
     map (\<lambda>f. f env cwd)
       [vfp_home, log_dir, sessions_dir, proposals_dir, transactions_dir, results_dir, runs_dir,
        events_dir, jobs_dir]"

subsection \<open>Numbers\<close>

definition int_setting :: "string \<Rightarrow> int \<Rightarrow> environ \<Rightarrow> int" where
  "int_setting nm dflt env =
     (case env nm of
        None \<Rightarrow> dflt
      | Some raw \<Rightarrow> (if raw = [] then dflt
                     else case parse_int raw of None \<Rightarrow> dflt | Some i \<Rightarrow> i))"

definition proposal_ttl_s :: "environ \<Rightarrow> int" where
  "proposal_ttl_s = int_setting ''VFP_PROPOSAL_TTL_S'' DEFAULT_PROPOSAL_TTL_S"

definition session_ttl_s :: "environ \<Rightarrow> int" where
  "session_ttl_s = int_setting ''VFP_SESSION_TTL_S'' DEFAULT_SESSION_TTL_S"

definition sim_timeout_s :: "environ \<Rightarrow> int" where
  "sim_timeout_s = int_setting ''VFP_SIM_TIMEOUT_S'' DEFAULT_SIM_TIMEOUT_S"

subsection \<open>Command lines\<close>

datatype shlex_state = Between | In_Word | In_Quote char | Escaped "char option"

definition is_shlex_space :: "char \<Rightarrow> bool" where
  "is_shlex_space c = (c = CHR '' '' \<or> c = CHR 0x09 \<or> c = CHR 0x0D \<or> c = CHR 0x0A)"

definition is_quote :: "char \<Rightarrow> bool" where
  "is_quote c = (c = CHR 0x27 \<or> c = CHR 0x22)"

text \<open>
  The state, the token read so far in reverse, whether a quote was seen in it, the rest. \<open>None\<close>
  for a missing closing quote or escaped character (ValueError).
\<close>

fun shlex :: "shlex_state \<Rightarrow> string \<Rightarrow> bool \<Rightarrow> string \<Rightarrow> string list option" where
  "shlex Between tok q [] = Some []"
| "shlex Between tok q (c # cs) =
     (if is_shlex_space c then shlex Between [] False cs
      else if c = CHR 0x5C then shlex (Escaped None) [] False cs
      else if is_quote c then shlex (In_Quote c) [] False cs
      else shlex In_Word [c] False cs)"
| "shlex In_Word tok q [] = Some (if tok = [] \<and> \<not> q then [] else [rev tok])"
| "shlex In_Word tok q (c # cs) =
     (if is_shlex_space c then
        (if tok = [] \<and> \<not> q then shlex Between [] False cs
         else map_option ((#) (rev tok)) (shlex Between [] False cs))
      else if is_quote c then shlex (In_Quote c) tok q cs
      else if c = CHR 0x5C then shlex (Escaped None) tok q cs
      else shlex In_Word (c # tok) q cs)"
| "shlex (In_Quote d) tok q [] = None"
| "shlex (In_Quote d) tok q (c # cs) =
     (if c = d then shlex In_Word tok True cs
      else if c = CHR 0x5C \<and> d = CHR 0x22 then shlex (Escaped (Some d)) tok True cs
      else shlex (In_Quote d) (c # tok) True cs)"
| "shlex (Escaped e) tok q [] = None"
| "shlex (Escaped None) tok q (c # cs) = shlex In_Word (c # tok) q cs"
| "shlex (Escaped (Some d)) tok q (c # cs) =
     (if c \<noteq> CHR 0x5C \<and> c \<noteq> d then shlex (In_Quote d) (c # CHR 0x5C # tok) q cs
      else shlex (In_Quote d) (c # tok) q cs)"

definition shlex_split :: "string \<Rightarrow> string list option" where
  "shlex_split s = shlex Between [] False s"

definition split_command :: "(string \<Rightarrow> json option) \<Rightarrow> string \<Rightarrow> string list option" where
  "split_command loads raw0 =
     (let raw = strip raw0
      in if startswith raw ''['' then
           (case loads raw of
              Some (JList vs) \<Rightarrow> (if vs = [] then None else Some (map py_str vs))
            | _ \<Rightarrow> None)
         else case shlex_split raw of
                None \<Rightarrow> None
              | Some argv \<Rightarrow> (if argv = [] then None else Some argv))"

definition command_setting :: "string \<Rightarrow> (string \<Rightarrow> json option) \<Rightarrow> environ \<Rightarrow> string list option" where
  "command_setting nm loads env =
     (case env nm of None \<Rightarrow> None | Some raw \<Rightarrow> (if raw = [] then None else split_command loads raw))"

definition sim_cmd :: "(string \<Rightarrow> json option) \<Rightarrow> environ \<Rightarrow> string list option" where
  "sim_cmd = command_setting ''VFP_SIM_CMD''"

definition netlist_cmd :: "(string \<Rightarrow> json option) \<Rightarrow> environ \<Rightarrow> string list option" where
  "netlist_cmd = command_setting ''VFP_NETLIST_CMD''"

definition virtuoso_cmd :: "(string \<Rightarrow> json option) \<Rightarrow> environ \<Rightarrow> string list option" where
  "virtuoso_cmd = command_setting ''VFP_VIRTUOSO_CMD''"

definition sim_metrics_file :: "environ \<Rightarrow> string" where
  "sim_metrics_file env =
     (case env ''VFP_SIM_METRICS_FILE'' of
        None \<Rightarrow> DEFAULT_SIM_METRICS_FILE
      | Some f \<Rightarrow> (if f = [] then DEFAULT_SIM_METRICS_FILE else f))"

subsection \<open>Address\<close>

definition resolve_host :: "environ \<Rightarrow> string option \<Rightarrow> string" where
  "resolve_host env host =
     (case host of
        Some h \<Rightarrow> (if h \<noteq> [] then h else case env ''VFP_HOST'' of
                     Some e \<Rightarrow> (if e \<noteq> [] then e else DEFAULT_HOST) | None \<Rightarrow> DEFAULT_HOST)
      | None \<Rightarrow> (case env ''VFP_HOST'' of
                     Some e \<Rightarrow> (if e \<noteq> [] then e else DEFAULT_HOST) | None \<Rightarrow> DEFAULT_HOST))"

definition bad_int :: "string \<Rightarrow> exn" where
  "bad_int s = ValueError (''invalid literal for int() with base 10: '' @ repr_str s)"

definition resolve_port :: "environ \<Rightarrow> string option \<Rightarrow> exn + int" where
  "resolve_port env port =
     (let s = (case port of
                 Some p \<Rightarrow> (if p \<noteq> [] then Some p else env ''VFP_PORT'')
               | None \<Rightarrow> env ''VFP_PORT'')
      in case s of
           None \<Rightarrow> Inr DEFAULT_PORT
         | Some p \<Rightarrow> (case parse_int p of None \<Rightarrow> Inl (bad_int p) | Some i \<Rightarrow> Inr i))"

subsection \<open>Properties\<close>

lemma shlex_quoted_body:
  "CHR 0x27 \<notin> set w \<Longrightarrow> shlex (In_Quote (CHR 0x27)) tok q (w @ CHR 0x27 # rest) =
     shlex In_Word (rev w @ tok) True rest"
  by (induction w arbitrary: tok q) auto

definition single_quoted :: "string \<Rightarrow> string" where
  "single_quoted w = CHR 0x27 # w @ [CHR 0x27]"

lemma shlex_quoted_word:
  assumes "CHR 0x27 \<notin> set w"
  shows "shlex Between [] False (single_quoted w @ CHR '' '' # rest) =
      map_option ((#) w) (shlex Between [] False rest)"
    and "shlex Between [] False (single_quoted w) = Some [w]"
  using shlex_quoted_body [OF assms, of "[]" False "CHR '' '' # rest"]
    shlex_quoted_body [OF assms, of "[]" False "[]"]
  by (simp_all add: single_quoted_def is_shlex_space_def is_quote_def)

lemma shlex_quoted_words:
  assumes "\<And>w. w \<in> set ws \<Longrightarrow> CHR 0x27 \<notin> set w"
  shows "shlex Between [] False (join '' '' (map single_quoted ws)) = Some ws"
  using assms
proof (induction ws rule: induct_list012)
  case (3 w v ws)
  have "shlex Between [] False (single_quoted w @ CHR '' '' # join '' '' (map single_quoted (v # ws))) =
      map_option ((#) w) (shlex Between [] False (join '' '' (map single_quoted (v # ws))))"
    using 3(3) by (intro shlex_quoted_word(1)) simp
  also have "\<dots> = Some (w # v # ws)" using 3(2) 3(3) by simp
  finally show ?case by simp
qed (simp_all add: shlex_quoted_word)

lemma strip_id:
  "s = [] \<or> \<not> is_space (hd s) \<and> \<not> is_space (last s) \<Longrightarrow> strip s = s"
proof (cases "s = []")
  case False
  assume "s = [] \<or> \<not> is_space (hd s) \<and> \<not> is_space (last s)"
  with False have "\<not> is_space (hd s)" "\<not> is_space (hd (rev s))" by (simp_all add: hd_rev)
  moreover have "dropWhile is_space xs = xs" if "\<not> is_space (hd xs)" for xs
    using that by (cases xs) auto
  ultimately show ?thesis by (simp add: strip_def lstrip_def rstrip_def)
qed (simp add: strip_def lstrip_def rstrip_def)

text \<open>
  Commands reach the simulator unchanged. A command line of single-quoted words is split into
  exactly these words, whatever blanks, backslashes and double quotes they contain; and a command
  given as a JSON array of strings is taken as it is.
\<close>

theorem split_command_exact:
  assumes "ws \<noteq> []"
  shows "((\<forall>w \<in> set ws. CHR 0x27 \<notin> set w) \<longrightarrow>
      split_command loads (join '' '' (map single_quoted ws)) = Some ws) \<and>
    (startswith (strip raw) ''['' \<and> loads (strip raw) = Some (JList (map JStr ws)) \<longrightarrow>
      split_command loads raw = Some ws)"
proof (intro conjI impI)
  assume quotes: "\<forall>w \<in> set ws. CHR 0x27 \<notin> set w"
  let ?raw = "join '' '' (map single_quoted ws)"
  have ends: "hd (join '' '' (map single_quoted vs)) = CHR 0x27 \<and> last (join '' '' (map single_quoted vs)) = CHR 0x27 \<and>
      join '' '' (map single_quoted vs) \<noteq> []" if "vs \<noteq> []" for vs
    using that by (induction vs rule: induct_list012) (auto simp: single_quoted_def)
  have "strip ?raw = ?raw"
    using ends [OF assms] by (intro strip_id) (simp add: is_space_def)
  moreover have "\<not> startswith ?raw ''[''"
    using ends [OF assms] by (cases ?raw) auto
  moreover have "shlex_split ?raw = Some ws"
    unfolding shlex_split_def by (rule shlex_quoted_words) (use quotes in simp)
  ultimately show "split_command loads ?raw = Some ws"
    using assms by (simp add: split_command_def)
next
  assume "startswith (strip raw) ''['' \<and> loads (strip raw) = Some (JList (map JStr ws))"
  then show "split_command loads raw = Some ws"
    using assms by (simp add: split_command_def comp_def)
qed

theorem split_command_exact_witness:
  "split_command (\<lambda>_. None) (join '' '' (map single_quoted [''run sim'', [CHR ''C'', CHR 0x5C, CHR ''x'']])) =
     Some [''run sim'', [CHR ''C'', CHR 0x5C, CHR ''x'']]"
  using split_command_exact [of "[''run sim'', [CHR ''C'', CHR 0x5C, CHR ''x'']]" "\<lambda>_. None"] by simp

end
