(* ===== verification/Daemon.thy ===== *)
theory Daemon
  imports Proposals Transactions Permissions Jobs Sessions Events Channels Artifacts Metrics JsonRpc Config
begin

section \<open>The tunnel daemon\<close>

text \<open>
  \<open>daemon.py\<close>: the state of a \<open>Tunnel\<close> and one operation per RPC method, in the order of the
  file. The rest of the world is the record \<open>world\<close>: the clock and disk answers of successive
  calls (\<open>ticks\<close>, numbered by \<open>d_clock\<close>), the environment, the schema check and JSON reading.

  Log lines are not modelled, but the expressions that compute their arguments are, because they
  can raise after the state has changed. \<open>event.wait\<close> is modelled twice: on a schedule of wake-ups with
  the logs other threads leave there, and, in the method table, with no other thread emitting.
  \<open>job.run\<close> records the launched job and command.
\<close>

record world =
  ticks :: "nat \<Rightarrow> tick"
  environment :: environ
  cwd :: string
  valid :: "string \<Rightarrow> json \<Rightarrow> string option"
  loads :: "string \<Rightarrow> json option"
  pid :: int

record daemon =
  d_clock :: nat
  d_host :: string
  d_port :: int
  d_started :: rat
  d_started_at :: string
  d_sessions :: rec_store
  d_contexts :: latest_store
  d_proposals :: rec_store
  d_transactions :: rec_store
  d_results :: latest_store
  d_runs :: run_store
  d_jobs :: rec_store
  d_netlists :: reqs
  d_extensions :: reqs
  d_actions :: reqs
  d_events :: event_log
  d_permissions :: dict
  d_launched :: "(json \<times> string list) list"
  d_stopping :: bool

type_synonym 'a step = "(daemon, exn, 'a) op"

subsection \<open>Parts of the state\<close>

definition on_sessions :: "(rec_store, exn, 'a) op \<Rightarrow> 'a step" where
  "on_sessions = zoom d_sessions (\<lambda>t s. s\<lparr>d_sessions := t\<rparr>)"

definition on_contexts :: "(latest_store, exn, 'a) op \<Rightarrow> 'a step" where
  "on_contexts = zoom d_contexts (\<lambda>t s. s\<lparr>d_contexts := t\<rparr>)"

definition on_proposals :: "(rec_store, exn, 'a) op \<Rightarrow> 'a step" where
  "on_proposals = zoom d_proposals (\<lambda>t s. s\<lparr>d_proposals := t\<rparr>)"

definition on_transactions :: "(rec_store, exn, 'a) op \<Rightarrow> 'a step" where
  "on_transactions = zoom d_transactions (\<lambda>t s. s\<lparr>d_transactions := t\<rparr>)"

definition on_results :: "(latest_store, exn, 'a) op \<Rightarrow> 'a step" where
  "on_results = zoom d_results (\<lambda>t s. s\<lparr>d_results := t\<rparr>)"

definition on_runs :: "(run_store, exn, 'a) op \<Rightarrow> 'a step" where
  "on_runs = zoom d_runs (\<lambda>t s. s\<lparr>d_runs := t\<rparr>)"

definition on_jobs :: "(rec_store, exn, 'a) op \<Rightarrow> 'a step" where
  "on_jobs = zoom d_jobs (\<lambda>t s. s\<lparr>d_jobs := t\<rparr>)"

definition on_netlists :: "(reqs, exn, 'a) op \<Rightarrow> 'a step" where
  "on_netlists = zoom d_netlists (\<lambda>t s. s\<lparr>d_netlists := t\<rparr>)"

definition on_extensions :: "(reqs, exn, 'a) op \<Rightarrow> 'a step" where
  "on_extensions = zoom d_extensions (\<lambda>t s. s\<lparr>d_extensions := t\<rparr>)"

definition on_actions :: "(reqs, exn, 'a) op \<Rightarrow> 'a step" where
  "on_actions = zoom d_actions (\<lambda>t s. s\<lparr>d_actions := t\<rparr>)"

text \<open>A pure reading of the state that may raise.\<close>

definition query :: "(daemon \<Rightarrow> exn + 'a) \<Rightarrow> 'a step" where
  "query f s = (f s, s)"

text \<open>The next clock reading.\<close>

definition with_tick :: "world \<Rightarrow> (tick \<Rightarrow> 'a step) \<Rightarrow> 'a step" where
  "with_tick w f s = f (ticks w (d_clock s)) (s\<lparr>d_clock := Suc (d_clock s)\<rparr>)"

definition emit_event :: "world \<Rightarrow> string \<Rightarrow> dict \<Rightarrow> unit step" where
  "emit_event w etype payload =
     with_tick w (\<lambda>t. change (\<lambda>s. s\<lparr>d_events := snd (emit t etype (JObj payload) (d_events s))\<rparr>))"

subsection \<open>Errors and conversions\<close>

definition invalid :: "string \<Rightarrow> 'a step" where
  "invalid m = raise (RpcError INVALID_PARAMS m None)"

definition not_found :: "string \<Rightarrow> 'a step" where
  "not_found m = raise (RpcError NOT_FOUND m None)"

text \<open>\<open>except KeyError: NOT_FOUND; except ValueError: INVALID_PARAMS\<close>, and its two halves.\<close>

definition key_error :: "exn \<Rightarrow> 'a step option" where
  "key_error e = (case e of KeyError _ \<Rightarrow> Some (not_found (exn_str e)) | _ \<Rightarrow> None)"

definition value_error :: "exn \<Rightarrow> 'a step option" where
  "value_error e = (case e of ValueError _ \<Rightarrow> Some (invalid (exn_str e)) | _ \<Rightarrow> None)"

definition key_or_value_error :: "exn \<Rightarrow> 'a step option" where
  "key_or_value_error e =
     (case e of KeyError _ \<Rightarrow> Some (not_found (exn_str e)) | ValueError _ \<Rightarrow> Some (invalid (exn_str e)) | _ \<Rightarrow> None)"

text \<open>\<open>except (KeyError, ValueError): pass\<close>\<close>

definition ignore_error :: "exn \<Rightarrow> unit step option" where
  "ignore_error e = (case e of KeyError _ \<Rightarrow> Some (ret ()) | ValueError _ \<Rightarrow> Some (ret ()) | _ \<Rightarrow> None)"

definition check_schema :: "world \<Rightarrow> string \<Rightarrow> dict \<Rightarrow> unit step" where
  "check_schema w name d = lift_res (validate_or_raise (valid w) name (JObj d))"

text \<open>\<open>v[:60]\<close> and \<open>len(v)\<close> in a log line: only whether they raise.\<close>

fun can_slice :: "json \<Rightarrow> exn + unit" where
  "can_slice (JStr _) = Inr ()"
| "can_slice (JList _) = Inr ()"
| "can_slice (JObj _) = Inl (TypeError (''unhashable type: '' @ CHR 0x27 # ''slice'' @ [CHR 0x27]))"
| "can_slice v = Inl (TypeError (CHR 0x27 # type_name v @ CHR 0x27 # '' object is not subscriptable''))"

fun can_len :: "json \<Rightarrow> exn + unit" where
  "can_len (JStr _) = Inr ()"
| "can_len (JList _) = Inr ()"
| "can_len (JObj _) = Inr ()"
| "can_len v = Inl (TypeError (''object of type '' @ CHR 0x27 # type_name v @ CHR 0x27 # '' has no len()''))"

text \<open>\<open>float(v)\<close> and \<open>int(v)\<close>\<close>

fun py_float :: "json \<Rightarrow> exn + pyfloat" where
  "py_float (JFloat x) = Inr x"
| "py_float (JInt i) = (case to_double (of_int i) of Fin q \<Rightarrow> Inr (Fin q) | _ \<Rightarrow> Inl int_too_large)"
| "py_float (JBool b) = Inr (Fin (if b then 1 else 0))"
| "py_float (JStr s) =
     (case parse_float s of
        Some x \<Rightarrow> Inr x
      | None \<Rightarrow> Inl (ValueError (''could not convert string to float: '' @ repr_str s)))"
| "py_float v =
     Inl (TypeError (''float() argument must be a string or a real number, not '' @ CHR 0x27 # type_name v @ [CHR 0x27]))"

fun py_int :: "json \<Rightarrow> exn + int" where
  "py_int (JInt i) = Inr i"
| "py_int (JBool b) = Inr (if b then 1 else 0)"
| "py_int (JFloat (Fin q)) = Inr (if 0 \<le> q then \<lfloor>q\<rfloor> else \<lceil>q\<rceil>)"
| "py_int (JFloat NaN) = Inl (ValueError ''cannot convert float NaN to integer'')"
| "py_int (JFloat _) = Inl (OverflowError ''cannot convert float infinity to integer'')"
| "py_int (JStr s) = (case parse_int s of Some i \<Rightarrow> Inr i | None \<Rightarrow> Inl (bad_int s))"
| "py_int v =
     Inl (TypeError (''int() argument must be a string, a bytes-like object or a real number, not '' @
       CHR 0x27 # type_name v @ [CHR 0x27]))"

text \<open>\<open>round(x, 1)\<close>: the nearest tenth of the exact value, ties to even.\<close>

fun round1 :: "pyfloat \<Rightarrow> pyfloat" where
  "round1 (Fin q) = to_double (of_int (round_half_even (q * 10)) / 10)"
| "round1 x = x"

text \<open>\<open>v + s\<close> for a string \<open>s\<close>\<close>

fun plus_str :: "json \<Rightarrow> string \<Rightarrow> exn + json" where
  "plus_str (JStr a) s = Inr (JStr (a @ s))"
| "plus_str (JList _) s =
     Inl (TypeError (''can only concatenate list (not '' @ CHR 0x22 # ''str'' @ CHR 0x22 # '') to list''))"
| "plus_str v s = Inl (not_str_plus v)"

definition json_or_null :: "dict option \<Rightarrow> json" where
  "json_or_null x = (case x of None \<Rightarrow> JNull | Some d \<Rightarrow> JObj d)"

text \<open>\<open>v.get(k, dflt)\<close>\<close>

definition jget_or :: "json \<Rightarrow> string \<Rightarrow> json \<Rightarrow> exn + json" where
  "jget_or v k dflt = (case v of JObj d \<Rightarrow> Inr (dget_or d k dflt) | _ \<Rightarrow> jget v k)"

text \<open>\<open>d[k]\<close>\<close>

definition item :: "dict \<Rightarrow> string \<Rightarrow> exn + json" where
  "item d k = (case map_of d k of None \<Rightarrow> Inl (KeyError k) | Some v \<Rightarrow> Inr v)"

text \<open>The same on any value.\<close>

fun subscript :: "json \<Rightarrow> string \<Rightarrow> exn + json" where
  "subscript (JObj d) k = item d k"
| "subscript (JList _) k = Inl (TypeError ''list indices must be integers or slices, not str'')"
| "subscript (JStr _) k = Inl (TypeError ''string indices must be integers, not str'')"
| "subscript v k = Inl (TypeError (CHR 0x27 # type_name v @ CHR 0x27 # '' object is not subscriptable''))"

definition counted :: "string \<Rightarrow> dict list \<Rightarrow> json" where
  "counted nm items = JObj [(nm, JList (map JObj items)), (''count'', JInt (int (length items)))]"

subsection \<open>Sessions and contexts\<close>

definition touch :: "world \<Rightarrow> json \<Rightarrow> unit step" where
  "touch w sid =
     (if truthy sid then bind (with_tick w (\<lambda>t. on_sessions (session_touch t sid))) (\<lambda>_. ret ()) else ret ())"

definition m_session_register :: "world \<Rightarrow> dict \<Rightarrow> json step" where
  "m_session_register w params =
     (let client = dget_or params ''client'' (JObj [])
      in seq (with_tick w (\<lambda>t. on_sessions (session_reap t (JInt (session_ttl_s (environment w))))))
         (bind (with_tick w (\<lambda>t. on_sessions (session_register t client)))
            (\<lambda>rec. bind (lift_res (item rec ''session_id''))
               (\<lambda>sid. bind (lift_res (item rec ''created_at''))
                  (\<lambda>created. ret (JObj [(''session_id'', sid), (''registered_at'', created),
                     (''reconnects'', dget_or rec ''reconnects'' (JInt 0))]))))))"

definition m_session_ping :: "world \<Rightarrow> dict \<Rightarrow> json step" where
  "m_session_ping w params =
     (let sid = dget params ''session_id''
      in seq (touch w sid)
           (with_tick w (\<lambda>t. ret (JObj [(''pong'', JBool True), (''time'', JStr (stamp t)), (''session_id'', sid)]))))"

definition m_session_status :: "world \<Rightarrow> dict \<Rightarrow> json step" where
  "m_session_status w params =
     (let sid = dget params ''session_id''
      in bind (query (\<lambda>s. if truthy sid then session_get (d_sessions s) sid else Inr None))
           (\<lambda>rec. case rec of
              None \<Rightarrow> invalid (''unknown session_id: '' @ py_repr sid)
            | Some r \<Rightarrow> ret (JObj (public r))))"

fun idle_views :: "rat \<Rightarrow> dict list \<Rightarrow> exn + dict list" where
  "idle_views clock [] = Inr []"
| "idle_views clock (r # xs) =
     (case float_minus (Fin clock) (dget_or r ''_last_ts'' (JFloat (Fin clock))) of
        Inl e \<Rightarrow> Inl e
      | Inr x \<Rightarrow> map_sum id ((#) (dset ''idle_s'' (JFloat (round1 x)) (public r))) (idle_views clock xs))"

definition m_session_list :: "world \<Rightarrow> dict \<Rightarrow> json step" where
  "m_session_list w params =
     with_tick w (\<lambda>t. bind (query (\<lambda>s. session_list (d_sessions s)))
       (\<lambda>xs. bind (lift_res (idle_views (now t) xs))
         (\<lambda>out. ret (JObj [(''sessions'', JList (map JObj out))]))))"

definition m_session_current :: "world \<Rightarrow> dict \<Rightarrow> json step" where
  "m_session_current w params =
     bind (query (\<lambda>s. session_current (d_sessions s)))
       (\<lambda>rec. ret (JObj [(''session'', json_or_null (map_option public rec))]))"

definition m_session_reap :: "world \<Rightarrow> dict \<Rightarrow> json step" where
  "m_session_reap w params =
     (let max_idle = (if dget params ''max_idle_s'' = JNull then JInt (session_ttl_s (environment w))
                      else dget params ''max_idle_s'')
      in bind (if truthy max_idle then bind (lift_res (py_float max_idle)) (\<lambda>x. ret (JFloat x)) else ret (JInt 0))
           (\<lambda>limit. bind (with_tick w (\<lambda>t. on_sessions (session_reap t limit)))
              (\<lambda>removed. ret (JObj [(''removed'', JList removed), (''count'', JInt (int (length removed)))]))))"

definition m_context_update :: "world \<Rightarrow> dict \<Rightarrow> json step" where
  "m_context_update w params =
     (case dget params ''context'' of
        JObj context \<Rightarrow>
          seq (check_schema w ''context'' context)
          (seq (touch w (dget params ''session_id''))
          (bind (with_tick w (\<lambda>t. on_contexts (ContextStore_update (contexts_dir (environment w) (cwd w)) t (JObj context))))
            (\<lambda>result.
               seq (lift_res (jget (dget_or context ''cellview'' (JObj [])) ''lib''))
               (seq (lift_res (can_len (dget_or context ''instances'' (JList []))))
               (ret result)))))
      | _ \<Rightarrow> invalid ''params.context must be an object'')"

definition m_context_get :: "world \<Rightarrow> dict \<Rightarrow> json step" where
  "m_context_get w params = ask (\<lambda>s. JObj [(''context'', latest_value (d_contexts s))])"

subsection \<open>Proposals\<close>

definition proposal_ttl :: "world \<Rightarrow> int" where
  "proposal_ttl w = proposal_ttl_s (environment w)"

definition m_proposal_create :: "world \<Rightarrow> dict \<Rightarrow> json step" where
  "m_proposal_create w params =
     (case dget params ''proposal'' of
        JObj data \<Rightarrow>
          seq (check_schema w ''proposal'' data)
          (bind (handle value_error (with_tick w (\<lambda>t. on_proposals (proposal_create t data))))
            (\<lambda>p. seq (lift_res (can_slice (dget_or p ''reason'' (JStr []))))
                 (seq (emit_event w ''proposal.created''
                         [(''proposal_id'', dget p ''proposal_id''), (''cellview'', dget p ''cellview'')])
                 (ret (JObj [(''proposal'', JObj p)])))))
      | _ \<Rightarrow> invalid ''params.proposal must be an object'')"

fun emit_expired :: "world \<Rightarrow> json list \<Rightarrow> unit step" where
  "emit_expired w [] = ret ()"
| "emit_expired w (i # ids) =
     seq (emit_event w ''proposal.expired'' [(''proposal_id'', i)]) (emit_expired w ids)"

definition m_proposal_list :: "world \<Rightarrow> dict \<Rightarrow> json step" where
  "m_proposal_list w params =
     bind (with_tick w (\<lambda>t. on_proposals (expire_stale (proposal_ttl w) t)))
       (\<lambda>ids. seq (emit_expired w ids)
         (bind (with_tick w (\<lambda>t. on_proposals (proposal_list (proposal_ttl w) t (dget params ''status''))))
           (\<lambda>items. ret (counted ''proposals'' items))))"

definition fetch_proposal :: "world \<Rightarrow> json \<Rightarrow> dict option step" where
  "fetch_proposal w i = with_tick w (\<lambda>t. on_proposals (proposal_get (proposal_ttl w) t i))"

definition m_proposal_get :: "world \<Rightarrow> dict \<Rightarrow> json step" where
  "m_proposal_get w params =
     (let i = dget params ''proposal_id''
      in if \<not> truthy i then invalid ''params.proposal_id required''
         else bind (fetch_proposal w i)
                (\<lambda>p. case p of
                   None \<Rightarrow> not_found (''unknown proposal_id: '' @ py_str i)
                 | Some q \<Rightarrow> ret (JObj [(''proposal'', JObj q)])))"

text \<open>The common shape of the four status methods.\<close>

definition move_proposal ::
  "world \<Rightarrow> dict \<Rightarrow> (tick \<Rightarrow> json \<Rightarrow> (rec_store, exn, dict) op) \<Rightarrow> (json \<Rightarrow> unit step) \<Rightarrow> json step" where
  "move_proposal w params f after =
     (let i = dget params ''proposal_id''
      in if \<not> truthy i then invalid ''params.proposal_id required''
         else bind (handle key_or_value_error (with_tick w (\<lambda>t. on_proposals (f t i))))
                (\<lambda>p. seq (after i) (ret (JObj [(''proposal'', JObj p)]))))"

definition m_proposal_approve :: "world \<Rightarrow> dict \<Rightarrow> json step" where
  "m_proposal_approve w params =
     move_proposal w params proposal_approve (\<lambda>i. emit_event w ''proposal.approved'' [(''proposal_id'', i)])"

definition m_proposal_reject :: "world \<Rightarrow> dict \<Rightarrow> json step" where
  "m_proposal_reject w params =
     move_proposal w params proposal_reject (\<lambda>i. emit_event w ''proposal.rejected'' [(''proposal_id'', i)])"

definition m_proposal_mark_applied :: "world \<Rightarrow> dict \<Rightarrow> json step" where
  "m_proposal_mark_applied w params = move_proposal w params proposal_mark_applied (\<lambda>_. ret ())"

definition m_proposal_mark_failed :: "world \<Rightarrow> dict \<Rightarrow> json step" where
  "m_proposal_mark_failed w params = move_proposal w params proposal_mark_failed (\<lambda>_. ret ())"

subsection \<open>Transactions\<close>

text \<open>\<open>_session_fingerprint\<close>: the identifying fields of the session's client that are set.\<close>

definition fingerprint_fields :: "dict \<Rightarrow> dict" where
  "fingerprint_fields c =
     List.map_filter (\<lambda>k. if truthy (dget c k) then Some (k, dget c k) else None)
       [''virtuoso_pid'', ''virtuoso_start'', ''display'', ''cds_lib'']"

definition snapshot_fingerprint :: "rec_store \<Rightarrow> json \<Rightarrow> exn + dict" where
  "snapshot_fingerprint sessions sid =
     (if \<not> truthy sid then Inr []
      else case session_get sessions sid of
             Inl e \<Rightarrow> Inl e
           | Inr rec \<Rightarrow>
               (case py_or (case rec of None \<Rightarrow> JNull | Some r \<Rightarrow> dget r ''client'') (JObj []) of
                  JObj c \<Rightarrow> Inr (fingerprint_fields c)
                | v \<Rightarrow> map_sum id (\<lambda>_. []) (jget v ''virtuoso_pid'')))"

definition bind_session :: "json \<Rightarrow> dict \<Rightarrow> dict step" where
  "bind_session sid data =
     bind (query (\<lambda>s. snapshot_fingerprint (d_sessions s) sid))
       (\<lambda>fp. ret (if fp = [] then dset ''session'' sid data
                 else dset ''session_fingerprint'' (JObj fp) (dset ''session'' sid data)))"

definition bind_actor :: "dict \<Rightarrow> dict \<Rightarrow> dict" where
  "bind_actor params data =
     (if truthy (dget params ''actor'') \<and> \<not> truthy (dget data ''actor'')
      then dset ''actor'' (dget params ''actor'') data else data)"

definition effective_permissions :: "daemon \<Rightarrow> dict \<Rightarrow> json" where
  "effective_permissions s params =
     py_or (dget params ''permissions'') (py_or (JObj (d_permissions s)) (JObj []))"

definition checked_targets :: "dict \<Rightarrow> json" where
  "checked_targets candidate = py_or (dget candidate ''after'') (py_or (dget candidate ''before'') (JList []))"

definition permission_violations :: "dict \<Rightarrow> dict \<Rightarrow> json list step" where
  "permission_violations params candidate =
     query (\<lambda>s. case effective_permissions s params of
                  JObj perms \<Rightarrow>
                    violations (checked_targets candidate) (dget perms ''allow_modify'') (dget perms ''deny_modify'')
                | v \<Rightarrow> map_sum id (\<lambda>_. []) (jget v ''allow_modify''))"

definition violation_target :: "json \<Rightarrow> string" where
  "violation_target v = (case v of JObj d \<Rightarrow> py_str (dget d ''target'') | _ \<Rightarrow> [])"

definition denied :: "json list \<Rightarrow> exn" where
  "denied viol =
     RpcError PERMISSION_DENIED (''modify not permitted for: '' @ join '', '' (map violation_target viol))
       (Some (JList viol))"

text \<open>Follow a transaction on its proposal: move it when it is in the expected status.\<close>

definition follow_proposal ::
  "world \<Rightarrow> json \<Rightarrow> string \<Rightarrow> (tick \<Rightarrow> json \<Rightarrow> (rec_store, exn, dict) op) \<Rightarrow> unit step" where
  "follow_proposal w i expected move =
     (if \<not> truthy i then ret ()
      else bind (fetch_proposal w i)
             (\<lambda>p. case p of
                None \<Rightarrow> ret ()
              | Some q \<Rightarrow>
                  (if dget q ''status'' = JStr expected
                   then handle ignore_error
                          (bind (with_tick w (\<lambda>t. on_proposals (move t i))) (\<lambda>_. ret ()))
                   else ret ())))"

definition bound_data :: "dict \<Rightarrow> dict \<Rightarrow> dict step" where
  "bound_data params data0 =
     (let sid = dget params ''session_id''
      in if truthy sid \<and> \<not> truthy (dget data0 ''session'') then bind_session sid data0 else ret data0)"

text \<open>What follows the permission check.\<close>

definition store_transaction :: "world \<Rightarrow> dict \<Rightarrow> json step" where
  "store_transaction w candidate =
     seq (check_schema w ''transaction'' candidate)
       (bind (handle value_error (with_tick w (\<lambda>t. on_transactions (transaction_add t candidate))))
         (\<lambda>txn. seq (follow_proposal w (dget txn ''proposal_id'') ''approved'' proposal_mark_applied)
           (seq (lift_res (can_len (dget_or txn ''after'' (JList []))))
           (seq (emit_event w ''transaction.created''
                   [(''transaction_id'', dget txn ''transaction_id''),
                    (''proposal_id'', dget txn ''proposal_id'')])
           (ret (JObj [(''transaction'', JObj txn)]))))))"

definition m_transaction_create :: "world \<Rightarrow> dict \<Rightarrow> json step" where
  "m_transaction_create w params =
     (case dget params ''transaction'' of
        JObj data0 \<Rightarrow>
          bind (bound_data params data0)
            (\<lambda>data1. with_tick w (\<lambda>t.
               (let candidate = make_transaction t (bind_actor params data1)
                in bind (permission_violations params candidate)
                     (\<lambda>viol. if viol \<noteq> [] then raise (denied viol) else store_transaction w candidate))))
      | _ \<Rightarrow> invalid ''params.transaction must be an object'')"

definition m_transaction_list :: "world \<Rightarrow> dict \<Rightarrow> json step" where
  "m_transaction_list w params =
     bind (query (\<lambda>s. transaction_list (dget params ''status'') (d_transactions s)))
       (\<lambda>items. ret (counted ''transactions'' items))"

definition known_transaction :: "json \<Rightarrow> dict step" where
  "known_transaction i =
     (if \<not> truthy i then invalid ''params.transaction_id required''
      else bind (query (\<lambda>s. transaction_get (d_transactions s) i))
             (\<lambda>t. case t of
                None \<Rightarrow> not_found (''unknown transaction_id: '' @ py_str i)
              | Some q \<Rightarrow> ret q))"

definition m_transaction_get :: "world \<Rightarrow> dict \<Rightarrow> json step" where
  "m_transaction_get w params =
     bind (known_transaction (dget params ''transaction_id'')) (\<lambda>t. ret (JObj [(''transaction'', JObj t)]))"

definition m_transaction_rollback :: "world \<Rightarrow> dict \<Rightarrow> json step" where
  "m_transaction_rollback w params =
     (let i = dget params ''transaction_id''
      in bind (known_transaction i)
           (\<lambda>t. if dget t ''status'' \<noteq> JStr ''applied''
                then invalid (''transaction '' @ py_str i @ '' is '' @ py_str (dget t ''status'') @
                       '', only '' @ CHR 0x27 # ''applied'' @ CHR 0x27 # '' can be rolled back'')
                else ret (JObj [(''transaction'', JObj t), (''restore'', dget_or t ''before'' (JList []))])))"

definition m_transaction_mark_rolled_back :: "world \<Rightarrow> dict \<Rightarrow> json step" where
  "m_transaction_mark_rolled_back w params =
     (let i = dget params ''transaction_id''
      in if \<not> truthy i then invalid ''params.transaction_id required''
         else bind (handle key_or_value_error (with_tick w (\<lambda>t. on_transactions (transaction_mark_rolled_back t i))))
                (\<lambda>txn. seq (follow_proposal w (dget txn ''proposal_id'') ''applied'' proposal_mark_rolled_back)
                  (seq (emit_event w ''transaction.rolled_back''
                          [(''transaction_id'', i), (''proposal_id'', dget txn ''proposal_id'')])
                  (ret (JObj [(''transaction'', JObj txn)])))))"

definition m_transaction_mark_failed :: "world \<Rightarrow> dict \<Rightarrow> json step" where
  "m_transaction_mark_failed w params =
     (let i = dget params ''transaction_id''
      in if \<not> truthy i then invalid ''params.transaction_id required''
         else bind (handle key_or_value_error (with_tick w (\<lambda>t. on_transactions (transaction_mark_failed t i))))
                (\<lambda>txn. ret (JObj [(''transaction'', JObj txn)])))"

subsection \<open>Results and constraints\<close>

definition attach_verdict :: "dict \<Rightarrow> dict \<Rightarrow> exn + dict" where
  "attach_verdict params result =
     (case dget params ''constraints'' of
        JObj limits \<Rightarrow>
          map_sum id (\<lambda>v. dset ''constraints'' (JObj v) result)
            (constraint_check (case dget result ''metrics'' of JObj m \<Rightarrow> m | _ \<Rightarrow> []) limits)
      | _ \<Rightarrow> Inr result)"

definition store_result :: "world \<Rightarrow> dict \<Rightarrow> json step" where
  "store_result w result =
     seq (check_schema w ''result'' result)
       (with_tick w (\<lambda>t. on_results (ResultStore_update (results_dir (environment w) (cwd w)) t (JObj result))))"

definition m_result_update :: "world \<Rightarrow> dict \<Rightarrow> json step" where
  "m_result_update w params =
     (case dget params ''result'' of
        JObj data \<Rightarrow>
          with_tick w (\<lambda>t. bind (lift_res (attach_verdict params (make_result t (JObj data))))
            (\<lambda>result. bind (store_result w result)
              (\<lambda>stored. seq (emit_event w ''result.updated'' [(''result_id'', dget result ''result_id'')])
                 (ret (JObj [(''result'', JObj result),
                    (''path'', case stored of JObj d \<Rightarrow> dget d ''path'' | _ \<Rightarrow> JNull)])))))
      | _ \<Rightarrow> invalid ''params.result must be an object'')"

definition m_result_latest :: "world \<Rightarrow> dict \<Rightarrow> json step" where
  "m_result_latest w params = ask (\<lambda>s. JObj [(''result'', latest_value (d_results s))])"

text \<open>\<open>check\<close> on metrics that may be no dictionary: falsy ones count as empty.\<close>

definition check_json :: "json \<Rightarrow> dict \<Rightarrow> exn + dict" where
  "check_json metrics limits =
     (case py_or metrics (JObj []) of
        JObj m \<Rightarrow> constraint_check m limits
      | v \<Rightarrow> (if limits = [] then constraint_check [] [] else map_sum id (\<lambda>_. []) (jget v [])))"

definition m_constraint_check :: "world \<Rightarrow> dict \<Rightarrow> json step" where
  "m_constraint_check w params =
     (case dget params ''constraints'' of
        JObj limits \<Rightarrow>
          (case dget params ''metrics'' of
             JObj m \<Rightarrow>
               bind (lift_res (check_json (JObj m) limits))
                 (\<lambda>v. ret (JObj (dset ''source'' (JStr ''params'') v)))
           | _ \<Rightarrow>
               bind (ask (\<lambda>s. latest_value (d_results s)))
                 (\<lambda>r. if \<not> truthy r then invalid ''no metrics provided and no stored result''
                    else bind (lift_res (jget_or r ''metrics'' (JObj [])))
                      (\<lambda>m. bind (lift_res (check_json m limits))
                        (\<lambda>v. ret (JObj (dset ''source'' (JStr ''latest_result'') v))))))
      | _ \<Rightarrow> invalid ''params.constraints must be an object'')"

subsection \<open>Runs\<close>

definition m_run_create :: "world \<Rightarrow> dict \<Rightarrow> json step" where
  "m_run_create w params =
     (let meta = (case dget params ''run'' of JObj d \<Rightarrow> d | _ \<Rightarrow> [])
      in bind (with_tick w (\<lambda>t. on_runs (run_create t meta))) (\<lambda>r. ret (JObj [(''run'', JObj r)])))"

definition m_run_list :: "world \<Rightarrow> dict \<Rightarrow> json step" where
  "m_run_list w params =
     bind (query (\<lambda>s. run_list (dget params ''status'') (d_runs s))) (\<lambda>items. ret (counted ''runs'' items))"

definition known_run :: "json \<Rightarrow> dict step" where
  "known_run i =
     (if \<not> truthy i then invalid ''params.run_id required''
      else bind (query (\<lambda>s. run_get (d_runs s) i))
             (\<lambda>r. case r of None \<Rightarrow> not_found (''unknown run_id: '' @ py_str i) | Some q \<Rightarrow> ret q))"

definition m_run_get :: "world \<Rightarrow> dict \<Rightarrow> json step" where
  "m_run_get w params = bind (known_run (dget params ''run_id'')) (\<lambda>r. ret (JObj [(''run'', JObj r)]))"

definition m_run_set_status :: "world \<Rightarrow> dict \<Rightarrow> json step" where
  "m_run_set_status w params =
     (let i = dget params ''run_id''
      in if \<not> truthy i then invalid ''params.run_id required''
         else bind (handle key_or_value_error
                      (with_tick w (\<lambda>t. on_runs (run_set_status t i (dget params ''status'')))))
                (\<lambda>r. seq (if dget r ''status'' = JStr ''done'' then emit_event w ''run.done'' [(''run_id'', i)] else ret ())
                  (ret (JObj [(''run'', JObj r)]))))"

definition m_run_attach :: "world \<Rightarrow> dict \<Rightarrow> json step" where
  "m_run_attach w params =
     (let i = dget params ''run_id''; label = dget params ''label''; content = dget params ''text''
      in if \<not> truthy i \<or> \<not> truthy label then invalid ''params.run_id and params.label required''
         else if content = JNull then invalid ''params.text required''
         else bind (if truthy (dget params ''filename'') then ret (dget params ''filename'')
                    else lift_res (plus_str label ''.txt''))
                (\<lambda>filename. bind (handle key_error (with_tick w (\<lambda>t. on_runs
                     (run_attach_text (runs_dir (environment w) (cwd w)) t i label filename content))))
                   (\<lambda>r. ret (JObj [(''run'', JObj r)]))))"

definition m_run_import_result :: "world \<Rightarrow> dict \<Rightarrow> json step" where
  "m_run_import_result w params =
     (let i = dget params ''run_id''
      in seq (known_run i)
           (case dget params ''metrics'' of
              JObj m \<Rightarrow>
                with_tick w (\<lambda>t. bind (lift_res (attach_verdict params
                    (make_result t (JObj [(''metrics'', JObj m), (''source'', dget_or params ''source'' (JStr ''ade''))]))))
                  (\<lambda>result. seq (store_result w result)
                    (seq (with_tick w (\<lambda>t. on_runs (run_link_result t i (dget result ''result_id''))))
                    (bind (with_tick w (\<lambda>t. on_runs (run_set_status t i (JStr ''done''))))
                      (\<lambda>r. seq (emit_event w ''result.updated'' [(''result_id'', dget result ''result_id'')])
                         (seq (emit_event w ''run.done''
                                 [(''run_id'', i), (''result_id'', dget result ''result_id'')])
                         (ret (JObj [(''run'', JObj r), (''result'', JObj result)]))))))))
            | _ \<Rightarrow> invalid ''params.metrics must be an object''))"

subsection \<open>Jobs\<close>

definition m_job_create :: "world \<Rightarrow> dict \<Rightarrow> json step" where
  "m_job_create w params =
     (case dget params ''job'' of
        JObj data0 \<Rightarrow>
          (let sid = dget params ''session_id''
           in bind (if truthy sid then seq (touch w sid) (bind_session sid data0) else ret data0)
                (\<lambda>data. with_tick w (\<lambda>t.
                   (let candidate = make_job t (JObj data)
                    in bind (if truthy (dget_or params ''reuse'' (JBool True))
                             then query (\<lambda>s. fresh_done (dget candidate ''inputs_fingerprint'') (d_jobs s))
                             else ret None)
                         (\<lambda>fresh. case fresh of
                            Some j \<Rightarrow> ret (JObj [(''job'', JObj j), (''reused'', JBool True)])
                          | None \<Rightarrow>
                              seq (check_schema w ''job'' candidate)
                              (bind (handle value_error (with_tick w (\<lambda>t'. on_jobs (job_add t' candidate))))
                                (\<lambda>job. seq (emit_event w ''job.created''
                                          [(''job_id'', dget job ''job_id''), (''test'', dget job ''test'')])
                                   (ret (JObj [(''job'', JObj job), (''reused'', JBool False)])))))))))
      | _ \<Rightarrow> invalid ''params.job must be an object'')"

definition m_job_list :: "world \<Rightarrow> dict \<Rightarrow> json step" where
  "m_job_list w params =
     bind (query (\<lambda>s. job_list (dget params ''status'') (d_jobs s))) (\<lambda>items. ret (counted ''jobs'' items))"

definition known_job :: "json \<Rightarrow> dict step" where
  "known_job i =
     (if \<not> truthy i then invalid ''params.job_id required''
      else bind (query (\<lambda>s. job_get (d_jobs s) i))
             (\<lambda>j. case j of None \<Rightarrow> not_found (''unknown job_id: '' @ py_str i) | Some q \<Rightarrow> ret q))"

definition m_job_get :: "world \<Rightarrow> dict \<Rightarrow> json step" where
  "m_job_get w params = bind (known_job (dget params ''job_id'')) (\<lambda>j. ret (JObj [(''job'', JObj j)]))"

text \<open>\<open>_job_set\<close>: the store method is an argument.\<close>

definition set_job :: "world \<Rightarrow> dict \<Rightarrow> (tick \<Rightarrow> json \<Rightarrow> (rec_store, exn, dict) op) \<Rightarrow> dict step" where
  "set_job w params f =
     (let i = dget params ''job_id''
      in if \<not> truthy i then invalid ''params.job_id required''
         else handle key_or_value_error (with_tick w (\<lambda>t. on_jobs (f t i))))"

definition m_job_mark_running :: "world \<Rightarrow> dict \<Rightarrow> json step" where
  "m_job_mark_running w params =
     bind (set_job w params job_mark_running) (\<lambda>j. ret (JObj [(''job'', JObj j)]))"

definition m_job_mark_done :: "world \<Rightarrow> dict \<Rightarrow> json step" where
  "m_job_mark_done w params =
     bind (set_job w params (\<lambda>t i. job_mark_done t i (dget params ''result_id'') (dget params ''run_id'')))
       (\<lambda>j. seq (emit_event w ''job.done''
                   [(''job_id'', dget j ''job_id''), (''result_id'', dget j ''result_id'')])
              (ret (JObj [(''job'', JObj j)])))"

definition m_job_mark_failed :: "world \<Rightarrow> dict \<Rightarrow> json step" where
  "m_job_mark_failed w params =
     bind (set_job w params (\<lambda>t i. job_mark_failed t i (dget params ''error'')))
       (\<lambda>j. seq (emit_event w ''job.failed'' [(''job_id'', dget j ''job_id'')]) (ret (JObj [(''job'', JObj j)])))"

definition m_job_cancel :: "world \<Rightarrow> dict \<Rightarrow> json step" where
  "m_job_cancel w params =
     bind (set_job w params job_cancel)
       (\<lambda>j. seq (emit_event w ''job.cancelled'' [(''job_id'', dget j ''job_id'')]) (ret (JObj [(''job'', JObj j)])))"

text \<open>The background thread of \<open>job.run\<close> is recorded as launched; \<open>Runner\<close> models what it does.\<close>

definition m_job_run :: "world \<Rightarrow> dict \<Rightarrow> json step" where
  "m_job_run w params =
     (let i = dget params ''job_id''
      in bind (known_job i)
           (\<lambda>j. if dget j ''status'' \<noteq> JStr ''queued''
                then raise (RpcError INVALID_STATE (''job '' @ py_str i @ '' is '' @ py_str (dget j ''status'') @
                       ''; only a queued job can be run'') None)
                else case sim_cmd (loads w) (environment w) of
                       None \<Rightarrow> invalid ''no simulator configured (set VFP_SIM_CMD)''
                     | Some cmd \<Rightarrow>
                         seq (change (\<lambda>s. s\<lparr>d_launched := d_launched s @ [(i, cmd)]\<rparr>))
                           (ret (JObj [(''job_id'', i), (''started'', JBool True)]))))"

subsection \<open>Netlist requests\<close>

definition m_netlist_request :: "world \<Rightarrow> dict \<Rightarrow> json step" where
  "m_netlist_request w params =
     (case dget params ''cellview'' of
        JObj cv \<Rightarrow>
          bind (with_tick w (\<lambda>t. on_netlists (netlist_create t (JObj cv, dget params ''corner''))))
            (\<lambda>r. seq (emit_event w ''netlist.request''
                        [(''request_id'', dget r ''request_id''), (''cellview'', JObj cv),
                         (''corner'', dget r ''corner'')])
               (ret (JObj [(''request_id'', dget r ''request_id''), (''status'', dget r ''status'')])))
      | _ \<Rightarrow> invalid ''params.cellview must be an object'')"

definition m_netlist_complete :: "world \<Rightarrow> dict \<Rightarrow> json step" where
  "m_netlist_complete w params =
     (let i = dget params ''request_id''
      in if \<not> truthy i then invalid ''params.request_id required''
         else bind (with_tick w (\<lambda>t. on_netlists (netlist_complete t i (dget params ''deck'') (dget params ''error''))))
                (\<lambda>req. case req of
                   None \<Rightarrow> not_found (''unknown request_id: '' @ py_str i)
                 | Some r \<Rightarrow>
                     seq (emit_event w ''netlist.complete'' [(''request_id'', i), (''status'', dget r ''status'')])
                       (ret (JObj [(''request_id'', i), (''status'', dget r ''status'')]))))"

definition m_netlist_get :: "world \<Rightarrow> dict \<Rightarrow> json step" where
  "m_netlist_get w params =
     (let i = dget params ''request_id''
      in bind (query (\<lambda>s. if truthy i then request_get i (d_netlists s) else Inr None))
           (\<lambda>req. case req of
              None \<Rightarrow> not_found (''unknown request_id: '' @ py_str i)
            | Some r \<Rightarrow> ret (JObj [(''request'', JObj r)])))"

definition m_netlist_pending :: "world \<Rightarrow> dict \<Rightarrow> json step" where
  "m_netlist_pending w params =
     bind (ask (\<lambda>s. netlist_pending (d_netlists s))) (\<lambda>rs. ret (counted ''requests'' rs))"

subsection \<open>Extensions and actions\<close>

definition m_extension_register :: "world \<Rightarrow> dict \<Rightarrow> json step" where
  "m_extension_register w params =
     (let ns = dget params ''namespace''
      in bind (handle value_error (with_tick w (\<lambda>t. on_extensions
             (extension_register t ns (dget params ''methods'') (dget_or params ''description'' (JStr []))
                (dget params ''meta'')))))
           (\<lambda>r. seq (touch w (dget params ''session_id''))
              (seq (emit_event w ''extension.registered'' [(''namespace'', ns), (''methods'', dget r ''methods'')])
              (ret (JObj [(''extension'', JObj r)])))))"

definition m_extension_unregister :: "world \<Rightarrow> dict \<Rightarrow> json step" where
  "m_extension_unregister w params =
     (let ns = dget params ''namespace''
      in if \<not> truthy ns then invalid ''params.namespace required''
         else bind (on_extensions (extension_unregister ns))
                (\<lambda>removed. ret (JObj [(''namespace'', ns), (''removed'', JBool removed)])))"

definition m_extension_list :: "world \<Rightarrow> dict \<Rightarrow> json step" where
  "m_extension_list w params =
     bind (ask (\<lambda>s. extension_list (d_extensions s))) (\<lambda>items. ret (counted ''extensions'' items))"

definition m_action_request :: "world \<Rightarrow> dict \<Rightarrow> json step" where
  "m_action_request w params =
     (let ns = dget params ''namespace''; meth = dget params ''method''
      in if \<not> truthy ns \<or> \<not> truthy meth then invalid ''params.namespace and params.method required''
         else bind (handle value_error (with_tick w (\<lambda>t. on_actions
                  (action_create t (ns, meth, dget params ''params'')))))
                (\<lambda>a. seq (emit_event w ''action.request''
                            [(''action_id'', dget a ''action_id''), (''namespace'', ns), (''method'', meth)])
                   (bind (query (\<lambda>s. extension_knows ns (d_extensions s)))
                     (\<lambda>serviced. ret (JObj [(''action_id'', dget a ''action_id''), (''status'', dget a ''status''),
                        (''serviced'', JBool serviced)])))))"

definition m_action_pending :: "world \<Rightarrow> dict \<Rightarrow> json step" where
  "m_action_pending w params =
     bind (ask (\<lambda>s. action_pending (dget params ''namespace'') (d_actions s)))
       (\<lambda>acts. ret (counted ''actions'' acts))"

definition m_action_complete :: "world \<Rightarrow> dict \<Rightarrow> json step" where
  "m_action_complete w params =
     (let i = dget params ''action_id''
      in if \<not> truthy i then invalid ''params.action_id required''
         else bind (with_tick w (\<lambda>t. on_actions (action_complete t i (dget params ''result'') (dget params ''error''))))
                (\<lambda>act. case act of
                   None \<Rightarrow> not_found (''unknown action_id: '' @ py_str i)
                 | Some a \<Rightarrow>
                     seq (emit_event w ''action.complete'' [(''action_id'', i), (''status'', dget a ''status'')])
                       (ret (JObj [(''action_id'', i), (''status'', dget a ''status'')]))))"

definition m_action_get :: "world \<Rightarrow> dict \<Rightarrow> json step" where
  "m_action_get w params =
     (let i = dget params ''action_id''
      in bind (query (\<lambda>s. if truthy i then request_get i (d_actions s) else Inr None))
           (\<lambda>act. case act of
              None \<Rightarrow> not_found (''unknown action_id: '' @ py_str i)
            | Some a \<Rightarrow> ret (JObj [(''action'', JObj a)])))"

subsection \<open>Events\<close>

definition heartbeat :: "world \<Rightarrow> dict \<Rightarrow> unit step" where
  "heartbeat w params = touch w (dget params ''session_id'')"

definition snapshot_json :: "snapshot \<Rightarrow> json" where
  "snapshot_json n =
     JObj [(''events'', JList (map JObj (events n))), (''latest_seq'', JInt (latest_seq n)),
       (''oldest_seq'', JInt (oldest_seq n)), (''boot_id'', JStr (snap_boot n))]"

definition since_param :: "dict \<Rightarrow> int step" where
  "since_param params = lift_res (py_int (py_or (dget params ''since'') (JInt 0)))"

definition m_event_list :: "world \<Rightarrow> dict \<Rightarrow> json step" where
  "m_event_list w params =
     seq (heartbeat w params)
       (bind (since_param params) (\<lambda>since. ask (\<lambda>s. snapshot_json (event_list (d_events s) since))))"

text \<open>\<open>min(max(x, 0.0), 55.0)\<close>\<close>

definition clamp_timeout :: "pyfloat \<Rightarrow> pyfloat" where
  "clamp_timeout x =
     (let y = (if flt_less x (Fin 0) then Fin 0 else x)
      in if flt_less (Fin 55) y then Fin 55 else y)"

definition timeout_param :: "dict \<Rightarrow> exn + pyfloat" where
  "timeout_param params = map_sum id clamp_timeout (py_float (py_or (dget params ''timeout_s'') (JFloat (Fin 25))))"

text \<open>The answer is None while the schedule of wake-ups leaves the call waiting.\<close>

definition m_event_wait :: "world \<Rightarrow> (rat \<times> event_log) list \<Rightarrow> dict \<Rightarrow> json option step" where
  "m_event_wait w sched params =
     seq (heartbeat w params)
       (bind (since_param params)
         (\<lambda>since. bind (lift_res (timeout_param params))
           (\<lambda>timeout. with_tick w (\<lambda>t. ask (\<lambda>s. map_option snapshot_json
              (event_wait (now t) (d_events s) since timeout sched))))))"

text \<open>
  In the sequential system of the method table no other thread emits while the call waits: every
  wake-up finds the same log, and the answer is its snapshot (\<open>wait_alone\<close>).
\<close>

definition m_event_wait_alone :: "world \<Rightarrow> dict \<Rightarrow> json step" where
  "m_event_wait_alone w params =
     seq (heartbeat w params)
       (bind (since_param params)
         (\<lambda>since. seq (lift_res (timeout_param params))
           (with_tick w (\<lambda>t. ask (\<lambda>s. snapshot_json (event_list (d_events s) since))))))"

lemma wait_loop_alone:
  "wait_loop since deadline (take_snapshot l since) (map (\<lambda>c. (c, l)) cs) =
     (if news l since \<or> list_ex (overrun deadline) cs then Some (take_snapshot l since) else None)"
proof (induction cs)
  case (Cons c cs)
  then show ?case
    by (subst wait_loop.simps) (auto simp: events_snapshot overrun_def [abs_def])
qed (simp add: wait_loop.simps events_snapshot)

lemma wait_alone:
  "event_wait start l since timeout (map (\<lambda>c. (c, l)) cs) = Some snap \<Longrightarrow> snap = event_list l since"
  by (auto simp: event_wait_def Let_def wait_loop_alone event_list_def split: if_splits)

subsection \<open>The tunnel itself\<close>

definition m_tunnel_status :: "world \<Rightarrow> dict \<Rightarrow> json step" where
  "m_tunnel_status w params =
     with_tick w (\<lambda>t. bind (query (\<lambda>s. session_list (d_sessions s)))
       (\<lambda>xs. ask (\<lambda>s. JObj [(''running'', JBool True), (''version'', JStr ''0.1.0''),
          (''host'', JStr (d_host s)), (''port'', JInt (d_port s)), (''pid'', JInt (pid w)),
          (''started_at'', JStr (d_started_at s)),
          (''uptime_s'', JFloat (round1 (flt_sub (Fin (now t)) (Fin (d_started s))))),
          (''sessions'', JInt (int (length xs)))])))"

definition m_tunnel_shutdown :: "world \<Rightarrow> dict \<Rightarrow> json step" where
  "m_tunnel_shutdown w params =
     seq (change (\<lambda>s. s\<lparr>d_stopping := True\<rparr>)) (ret (JObj [(''stopping'', JBool True)]))"

subsection \<open>The method table\<close>

definition method_table :: "world \<Rightarrow> (string \<times> daemon rpc_method) list" where
  "method_table w =
     [(''session.register'', m_session_register w),
      (''session.ping'', m_session_ping w),
      (''session.status'', m_session_status w),
      (''session.list'', m_session_list w),
      (''session.current'', m_session_current w),
      (''session.reap'', m_session_reap w),
      (''design.context.update'', m_context_update w),
      (''design.context.get'', m_context_get w),
      (''tunnel.status'', m_tunnel_status w),
      (''tunnel.shutdown'', m_tunnel_shutdown w),
      (''proposal.create'', m_proposal_create w),
      (''proposal.list'', m_proposal_list w),
      (''proposal.get'', m_proposal_get w),
      (''proposal.approve'', m_proposal_approve w),
      (''proposal.reject'', m_proposal_reject w),
      (''proposal.mark_applied'', m_proposal_mark_applied w),
      (''proposal.mark_failed'', m_proposal_mark_failed w),
      (''transaction.create'', m_transaction_create w),
      (''transaction.list'', m_transaction_list w),
      (''transaction.get'', m_transaction_get w),
      (''transaction.rollback'', m_transaction_rollback w),
      (''transaction.mark_rolled_back'', m_transaction_mark_rolled_back w),
      (''transaction.mark_failed'', m_transaction_mark_failed w),
      (''result.update'', m_result_update w),
      (''result.latest'', m_result_latest w),
      (''constraint.check'', m_constraint_check w),
      (''run.create'', m_run_create w),
      (''run.list'', m_run_list w),
      (''run.get'', m_run_get w),
      (''run.set_status'', m_run_set_status w),
      (''run.attach'', m_run_attach w),
      (''run.import_result'', m_run_import_result w),
      (''job.create'', m_job_create w),
      (''job.list'', m_job_list w),
      (''job.get'', m_job_get w),
      (''job.cancel'', m_job_cancel w),
      (''job.mark_running'', m_job_mark_running w),
      (''job.mark_done'', m_job_mark_done w),
      (''job.mark_failed'', m_job_mark_failed w),
      (''job.run'', m_job_run w),
      (''netlist.request'', m_netlist_request w),
      (''netlist.complete'', m_netlist_complete w),
      (''netlist.get'', m_netlist_get w),
      (''netlist.pending'', m_netlist_pending w),
      (''extension.register'', m_extension_register w),
      (''extension.unregister'', m_extension_unregister w),
      (''extension.list'', m_extension_list w),
      (''action.request'', m_action_request w),
      (''action.pending'', m_action_pending w),
      (''action.complete'', m_action_complete w),
      (''action.get'', m_action_get w),
      (''event.list'', m_event_list w),
      (''event.wait'', m_event_wait_alone w)]"

definition methods :: "world \<Rightarrow> string \<Rightarrow> daemon rpc_method option" where
  "methods w = map_of (method_table w)"

definition tunnel_dispatch :: "world \<Rightarrow> json \<Rightarrow> (daemon, exn, json option) op" where
  "tunnel_dispatch w = dispatch (methods w)"

subsection \<open>Start\<close>

text \<open>What a start finds on disk: the files of each store, and the lines of the event file.\<close>

record home =
  f_sessions :: "(string \<times> doc) list"
  f_contexts :: "(string \<times> doc) list"
  f_proposals :: "(string \<times> doc) list"
  f_transactions :: "(string \<times> doc) list"
  f_results :: "(string \<times> doc) list"
  f_runs :: "(string \<times> doc) list"
  f_jobs :: "(string \<times> doc) list"
  f_events :: "doc list option"

definition DEFAULT_RETAIN :: nat where "DEFAULT_RETAIN = 2000"

definition Tunnel_init :: "world \<Rightarrow> string \<Rightarrow> int \<Rightarrow> string \<Rightarrow> home \<Rightarrow> exn + daemon" where
  "Tunnel_init w host port boot h =
     (case Registry_load (f_sessions h) of Inl e \<Rightarrow> Inl e | Inr sessions \<Rightarrow>
      (case ProposalStore_load (f_proposals h) of Inl e \<Rightarrow> Inl e | Inr proposals \<Rightarrow>
      (case TransactionStore_load (f_transactions h) of Inl e \<Rightarrow> Inl e | Inr transactions \<Rightarrow>
      (case RunStore_load (f_runs h) of Inl e \<Rightarrow> Inl e | Inr runs \<Rightarrow>
      (case JobStore_load (f_jobs h) of Inl e \<Rightarrow> Inl e | Inr jobs \<Rightarrow>
         Inr \<lparr>d_clock = 1, d_host = host, d_port = port, d_started = now (ticks w 0),
              d_started_at = stamp (ticks w 0), d_sessions = sessions,
              d_contexts = load_latest ''context'' (f_contexts h), d_proposals = proposals,
              d_transactions = transactions, d_results = load_latest ''result'' (f_results h),
              d_runs = runs, d_jobs = jobs, d_netlists = [], d_extensions = [], d_actions = [],
              d_events = EventLog_load DEFAULT_RETAIN boot (f_events h), d_permissions = [],
              d_launched = [], d_stopping = False\<rparr>)))))"

end
