(* ===== verification/Tunnel_Rules.thy ===== *)
theory Tunnel_Rules
  imports Daemon
begin

section \<open>What every RPC method may change\<close>

text \<open>
  One proof per RPC method for every two-state property of the daemon. A relation on the daemon is
  given by relations on its proposal, transaction and job stores (\<open>daemon_rel\<close>; the event log only
  counts up and jobs are launched with the configured command in every case). The locale
  \<open>store_laws\<close> asks that the store operations respect these relations, all but the approval of a
  proposal and the creation of a transaction; its extensions \<open>create_laws\<close> and \<open>approve_laws\<close> add these
  two, \<open>all_laws\<close> both. The handlers are proved once inside the locales; \<open>Tunnel_Safety\<close> interprets them with the
  relations it needs.
\<close>

subsection \<open>The daemon invariant and relations\<close>

definition daemon_ok :: "daemon \<Rightarrow> bool" where
  "daemon_ok s \<longleftrightarrow>
     registry_ok (d_sessions s) \<and> store_ok ''proposal_id'' (d_proposals s) \<and>
     store_ok ''transaction_id'' (d_transactions s) \<and> store_ok ''job_id'' (d_jobs s) \<and>
     runs_ok (d_runs s) \<and> log_ok (d_events s) \<and> distinct (map fst (d_netlists s)) \<and>
     distinct (map fst (d_actions s)) \<and> distinct (map fst (d_extensions s))"

definition launched_by :: "world \<Rightarrow> daemon \<Rightarrow> daemon \<Rightarrow> bool" where
  "launched_by w s s' \<longleftrightarrow>
     (\<exists>new. d_launched s' = d_launched s @ new \<and>
        (\<forall>(i, cmd) \<in> set new. sim_cmd (loads w) (environment w) = Some cmd))"

definition log_grows :: "event_log \<Rightarrow> event_log \<Rightarrow> bool" where
  "log_grows l l' \<longleftrightarrow> (\<exists>new. log_adds l new l') \<and> retain l' = retain l \<and> boot_id l' = boot_id l"

definition daemon_rel ::
  "(rec_store \<Rightarrow> rec_store \<Rightarrow> bool) \<Rightarrow> (rec_store \<Rightarrow> rec_store \<Rightarrow> bool) \<Rightarrow> (rec_store \<Rightarrow> rec_store \<Rightarrow> bool) \<Rightarrow>
   world \<Rightarrow> daemon \<Rightarrow> daemon \<Rightarrow> bool" where
  "daemon_rel P T J w s s' \<longleftrightarrow>
     P (d_proposals s) (d_proposals s') \<and> T (d_transactions s) (d_transactions s') \<and>
     J (d_jobs s) (d_jobs s') \<and> launched_by w s s' \<and> log_grows (d_events s) (d_events s') \<and>
     d_permissions s' = d_permissions s"

lemma launched_by_refl [simp]: "launched_by w s s"
  by (simp add: launched_by_def)

lemma launched_by_same: "d_launched s' = d_launched s \<Longrightarrow> launched_by w s s'"
  by (simp add: launched_by_def)

lemma launched_by_trans: "launched_by w s s' \<Longrightarrow> launched_by w s' s'' \<Longrightarrow> launched_by w s s''"
  unfolding launched_by_def by fastforce

lemma log_grows_refl [simp]: "log_grows l l"
  by (auto simp: log_grows_def intro: log_adds_refl)

lemma log_grows_trans: "log_grows l l' \<Longrightarrow> log_grows l' l'' \<Longrightarrow> log_grows l l''"
  using log_adds_trans by (fastforce simp: log_grows_def)

lemma emit_ok: "log_ok l \<Longrightarrow> log_ok (snd (emit t ty p l)) \<and> log_grows l (snd (emit t ty p l))"
proof -
  assume ok: "log_ok l"
  obtain e l' where p: "publish t ty p l = (e, l')" by fastforce
  have "log_ok (append_disk t e l') = log_ok l'" by (simp add: append_disk_def log_ok_def)
  moreover have "log_grows l (append_disk t e l')"
    using publish_evs [OF p] emit_adds [of l t ty p] by (auto simp: append_disk_def log_grows_def emit_def p)
  ultimately show ?thesis using publish_ok [OF ok p] by (simp add: emit_def p)
qed

lemma channel_keeps:
  "preserves (\<lambda>m. distinct (map fst m)) (netlist_create t a)"
  "preserves (\<lambda>m. distinct (map fst m)) (netlist_complete t i d e)"
  "preserves (\<lambda>m. distinct (map fst m)) (action_create t b)"
  "preserves (\<lambda>m. distinct (map fst m)) (action_complete t i d e)"
  "preserves (\<lambda>m. distinct (map fst m)) (extension_register t ns ms descr meta)"
  "preserves (\<lambda>m. distinct (map fst m)) (extension_unregister ns)"
  by (auto simp: preserves_def channel_defs extension_register_def extension_unregister_def Let_def distinct_delete
      split: prod.split sum.split option.split json.split)

subsection \<open>The laws\<close>

locale store_laws =
  fixes P T J :: "rec_store \<Rightarrow> rec_store \<Rightarrow> bool"
  assumes P_refl: "P a a" and P_trans: "P a b \<Longrightarrow> P b c \<Longrightarrow> P a c"
    and T_refl: "T a a" and T_trans: "T a b \<Longrightarrow> T b c \<Longrightarrow> T a c"
    and J_refl: "J a a" and J_trans: "J a b \<Longrightarrow> J b c \<Longrightarrow> J a c"
    and P_create: "moves (store_ok ''proposal_id'') P (proposal_create t d)"
    and P_expire: "moves (store_ok ''proposal_id'') P (expire_stale ttl t)"
    and P_reject: "moves (store_ok ''proposal_id'') P (proposal_reject t i)"
    and P_applied: "moves (store_ok ''proposal_id'') P (proposal_mark_applied t i)"
    and P_failed: "moves (store_ok ''proposal_id'') P (proposal_mark_failed t i)"
    and P_rolled_back: "moves (store_ok ''proposal_id'') P (proposal_mark_rolled_back t i)"
    and T_rolled_back: "moves (store_ok ''transaction_id'') T (transaction_mark_rolled_back t i)"
    and T_failed: "moves (store_ok ''transaction_id'') T (transaction_mark_failed t i)"
    and J_add: "moves (store_ok ''job_id'') J (job_add t d)"
    and J_running: "moves (store_ok ''job_id'') J (job_mark_running t i)"
    and J_done: "moves (store_ok ''job_id'') J (job_mark_done t i r run)"
    and J_failed: "moves (store_ok ''job_id'') J (job_mark_failed t i err)"
    and J_cancel: "moves (store_ok ''job_id'') J (job_cancel t i)"

locale create_laws = store_laws +
  assumes T_add: "moves (store_ok ''transaction_id'') T (transaction_add t d)"

locale approve_laws = store_laws +
  assumes P_approve: "moves (store_ok ''proposal_id'') P (proposal_approve t i)"

locale all_laws = create_laws + approve_laws

context store_laws begin

abbreviation R :: "world \<Rightarrow> daemon \<Rightarrow> daemon \<Rightarrow> bool" where
  "R \<equiv> daemon_rel P T J"

lemma R_refl: "R w s s"
  by (simp add: daemon_rel_def P_refl T_refl J_refl)

lemma R_trans: "R w s s' \<Longrightarrow> R w s' s'' \<Longrightarrow> R w s s''"
  unfolding daemon_rel_def using P_trans T_trans J_trans launched_by_trans log_grows_trans by metis

end

sublocale store_laws \<subseteq> daemon: progress daemon_ok "daemon_rel P T J w" for w
  by unfold_locales (rule R_refl, erule (1) R_trans)

context store_laws begin

abbreviation M :: "world \<Rightarrow> 'a step \<Rightarrow> bool" where
  "M w \<equiv> moves daemon_ok (daemon_rel P T J w)"

subsection \<open>Parts\<close>

lemma M_case_json:
  "M w m \<Longrightarrow> (\<And>d. M w (f d)) \<Longrightarrow> M w (case v of JObj d \<Rightarrow> f d | _ \<Rightarrow> m)"
  by (cases v) simp_all

lemma M_let: "(\<And>x. M w (f x)) \<Longrightarrow> M w (Let v f)"
  by simp

lemma M_query: "M w (query f)"
  by (simp add: moves_def query_def R_refl)

lemma M_with_tick: "(\<And>t. M w (f t)) \<Longrightarrow> M w (with_tick w f)"
proof (rule movesI)
  fix s assume f: "\<And>t. M w (f t)" and s: "daemon_ok s"
  let ?s = "s\<lparr>d_clock := Suc (d_clock s)\<rparr>"
  have ok: "daemon_ok ?s" and r: "R w s ?s"
    using s by (simp_all add: daemon_ok_def daemon_rel_def P_refl T_refl J_refl launched_by_same)
  from movesD [OF f [of "ticks w (d_clock s)"] ok] show
    "daemon_ok (snd (with_tick w f s)) \<and> R w s (snd (with_tick w f s))"
    unfolding with_tick_def using R_trans [OF r] by blast
qed

lemma M_emit_event: "M w (emit_event w ty p)"
  unfolding emit_event_def
proof (rule M_with_tick)
  fix t
  show "M w (change (\<lambda>s. s\<lparr>d_events := snd (emit t ty (JObj p) (d_events s))\<rparr>))"
    using emit_ok by (auto simp: moves_def change_def daemon_ok_def daemon_rel_def P_refl T_refl J_refl launched_by_same)
qed

lemma M_handle:
  assumes "M w m" and "\<And>e n. h e = Some n \<Longrightarrow> M w n" shows "M w (handle h m)"
  using assms by (rule daemon.moves_handle)

lemmas M_zoom = daemon.moves_zoom

lemma M_on_proposals: "moves (store_ok ''proposal_id'') P m \<Longrightarrow> M w (on_proposals m)"
  unfolding on_proposals_def
  by (rule M_zoom) (auto simp: daemon_ok_def daemon_rel_def T_refl J_refl launched_by_same)

lemma M_on_transactions: "moves (store_ok ''transaction_id'') T m \<Longrightarrow> M w (on_transactions m)"
  unfolding on_transactions_def
  by (rule M_zoom) (auto simp: daemon_ok_def daemon_rel_def P_refl J_refl launched_by_same)

lemma M_on_jobs: "moves (store_ok ''job_id'') J m \<Longrightarrow> M w (on_jobs m)"
  unfolding on_jobs_def
  by (rule M_zoom) (auto simp: daemon_ok_def daemon_rel_def P_refl T_refl launched_by_same)

lemmas same_stores = daemon_rel_def P_refl T_refl J_refl launched_by_same

lemma moves_True: "preserves I m \<Longrightarrow> moves I (\<lambda>_ _. True) m"
  by (simp add: moves_def preserves_def)

lemma M_on_sessions: "preserves registry_ok m \<Longrightarrow> M w (on_sessions m)"
  unfolding on_sessions_def
  by (rule M_zoom [OF _ _ moves_True]) (auto simp: daemon_ok_def same_stores)

lemma M_on_runs: "preserves runs_ok m \<Longrightarrow> M w (on_runs m)"
  unfolding on_runs_def
  by (rule M_zoom [OF _ _ moves_True]) (auto simp: daemon_ok_def same_stores)

lemma M_on_contexts: "M w (on_contexts m)"
  unfolding on_contexts_def
  by (rule M_zoom [where J = "\<lambda>_. True" and Q = "\<lambda>_ _. True"]) (auto simp: daemon_ok_def same_stores moves_def)

lemma M_on_results: "M w (on_results m)"
  unfolding on_results_def
  by (rule M_zoom [where J = "\<lambda>_. True" and Q = "\<lambda>_ _. True"]) (auto simp: daemon_ok_def same_stores moves_def)

lemma M_on_netlists: "preserves (\<lambda>m. distinct (map fst m)) m \<Longrightarrow> M w (on_netlists m)"
  unfolding on_netlists_def
  by (rule M_zoom [OF _ _ moves_True]) (auto simp: daemon_ok_def same_stores)

lemma M_on_actions: "preserves (\<lambda>m. distinct (map fst m)) m \<Longrightarrow> M w (on_actions m)"
  unfolding on_actions_def
  by (rule M_zoom [OF _ _ moves_True]) (auto simp: daemon_ok_def same_stores)

lemma M_on_extensions: "preserves (\<lambda>m. distinct (map fst m)) m \<Longrightarrow> M w (on_extensions m)"
  unfolding on_extensions_def
  by (rule M_zoom [OF _ _ moves_True]) (auto simp: daemon_ok_def same_stores)

subsection \<open>Errors\<close>

lemma M_invalid: "M w (invalid m)" and M_not_found: "M w (not_found m)"
  by (simp_all add: invalid_def not_found_def daemon.moves_raise)

lemma M_key_error: "key_error e = Some n \<Longrightarrow> M w n"
  by (auto simp: key_error_def M_not_found split: exn.splits)

lemma M_value_error: "value_error e = Some n \<Longrightarrow> M w n"
  by (auto simp: value_error_def M_invalid split: exn.splits)

lemma M_key_or_value_error: "key_or_value_error e = Some n \<Longrightarrow> M w n"
  by (auto simp: key_or_value_error_def M_invalid M_not_found split: exn.splits)

lemma M_ignore_error: "ignore_error e = Some n \<Longrightarrow> M w n"
  by (auto simp: ignore_error_def daemon.moves_ret split: exn.splits)

lemma M_handlers:
  "M w m \<Longrightarrow> M w (handle key_error m)" "M w m \<Longrightarrow> M w (handle value_error m)"
  "M w m \<Longrightarrow> M w (handle key_or_value_error m)" "M w n \<Longrightarrow> M w (handle ignore_error n)"
  by (blast intro: M_handle M_key_error M_value_error M_key_or_value_error M_ignore_error)+

lemma M_check_schema: "M w (check_schema w' name d)"
  by (simp add: check_schema_def daemon.moves_lift_res)

lemma M_touch: "M w (touch w sid)"
  unfolding touch_def
  by (intro daemon.moves_rules M_with_tick M_on_sessions session_touch_keeps)

lemmas M_rules = daemon.moves_rules M_case_json M_let M_query M_with_tick M_emit_event M_invalid
  M_not_found M_check_schema M_touch M_on_contexts M_on_results

end

context store_laws begin

lemmas M_parts = M_on_proposals M_on_transactions M_on_jobs M_on_sessions M_on_runs M_on_netlists
  M_on_actions M_on_extensions M_handlers

lemma P_get: "moves (store_ok ''proposal_id'') P (proposal_get ttl t i)"
  using P_expire by (simp add: moves_def)

lemma P_list: "moves (store_ok ''proposal_id'') P (proposal_list ttl t st)"
  using P_expire by (simp add: moves_def)

lemmas law_facts = P_create P_expire P_get P_list P_reject P_applied P_failed P_rolled_back T_rolled_back T_failed
  J_add J_running J_done J_failed J_cancel session_register_keeps session_reap_keeps session_touch_keeps
  run_create_keeps run_set_status_keeps run_link_result_keeps run_attach_text_keeps channel_keeps

subsection \<open>Sessions and contexts\<close>

lemma M_session_methods:
  "M w (m_session_register w params)" "M w (m_session_ping w params)" "M w (m_session_status w params)"
  "M w (m_session_list w params)" "M w (m_session_current w params)" "M w (m_session_reap w params)"
  "M w (m_context_update w params)" "M w (m_context_get w params)"
  unfolding m_session_register_def m_session_ping_def m_session_status_def m_session_list_def
    m_session_current_def m_session_reap_def m_context_update_def m_context_get_def
  by (intro M_rules M_parts law_facts)+

subsection \<open>Proposals and transactions\<close>

lemma M_emit_expired: "M w (emit_expired w ids)"
  by (induction ids) (auto intro!: M_rules)

lemma M_fetch_proposal: "M w (fetch_proposal w i)"
  unfolding fetch_proposal_def by (intro M_rules M_parts law_facts)

lemma M_move_proposal:
  assumes "\<And>t i. moves (store_ok ''proposal_id'') P (f t i)" and "\<And>i. M w (g i)"
  shows "M w (move_proposal w params f g)"
  unfolding move_proposal_def by (intro M_rules M_parts assms)

lemma M_proposal_methods:
  "M w (m_proposal_create w params)" "M w (m_proposal_get w params)" "M w (m_proposal_reject w params)"
  "M w (m_proposal_mark_applied w params)" "M w (m_proposal_mark_failed w params)"
  unfolding m_proposal_create_def m_proposal_get_def m_proposal_reject_def
    m_proposal_mark_applied_def m_proposal_mark_failed_def
  by (intro M_rules M_parts law_facts M_fetch_proposal M_move_proposal)+

lemma M_proposal_list: "M w (m_proposal_list w params)"
  unfolding m_proposal_list_def by (intro M_rules M_parts law_facts M_emit_expired)

lemma M_follow_proposal:
  assumes "\<And>t i. moves (store_ok ''proposal_id'') P (f t i)"
  shows "M w (follow_proposal w i st f)"
  unfolding follow_proposal_def by (intro M_rules M_parts assms M_fetch_proposal)

lemma M_known_transaction: "M w (known_transaction i)"
  unfolding known_transaction_def by (intro M_rules)

lemma M_transaction_methods:
  "M w (m_transaction_list w params)" "M w (m_transaction_get w params)" "M w (m_transaction_rollback w params)"
  "M w (m_transaction_mark_rolled_back w params)" "M w (m_transaction_mark_failed w params)"
  unfolding m_transaction_list_def m_transaction_get_def m_transaction_rollback_def
    m_transaction_mark_rolled_back_def m_transaction_mark_failed_def
  by (intro M_rules M_parts law_facts M_known_transaction M_follow_proposal)+

lemma M_bind_session: "M w (bind_session sid data)"
  unfolding bind_session_def by (intro M_rules)

subsection \<open>Results, runs and jobs\<close>

lemma M_store_result: "M w (store_result w r)"
  unfolding store_result_def by (intro M_rules)

lemma M_known_run: "M w (known_run i)"
  unfolding known_run_def by (intro M_rules)

lemma M_result_methods:
  "M w (m_result_update w params)" "M w (m_result_latest w params)" "M w (m_constraint_check w params)"
  unfolding m_result_update_def m_result_latest_def m_constraint_check_def
  by (intro M_rules M_store_result)+

lemma M_run_methods:
  "M w (m_run_create w params)" "M w (m_run_list w params)" "M w (m_run_get w params)"
  "M w (m_run_set_status w params)" "M w (m_run_attach w params)" "M w (m_run_import_result w params)"
  unfolding m_run_create_def m_run_list_def m_run_get_def m_run_set_status_def m_run_attach_def
    m_run_import_result_def
  by (intro M_rules M_parts law_facts M_known_run M_store_result)+

lemma M_known_job: "M w (known_job i)"
  unfolding known_job_def by (intro M_rules)

lemma M_set_job:
  assumes "\<And>t i. moves (store_ok ''job_id'') J (f t i)" shows "M w (set_job w params f)"
  unfolding set_job_def by (intro M_rules M_parts assms)

lemma M_job_methods:
  "M w (m_job_create w params)" "M w (m_job_list w params)" "M w (m_job_get w params)"
  "M w (m_job_mark_running w params)" "M w (m_job_mark_done w params)" "M w (m_job_mark_failed w params)"
  "M w (m_job_cancel w params)"
  unfolding m_job_create_def m_job_list_def m_job_get_def m_job_mark_running_def m_job_mark_done_def
    m_job_mark_failed_def m_job_cancel_def
  by (intro M_rules M_parts law_facts M_known_job M_bind_session M_set_job)+

lemma M_launch:
  assumes "sim_cmd (loads w) (environment w) = Some cmd"
  shows "M w (change (\<lambda>s. s\<lparr>d_launched := d_launched s @ [(i, cmd)]\<rparr>))"
  using assms by (simp add: moves_def change_def daemon_ok_def daemon_rel_def P_refl T_refl J_refl launched_by_def)

lemma M_job_run: "M w (m_job_run w params)"
proof (cases "sim_cmd (loads w) (environment w)")
  case None
  then show ?thesis unfolding m_job_run_def by (simp only: option.case Let_def) (intro M_rules M_known_job)
next
  case (Some cmd)
  then show ?thesis unfolding m_job_run_def
    by (simp only: option.case Let_def) (intro M_rules M_known_job M_launch)
qed

subsection \<open>Channels, events and the tunnel\<close>

lemma M_channel_methods:
  "M w (m_netlist_request w params)" "M w (m_netlist_complete w params)" "M w (m_netlist_get w params)"
  "M w (m_netlist_pending w params)" "M w (m_extension_register w params)" "M w (m_extension_unregister w params)"
  "M w (m_extension_list w params)" "M w (m_action_request w params)" "M w (m_action_pending w params)"
  "M w (m_action_complete w params)" "M w (m_action_get w params)"
  unfolding m_netlist_request_def m_netlist_complete_def m_netlist_get_def m_netlist_pending_def
    m_extension_register_def m_extension_unregister_def m_extension_list_def m_action_request_def
    m_action_pending_def m_action_complete_def m_action_get_def
  by (intro M_rules M_parts law_facts)+

lemma M_event_methods: "M w (m_event_list w params)" "M w (m_event_wait_alone w params)"
  unfolding m_event_list_def m_event_wait_alone_def heartbeat_def since_param_def
  by (intro M_rules)+

lemma M_tunnel_methods: "M w (m_tunnel_status w params)" "M w (m_tunnel_shutdown w params)"
proof -
  show "M w (m_tunnel_status w params)" unfolding m_tunnel_status_def by (intro M_rules)
  have "M w (change (\<lambda>s. s\<lparr>d_stopping := True\<rparr>))"
    by (simp add: moves_def change_def daemon_ok_def same_stores)
  then show "M w (m_tunnel_shutdown w params)" unfolding m_tunnel_shutdown_def by (intro M_rules)
qed

lemmas M_methods = M_session_methods M_proposal_methods M_proposal_list M_transaction_methods M_result_methods
  M_run_methods M_job_methods M_job_run M_channel_methods M_event_methods M_tunnel_methods

end

context create_laws begin

lemma M_transaction_create: "M w (m_transaction_create w params)"
  unfolding m_transaction_create_def bound_data_def store_transaction_def permission_violations_def
  by (intro M_rules M_parts T_add P_applied M_bind_session M_follow_proposal daemon.moves_raise)

end

context approve_laws begin

lemma M_proposal_approve: "M w (m_proposal_approve w params)"
  unfolding m_proposal_approve_def by (intro M_rules M_move_proposal P_approve)

end

subsection \<open>Messages\<close>

text \<open>The method a message names.\<close>

definition asked_method :: "json \<Rightarrow> string option" where
  "asked_method msg =
     (case msg of JObj d \<Rightarrow> (case dget d ''method'' of JStr m \<Rightarrow> Some m | _ \<Rightarrow> None) | _ \<Rightarrow> None)"

text \<open>The daemon handles messages one after the other, whichever connections they come from.\<close>

fun handle_messages :: "world \<Rightarrow> json list \<Rightarrow> daemon \<Rightarrow> daemon" where
  "handle_messages w [] s = s"
| "handle_messages w (msg # msgs) s = handle_messages w msgs (snd (tunnel_dispatch w msg s))"

lemma dispatch_cases:
  "snd (dispatch tbl msg s) = s \<or>
   (\<exists>n fn p. asked_method msg = Some n \<and> tbl n = Some fn \<and> snd (dispatch tbl msg s) = snd (fn p s))"
proof (cases msg)
  case (JObj d)
  show ?thesis
  proof (cases "\<exists>n fn p. dget d ''method'' = JStr n \<and> tbl n = Some fn \<and>
      dget d ''jsonrpc'' = JStr ''2.0'' \<and> has_key d ''method'' \<and>
      (if dget d ''params'' = JNull then JObj [] else dget d ''params'') = JObj p")
    case True
    then obtain n fn p where
      n: "dget d ''method'' = JStr n" "tbl n = Some fn" "dget d ''jsonrpc'' = JStr ''2.0''"
        "has_key d ''method''" and p: "(if dget d ''params'' = JNull then JObj [] else dget d ''params'') = JObj p"
      by blast
    have "snd (dispatch tbl msg s) = snd (fn p s)"
      unfolding JObj dispatch_def using n p by (simp add: call_method_def Let_def split: prod.split sum.split)
    with n show ?thesis by (auto simp: asked_method_def JObj)
  next
    case False
    then have "snd (dispatch tbl msg s) = s"
      unfolding JObj dispatch_def
      by (auto simp: Let_def split: json.splits sum.splits option.splits pkey.splits)
    then show ?thesis by simp
  qed
qed (simp_all add: dispatch_def)

context progress begin

lemma moves_dispatch:
  "(\<And>n fn p. asked_method msg = Some n \<Longrightarrow> tbl n = Some fn \<Longrightarrow> moves I R (fn p)) \<Longrightarrow>
   moves I R (dispatch tbl msg)"
  by (rule movesI) (metis R_refl dispatch_cases movesD)

end

context store_laws begin

lemma M_entries:
  "list_all (\<lambda>(n, fn). n = ''proposal.approve'' \<or> n = ''transaction.create'' \<or> (\<forall>p. M w (fn p))) (method_table w)"
  unfolding method_table_def list.pred_inject case_prod_conv by (intro conjI TrueI) (simp_all only: M_methods simp_thms list.pred_inject)

lemma M_table:
  "(n, fn) \<in> set (method_table w) \<Longrightarrow> n \<noteq> ''proposal.approve'' \<Longrightarrow> n \<noteq> ''transaction.create'' \<Longrightarrow> M w (fn p)"
  using M_entries by (fastforce simp: list_all_iff)

lemma M_messages:
  assumes "\<And>msg n fn p. msg \<in> set msgs \<Longrightarrow> asked_method msg = Some n \<Longrightarrow> methods w n = Some fn \<Longrightarrow> M w (fn p)"
    and "daemon_ok s"
  shows "daemon_ok (handle_messages w msgs s) \<and> daemon_rel P T J w s (handle_messages w msgs s)"
  using assms
proof (induction msgs arbitrary: s)
  case (Cons msg msgs)
  have "M w (tunnel_dispatch w msg)"
    unfolding tunnel_dispatch_def by (intro daemon.moves_dispatch Cons.prems(1)) simp_all
  from movesD [OF this Cons.prems(2)]
  have s': "daemon_ok (snd (tunnel_dispatch w msg s))" "R w s (snd (tunnel_dispatch w msg s))" by simp_all
  then have "daemon_ok (handle_messages w msgs (snd (tunnel_dispatch w msg s))) \<and>
      R w (snd (tunnel_dispatch w msg s)) (handle_messages w msgs (snd (tunnel_dispatch w msg s)))"
    by (intro Cons.IH s'(1) Cons.prems(1) [OF list.set_intros(2)])
  with s'(2) show ?case unfolding handle_messages.simps using R_trans by blast
qed (simp add: R_refl)

end

context approve_laws begin

lemma M_without_creation:
  assumes "\<And>msg. msg \<in> set msgs \<Longrightarrow> asked_method msg \<noteq> Some ''transaction.create''" and "daemon_ok s"
  shows "daemon_ok (handle_messages w msgs s) \<and> daemon_rel P T J w s (handle_messages w msgs s)"
proof (rule M_messages [OF _ assms(2)])
  fix msg n fn p
  assume n: "msg \<in> set msgs" "asked_method msg = Some n" and fn: "methods w n = Some fn"
  show "M w (fn p)"
  proof (cases "n = ''proposal.approve''")
    case True
    with fn have "fn = m_proposal_approve w" by (simp add: methods_def method_table_def)
    then show ?thesis by (simp add: M_proposal_approve)
  next
    case False
    with n assms(1) fn show ?thesis by (auto simp: methods_def dest!: map_of_SomeD intro: M_table)
  qed
qed

end

context create_laws begin

lemma M_without_approval:
  assumes "\<And>msg. msg \<in> set msgs \<Longrightarrow> asked_method msg \<noteq> Some ''proposal.approve''" and "daemon_ok s"
  shows "daemon_ok (handle_messages w msgs s) \<and> daemon_rel P T J w s (handle_messages w msgs s)"
proof (rule M_messages [OF _ assms(2)])
  fix msg n fn p
  assume n: "msg \<in> set msgs" "asked_method msg = Some n" and fn: "methods w n = Some fn"
  show "M w (fn p)"
  proof (cases "n = ''transaction.create''")
    case True
    with fn have "fn = m_transaction_create w" by (simp add: methods_def method_table_def)
    then show ?thesis by (simp add: M_transaction_create)
  next
    case False
    with n assms(1) fn show ?thesis by (auto simp: methods_def dest!: map_of_SomeD intro: M_table)
  qed
qed

end

context all_laws begin

lemma M_all:
  assumes "daemon_ok s"
  shows "daemon_ok (handle_messages w msgs s) \<and> daemon_rel P T J w s (handle_messages w msgs s)"
proof (rule M_messages [OF _ assms])
  fix msg n fn p
  assume fn: "methods w n = Some fn"
  show "M w (fn p)"
  proof (cases "n = ''transaction.create'' \<or> n = ''proposal.approve''")
    case True
    with fn have "fn = m_transaction_create w \<or> fn = m_proposal_approve w"
      by (auto simp: methods_def method_table_def)
    then show ?thesis by (auto simp: M_transaction_create M_proposal_approve)
  next
    case False
    with fn show ?thesis by (auto simp: methods_def dest!: map_of_SomeD intro: M_table)
  qed
qed

end

end
