(* ===== verification/Runner.thy ===== *)
theory Runner
  imports Tunnel_Rules
begin

section \<open>Running a simulation job\<close>

text \<open>
  \<open>sim/runner.py\<close> and the background thread of \<open>daemon.py\<close>. The runner works on the daemon's job,
  run, result and event stores between calls of two external commands, which are arguments: the
  record \<open>host\<close> says how a command ends and what the metrics file then holds. The stages before,
  between and after the commands are separate operations, so that RPC messages can be handled
  between them. The file \<open>job.json\<close> that is written for the wrapper is not part of the state.
\<close>

datatype proc_outcome = Timed_Out | Not_Launched string | Exited int string

datatype metrics_read = No_File | Bad_File string | File_Text string

record host =
  exec :: "string list \<Rightarrow> string \<Rightarrow> environ \<Rightarrow> proc_outcome"
  metrics_at :: "string \<Rightarrow> metrics_read"

subsection \<open>Operations\<close>

text \<open>\<open>str(v or "")\<close>\<close>

definition env_text :: "json \<Rightarrow> string" where
  "env_text v = py_str (py_or v (JStr []))"

definition job_context :: "environ \<Rightarrow> dict \<Rightarrow> string \<Rightarrow> string \<Rightarrow> exn + environ" where
  "job_context env job run_dir metrics_file =
     (case py_or (dget job ''cellview'') (JObj []) of
        JObj cv \<Rightarrow>
          Inr (env
            (''VFP_JOB_ID'' \<mapsto> env_text (dget job ''job_id''),
             ''VFP_JOB_LIB'' \<mapsto> env_text (dget cv ''lib''),
             ''VFP_JOB_CELL'' \<mapsto> env_text (dget cv ''cell''),
             ''VFP_JOB_VIEW'' \<mapsto> env_text (dget cv ''view''),
             ''VFP_JOB_TEST'' \<mapsto> env_text (dget job ''test''),
             ''VFP_JOB_FINGERPRINT'' \<mapsto> env_text (dget job ''inputs_fingerprint''),
             ''VFP_JOB_SAVED_AT'' \<mapsto> env_text (dget job ''saved_at''),
             ''VFP_RUN_DIR'' \<mapsto> run_dir,
             ''VFP_METRICS_FILE'' \<mapsto> metrics_file))
      | v \<Rightarrow> map_sum id (\<lambda>_. env) (jget v ''lib''))"

definition run_directory :: "world \<Rightarrow> string \<Rightarrow> string" where
  "run_directory w rid = path_join (runs_dir (environment w) (cwd w)) rid"

definition fail_job :: "world \<Rightarrow> json \<Rightarrow> string \<Rightarrow> string \<Rightarrow> dict step" where
  "fail_job w i rid err =
     seq (if rid \<noteq> []
          then handle ignore_error
                 (bind (with_tick w (\<lambda>t. on_runs (run_set_status t (JStr rid) (JStr ''failed'')))) (\<lambda>_. ret ()))
          else ret ())
       (bind (with_tick w (\<lambda>t. on_jobs (job_mark_failed t i (JStr err))))
         (\<lambda>j. seq (emit_event w ''job.failed'' [(''job_id'', i), (''error'', JStr err)]) (ret j)))"

text \<open>\<open>except (KeyError, OSError): pass\<close> around the attachment of a log\<close>

definition ignore_attach :: "exn \<Rightarrow> unit step option" where
  "ignore_attach e = (case e of KeyError _ \<Rightarrow> Some (ret ()) | OSError _ \<Rightarrow> Some (ret ()) | _ \<Rightarrow> None)"

definition attach_log :: "world \<Rightarrow> string \<Rightarrow> string \<Rightarrow> string \<Rightarrow> string \<Rightarrow> unit step" where
  "attach_log w rid label filename text =
     handle ignore_attach
       (bind (with_tick w (\<lambda>t. on_runs (run_attach_text (runs_dir (environment w) (cwd w)) t (JStr rid)
                (JStr label) (JStr filename) (JStr text)))) (\<lambda>_. ret ()))"

text \<open>Up to the first command: the job, its run id and the environment of the commands.\<close>

definition begin_run :: "world \<Rightarrow> json \<Rightarrow> string \<Rightarrow> (dict \<times> string \<times> environ) step" where
  "begin_run w i metrics_file =
     bind (query (\<lambda>s. job_get (d_jobs s) i))
       (\<lambda>found. case found of
          None \<Rightarrow> raise (KeyError (''unknown job_id: '' @ py_str i))
        | Some job \<Rightarrow> with_tick w (\<lambda>t.
            (let rid = ''run_'' @ uid t
             in seq (on_runs (run_create t
                    [(''test'', dget job ''test''), (''cellview'', dget job ''cellview''), (''job_id'', i)]))
                (seq (with_tick w (\<lambda>t. on_jobs (job_mark_running t i)))
                (seq (with_tick w (\<lambda>t. on_runs (run_set_status t (JStr rid) (JStr ''running''))))
                (bind (lift_res (job_context (environment w) job (run_directory w rid) metrics_file))
                   (\<lambda>env. ret (job, rid, env))))))))"

text \<open>The optional netlist command: the failed job when it ends the run.\<close>

definition netlist_stage :: "host \<Rightarrow> world \<Rightarrow> json \<Rightarrow> string \<Rightarrow> environ \<Rightarrow> int \<Rightarrow> dict option step" where
  "netlist_stage h w i rid env timeout =
     (case netlist_cmd (loads w) (environment w) of
        None \<Rightarrow> ret None
      | Some cmd \<Rightarrow>
          (case exec h cmd (run_directory w rid) env of
             Timed_Out \<Rightarrow>
               bind (fail_job w i rid (''netlist step timed out after '' @ show_int timeout @ ''s'')) (\<lambda>j. ret (Some j))
           | Not_Launched e \<Rightarrow> bind (fail_job w i rid (''could not launch netlist: '' @ e)) (\<lambda>j. ret (Some j))
           | Exited code out \<Rightarrow>
               seq (attach_log w rid ''netlistlog'' ''netlist.log'' out)
                 (if code \<noteq> 0
                  then bind (fail_job w i rid (''netlist command exited '' @ show_int code)) (\<lambda>j. ret (Some j))
                  else ret None)))"

definition job_provenance :: "dict \<Rightarrow> json \<Rightarrow> dict" where
  "job_provenance job prov =
     (let p = (case prov of JObj d \<Rightarrow> d | _ \<Rightarrow> []);
          p = (if truthy (dget job ''session'') then dset ''session'' (dget job ''session'') p else p)
      in if truthy (dget job ''session_fingerprint'')
         then dset ''session_fingerprint'' (dget job ''session_fingerprint'') p else p)"

definition result_data :: "dict \<Rightarrow> dict \<Rightarrow> dict" where
  "result_data job parsed =
     (let d = [(''metrics'', dget parsed ''metrics''), (''source'', JStr ''spectre''),
               (''test'', dget job ''test''), (''cellview'', dget job ''cellview'')];
          d = fold (\<lambda>key d. if truthy (dget parsed key) then dset key (dget parsed key) d else d)
                [''provenance'', ''metric_quality''] d
      in if truthy (dget job ''session'') \<or> truthy (dget job ''session_fingerprint'')
         then dset ''provenance'' (JObj (job_provenance job (dget d ''provenance''))) d else d)"

definition store_run_result :: "world \<Rightarrow> dict \<Rightarrow> json \<Rightarrow> string \<Rightarrow> dict \<Rightarrow> dict step" where
  "store_run_result w job i rid parsed = with_tick w (\<lambda>t.
     (let result = make_result t (JObj (result_data job parsed)); res = dget result ''result_id''
      in seq (with_tick w (\<lambda>t. on_results (ResultStore_update (results_dir (environment w) (cwd w)) t (JObj result))))
         (seq (with_tick w (\<lambda>t. on_runs (run_link_result t (JStr rid) res)))
         (seq (with_tick w (\<lambda>t. on_runs (run_set_status t (JStr rid) (JStr ''done''))))
         (bind (with_tick w (\<lambda>t. on_jobs (job_mark_done t i res (JStr rid))))
           (\<lambda>j. seq (emit_event w ''result.updated'' [(''result_id'', res)])
              (seq (emit_event w ''job.done'' [(''job_id'', i), (''result_id'', res), (''run_id'', JStr rid)])
              (ret j))))))))"

definition sim_stage ::
  "host \<Rightarrow> world \<Rightarrow> dict \<Rightarrow> json \<Rightarrow> string \<Rightarrow> environ \<Rightarrow> string list \<Rightarrow> string \<Rightarrow> int \<Rightarrow> dict step" where
  "sim_stage h w job i rid env command metrics_file timeout =
     (case exec h command (run_directory w rid) env of
        Timed_Out \<Rightarrow> fail_job w i rid (''simulator timed out after '' @ show_int timeout @ ''s'')
      | Not_Launched e \<Rightarrow> fail_job w i rid (''could not launch simulator: '' @ e)
      | Exited code out \<Rightarrow>
          seq (attach_log w rid ''log'' ''sim.log'' out)
            (if code \<noteq> 0 then fail_job w i rid (''simulator exited '' @ show_int code)
             else case metrics_at h (path_join (run_directory w rid) metrics_file) of
                    No_File \<Rightarrow> fail_job w i rid (''simulator produced no metrics file ('' @ metrics_file @ '')'')
                  | Bad_File e \<Rightarrow> fail_job w i rid (''could not parse metrics: '' @ e)
                  | File_Text text \<Rightarrow>
                      (case parse_result_file (loads w) text of
                         Inl e \<Rightarrow> fail_job w i rid (''could not parse metrics: '' @ exn_str e)
                       | Inr parsed \<Rightarrow>
                           (if \<not> truthy (dget parsed ''metrics'')
                            then fail_job w i rid (''no metrics parsed from '' @ metrics_file)
                            else store_run_result w job i rid parsed))))"

definition JobRunner_run :: "host \<Rightarrow> world \<Rightarrow> json \<Rightarrow> string list \<Rightarrow> string \<Rightarrow> int \<Rightarrow> dict step" where
  "JobRunner_run h w i command metrics_file timeout =
     bind (begin_run w i metrics_file)
       (\<lambda>(job, rid, env). bind (netlist_stage h w i rid env timeout)
          (\<lambda>ended. case ended of
             Some j \<Rightarrow> ret j
           | None \<Rightarrow> sim_stage h w job i rid env command metrics_file timeout))"

text \<open>The thread's guard logs any exception.\<close>

definition run_job_bg :: "host \<Rightarrow> world \<Rightarrow> json \<Rightarrow> string list \<Rightarrow> unit step" where
  "run_job_bg h w i command =
     handle (\<lambda>e. Some (ret ()))
       (bind (JobRunner_run h w i command (sim_metrics_file (environment w)) (sim_timeout_s (environment w)))
         (\<lambda>_. ret ()))"

subsection \<open>The runner respects the stores\<close>

context store_laws begin

lemma M_fail_job: "M w (fail_job w i rid err)"
  unfolding fail_job_def by (intro M_rules M_parts law_facts)

lemma M_attach_log: "M w (attach_log w rid label f x)"
proof -
  have "M w n" if "ignore_attach e = Some n" for e n
    using that by (auto simp: ignore_attach_def daemon.moves_ret split: exn.splits)
  then show ?thesis unfolding attach_log_def
    by (intro M_handle) (intro M_rules M_parts law_facts, blast)
qed

lemma M_begin_run: "M w (begin_run w i f)"
  unfolding begin_run_def by (intro M_rules M_parts law_facts)

lemma M_netlist_stage: "M w (netlist_stage h w i rid env n)"
  unfolding netlist_stage_def
  by (simp split: option.split proc_outcome.split) (intro conjI allI impI M_rules M_fail_job M_attach_log)

lemma M_store_run_result: "M w (store_run_result w job i rid parsed)"
  unfolding store_run_result_def by (intro M_rules M_parts law_facts)

lemma M_sim_stage: "M w (sim_stage h w job i rid env command f n)"
  unfolding sim_stage_def
  by (auto split: proc_outcome.split metrics_read.split sum.split
      intro!: M_rules M_fail_job M_attach_log M_store_run_result)

lemma M_JobRunner_run: "M w (JobRunner_run h w i command f n)"
  unfolding JobRunner_run_def by (intro M_rules M_begin_run M_netlist_stage M_sim_stage)

end

end
