(* ===== verification/Tunnel_Safety.thy ===== *)
theory Tunnel_Safety
  imports Runner
begin

section \<open>Safety of the tunnel\<close>

text \<open>
  What holds of the whole daemon, whatever messages clients send, in whatever order, and however
  the commands of the runner end. The handlers were proved once over the locales of
  \<open>Tunnel_Rules\<close>; here these are interpreted with three relations:
  \<^item> \<open>evolution\<close>: no record is lost and every status moves along its table,
  \<^item> \<open>oversight\<close>: no stored proposal becomes approved (all methods but \<open>proposal.approve\<close>),
  \<^item> \<open>gate\<close>: no transaction appears (all methods but \<open>transaction.create\<close>).
\<close>

subsection \<open>Relations on the stores\<close>

abbreviation transactions_evolve :: "rec_store \<Rightarrow> rec_store \<Rightarrow> bool" where
  "transactions_evolve \<equiv> store_evolves transaction_TRANSITIONS ''transaction_id'' ''applied''"

abbreviation jobs_evolve :: "rec_store \<Rightarrow> rec_store \<Rightarrow> bool" where
  "jobs_evolve \<equiv> store_evolves job_TRANSITIONS ''job_id'' ''queued''"

definition is_approved :: "dict \<Rightarrow> bool" where
  "is_approved p \<longleftrightarrow> dget p ''status'' = JStr ''approved''"

definition never_approves :: "rec_store \<Rightarrow> rec_store \<Rightarrow> bool" where
  "never_approves s s' \<longleftrightarrow> proposals_evolve s s' \<and>
     (\<forall>k p q. map_of (mem s) k = Some p \<longrightarrow> map_of (mem s') k = Some q \<longrightarrow> is_approved q \<longrightarrow> is_approved p)"

definition no_new_transactions :: "rec_store \<Rightarrow> rec_store \<Rightarrow> bool" where
  "no_new_transactions s s' \<longleftrightarrow> transactions_evolve s s' \<and> dom (map_of (mem s')) = dom (map_of (mem s))"

lemma moves_preserving:
  assumes "preserves I m" and "\<And>s r s'. I s \<Longrightarrow> m s = (r, s') \<Longrightarrow> R s s'"
  shows "moves I R m"
proof (rule movesI)
  fix s assume s: "I s"
  obtain r s' where r: "m s = (r, s')" by fastforce
  with assms(2) [OF s r] preservesD [OF assms(1) s] show "I (snd (m s)) \<and> R s (snd (m s))" by simp
qed

context record_machine begin

lemma set_status_moves:
  "moves (store_ok idf) (store_evolves T idf dflt) (set_status_record idf (step x new) t i)"
  by (rule moves_preserving [OF set_status_keeps]) (rule set_status_evolves)

lemma add_moves: "moves (store_ok idf) (store_evolves T idf dflt) (add_record idf what t p)"
  by (rule moves_preserving [OF add_record_keeps]) (rule add_record_evolves)

lemma set_status_dom:
  assumes "set_status_record idf (step x new) t i s = (r, s')"
  shows "dom (map_of (mem s')) = dom (map_of (mem s))"
  using assms by (cases rule: set_status_cases) (auto simp: dom_def)

end

lemma expire_stale_moves: "moves (store_ok ''proposal_id'') proposals_evolve (expire_stale ttl t)"
  by (rule moves_preserving [OF expire_stale_keeps]) (rule expire_stale_evolves)

lemma proposal_create_moves: "moves (store_ok ''proposal_id'') proposals_evolve (proposal_create t d)"
  by (rule moves_preserving [OF proposal_create_keeps]) (rule proposal_create_evolves)

lemmas proposal_ops = proposal_approve_def proposal_reject_def proposal_mark_applied_def proposal_mark_failed_def
  proposal_mark_rolled_back_def proposal_set_status_def

lemmas transaction_ops = transaction_mark_rolled_back_def transaction_mark_failed_def transaction_set_status_def
  transaction_add_def

lemmas machine_moves = proposal_create_moves expire_stale_moves proposals.set_status_moves
  transactions.set_status_moves transactions.add_moves jobs.set_status_moves jobs.add_moves

interpretation evolution: all_laws proposals_evolve transactions_evolve jobs_evolve
  by unfold_locales
    ((unfold proposal_ops transaction_ops job_moves_safe job_add_def)?;
     (rule machine_moves store_evolves_refl | erule (1) store_evolves_trans))+

subsection \<open>Nothing but approval approves\<close>

lemma never_approves_trans:
  assumes "never_approves a b" and "never_approves b c" shows "never_approves a c"
  unfolding never_approves_def
proof (intro conjI allI impI)
  show "proposals_evolve a c" using assms store_evolves_trans unfolding never_approves_def by blast
  fix k p r assume p: "map_of (mem a) k = Some p" and r: "map_of (mem c) k = Some r" "is_approved r"
  from assms(1) p obtain q where "map_of (mem b) k = Some q"
    unfolding never_approves_def by (blast dest: store_evolves_D)
  with assms p r show "is_approved p" unfolding never_approves_def by blast
qed

lemma expire_loop_status:
  "expire_loop ttl t items m = (e, m', qs) \<Longrightarrow>
   map_of m' k = map_of m k \<or> (\<exists>q. map_of m' k = Some q \<and> dget q ''status'' = JStr ''expired'')"
proof (induction ttl t items m arbitrary: m' qs rule: expire_loop.induct)
  case (2 ttl t k' p items m)
  show ?case
  proof (cases "expire_one ttl t p")
    case (Inr o')
    show ?thesis
    proof (cases o')
      case (Some q)
      with Inr 2(3) obtain qs' where
        rest: "expire_loop ttl t items (AList.update k' q m) = (e, m', qs')" by (auto split: prod.splits)
      have "dget q ''status'' = JStr ''expired''"
        using expire_one_Some [of ttl t p q] Inr Some by (simp add: dget_def)
      with 2(2) [OF Inr Some rest] show ?thesis by (cases "k = k'") auto
    qed (use 2 Inr in auto)
  qed (use 2 in auto)
qed auto

lemma expire_stale_status:
  assumes "expire_stale ttl t s = (r, s')"
  shows "map_of (mem s') k = map_of (mem s) k \<or>
    (\<exists>q. map_of (mem s') k = Some q \<and> dget q ''status'' = JStr ''expired'')"
proof -
  obtain e m qs where l: "expire_loop ttl t (mem s) (mem s) = (e, m, qs)" by (metis prod_cases3)
  have "mem s' = (if ttl \<le> 0 then mem s else m)"
    using mem_expire_stale [of ttl t s] assms l by simp
  with expire_loop_status [OF l] show ?thesis by auto
qed

lemma set_status_never_approves:
  assumes "set_status_record ''proposal_id'' (proposal_transition t new) t' i s = (r, s')" and "new \<noteq> ''approved''"
  shows "never_approves s s'"
  using assms(1)
proof (cases rule: proposals.set_status_cases)
  case unchanged
  then show ?thesis by (simp add: never_approves_def)
next
  case (moved k p q)
  have "dget q ''status'' = JStr new" using proposals.step_status [OF moved(3)] by (simp add: dget_def)
  moreover have "proposals_evolve s s'" using assms(1) by (rule proposals.set_status_evolves)
  ultimately show ?thesis using moved(2,4) assms(2) by (auto simp: never_approves_def is_approved_def)
qed

lemma expire_stale_never_approves:
  assumes "store_ok ''proposal_id'' s" and r: "expire_stale ttl t s = (r, s')" shows "never_approves s s'"
  unfolding never_approves_def
proof (intro conjI allI impI)
  show "proposals_evolve s s'" using assms by (rule expire_stale_evolves)
  fix k p q assume "map_of (mem s) k = Some p" "map_of (mem s') k = Some q" "is_approved q"
  then show "is_approved p" using expire_stale_status [OF r, of k] by (auto simp: is_approved_def)
qed

lemma proposal_create_never_approves:
  assumes "proposal_create t d s = (r, s')" shows "never_approves s s'"
proof -
  have "mem s' = mem s \<or> (\<exists>k. map_of (mem s) k = None \<and> mem s' = AList.update k (make_proposal t d) (mem s))"
    using assms unfolding proposal_create_def by (auto dest: insert_record_mem)
  then show ?thesis using proposal_create_evolves [OF assms]
    by (auto simp: never_approves_def split: if_splits)
qed

lemma set_status_oversight:
  "new \<noteq> ''approved'' \<Longrightarrow>
   moves (store_ok ''proposal_id'') never_approves (set_status_record ''proposal_id'' (proposal_transition t new) t' i)"
  by (rule moves_preserving [OF proposals.set_status_keeps]) (rule set_status_never_approves)

lemma oversight_moves:
  "moves (store_ok ''proposal_id'') never_approves (proposal_create t d)"
  "moves (store_ok ''proposal_id'') never_approves (expire_stale ttl t)"
  "moves (store_ok ''proposal_id'') never_approves (proposal_reject t i)"
  "moves (store_ok ''proposal_id'') never_approves (proposal_mark_applied t i)"
  "moves (store_ok ''proposal_id'') never_approves (proposal_mark_failed t i)"
  "moves (store_ok ''proposal_id'') never_approves (proposal_mark_rolled_back t i)"
  unfolding proposal_ops
  by (rule moves_preserving [OF proposal_create_keeps], erule proposal_create_never_approves)
     (rule moves_preserving [OF expire_stale_keeps], erule (1) expire_stale_never_approves,
      (rule set_status_oversight, simp)+)

lemma never_approves_refl: "never_approves s s"
  by (simp add: never_approves_def)

interpretation oversight: create_laws never_approves transactions_evolve jobs_evolve
  by unfold_locales
    ((rule oversight_moves never_approves_refl evolution.T_rolled_back evolution.T_failed evolution.T_add
        evolution.J_add evolution.J_running evolution.J_done evolution.J_failed evolution.J_cancel store_evolves_refl
      | erule (1) store_evolves_trans | erule (1) never_approves_trans))+

subsection \<open>Nothing but creation adds a transaction\<close>

lemma set_status_gate:
  "moves (store_ok ''transaction_id'') no_new_transactions
     (set_status_record ''transaction_id'' (transaction_transition x new) t i)"
  by (rule moves_preserving [OF transactions.set_status_keeps])
     (simp add: no_new_transactions_def transactions.set_status_evolves transactions.set_status_dom)

lemma no_new_trans: "no_new_transactions a b \<Longrightarrow> no_new_transactions b c \<Longrightarrow> no_new_transactions a c"
  unfolding no_new_transactions_def by (auto intro: store_evolves_trans)

lemma no_new_refl: "no_new_transactions s s"
  by (simp add: no_new_transactions_def)

interpretation gate: approve_laws proposals_evolve no_new_transactions jobs_evolve
  by unfold_locales
    ((unfold proposal_ops transaction_ops job_moves_safe job_add_def)?;
     (rule set_status_gate machine_moves no_new_refl store_evolves_refl
      | erule (1) store_evolves_trans no_new_trans))+

subsection \<open>The daemon as a whole\<close>

lemma load_store_ok:
  "load_records idf [] fs = Inr m \<Longrightarrow> store_ok idf \<lparr>mem = m, disk = fs\<rparr>"
  by (erule load_records_ok) (simp add: store_ok_def)

text \<open>
  C6. The daemon's invariant. A daemon started on any files that hold no session and no event log
  satisfies the invariant, and after any messages at all it still does: every proposal, transaction,
  job and run sits under its own id, no two sessions share a Virtuoso process, the events in memory
  are strictly ascending and bounded, and no request id is stored twice.
\<close>

theorem tunnel_invariant:
  assumes "Tunnel_init w host port boot h = Inr s" and "f_sessions h = []" and "f_events h = None"
  shows "daemon_ok s \<and> daemon_ok (handle_messages w msgs s)"
proof -
  have "daemon_ok s"
    using assms
    by (auto simp: Tunnel_init_def Registry_load_def ProposalStore_load_def TransactionStore_load_def
        RunStore_load_def JobStore_load_def EventLog_load_def daemon_ok_def registry_ok_def one_per_process_def
        runs_ok_def log_ok_def map_sum_def split: sum.splits intro: load_store_ok)
  with evolution.M_all show ?thesis by blast
qed

text \<open>
  C7. History of the tunnel. Whatever messages arrive in whatever order, no proposal, transaction or
  job is lost; each is unchanged or has moved along its own status table and kept its id; the events
  emitted meanwhile continue the numbering without a gap, and the permissions of the server never change.
\<close>

theorem tunnel_history:
  assumes "daemon_ok s" and "s' = handle_messages w msgs s"
  shows "proposals_evolve (d_proposals s) (d_proposals s') \<and>
    transactions_evolve (d_transactions s) (d_transactions s') \<and> jobs_evolve (d_jobs s) (d_jobs s') \<and>
    (\<exists>new. log_adds (d_events s) new (d_events s')) \<and> d_permissions s' = d_permissions s"
  using evolution.M_all [OF assms(1), of w msgs] assms(2) unfolding daemon_rel_def log_grows_def by blast

text \<open>
  C4. Only the server's own command is run. Whatever messages arrive, every job they launch is
  launched with the command line of the server's environment, never with one of a client; without
  a configured command nothing is launched.
\<close>

theorem only_configured_command:
  assumes "daemon_ok s" and "s' = handle_messages w msgs s"
  shows "\<exists>new. d_launched s' = d_launched s @ new \<and>
    (\<forall>i cmd. (i, cmd) \<in> set new \<longrightarrow> sim_cmd (loads w) (environment w) = Some cmd) \<and>
    (sim_cmd (loads w) (environment w) = None \<longrightarrow> new = [])"
proof -
  have "launched_by w s s'"
    using evolution.M_all [OF assms(1), of w msgs] assms(2) unfolding daemon_rel_def by blast
  then obtain new where "d_launched s' = d_launched s @ new"
    and new: "\<forall>(i, cmd) \<in> set new. sim_cmd (loads w) (environment w) = Some cmd"
    unfolding launched_by_def by blast
  moreover have "new = []" if "sim_cmd (loads w) (environment w) = None"
    using new that by (cases new) auto
  ultimately show ?thesis by (intro exI [of _ new]) auto
qed

text \<open>
  C1. Approval needs an approval. Messages that do not call \<open>proposal.approve\<close> never make a stored
  proposal approved: one that is approved afterwards was approved before.
\<close>

theorem approval_only_by_approve:
  assumes "daemon_ok s" and "\<forall>msg \<in> set msgs. asked_method msg \<noteq> Some ''proposal.approve''"
    and "map_of (mem (d_proposals s)) k = Some p"
  shows "\<exists>q. map_of (mem (d_proposals (handle_messages w msgs s))) k = Some q \<and> (is_approved q \<longrightarrow> is_approved p)"
proof -
  have "never_approves (d_proposals s) (d_proposals (handle_messages w msgs s))"
    using oversight.M_without_approval [of msgs s w] assms(1,2) unfolding daemon_rel_def by blast
  with assms(3) show ?thesis unfolding never_approves_def by (blast dest: store_evolves_D)
qed

text \<open>
  C8. Transactions come from \<open>transaction.create\<close> alone. Messages that do not call it leave the set of stored transaction ids as it is.
\<close>

theorem transactions_only_by_create:
  assumes "daemon_ok s"
    and "\<forall>msg \<in> set msgs. asked_method msg \<noteq> Some ''transaction.create''"
  shows "dom (map_of (mem (d_transactions (handle_messages w msgs s)))) = dom (map_of (mem (d_transactions s)))"
proof -
  have "no_new_transactions (d_transactions s) (d_transactions (handle_messages w msgs s))"
    using gate.M_without_creation [of msgs s w] assms unfolding daemon_rel_def by blast
  then show ?thesis by (simp add: no_new_transactions_def)
qed

subsection \<open>A concrete daemon\<close>

definition demo_world :: world where
  "demo_world = \<lparr>ticks = good_tick, environment = (\<lambda>_. None), cwd = ''/home/u'', valid = (\<lambda>_ _. None),
     loads = (\<lambda>_. None), pid = 4711\<rparr>"

definition demo_home :: home where
  "demo_home = \<lparr>f_sessions = [], f_contexts = [], f_proposals = [], f_transactions = [], f_results = [],
     f_runs = [], f_jobs = [], f_events = None\<rparr>"

definition demo_daemon :: daemon where
  "demo_daemon = (case Tunnel_init demo_world ''127.0.0.1'' 47891 ''b1'' demo_home of Inr s \<Rightarrow> s)"

definition demo_call :: "string \<Rightarrow> dict \<Rightarrow> json" where
  "demo_call meth params = rpc_request ''1'' meth params"

lemma demo_init: "Tunnel_init demo_world ''127.0.0.1'' 47891 ''b1'' demo_home = Inr demo_daemon"
  by (simp add: demo_daemon_def Tunnel_init_def demo_home_def Registry_load_def ProposalStore_load_def
      TransactionStore_load_def RunStore_load_def JobStore_load_def)

lemma demo_daemon_ok: "daemon_ok demo_daemon"
  by (simp add: demo_daemon_def Tunnel_init_def demo_home_def Registry_load_def ProposalStore_load_def
      TransactionStore_load_def RunStore_load_def JobStore_load_def EventLog_load_def daemon_ok_def
      registry_ok_def one_per_process_def store_ok_def runs_ok_def log_ok_def)

text \<open>The same daemon with a pending proposal and a queued job.\<close>

definition demo_busy :: daemon where
  "demo_busy = demo_daemon\<lparr>
     d_proposals := \<lparr>mem = [(KStr ''p_1'', [(''proposal_id'', JStr ''p_1''), (''status'', JStr ''pending'')])], disk = []\<rparr>,
     d_jobs := \<lparr>mem = [(KStr ''j_1'', [(''job_id'', JStr ''j_1''), (''status'', JStr ''queued'')])], disk = []\<rparr>\<rparr>"

lemma demo_busy_ok: "daemon_ok demo_busy"
  using demo_daemon_ok by (simp add: demo_busy_def daemon_ok_def store_ok_def)

lemma demo_busy_fields [simp]:
  "mem (d_proposals demo_busy) = [(KStr ''p_1'', [(''proposal_id'', JStr ''p_1''), (''status'', JStr ''pending'')])]"
  "mem (d_jobs demo_busy) = [(KStr ''j_1'', [(''job_id'', JStr ''j_1''), (''status'', JStr ''queued'')])]"
  "mem (d_transactions demo_busy) = []" "d_launched demo_busy = []" "d_permissions demo_busy = []"
  by (simp_all add: demo_busy_def demo_daemon_def Tunnel_init_def demo_home_def Registry_load_def
      ProposalStore_load_def TransactionStore_load_def RunStore_load_def JobStore_load_def)

definition demo_messages :: "json list" where
  "demo_messages =
     [demo_call ''proposal.reject'' [(''proposal_id'', JStr ''p_1'')], demo_call ''job.run'' [(''job_id'', JStr ''j_1'')]]"

lemma demo_messages_methods:
  "msg \<in> set demo_messages \<Longrightarrow>
     asked_method msg \<noteq> Some ''proposal.approve'' \<and> asked_method msg \<noteq> Some ''transaction.create''"
  by (auto simp: demo_messages_def demo_call_def rpc_request_def asked_method_def)

theorem tunnel_invariant_witness: "daemon_ok (handle_messages demo_world demo_messages demo_daemon)"
  using tunnel_invariant [OF demo_init] by (simp add: demo_home_def)

theorem tunnel_history_witness:
  "\<exists>q. map_of (mem (d_proposals (handle_messages demo_world demo_messages demo_busy))) (KStr ''p_1'') = Some q"
proof -
  have "proposals_evolve (d_proposals demo_busy) (d_proposals (handle_messages demo_world demo_messages demo_busy))"
    using tunnel_history [OF demo_busy_ok refl] by blast
  from store_evolves_D [OF this, of "KStr ''p_1''"] show ?thesis by auto
qed

theorem only_configured_command_witness: "d_launched (handle_messages demo_world demo_messages demo_busy) = []"
  using only_configured_command [OF demo_busy_ok refl, of demo_world demo_messages]
  by (auto simp: demo_world_def sim_cmd_def command_setting_def)

theorem approval_only_by_approve_witness:
  "\<exists>q. map_of (mem (d_proposals (handle_messages demo_world demo_messages demo_busy))) (KStr ''p_1'') = Some q \<and>
     \<not> is_approved q"
proof -
  have none: "\<forall>msg \<in> set demo_messages. asked_method msg \<noteq> Some ''proposal.approve''"
    using demo_messages_methods by blast
  have "map_of (mem (d_proposals demo_busy)) (KStr ''p_1'') =
      Some [(''proposal_id'', JStr ''p_1''), (''status'', JStr ''pending'')]" by simp
  from approval_only_by_approve [OF demo_busy_ok none this] show ?thesis by (auto simp: is_approved_def)
qed

theorem transactions_only_by_create_witness:
  "mem (d_transactions (handle_messages demo_world demo_messages demo_busy)) = []"
proof -
  have "\<forall>msg \<in> set demo_messages. asked_method msg \<noteq> Some ''transaction.create''"
    using demo_messages_methods by blast
  from transactions_only_by_create [OF demo_busy_ok this] show ?thesis by (simp add: dom_map_of_conv_image_fst)
qed

end
