(* ===== verification/Tunnel_Decisions.thy ===== *)
theory Tunnel_Decisions
  imports Tunnel_Safety
begin

section \<open>What single decisions do\<close>

text \<open>
  The methods by which a human or an agent decides something, on every branch: creating a
  transaction under the permissions, rolling one back, approving a proposal, reusing a finished
  simulation. The lemmas about the parts come first: what a part leaves alone, and what a query
  followed by its use does.
\<close>

subsection \<open>Parts that leave a store alone\<close>

lemma bind_query: "bind (query f) g s = (case f s of Inl e \<Rightarrow> (Inl e, s) | Inr x \<Rightarrow> g x s)"
  by (simp add: bind_def query_def split: sum.split)

lemma seq_lift_res: "seq (lift_res r) m s = (case r of Inl e \<Rightarrow> (Inl e, s) | Inr x \<Rightarrow> m s)"
  by (simp add: seq_def bind_def lift_res_def split: sum.split)

lemma preserves_query [keeps]: "preserves I (query f)"
  by (simp add: preserves_def query_def)

lemma preserves_with_tick:
  assumes "\<And>s n. I (s\<lparr>d_clock := n\<rparr>) = I s" and "\<And>t. preserves I (f t)"
  shows "preserves I (with_tick w f)"
  using assms by (simp add: preserves_def with_tick_def)

text \<open>An invariant that reads the transaction store only.\<close>

definition tx_only :: "(rec_store \<Rightarrow> bool) \<Rightarrow> daemon \<Rightarrow> bool" where
  "tx_only I s = I (d_transactions s)"

lemma tx_only_tick: "(\<And>t. preserves (tx_only I) (f t)) \<Longrightarrow> preserves (tx_only I) (with_tick w f)"
  by (rule preserves_with_tick) (simp_all add: tx_only_def)

lemma tx_only_parts:
  "preserves (tx_only I) (on_proposals m)" "preserves (tx_only I) (on_sessions n)"
  by (simp_all add: preserves_def tx_only_def on_proposals_def on_sessions_def zoom_def split: prod.split)

lemma tx_only_emit: "preserves (tx_only I) (emit_event w ty p)"
  unfolding emit_event_def by (rule tx_only_tick) (simp add: preserves_def change_def tx_only_def)

lemma tx_only_errors:
  "key_error e = Some n \<Longrightarrow> preserves I n" "value_error e = Some n \<Longrightarrow> preserves I n"
  "key_or_value_error e = Some n \<Longrightarrow> preserves I n" "ignore_error e = Some n' \<Longrightarrow> preserves I n'"
  by (auto simp: key_error_def value_error_def key_or_value_error_def ignore_error_def invalid_def not_found_def
      split: exn.splits)

lemma tx_only_follow: "preserves (tx_only I) (follow_proposal w i st f)"
  unfolding follow_proposal_def fetch_proposal_def
  by (intro keeps preserves_handle tx_only_tick tx_only_parts) (rule tx_only_errors)

lemma bind_session_state: "snd (bind_session sid data s) = s"
  by (simp add: bind_session_def bind_query ret_def split: sum.split)

subsection \<open>Permissions\<close>

definition targets_permitted :: "daemon \<Rightarrow> dict \<Rightarrow> dict \<Rightarrow> bool" where
  "targets_permitted s params txn =
     (case effective_permissions s params of
        JObj perms \<Rightarrow>
          violations (checked_targets txn) (dget perms ''allow_modify'') (dget perms ''deny_modify'') = Inr []
      | _ \<Rightarrow> False)"

text \<open>At most the candidate has been added.\<close>

definition added_only :: "(pkey \<times> dict) list \<Rightarrow> dict \<Rightarrow> rec_store \<Rightarrow> bool" where
  "added_only m0 p t \<longleftrightarrow> mem t = m0 \<or>
     (\<exists>k. py_key (dget p ''transaction_id'') = Inr k \<and> mem t = AList.update k p m0)"

lemma transaction_add_only: "preserves (added_only m0 p) (transaction_add t p)"
proof (rule preservesI)
  fix s assume s: "added_only m0 p s"
  obtain r s' where r: "transaction_add t p s = (r, s')" by fastforce
  then have "mem s' = mem s \<or> (\<exists>k. py_key (dget p ''transaction_id'') = Inr k \<and> map_of (mem s) k = None \<and>
      mem s' = AList.update k p (mem s))"
    by (auto simp: transaction_add_def add_record_def raise_def split: if_splits dest: insert_record_mem)
  with s r show "added_only m0 p (snd (transaction_add t p s))"
    by (auto simp: added_only_def)
qed

lemma on_transactions_tx: "preserves I m \<Longrightarrow> preserves (tx_only I) (on_transactions m)"
  by (auto simp: preserves_def tx_only_def on_transactions_def zoom_def split: prod.split)

lemma store_transaction_only: "preserves (tx_only (added_only m0 p)) (store_transaction w p)"
  unfolding store_transaction_def check_schema_def
  by (intro keeps preserves_handle tx_only_tick on_transactions_tx transaction_add_only tx_only_follow tx_only_emit)
     (rule tx_only_errors)

lemma bind_bound_data:
  "bind (bound_data params d) f s = (case fst (bound_data params d s) of Inl e \<Rightarrow> (Inl e, s) | Inr x \<Rightarrow> f x s)"
proof -
  have "bound_data params d s = (fst (bound_data params d s), s)"
    using bind_session_state by (simp add: bound_data_def ret_def prod_eq_iff Let_def)
  then show ?thesis unfolding bind_def by (metis (mono_tags, lifting) old.prod.case)
qed

lemma transaction_create_eq:
  "m_transaction_create w params s =
     (case dget params ''transaction'' of
        JObj data0 \<Rightarrow>
          (case fst (bound_data params data0 s) of
             Inl e \<Rightarrow> (Inl e, s)
           | Inr data1 \<Rightarrow>
               (let s1 = s\<lparr>d_clock := Suc (d_clock s)\<rparr>;
                    candidate = make_transaction (ticks w (d_clock s)) (bind_actor params data1)
                in case fst (permission_violations params candidate s1) of
                     Inl e \<Rightarrow> (Inl e, s1)
                   | Inr viol \<Rightarrow> (if viol \<noteq> [] then (Inl (denied viol), s1) else store_transaction w candidate s1)))
      | _ \<Rightarrow> (Inl (RpcError INVALID_PARAMS ''params.transaction must be an object'' None), s))"
  by (auto simp: m_transaction_create_def bind_bound_data with_tick_def permission_violations_def bind_query raise_def
      Let_def query_def invalid_def split: json.split sum.split)

lemma transaction_create_added:
  assumes "m_transaction_create w params s = (r, s')"
  shows "mem (d_transactions s') = mem (d_transactions s) \<or>
    (\<exists>p. targets_permitted s params p \<and> added_only (mem (d_transactions s)) p (d_transactions s'))"
proof (rule ccontr)
  assume no: "\<not> ?thesis"
  let ?s1 = "s\<lparr>d_clock := Suc (d_clock s)\<rparr>"
  from assms no obtain p where perm: "fst (permission_violations params p ?s1) = Inr []"
    and run: "store_transaction w p ?s1 = (r, s')"
    unfolding transaction_create_eq by (auto simp: Let_def split: json.splits sum.splits if_splits)
  have "effective_permissions ?s1 params = effective_permissions s params"
    by (simp add: effective_permissions_def)
  with perm have "targets_permitted s params p"
    by (auto simp: permission_violations_def query_def targets_permitted_def map_sum_def split: json.splits sum.splits)
  moreover have "tx_only (added_only (mem (d_transactions s)) p) s'"
    using preserves_run [OF store_transaction_only run, of "mem (d_transactions s)"]
    by (simp add: tx_only_def added_only_def)
  ultimately show False using no by (auto simp: tx_only_def)
qed

subsection \<open>Following a proposal\<close>

lemma sweep_keeps_decided:
  assumes ok: "store_ok ''proposal_id'' t" and r: "expire_stale ttl tk t = (Inr ids, t')"
    and p: "map_of (mem t) k = Some p" "dget p ''status'' \<noteq> JStr ''pending''"
  shows "map_of (mem t') k = Some p"
proof (cases "0 < ttl")
  case True
  have "swept ttl tk p = p" using p(2) by (simp add: swept_def expire_one_def)
  with expire_stale_map_of(1) [OF ok r True, of k] p(1) show ?thesis by simp
next
  case False
  with r p(1) show ?thesis by (simp add: expire_stale_def)
qed

lemma fetch_decided:
  assumes ok: "daemon_ok s" and r: "fetch_proposal w (JStr i) s = (Inr x, s')"
    and p: "map_of (mem (d_proposals s)) (KStr i) = Some p" "dget p ''status'' \<noteq> JStr ''pending''"
  shows "x = Some p \<and> map_of (mem (d_proposals s')) (KStr i) = Some p \<and> daemon_ok s'"
proof -
  have ok': "daemon_ok s'" using movesD [OF evolution.M_fetch_proposal ok, of w "JStr i"] r by simp
  from r obtain ids t' where t: "expire_stale (proposal_ttl w) (ticks w (d_clock s)) (d_proposals s) = (Inr ids, t')"
    and x: "lookup_record t' (JStr i) = Inr x" and s': "d_proposals s' = t'"
    by (auto simp: fetch_proposal_def with_tick_def on_proposals_def zoom_def proposal_get_def seq_def bind_def
        split: prod.splits sum.splits)
  have "store_ok ''proposal_id'' (d_proposals s)" using ok by (simp add: daemon_ok_def)
  from sweep_keeps_decided [OF this t p] x s' ok' show ?thesis by (simp add: lookup_record_def)
qed

lemma set_proposal:
  assumes "store_ok ''proposal_id'' t" and "map_of (mem t) (KStr i) = Some p" and "dget p ''status'' = JStr st"
    and "new \<in> set (successors proposal_TRANSITIONS st)"
  shows "\<exists>q t'. proposal_set_status tk (JStr i) new t = (Inr q, t') \<and>
    map_of (mem t') = (map_of (mem t))(KStr i \<mapsto> q) \<and> dget q ''status'' = JStr new"
proof -
  have "status_of ''pending'' p = JStr st" using assms(3) by (simp add: status_of_def dget_or_present)
  with assms(4) obtain q where q: "proposal_transition tk new p = Inr q"
    using proposals.step_complete by blast
  have "dget q ''status'' = JStr new" using proposals.step_status [OF q] by (simp add: dget_def)
  with q assms(2) show ?thesis
    unfolding proposal_set_status_def proposals.set_status_str [OF assms(1)] by (simp add: fun_eq_iff)
qed

lemma follow_moves:
  assumes ok: "daemon_ok s" and p: "map_of (mem (d_proposals s)) (KStr i) = Some p" "dget p ''status'' = JStr st"
    and new: "new \<in> set (successors proposal_TRANSITIONS st)" "st \<noteq> ''pending''" "i \<noteq> []"
    and r: "follow_proposal w (JStr i) st (\<lambda>t i. proposal_set_status t i new) s = (Inr u, s')"
  shows "\<exists>q. map_of (mem (d_proposals s')) (KStr i) = Some q \<and> dget q ''status'' = JStr new"
proof -
  from r \<open>i \<noteq> []\<close> obtain x s1 where f: "fetch_proposal w (JStr i) s = (Inr x, s1)"
    and rest: "(case x of None \<Rightarrow> ret () | Some q \<Rightarrow>
        (if dget q ''status'' = JStr st
         then handle ignore_error (bind (with_tick w (\<lambda>t. on_proposals (proposal_set_status t (JStr i) new))) (\<lambda>_. ret ()))
         else ret ())) s1 = (Inr u, s')"
    by (auto simp: follow_proposal_def elim: bind_InrE)
  have f': "x = Some p" "map_of (mem (d_proposals s1)) (KStr i) = Some p" "daemon_ok s1"
    using fetch_decided [OF ok f p(1)] p(2) new(2) by simp_all
  have "store_ok ''proposal_id'' (d_proposals s1)" using f'(3) by (simp add: daemon_ok_def)
  from set_proposal [OF this f'(2) p(2) new(1), of "ticks w (d_clock s1)"] rest p(2) f'(1) show ?thesis
    by (auto simp: handle_def bind_def with_tick_def on_proposals_def zoom_def ret_def)
qed

lemma bound_data_other:
  "fst (bound_data params d s) = Inr d' \<Longrightarrow> k \<noteq> ''session'' \<Longrightarrow> k \<noteq> ''session_fingerprint'' \<Longrightarrow> dget d' k = dget d k"
  by (auto simp: bound_data_def bind_session_def bind_query ret_def Let_def split: if_splits sum.splits)

lemma candidate_other:
  "k \<notin> {''actor'', ''transaction_id'', ''schema_version'', ''status'', ''before'', ''after'', ''timestamp'', ''created_ts''} \<Longrightarrow>
   dget (make_transaction t (bind_actor params d)) k = dget d k"
  by (simp add: make_transaction_def bind_actor_def Let_def)

lemma add_record_returns: "add_record idf what t p s = (Inr q, s') \<Longrightarrow> q = p"
  by (auto simp: add_record_def insert_record_def raise_def seq_ret map_sum_def split: if_splits sum.splits)

lemma emit_event_parts [simp]:
  "d_proposals (snd (emit_event w ty p s)) = d_proposals s" "d_transactions (snd (emit_event w ty p s)) = d_transactions s"
  "d_jobs (snd (emit_event w ty p s)) = d_jobs s" "d_runs (snd (emit_event w ty p s)) = d_runs s"
  "d_results (snd (emit_event w ty p s)) = d_results s"
  "seqno (d_events (snd (emit_event w ty p s))) = seqno (d_events s) + 1"
  "fst (emit_event w ty p s) = Inr ()"
  by (simp_all add: emit_event_def with_tick_def change_def emit_def publish_def append_disk_def Let_def)

lemma seq_emit_event [simp]: "seq (emit_event w ty p) m s = m (snd (emit_event w ty p s))"
  using emit_event_parts(7) [of w ty p s] unfolding seq_def bind_def
  by (metis (mono_tags, lifting) case_prod_conv prod.collapse sum.simps(6))

lemma bind_pass:
  assumes "bind m f s = (Inr y, s')" and "\<And>x s1. m s = (Inr x, s1) \<Longrightarrow> P s1"
    and "\<And>x s1 r s2. P s1 \<Longrightarrow> f x s1 = (r, s2) \<Longrightarrow> P s2"
  shows "P s'"
  using assms by (auto elim: bind_InrE)

lemma handled_add:
  assumes "handle value_error (with_tick w (\<lambda>t. on_transactions (transaction_add t c))) s = (Inr txn, s')"
  shows "txn = c \<and> d_proposals s' = d_proposals s"
proof -
  obtain a t1 where a: "transaction_add (ticks w (d_clock s)) c (d_transactions s) = (a, t1)" by fastforce
  have run: "with_tick w (\<lambda>t. on_transactions (transaction_add t c)) s =
      (a, s\<lparr>d_clock := Suc (d_clock s), d_transactions := t1\<rparr>)"
    using a by (simp add: with_tick_def on_transactions_def zoom_def)
  show ?thesis
  proof (cases a)
    case (Inl e)
    with assms run show ?thesis
      by (cases e) (simp_all add: handle_def value_error_def invalid_def raise_def)
  next
    case (Inr q)
    then have "q = c" using a by (auto simp: transaction_add_def dest: add_record_returns)
    with assms run Inr show ?thesis by (auto simp: handle_def)
  qed
qed

lemma store_transaction_applies:
  assumes ok: "daemon_ok s" and r: "store_transaction w c s = (Inr v, s')"
    and c: "dget c ''proposal_id'' = JStr i" "i \<noteq> []"
    and p: "map_of (mem (d_proposals s)) (KStr i) = Some p" "dget p ''status'' = JStr ''approved''"
  shows "\<exists>q. map_of (mem (d_proposals s')) (KStr i) = Some q \<and> dget q ''status'' = JStr ''applied''"
proof -
  from r obtain txn s1 where add: "handle value_error (with_tick w (\<lambda>t. on_transactions (transaction_add t c))) s = (Inr txn, s1)"
    and rest: "seq (follow_proposal w (dget txn ''proposal_id'') ''approved'' proposal_mark_applied)
           (seq (lift_res (can_len (dget_or txn ''after'' (JList []))))
           (seq (emit_event w ''transaction.created''
                   [(''transaction_id'', dget txn ''transaction_id''),
                    (''proposal_id'', dget txn ''proposal_id'')])
           (ret (JObj [(''transaction'', JObj txn)])))) s1 = (Inr v, s')"
    by (auto simp: store_transaction_def check_schema_def seq_lift_res split: sum.splits elim: bind_InrE)
  have "moves daemon_ok (evolution.R w) (handle value_error (with_tick w (\<lambda>t. on_transactions (transaction_add t c))))"
    by (intro evolution.M_handlers evolution.M_with_tick evolution.M_on_transactions evolution.T_add)
  from movesD [OF this ok] add have "daemon_ok s1" by simp
  moreover have "d_proposals s1 = d_proposals s" and txn: "txn = c"
    using handled_add [OF add] by simp_all
  moreover from rest obtain u s2 where
    "follow_proposal w (dget txn ''proposal_id'') ''approved'' proposal_mark_applied s1 = (Inr u, s2)"
    and "d_proposals s' = d_proposals s2"
    by (auto simp: seq_def bind_def lift_res_def ret_def split: prod.splits sum.splits)
       (metis emit_event_parts(1) snd_conv)
  moreover have "proposal_mark_applied = (\<lambda>t i. proposal_set_status t i ''applied'')"
    by (simp add: fun_eq_iff proposal_mark_applied_def)
  ultimately show ?thesis
    using follow_moves [of s1 i p "''approved''" "''applied''" w u s2] p c by (simp add: successors_proposal)
qed

subsection \<open>Properties\<close>

text \<open>
  C3. No denied change is recorded. Whatever a \<open>transaction.create\<close> answers, a transaction it has
  added passed the permission check in force: each of the targets the check reads is permitted by
  the permissions of the call, or else of the server.
\<close>

theorem transaction_permitted:
  assumes "m_transaction_create w params s = (r, s')"
    and "map_of (mem (d_transactions s')) k = Some txn" and "map_of (mem (d_transactions s)) k = None"
  shows "targets_permitted s params txn"
proof -
  from transaction_create_added [OF assms(1)] assms(2,3) obtain p where
    p: "targets_permitted s params p" "added_only (mem (d_transactions s)) p (d_transactions s')" by auto
  with assms(2,3) have "txn = p" by (auto simp: added_only_def split: if_splits)
  with p(1) show ?thesis by simp
qed


text \<open>
  C10. Recording an approved change applies its proposal. When \<open>transaction.create\<close> succeeds for a
  transaction that names an approved proposal, this proposal is applied afterwards.
\<close>

theorem transaction_applies_proposal:
  assumes ok: "daemon_ok s" and r: "m_transaction_create w params s = (Inr v, s')"
    and d: "dget params ''transaction'' = JObj d" "dget d ''proposal_id'' = JStr i" "i \<noteq> []"
    and p: "map_of (mem (d_proposals s)) (KStr i) = Some p" "is_approved p"
  shows "\<exists>q. map_of (mem (d_proposals s')) (KStr i) = Some q \<and> dget q ''status'' = JStr ''applied''"
proof -
  let ?s1 = "s\<lparr>d_clock := Suc (d_clock s)\<rparr>"
  from r d(1) obtain d1 where d1: "fst (bound_data params d s) = Inr d1"
    and run: "store_transaction w (make_transaction (ticks w (d_clock s)) (bind_actor params d1)) ?s1 = (Inr v, s')"
    unfolding transaction_create_eq by (auto simp: Let_def split: sum.splits if_splits)
  have "daemon_ok ?s1" using ok by (simp add: daemon_ok_def)
  moreover have "dget (make_transaction (ticks w (d_clock s)) (bind_actor params d1)) ''proposal_id'' = JStr i"
    using candidate_other bound_data_other [OF d1] d(2) by simp
  ultimately show ?thesis
    using store_transaction_applies [OF _ run] d(3) p by (simp add: is_approved_def)
qed

lemma bind_handle_tick:
  "bind (handle h (with_tick w f)) g s =
     (case f (ticks w (d_clock s)) (s\<lparr>d_clock := Suc (d_clock s)\<rparr>) of
        (Inr x, s1) \<Rightarrow> g x s1
      | (Inl e, s1) \<Rightarrow> (case h e of None \<Rightarrow> (Inl e, s1) | Some n \<Rightarrow> bind n g s1))"
  by (simp add: bind_def handle_def with_tick_def split: prod.split sum.split option.split)

lemma bind_invalid: "bind (invalid m) g s = (Inl (RpcError INVALID_PARAMS m None), s)"
  by (simp add: bind_def invalid_def raise_def)

text \<open>
  C11. Approval. Approving a stored pending proposal makes it approved, stored as such, and emits
  exactly one event; approving one in any other status answers "invalid params" and changes nothing
  but the clock.
\<close>

theorem approve_decides:
  assumes ok: "daemon_ok s" and i: "dget params ''proposal_id'' = JStr i" "i \<noteq> []"
    and p: "map_of (mem (d_proposals s)) (KStr i) = Some p" and st: "status_of ''pending'' p = JStr st"
  shows "if st = ''pending''
    then \<exists>q s'. m_proposal_approve w params s = (Inr (JObj [(''proposal'', JObj q)]), s') \<and> is_approved q \<and>
      map_of (mem (d_proposals s')) = (map_of (mem (d_proposals s)))(KStr i \<mapsto> q) \<and>
      seqno (d_events s') = seqno (d_events s) + 1 \<and> d_transactions s' = d_transactions s
    else \<exists>e. m_proposal_approve w params s = (Inl (RpcError INVALID_PARAMS e None), s\<lparr>d_clock := Suc (d_clock s)\<rparr>)"
proof -
  let ?t = "ticks w (d_clock s)"
  have "store_ok ''proposal_id'' (d_proposals s)" using ok by (simp add: daemon_ok_def)
  from proposals.set_status_str [OF this]
  have run: "proposal_approve ?t (JStr i) (d_proposals s) =
    (case proposal_transition ?t ''approved'' p of
       Inl e \<Rightarrow> (Inl e, d_proposals s)
     | Inr q \<Rightarrow> (Inr q, snd (persist_record ''proposal_id'' ?t q
         ((d_proposals s)\<lparr>mem := AList.update (KStr i) q (mem (d_proposals s))\<rparr>))))"
    using p by (simp add: proposal_ops)
  show ?thesis
  proof (cases "st = ''pending''")
    case True
    then have "proposal_transition ?t ''approved'' p =
        Inr (dset ''updated_at'' (JStr (stamp ?t)) (dset ''status'' (JStr ''approved'') p))"
      using st by (auto simp: proposal_transition_Inr successors_proposal)
    with True i run show ?thesis
      by (auto simp: m_proposal_approve_def move_proposal_def bind_handle_tick on_proposals_def zoom_def is_approved_def
          ret_def Let_def fun_eq_iff)
  next
    case False
    then have "\<not> (\<exists>q. proposal_transition ?t ''approved'' p = Inr q)"
      using st by (auto simp: proposal_transition_Inr successors_proposal split: if_splits)
    moreover have "\<exists>m. e = ValueError m" if "proposal_transition ?t ''approved'' p = Inl e" for e
      using that st by (auto simp: proposal_transition_def status_of_def bad_transition_def Let_def split: if_splits)
    ultimately obtain m where "proposal_transition ?t ''approved'' p = Inl (ValueError m)"
      by (metis sum.exhaust)
    with False i run show ?thesis
      by (auto simp: m_proposal_approve_def move_proposal_def bind_handle_tick on_proposals_def zoom_def
          key_or_value_error_def bind_invalid Let_def)
  qed
qed

lemma make_proposal_reason: "dget_or (make_proposal t d) ''reason'' v = dget_or d ''reason'' v"
  by (simp add: make_proposal_def Let_def)

lemma proposal_create_str:
  assumes "dget (make_proposal t d) ''proposal_id'' = JStr i" and "map_of (mem st) (KStr i) = None"
  shows "\<exists>st'. proposal_create t d st = (Inr (make_proposal t d), st') \<and>
    map_of (mem st') = (map_of (mem st))(KStr i \<mapsto> make_proposal t d)"
  using assms persist_record_str [of "make_proposal t d" "''proposal_id''" i t]
  by (simp add: proposal_create_def insert_record_def fun_eq_iff)

lemma proposal_create_stores:
  assumes d: "dget params ''proposal'' = JObj d" "dget d ''proposal_id'' = JStr i" "i \<noteq> []"
      "is_str (dget_or d ''reason'' (JStr []))"
    and free: "map_of (mem (d_proposals s)) (KStr i) = None" and "valid w ''proposal'' (JObj d) = None"
  shows "\<exists>p s'. m_proposal_create w params s = (Inr (JObj [(''proposal'', JObj p)]), s') \<and>
    map_of (mem (d_proposals s')) = (map_of (mem (d_proposals s)))(KStr i \<mapsto> p) \<and>
    dget p ''status'' = dget_or d ''status'' (JStr ''pending'') \<and> seqno (d_events s') = seqno (d_events s) + 1"
proof -
  let ?t = "ticks w (d_clock s)"
  let ?p = "make_proposal ?t d"
  have "dget ?p ''proposal_id'' = JStr i" using d by (simp add: make_proposal_id)
  from proposal_create_str [OF this free] obtain st' where
    st': "proposal_create ?t d (d_proposals s) = (Inr ?p, st')"
      "map_of (mem st') = (map_of (mem (d_proposals s)))(KStr i \<mapsto> ?p)" by auto
  have "can_slice (dget_or ?p ''reason'' (JStr [])) = Inr ()"
    using d(4) by (auto simp: make_proposal_reason is_str_conv)
  then show ?thesis
    using d(1) st' assms(6)
    by (auto simp: m_proposal_create_def check_schema_def validate_or_raise_def seq_lift_res bind_handle_tick
        on_proposals_def zoom_def ret_def make_proposal_status)
qed

text \<open>
  An unreadable reason loses the event. A creation whose reason is a number stores the proposal and
  then fails in its log line: the client is told that the call failed, no event announces the
  proposal, and it is stored all the same.
\<close>

theorem reason_number_half_created:
  assumes d: "dget params ''proposal'' = JObj d" "dget d ''proposal_id'' = JStr i" "i \<noteq> []" "dget d ''reason'' = JInt n"
    and free: "map_of (mem (d_proposals s)) (KStr i) = None" and "valid w ''proposal'' (JObj d) = None"
  shows "\<exists>e s'. m_proposal_create w params s = (Inl (TypeError e), s') \<and>
    map_of (mem (d_proposals s')) (KStr i) \<noteq> None \<and> d_events s' = d_events s"
proof -
  let ?t = "ticks w (d_clock s)"
  let ?p = "make_proposal ?t d"
  have "dget ?p ''proposal_id'' = JStr i" using d by (simp add: make_proposal_id)
  from proposal_create_str [OF this free] obtain st' where
    st': "proposal_create ?t d (d_proposals s) = (Inr ?p, st')" "map_of (mem st') (KStr i) = Some ?p" by auto
  have "dget_or ?p ''reason'' (JStr []) = JInt n"
    using d(4) by (simp add: make_proposal_reason dget_or_present)
  then obtain e where "can_slice (dget_or ?p ''reason'' (JStr [])) = Inl (TypeError e)" by simp
  with d(1) st' assms(6) show ?thesis
    by (auto simp: m_proposal_create_def check_schema_def validate_or_raise_def seq_lift_res bind_handle_tick
        on_proposals_def zoom_def)
qed

lemma transaction_get_str: "transaction_get t (JStr i) = Inr (map_of (mem t) (KStr i))"
  by (simp add: transaction_get_def lookup_record_def)

lemma bind_known_transaction:
  "i \<noteq> [] \<Longrightarrow> map_of (mem (d_transactions s)) (KStr i) = Some p \<Longrightarrow> bind (known_transaction (JStr i)) f s = f p s"
  by (simp add: known_transaction_def bind_query transaction_get_str bind_def query_def ret_def)

lemma transition_refused:
  assumes "dget p ''status'' = JStr st" and "st \<noteq> ''applied''"
  shows "\<exists>m. transaction_transition () new p = Inl (ValueError m)"
  using assms
  by (auto simp: transaction_transition_def dget_or_present bad_transition_def allowed_from_def transaction_TRANSITIONS_def
      Let_def split: sum.splits)

text \<open>
  C12. A change is rolled back once. The plan of a rollback (\<open>transaction.rollback\<close>) changes nothing and
  returns the recorded old values; it is given for an applied transaction only. For any other one,
  such as one already rolled back, both the plan and its confirmation answer "invalid params" and
  leave every store and the event log alone.
\<close>

theorem rollback_once:
  assumes ok: "daemon_ok s" and i: "dget params ''transaction_id'' = JStr i" "i \<noteq> []"
    and p: "map_of (mem (d_transactions s)) (KStr i) = Some p" and st: "dget p ''status'' = JStr st"
  shows "if st = ''applied''
    then m_transaction_rollback w params s =
      (Inr (JObj [(''transaction'', JObj p), (''restore'', dget_or p ''before'' (JList []))]), s)
    else \<exists>e e'. m_transaction_rollback w params s = (Inl (RpcError INVALID_PARAMS e None), s) \<and>
      m_transaction_mark_rolled_back w params s =
        (Inl (RpcError INVALID_PARAMS e' None), s\<lparr>d_clock := Suc (d_clock s)\<rparr>)"
proof (cases "st = ''applied''")
  case True
  then show ?thesis using i p st by (simp add: m_transaction_rollback_def bind_known_transaction ret_def Let_def)
next
  case False
  let ?t = "ticks w (d_clock s)"
  obtain m where m: "transaction_transition () ''rolled_back'' p = Inl (ValueError m)"
    using transition_refused [OF st False] by blast
  have "store_ok ''transaction_id'' (d_transactions s)" using ok by (simp add: daemon_ok_def)
  from transactions.set_status_str [OF this, of "()" "''rolled_back''" ?t i] p m
  have "transaction_mark_rolled_back ?t (JStr i) (d_transactions s) = (Inl (ValueError m), d_transactions s)"
    by (simp add: transaction_mark_rolled_back_def transaction_set_status_def)
  with False i p st show ?thesis
    by (simp add: m_transaction_rollback_def bind_known_transaction m_transaction_mark_rolled_back_def bind_handle_tick
        on_transactions_def zoom_def key_or_value_error_def bind_invalid Let_def) (simp add: invalid_def raise_def)
qed

text \<open>
  Rolling back follows the proposal. When \<open>transaction.mark_rolled_back\<close> succeeds for an applied
  transaction whose proposal is applied, both are rolled back afterwards.
\<close>

theorem rollback_follows_proposal:
  assumes ok: "daemon_ok s" and i: "dget params ''transaction_id'' = JStr i" "i \<noteq> []"
    and t: "map_of (mem (d_transactions s)) (KStr i) = Some txn" "dget txn ''status'' = JStr ''applied''"
      "dget txn ''proposal_id'' = JStr j" "j \<noteq> []"
    and p: "map_of (mem (d_proposals s)) (KStr j) = Some p" "dget p ''status'' = JStr ''applied''"
    and r: "m_transaction_mark_rolled_back w params s = (Inr v, s')"
  shows "(\<exists>u. map_of (mem (d_transactions s')) (KStr i) = Some u \<and> dget u ''status'' = JStr ''rolled_back'') \<and>
    (\<exists>q. map_of (mem (d_proposals s')) (KStr j) = Some q \<and> dget q ''status'' = JStr ''rolled_back'')"
proof -
  let ?q = "dset ''status'' (JStr ''rolled_back'') txn"
  have q: "transaction_transition () ''rolled_back'' txn = Inr ?q"
    using t(2) by (simp add: transaction_transition_Inr status_of_def dget_or_present successors_transaction)
  have "store_ok ''transaction_id'' (d_transactions s)" using ok by (simp add: daemon_ok_def)
  from transactions.set_status_str [OF this, of "()" "''rolled_back''" "ticks w (d_clock s)" i] t(1) q
  obtain ts where ts: "transaction_mark_rolled_back (ticks w (d_clock s)) (JStr i) (d_transactions s) = (Inr ?q, ts)"
      "map_of (mem ts) (KStr i) = Some ?q"
    by (simp add: transaction_mark_rolled_back_def transaction_set_status_def)
  define s1 where "s1 = s\<lparr>d_clock := Suc (d_clock s), d_transactions := ts\<rparr>"
  have "seq (follow_proposal w (JStr j) ''applied'' proposal_mark_rolled_back)
      (seq (emit_event w ''transaction.rolled_back'' [(''transaction_id'', JStr i), (''proposal_id'', JStr j)])
      (ret (JObj [(''transaction'', JObj ?q)]))) s1 = (Inr v, s')"
    using r i ts(1) t(3)
    by (simp add: m_transaction_mark_rolled_back_def bind_handle_tick on_transactions_def zoom_def s1_def Let_def)
  then obtain x s2 where f: "follow_proposal w (JStr j) ''applied'' proposal_mark_rolled_back s1 = (Inr x, s2)"
    and s': "d_proposals s' = d_proposals s2" "d_transactions s' = d_transactions s2"
    by (auto simp: seq_def [of "follow_proposal _ _ _ _"] ret_def elim!: bind_InrE)
  have "tx_only (\<lambda>t. t = ts) s2"
    using preserves_run [OF tx_only_follow f, of "\<lambda>t. t = ts"] by (simp add: tx_only_def s1_def)
  with ts(2) s' have done_txn: "map_of (mem (d_transactions s')) (KStr i) = Some ?q" by (simp add: tx_only_def)
  have "store_ok ''transaction_id'' ts"
    using preserves_run [OF transaction_set_status_keeps, of _ _ _ "d_transactions s" _ ts] ts(1) ok
    by (simp add: transaction_mark_rolled_back_def daemon_ok_def)
  then have "daemon_ok s1" using ok by (simp add: daemon_ok_def s1_def)
  moreover have "proposal_mark_rolled_back = (\<lambda>t i. proposal_set_status t i ''rolled_back'')"
    by (simp add: fun_eq_iff proposal_mark_rolled_back_def)
  ultimately obtain q where "map_of (mem (d_proposals s2)) (KStr j) = Some q" "dget q ''status'' = JStr ''rolled_back''"
    using follow_moves [of s1 j p "''applied''" "''rolled_back''" w x s2] f p t(4)
    by (auto simp: s1_def successors_proposal)
  with done_txn s' show ?thesis by simp
qed

subsection \<open>Witnesses\<close>

text \<open>A change of \<open>M1.w\<close> for the proposal \<open>p_1\<close>, sent with permissions.\<close>

definition demo_data :: dict where
  "demo_data = [(''transaction_id'', JStr ''t_1''), (''proposal_id'', JStr ''p_1''),
     (''after'', JList [JObj [(''instance'', JStr ''M1''), (''param'', JStr ''w'')]])]"

definition demo_change :: "string \<Rightarrow> dict" where
  "demo_change allow = [(''transaction'', JObj demo_data), (''permissions'', JObj [(''allow_modify'', JList [JStr allow])])]"

lemma demo_change_fields:
  "dget (demo_change allow) ''transaction'' = JObj demo_data" "dget (demo_change allow) ''session_id'' = JNull"
  "effective_permissions s (demo_change allow) = JObj [(''allow_modify'', JList [JStr allow])]"
  by (simp_all add: demo_change_def effective_permissions_def py_or_def)

text \<open>The busy daemon after the approval of its proposal.\<close>

definition demo_approved :: daemon where
  "demo_approved = demo_busy\<lparr>
     d_proposals := \<lparr>mem = [(KStr ''p_1'', [(''proposal_id'', JStr ''p_1''), (''status'', JStr ''approved'')])], disk = []\<rparr>\<rparr>"

lemma demo_approved_ok: "daemon_ok demo_approved"
  using demo_busy_ok by (simp add: demo_approved_def daemon_ok_def store_ok_def)

lemma demo_change_stored:
  "map_of (mem (d_transactions (snd (m_transaction_create demo_world (demo_change ''M1.*'') demo_busy)))) (KStr ''t_1'') \<noteq> None"
  by code_simp

theorem transaction_permitted_witness:
  "\<exists>txn. targets_permitted demo_busy (demo_change ''M1.*'') txn"
proof -
  obtain r s' where r: "m_transaction_create demo_world (demo_change ''M1.*'') demo_busy = (r, s')" by fastforce
  with demo_change_stored obtain txn where "map_of (mem (d_transactions s')) (KStr ''t_1'') = Some txn" by auto
  from transaction_permitted [OF r this] show ?thesis by auto
qed

definition refused :: "exn + json list \<Rightarrow> bool" where
  "refused r = (case r of Inr viol \<Rightarrow> viol \<noteq> [] | _ \<Rightarrow> False)"

lemma demo_refused:
  "refused (violations (py_or (dget_or demo_data ''after'' (JList [])) (py_or (dget_or demo_data ''before'' (JList [])) (JList [])))
      (dget [(''allow_modify'', JList [JStr ''M2.*''])] ''allow_modify'')
      (dget [(''allow_modify'', JList [JStr ''M2.*''])] ''deny_modify''))"
  by code_simp


definition ok_result :: "(exn + json) \<times> daemon \<Rightarrow> bool" where
  "ok_result r = (case fst r of Inr _ \<Rightarrow> True | _ \<Rightarrow> False)"

lemma ok_result_D: "ok_result r \<Longrightarrow> \<exists>v s'. r = (Inr v, s')"
  by (cases r) (auto simp: ok_result_def split: sum.splits)

lemma demo_change_ok: "ok_result (m_transaction_create demo_world (demo_change ''M1.*'') demo_approved)"
  by code_simp

theorem transaction_applies_proposal_witness:
  "\<exists>q. map_of (mem (d_proposals (snd (m_transaction_create demo_world (demo_change ''M1.*'') demo_approved)))) (KStr ''p_1'') =
     Some q \<and> dget q ''status'' = JStr ''applied''"
proof -
  from ok_result_D [OF demo_change_ok] obtain v s' where
    r: "m_transaction_create demo_world (demo_change ''M1.*'') demo_approved = (Inr v, s')" by blast
  have "\<exists>q. map_of (mem (d_proposals s')) (KStr ''p_1'') = Some q \<and> dget q ''status'' = JStr ''applied''"
    by (rule transaction_applies_proposal [OF demo_approved_ok r demo_change_fields(1)])
      (simp_all add: demo_data_def demo_approved_def, simp add: is_approved_def dget_def)
  with r show ?thesis by simp
qed

theorem approve_decides_witness:
  "\<exists>q. m_proposal_approve demo_world [(''proposal_id'', JStr ''p_1'')] demo_busy =
      (Inr (JObj [(''proposal'', JObj q)]), snd (m_proposal_approve demo_world [(''proposal_id'', JStr ''p_1'')] demo_busy)) \<and>
     is_approved q"
proof -
  have "map_of (mem (d_proposals demo_busy)) (KStr ''p_1'') =
      Some [(''proposal_id'', JStr ''p_1''), (''status'', JStr ''pending'')]" by simp
  from approve_decides [OF demo_busy_ok _ _ this, of "[(''proposal_id'', JStr ''p_1'')]" "''pending''" demo_world]
  show ?thesis by (auto simp: status_of_def dget_or_def)
qed

theorem reason_number_half_created_witness:
  "\<exists>e s'. m_proposal_create demo_world [(''proposal'', JObj [(''proposal_id'', JStr ''p_2''), (''reason'', JInt 5)])] demo_busy =
     (Inl (TypeError e), s') \<and> map_of (mem (d_proposals s')) (KStr ''p_2'') \<noteq> None"
  using reason_number_half_created [where params = "[(''proposal'', JObj [(''proposal_id'', JStr ''p_2''), (''reason'', JInt 5)])]"
      and w = demo_world and s = demo_busy and i = "''p_2''" and n = 5]
  by (force simp: demo_world_def)

text \<open>The approved daemon after the change has been recorded, and after it has been rolled back.\<close>

definition demo_applied :: daemon where
  "demo_applied = demo_busy\<lparr>
     d_proposals := \<lparr>mem = [(KStr ''p_1'', [(''proposal_id'', JStr ''p_1''), (''status'', JStr ''applied'')])], disk = []\<rparr>,
     d_transactions := \<lparr>mem = [(KStr ''t_1'', [(''transaction_id'', JStr ''t_1''), (''proposal_id'', JStr ''p_1''),
        (''status'', JStr ''applied'')])], disk = []\<rparr>\<rparr>"

lemma demo_applied_ok: "daemon_ok demo_applied"
  using demo_busy_ok by (simp add: demo_applied_def daemon_ok_def store_ok_def)

theorem rollback_once_witness:
  "m_transaction_rollback demo_world [(''transaction_id'', JStr ''t_1'')] demo_applied =
     (Inr (JObj [(''transaction'', JObj [(''transaction_id'', JStr ''t_1''), (''proposal_id'', JStr ''p_1''),
        (''status'', JStr ''applied'')]), (''restore'', JList [])]), demo_applied)"
  using rollback_once [OF demo_applied_ok, where params = "[(''transaction_id'', JStr ''t_1'')]" and i = "''t_1''"
      and st = "''applied''" and w = demo_world]
  by (simp add: demo_applied_def dget_or_def)

lemma demo_rollback_ok:
  "ok_result (m_transaction_mark_rolled_back demo_world [(''transaction_id'', JStr ''t_1'')] demo_applied)"
  by code_simp

theorem rollback_follows_proposal_witness:
  "\<exists>s' q. m_transaction_mark_rolled_back demo_world [(''transaction_id'', JStr ''t_1'')] demo_applied = (Inr (fst s'), snd s') \<and>
     map_of (mem (d_proposals (snd s'))) (KStr ''p_1'') = Some q \<and> dget q ''status'' = JStr ''rolled_back''"
proof -
  from ok_result_D [OF demo_rollback_ok] obtain v s' where
    r: "m_transaction_mark_rolled_back demo_world [(''transaction_id'', JStr ''t_1'')] demo_applied = (Inr v, s')" by blast
  have "map_of (mem (d_transactions demo_applied)) (KStr ''t_1'') = Some [(''transaction_id'', JStr ''t_1''),
      (''proposal_id'', JStr ''p_1''), (''status'', JStr ''applied'')]"
    "map_of (mem (d_proposals demo_applied)) (KStr ''p_1'') = Some [(''proposal_id'', JStr ''p_1''), (''status'', JStr ''applied'')]"
    by (simp_all add: demo_applied_def)
  from rollback_follows_proposal [OF demo_applied_ok _ _ this(1) _ _ _ this(2) _ r] r
  show ?thesis by (simp add: dget_def)
qed

end
