(* ===== verification/Agent_Tools.thy ===== *)
theory Agent_Tools
  imports Tunnel_Decisions
begin

section \<open>The tools of an agent\<close>

text \<open>
  \<open>agent/tools.py\<close> and \<open>agent/mcp_server.py\<close>: a tool is a constructor with its arguments; its RPC
  method, its parameters and what it takes from the answer are functions of it. \<open>mcp_tool\<close> is the
  table of the MCP server: a tool by name and keyword arguments, with the defaults of the signatures
  (their type check is the MCP library's).

  What a tool can change is stated over the locale \<open>service\<close>: calls, some of which keep a part of
  the state as it is. It is interpreted by the daemon's calls with the stores an agent must not touch.
\<close>

datatype tool =
    Tunnel_Status
  | Context_Get
  | Proposal_Create json
  | Proposal_List json
  | Proposal_Get json
  | Proposal_Approve json
  | Proposal_Reject json
  | Transaction_List json
  | Result_Latest
  | Constraint_Check json json
  | Run_List json
  | Events_Since json
  | Extension_List
  | Action_Request json json json
  | Action_Get json

subsection \<open>Requests and answers\<close>

definition status_filter :: "json \<Rightarrow> dict" where
  "status_filter status = (if truthy status then [(''status'', status)] else [])"

fun tool_request :: "tool \<Rightarrow> string \<times> dict" where
  "tool_request Tunnel_Status = (''tunnel.status'', [])"
| "tool_request Context_Get = (''design.context.get'', [])"
| "tool_request (Proposal_Create p) = (''proposal.create'', [(''proposal'', p)])"
| "tool_request (Proposal_List st) = (''proposal.list'', status_filter st)"
| "tool_request (Proposal_Get i) = (''proposal.get'', [(''proposal_id'', i)])"
| "tool_request (Proposal_Approve i) = (''proposal.approve'', [(''proposal_id'', i)])"
| "tool_request (Proposal_Reject i) = (''proposal.reject'', [(''proposal_id'', i)])"
| "tool_request (Transaction_List st) = (''transaction.list'', status_filter st)"
| "tool_request Result_Latest = (''result.latest'', [])"
| "tool_request (Constraint_Check limits metrics) =
     (''constraint.check'', (''constraints'', limits) # (if metrics = JNull then [] else [(''metrics'', metrics)]))"
| "tool_request (Run_List st) = (''run.list'', status_filter st)"
| "tool_request (Events_Since n) = (''event.list'', [(''since'', n)])"
| "tool_request Extension_List = (''extension.list'', [])"
| "tool_request (Action_Request ns meth params) =
     (''action.request'', [(''namespace'', ns), (''method'', meth), (''params'', py_or params (JObj []))])"
| "tool_request (Action_Get i) = (''action.get'', [(''action_id'', i)])"

fun tool_result :: "tool \<Rightarrow> json \<Rightarrow> exn + json" where
  "tool_result Context_Get r = jget r ''context''"
| "tool_result (Proposal_Create _) r = subscript r ''proposal''"
| "tool_result (Proposal_List _) r = subscript r ''proposals''"
| "tool_result (Proposal_Get _) r = subscript r ''proposal''"
| "tool_result (Proposal_Approve _) r = subscript r ''proposal''"
| "tool_result (Proposal_Reject _) r = subscript r ''proposal''"
| "tool_result (Transaction_List _) r = subscript r ''transactions''"
| "tool_result Result_Latest r = jget r ''result''"
| "tool_result (Run_List _) r = subscript r ''runs''"
| "tool_result Extension_List r = subscript r ''extensions''"
| "tool_result (Action_Get _) r = subscript r ''action''"
| "tool_result _ r = Inr r"

definition run_tool :: "world \<Rightarrow> string \<Rightarrow> tool \<Rightarrow> json step" where
  "run_tool w i t =
     (case tool_request t of (meth, params) \<Rightarrow>
        bind (call (methods w) i meth params) (\<lambda>r. lift_res (tool_result t r)))"

definition run_tools :: "world \<Rightarrow> (string \<times> tool) list \<Rightarrow> daemon \<Rightarrow> daemon" where
  "run_tools w ts s = fold (\<lambda>(i, t) s. snd (run_tool w i t s)) ts s"

subsection \<open>The MCP table\<close>

definition mcp_tool :: "string \<Rightarrow> dict \<Rightarrow> tool option" where
  "mcp_tool nm args = map_of
     [(''tunnel_status'', Tunnel_Status),
      (''context_get'', Context_Get),
      (''proposal_create'', Proposal_Create (dget args ''proposal'')),
      (''proposal_list'', Proposal_List (dget args ''status'')),
      (''proposal_get'', Proposal_Get (dget args ''proposal_id'')),
      (''proposal_approve'', Proposal_Approve (dget args ''proposal_id'')),
      (''proposal_reject'', Proposal_Reject (dget args ''proposal_id'')),
      (''transaction_list'', Transaction_List (dget args ''status'')),
      (''result_latest'', Result_Latest),
      (''constraint_check'', Constraint_Check (dget args ''constraints'') (dget args ''metrics'')),
      (''run_list'', Run_List (dget args ''status'')),
      (''events'', Events_Since (dget_or args ''since'' (JInt 0))),
      (''extension_list'', Extension_List),
      (''action_request'', Action_Request (dget args ''namespace'') (dget args ''method'') (dget args ''params'')),
      (''action_get'', Action_Get (dget args ''action_id''))] nm"

subsection \<open>What a call can keep\<close>

locale service =
  fixes serve :: "string \<Rightarrow> string \<Rightarrow> dict \<Rightarrow> ('s, exn, json) op" and allowed :: "tool \<Rightarrow> bool"
    and part :: "'s \<Rightarrow> 'k"
  assumes kept: "allowed t \<Longrightarrow> part (snd (serve i (fst (tool_request t)) (snd (tool_request t)) s)) = part s"
begin

definition use_tool :: "string \<Rightarrow> tool \<Rightarrow> ('s, exn, json) op" where
  "use_tool i t = bind (serve i (fst (tool_request t)) (snd (tool_request t))) (\<lambda>r. lift_res (tool_result t r))"

lemma tool_kept: "allowed t \<Longrightarrow> part (snd (use_tool i t s)) = part s"
  using kept [of t i s] by (simp add: use_tool_def snd_bind lift_res_def split: sum.split)

lemma tools_kept:
  "list_all allowed (map snd ts) \<Longrightarrow> part (fold (\<lambda>(i, t) s. snd (use_tool i t s)) ts s) = part s"
  by (induction ts arbitrary: s) (auto simp: tool_kept)

end

text \<open>The parts of the daemon that an agent's tools leave alone.\<close>

definition agent_view where
  "agent_view s = (d_transactions s, d_jobs s, d_runs s, d_results s, d_contexts s, d_sessions s, d_netlists s,
     d_extensions s, d_launched s, d_permissions s, d_stopping s)"

text \<open>What a reading tool leaves alone as well.\<close>

definition full_view where
  "full_view s = (agent_view s, d_proposals s, d_actions s, d_events s)"

definition same_records :: "daemon \<Rightarrow> daemon \<Rightarrow> bool" where
  "same_records s s' \<longleftrightarrow> agent_view s' = agent_view s"

lemmas view_defs = same_records_def agent_view_def

interpretation agents: progress "\<lambda>_. True" same_records
  by unfold_locales (simp_all add: view_defs)

abbreviation A :: "'a step \<Rightarrow> bool" where
  "A \<equiv> moves (\<lambda>_. True) same_records"

lemma A_parts:
  "A (on_proposals m)" "A (on_actions n)" "A (query f)" "A (invalid e)" "A (not_found e)" "A (check_schema w nm d)"
  by (simp_all add: moves_def view_defs on_proposals_def on_actions_def zoom_def query_def invalid_def
      not_found_def raise_def check_schema_def lift_res_def split: prod.split)

lemma A_tick: "(\<And>t. A (f t)) \<Longrightarrow> A (with_tick w f)"
  by (simp add: moves_def with_tick_def view_defs)

lemma A_emit: "A (emit_event w ty p)"
  unfolding emit_event_def by (rule A_tick) (simp add: moves_def change_def view_defs)

lemma A_errors:
  "key_or_value_error e = Some n \<Longrightarrow> A n" "value_error e = Some n \<Longrightarrow> A n"
  by (auto simp: key_or_value_error_def value_error_def A_parts split: exn.splits)

lemma A_handle: "A m \<Longrightarrow> A (handle key_or_value_error m)" "A m \<Longrightarrow> A (handle value_error m)"
  by (rule agents.moves_handle, assumption, erule A_errors)+

lemma A_json: "A m \<Longrightarrow> (\<And>d. A (f d)) \<Longrightarrow> A (case v of JObj d \<Rightarrow> f d | _ \<Rightarrow> m)"
  by (cases v) simp_all

lemma A_let: "(\<And>x. A (f x)) \<Longrightarrow> A (Let v f)"
  by simp

lemmas A_rules = agents.moves_rules A_parts A_tick A_emit A_handle A_json A_let

lemma A_emit_expired: "A (emit_expired w ids)"
proof (induction ids)
  case (Cons i ids)
  then show ?case unfolding emit_expired.simps by (intro A_rules)
qed (simp add: A_rules)

lemma A_move_proposal: "(\<And>i. A (after i)) \<Longrightarrow> A (move_proposal w params f after)"
  unfolding move_proposal_def by (intro A_rules)

lemma A_reading:
  "A (m_tunnel_status w p)" "A (m_context_get w p)" "A (m_transaction_list w p)" "A (m_result_latest w p)"
  "A (m_run_list w p)" "A (m_extension_list w p)" "A (m_action_get w p)" "A (m_constraint_check w p)"
  unfolding m_tunnel_status_def m_context_get_def m_transaction_list_def m_result_latest_def m_run_list_def
    m_extension_list_def m_action_get_def m_constraint_check_def
  by (intro A_rules)+

lemma A_proposals:
  "A (m_proposal_create w p)" "A (m_proposal_list w p)" "A (m_proposal_get w p)" "A (m_proposal_approve w p)"
  "A (m_proposal_reject w p)" "A (m_action_request w p)"
  unfolding m_proposal_create_def m_proposal_list_def m_proposal_get_def fetch_proposal_def m_proposal_approve_def
    m_proposal_reject_def m_action_request_def
  by (intro A_rules A_emit_expired A_move_proposal)+

lemma A_event_list: "A (m_event_list w [(''since'', n)])"
  unfolding m_event_list_def heartbeat_def touch_def since_param_def by (simp, intro A_rules)

lemma tool_method:
  "\<exists>fn. methods w (fst (tool_request t)) = Some fn \<and> A (fn (snd (tool_request t)))"
  by (cases t) (simp_all add: methods_def method_table_def A_reading A_proposals A_event_list)

lemma moves_view: "moves (\<lambda>_. True) R m \<Longrightarrow> m s = (r, s') \<Longrightarrow> R s s'"
  by (metis movesD snd_conv)

lemma tool_call:
  obtains fn r s' where "methods w (fst (tool_request t)) = Some fn" and "fn (snd (tool_request t)) s = (r, s')"
    and "call (methods w) i (fst (tool_request t)) (snd (tool_request t)) s = (seen_outcome r, s')"
proof -
  obtain fn where fn: "methods w (fst (tool_request t)) = Some fn" using tool_method by blast
  obtain r s' where "fn (snd (tool_request t)) s = (r, s')" by fastforce
  with call_known [where methods = "methods w" and i = i] fn that show thesis by blast
qed

interpretation tunnel: service "call (methods w)" "\<lambda>_. True" agent_view for w
proof unfold_locales
  fix t i s
  show "agent_view (snd (call (methods w) i (fst (tool_request t)) (snd (tool_request t)) s)) = agent_view s"
  proof (rule tool_call [of w t s i])
    fix fn r s' assume "methods w (fst (tool_request t)) = Some fn" "fn (snd (tool_request t)) s = (r, s')"
      and "call (methods w) i (fst (tool_request t)) (snd (tool_request t)) s = (seen_outcome r, s')"
    with tool_method [of w t] show ?thesis by (auto simp: same_records_def dest: moves_view)
  qed
qed

text \<open>The tools that only read.\<close>

definition reading :: "tool \<Rightarrow> bool" where
  "reading t \<longleftrightarrow> fst (tool_request t) \<in>
     {''tunnel.status'', ''design.context.get'', ''transaction.list'', ''result.latest'', ''constraint.check'', ''run.list'',
      ''event.list'', ''extension.list'', ''action.get''}"

interpretation readers: progress "\<lambda>_. True" "\<lambda>s s'. full_view s' = full_view s"
  by unfold_locales simp_all

abbreviation F :: "'a step \<Rightarrow> bool" where
  "F \<equiv> moves (\<lambda>_. True) (\<lambda>s s'. full_view s' = full_view s)"

lemma F_parts: "F (query f)" "F (invalid e)" "F (not_found e)"
  by (simp_all add: moves_def query_def invalid_def not_found_def raise_def)

lemma F_tick: "(\<And>t. F (f t)) \<Longrightarrow> F (with_tick w f)"
  by (simp add: moves_def with_tick_def full_view_def agent_view_def)

lemma F_json: "F m \<Longrightarrow> (\<And>d. F (f d)) \<Longrightarrow> F (case v of JObj d \<Rightarrow> f d | _ \<Rightarrow> m)"
  by (cases v) simp_all

lemma F_let: "(\<And>x. F (f x)) \<Longrightarrow> F (Let v f)"
  by simp

lemmas F_rules = readers.moves_rules F_parts F_tick F_json F_let

lemma F_reading:
  "F (m_tunnel_status w p)" "F (m_context_get w p)" "F (m_transaction_list w p)" "F (m_result_latest w p)"
  "F (m_run_list w p)" "F (m_extension_list w p)" "F (m_action_get w p)" "F (m_constraint_check w p)"
  unfolding m_tunnel_status_def m_context_get_def m_transaction_list_def m_result_latest_def
    m_run_list_def m_extension_list_def m_action_get_def m_constraint_check_def
  by (intro F_rules)+

lemma F_event_list: "F (m_event_list w [(''since'', n)])"
  unfolding m_event_list_def heartbeat_def touch_def since_param_def by (simp, intro F_rules)

lemma reading_method:
  "reading t \<Longrightarrow> methods w (fst (tool_request t)) = Some fn \<Longrightarrow> F (fn (snd (tool_request t)))"
  by (cases t) (auto simp: reading_def methods_def method_table_def F_reading F_event_list)

interpretation reader: service "call (methods w)" reading full_view for w
proof unfold_locales
  fix t i s assume t: "reading t"
  show "full_view (snd (call (methods w) i (fst (tool_request t)) (snd (tool_request t)) s)) = full_view s"
  proof (rule tool_call [of w t s i])
    fix fn r s' assume "methods w (fst (tool_request t)) = Some fn" "fn (snd (tool_request t)) s = (r, s')"
      and "call (methods w) i (fst (tool_request t)) (snd (tool_request t)) s = (seen_outcome r, s')"
    with reading_method [OF t, of w fn] show ?thesis by (auto dest: moves_view)
  qed
qed

subsection \<open>Properties\<close>

lemma run_tool_use: "run_tool w = tunnel.use_tool w"
  by (simp add: fun_eq_iff run_tool_def tunnel.use_tool_def split: prod.split)

text \<open>
  C31. An agent cannot record a change or start a simulation. Whatever tools an agent uses, with
  whatever arguments, the transactions, jobs, runs, results, contexts, sessions, netlist requests,
  extensions, permissions and launched commands of the daemon are the same afterwards; tools that
  only read leave the proposals, actions and events alone as well.
\<close>

theorem agent_confined:
  "agent_view (run_tools w ts s) = agent_view s \<and>
   (list_all reading (map snd ts) \<longrightarrow> full_view (run_tools w ts s) = full_view s)"
  using tunnel.tools_kept [of ts w s] reader.tools_kept [of ts w s]
  by (simp add: run_tools_def run_tool_use tunnel.use_tool_def [abs_def] reader.use_tool_def [abs_def] list_all_iff)

text \<open>
  What an agent's proposal becomes. Creating a proposal with a fresh id and a textual reason stores
  it under that id, gives it back to the agent and emits one event. It is pending only if the agent
  leaves the status out: a status in the proposal, "approved" included, is stored as it is.
\<close>

theorem agent_proposal_stored:
  assumes "dget d ''proposal_id'' = JStr i" and "i \<noteq> []" and "is_str (dget_or d ''reason'' (JStr []))"
    and "map_of (mem (d_proposals s)) (KStr i) = None" and "valid w ''proposal'' (JObj d) = None"
  shows "\<exists>p s'. run_tool w c (Proposal_Create (JObj d)) s = (Inr (JObj p), s') \<and>
    map_of (mem (d_proposals s')) (KStr i) = Some p \<and> dget p ''status'' = dget_or d ''status'' (JStr ''pending'') \<and>
    seqno (d_events s') = seqno (d_events s) + 1"
proof -
  from proposal_create_stores [of "[(''proposal'', JObj d)]" d i s w] assms obtain p s' where
    p: "m_proposal_create w [(''proposal'', JObj d)] s = (Inr (JObj [(''proposal'', JObj p)]), s')"
      "map_of (mem (d_proposals s')) = (map_of (mem (d_proposals s)))(KStr i \<mapsto> p)"
      "dget p ''status'' = dget_or d ''status'' (JStr ''pending'')" "seqno (d_events s') = seqno (d_events s) + 1"
    by auto
  have "methods w ''proposal.create'' = Some (m_proposal_create w)" by (simp add: methods_def method_table_def)
  from call_known [where methods = "methods w", OF this p(1), of c]
  have "run_tool w c (Proposal_Create (JObj d)) s = (Inr (JObj p), s')"
    by (simp add: run_tool_def bind_def lift_res_def item_def)
  with p show ?thesis by simp
qed

subsection \<open>Witnesses\<close>

definition demo_tools :: "(string \<times> tool) list" where
  "demo_tools = [(''1'', Tunnel_Status), (''2'', Events_Since (JInt 0))]"

theorem agent_confined_witness: "full_view (run_tools demo_world demo_tools demo_busy) = full_view demo_busy"
  using agent_confined [of demo_world demo_tools demo_busy] by (simp add: demo_tools_def reading_def)

theorem agent_proposal_stored_witness:
  "\<exists>p s'. run_tool demo_world ''1'' (Proposal_Create (JObj [(''proposal_id'', JStr ''p_2''), (''status'', JStr ''approved'')]))
     demo_busy = (Inr (JObj p), s') \<and> dget p ''status'' = JStr ''approved''"
  using agent_proposal_stored [of "[(''proposal_id'', JStr ''p_2''), (''status'', JStr ''approved'')]" "''p_2''" demo_busy
      demo_world "''1''"]
  by (force simp: demo_world_def)

end
