(* ===== verification/Schemas.thy ===== *)
theory Schemas
  imports Tunnel_Rules
begin

section \<open>Schemas and registration\<close>

text \<open>
  \<open>rpc/schemas.py\<close>, \<open>_validate_or_raise\<close> in \<open>daemon.py\<close>, and the registration half of the dispatcher. The
  third-party \<open>jsonschema\<close> is an argument, absent when it is not installed: a function from a schema and
  a value to an exception or success. The schema files are what reading them gives, None for a file
  that is missing or no JSON. Schemas are cached for the life of the process.
\<close>

type_synonym checker = "json \<Rightarrow> json \<Rightarrow> exn + unit"

type_synonym schema_cache = "(string \<times> json option) list"

subsection \<open>Schemas\<close>

definition schemas_dir :: "environ \<Rightarrow> string \<Rightarrow> string" where
  "schemas_dir env repo =
     (case env ''VFP_SCHEMAS_DIR'' of
        Some d \<Rightarrow> (if d = [] then path_join repo ''schemas'' else path_text (is_absolute d) (path_parts d))
      | None \<Rightarrow> path_join repo ''schemas'')"

definition schema_at :: "environ \<Rightarrow> string \<Rightarrow> (string \<Rightarrow> json option) \<Rightarrow> string \<Rightarrow> json option" where
  "schema_at env repo reads name = reads (path_join (schemas_dir env repo) (name @ ''.schema.json''))"

definition load_schema ::
  "environ \<Rightarrow> string \<Rightarrow> (string \<Rightarrow> json option) \<Rightarrow> string \<Rightarrow> schema_cache \<Rightarrow> json option \<times> schema_cache" where
  "load_schema env repo reads name c =
     (case map_of c name of
        Some s \<Rightarrow> (s, c)
      | None \<Rightarrow> (let s = schema_at env repo reads name in (s, AList.update name s c)))"

definition validation_enabled :: "checker option \<Rightarrow> bool" where
  "validation_enabled js = (js \<noteq> None)"

text \<open>True when it was validated, None when it was skipped\<close>

definition schema_validate ::
  "checker option \<Rightarrow> environ \<Rightarrow> string \<Rightarrow> (string \<Rightarrow> json option) \<Rightarrow> string \<Rightarrow> json \<Rightarrow> (schema_cache, exn, bool option) op" where
  "schema_validate js env repo reads name data c =
     (case js of
        None \<Rightarrow> (Inr None, c)
      | Some check \<Rightarrow>
          (case load_schema env repo reads name c of
             (None, c') \<Rightarrow> (Inr None, c')
           | (Some sch, c') \<Rightarrow> (map_sum id (\<lambda>_. Some True) (check sch data), c')))"

text \<open>A violation becomes a structured error; any other exception goes through.\<close>

definition schema_error :: "string \<Rightarrow> exn \<Rightarrow> exn" where
  "schema_error name e =
     (case e of ValidationError m \<Rightarrow> RpcError INVALID_PARAMS (name @ '' failed schema validation: '' @ m) None | _ \<Rightarrow> e)"

definition cached_check ::
  "checker option \<Rightarrow> environ \<Rightarrow> string \<Rightarrow> (string \<Rightarrow> json option) \<Rightarrow> string \<Rightarrow> json \<Rightarrow> (schema_cache, exn, unit) op" where
  "cached_check js env repo reads name data c =
     (case schema_validate js env repo reads name data c of (r, c') \<Rightarrow> (map_sum (schema_error name) (\<lambda>_. ()) r, c'))"

subsection \<open>Registration\<close>

definition register :: "string \<Rightarrow> 'm \<Rightarrow> (string \<times> 'm) list \<Rightarrow> (string \<times> 'm) list" where
  "register name fn tbl = AList.update name fn tbl"

definition registered :: "(string \<times> 'm) list \<Rightarrow> string list" where
  "registered tbl = isort_lt str_less (map fst tbl)"

subsection \<open>The cache\<close>

definition cache_true :: "environ \<Rightarrow> string \<Rightarrow> (string \<Rightarrow> json option) \<Rightarrow> schema_cache \<Rightarrow> bool" where
  "cache_true env repo reads c \<longleftrightarrow> (\<forall>n s. map_of c n = Some s \<longrightarrow> s = schema_at env repo reads n)"

lemma load_schema_spec:
  assumes "cache_true env repo reads c"
  shows "fst (load_schema env repo reads name c) = schema_at env repo reads name \<and>
    cache_true env repo reads (snd (load_schema env repo reads name c))"
  using assms by (auto simp: load_schema_def cache_true_def Let_def split: option.split)

text \<open>The check without a cache, as the daemon's methods use it (\<open>valid\<close> in \<open>world\<close>)\<close>

definition plain_check :: "checker option \<Rightarrow> environ \<Rightarrow> string \<Rightarrow> (string \<Rightarrow> json option) \<Rightarrow> string \<Rightarrow> json \<Rightarrow> exn + unit" where
  "plain_check js env repo reads name data =
     (case (js, schema_at env repo reads name) of
        (Some check, Some sch) \<Rightarrow> map_sum (schema_error name) id (check sch data)
      | _ \<Rightarrow> Inr ())"

definition violation ::
  "checker option \<Rightarrow> environ \<Rightarrow> string \<Rightarrow> (string \<Rightarrow> json option) \<Rightarrow> string \<Rightarrow> json \<Rightarrow> string option" where
  "violation js env repo reads name data =
     (case (js, schema_at env repo reads name) of
        (Some check, Some sch) \<Rightarrow> (case check sch data of Inl (ValidationError m) \<Rightarrow> Some m | _ \<Rightarrow> None)
      | _ \<Rightarrow> None)"

lemma cached_check_spec:
  assumes "cache_true env repo reads c"
  shows "\<exists>c'. cached_check js env repo reads name data c = (plain_check js env repo reads name data, c') \<and>
    cache_true env repo reads c'"
  using load_schema_spec [OF assms, of name] assms
  by (cases js; cases "load_schema env repo reads name c"; cases "schema_at env repo reads name")
    (auto simp: cached_check_def schema_validate_def plain_check_def sum.map_comp comp_def id_def)

fun checks ::
  "checker option \<Rightarrow> environ \<Rightarrow> string \<Rightarrow> (string \<Rightarrow> json option) \<Rightarrow> (string \<times> json) list \<Rightarrow> schema_cache \<Rightarrow>
   (exn + unit) list \<times> schema_cache" where
  "checks js env repo reads [] c = ([], c)"
| "checks js env repo reads ((n, d) # qs) c =
     (case cached_check js env repo reads n d c of
        (r, c') \<Rightarrow> (case checks js env repo reads qs c' of (out, c'') \<Rightarrow> (r # out, c'')))"

subsection \<open>Properties\<close>

text \<open>
  Validation depends on the schema file and the value alone. From an empty cache, any sequence of checks
  gives what each check would give on its own with the file read anew; without \<open>jsonschema\<close> or a
  readable schema every value passes. If the library raises nothing but violations, this is
  the check \<open>valid\<close> with which the daemon's methods are modelled.
\<close>

theorem checks_are_plain:
  "fst (checks js env repo reads qs []) = map (\<lambda>(n, d). plain_check js env repo reads n d) qs \<and>
   ((\<forall>check sch d e. js = Some check \<and> check sch d = Inl e \<longrightarrow> (\<exists>m. e = ValidationError m)) \<longrightarrow>
      plain_check js env repo reads n d = validate_or_raise (violation js env repo reads) n d)"
proof
  have "cache_true env repo reads c \<Longrightarrow>
      fst (checks js env repo reads qs c) = map (\<lambda>(n, d). plain_check js env repo reads n d) qs" for c
  proof (induction qs arbitrary: c)
    case (Cons q qs)
    obtain n d where q: "q = (n, d)" by fastforce
    obtain c' where "cached_check js env repo reads n d c = (plain_check js env repo reads n d, c')" "cache_true env repo reads c'"
      using cached_check_spec [OF Cons.prems] by blast
    with Cons.IH [of c'] show ?case by (auto simp: q split: prod.split)
  qed simp
  then show "fst (checks js env repo reads qs []) = map (\<lambda>(n, d). plain_check js env repo reads n d) qs"
    by (simp add: cache_true_def)
  show "(\<forall>check sch d e. js = Some check \<and> check sch d = Inl e \<longrightarrow> (\<exists>m. e = ValidationError m)) \<longrightarrow>
      plain_check js env repo reads n d = validate_or_raise (violation js env repo reads) n d"
    by (fastforce simp: plain_check_def validate_or_raise_def violation_def schema_error_def map_sum_def
        split: option.splits sum.splits exn.splits)
qed

text \<open>No registration replaces another: registering the entries in order gives the table itself.\<close>

lemma distinct_methods: "distinct (map fst (method_table w))"
  by (simp add: method_table_def)

lemma register_all: "distinct (map fst (tbl @ xs)) \<Longrightarrow> fold (\<lambda>(n, fn). register n fn) xs tbl = tbl @ xs"
proof (induction xs arbitrary: tbl)
  case (Cons x xs)
  obtain n fn where x: "x = (n, fn)" by fastforce
  with Cons.prems have "map_of tbl n = None" by (auto simp: map_of_eq_None_iff)
  with Cons.IH [of "tbl @ [x]"] Cons.prems show ?case by (simp add: x register_def update_absent)
qed simp

theorem methods_registered:
  "fold (\<lambda>(n, fn). register n fn) (method_table w) [] = method_table w \<and>
   set (registered (method_table w)) = dom (methods w)"
  using register_all [of "[]" "method_table w"] distinct_methods [of w]
  by (simp add: registered_def methods_def dom_map_of_conv_image_fst set_isort_lt)

subsection \<open>Concrete instance\<close>

theorem checks_are_plain_witness:
  "plain_check (Some (\<lambda>sch d. if is_dict d then Inr () else Inl (ValidationError ''not an object''))) (\<lambda>_. None) ''/repo''
     (\<lambda>f. Some (JObj [])) ''proposal'' (JInt 1) =
   Inl (RpcError INVALID_PARAMS ''proposal failed schema validation: not an object'' None)"
  using checks_are_plain [of "Some (\<lambda>sch d. if is_dict d then Inr () else Inl (ValidationError ''not an object''))"
      "\<lambda>_. None" "''/repo''" "\<lambda>f. Some (JObj [])" "[]" "''proposal''" "JInt 1"]
  by (simp add: validate_or_raise_def violation_def schema_at_def)

end
