(* ===== verification/Event_Client.thy ===== *)
theory Event_Client
  imports Tunnel_Safety
begin

section \<open>The event client of the design tool\<close>

text \<open>
  \<open>scripts/vfp_event_client.py\<close>: a loop that reads the tunnel's events and prints one line per event.
  Its state is the phase of the two loops, the cursor, whether \<open>event.wait\<close> is still tried, the
  consecutive failures and what has been printed; \<open>client_request\<close> is the call it makes next and
  \<open>client_reply\<close> what it does with the outcome. Sleeping and the address are not part of the state.

  The tunnel the client talks to is the locale \<open>event_source\<close>: a history that only grows and
  answers that hold everything after the cursor. It is interpreted by the event log.
\<close>

subsection \<open>Arguments, outcomes, state\<close>

record client_args =
  c_since :: int
  c_session :: "string option"
  wait_timeout :: rat
  max_failures :: int
  c_host :: string
  c_port :: int

text \<open>A call returns a result or raises: \<open>RpcError\<close>, \<open>OSError\<close> when the tunnel is not reached, or another exception.\<close>

type_synonym reply = "exn + json"

datatype phase = Contact | Polling | Exited int | Crashed exn

record client =
  phase :: phase
  cursor :: json
  have_wait :: bool
  failures :: int
  printed :: "string list"
  stderr :: "string list"

definition client_start :: "client_args \<Rightarrow> client" where
  "client_start a =
     \<lparr>phase = Contact, cursor = JInt (c_since a), have_wait = True, failures = 0, printed = [], stderr = []\<rparr>"

definition say :: "string \<Rightarrow> client \<Rightarrow> client" where
  "say m c = c\<lparr>stderr := stderr c @ [m]\<rparr>"

subsection \<open>Requests\<close>

definition client_params :: "client_args \<Rightarrow> json \<Rightarrow> rat option \<Rightarrow> dict" where
  "client_params a since timeout =
     (''since'', since) #
     (case timeout of None \<Rightarrow> [] | Some x \<Rightarrow> [(''timeout_s'', JFloat (Fin x))]) @
     (case c_session a of None \<Rightarrow> [] | Some s \<Rightarrow> (if s = [] then [] else [(''session_id'', JStr s)]))"

definition client_request :: "client_args \<Rightarrow> client \<Rightarrow> (string \<times> dict) option" where
  "client_request a c =
     (case phase c of
        Contact \<Rightarrow> Some (''event.list'', client_params a (JInt (max (c_since a) 0)) None)
      | Polling \<Rightarrow>
          (if have_wait c then Some (''event.wait'', client_params a (cursor c) (Some (wait_timeout a)))
           else Some (''event.list'', client_params a (cursor c) None))
      | _ \<Rightarrow> None)"

subsection \<open>Printing events\<close>

text \<open>\<open>"%d" % v\<close>\<close>

fun format_d :: "json \<Rightarrow> exn + string" where
  "format_d (JInt i) = Inr (show_int i)"
| "format_d (JBool b) = Inr (if b then ''1'' else ''0'')"
| "format_d (JFloat x) = map_sum id show_int (py_int (JFloat x))"
| "format_d v = Inl (TypeError (''%d format: a real number is required, not '' @ type_name v))"

definition event_line :: "json \<Rightarrow> json \<Rightarrow> exn + string" where
  "event_line n etype = map_sum id (\<lambda>d. ''VFP-EVT '' @ d @ '' '' @ py_str etype) (format_d n)"

text \<open>\<open>max(a, b)\<close>: the first unless the second is greater.\<close>

definition py_max :: "json \<Rightarrow> json \<Rightarrow> exn + json" where
  "py_max a b =
     (case py_lt a b of
        Inl _ \<Rightarrow> Inl (TypeError (CHR 0x27 # ''>'' @ CHR 0x27 # '' not supported between instances of '' @
          CHR 0x27 # type_name b @ CHR 0x27 # '' and '' @ CHR 0x27 # type_name a @ [CHR 0x27]))
      | Inr gt \<Rightarrow> Inr (if gt then b else a))"

fun deliver :: "json list \<Rightarrow> (client, exn, unit) op" where
  "deliver [] = ret ()"
| "deliver (ev # rest) =
     bind (lift_res (subscript ev ''seq''))
       (\<lambda>n. bind (lift_res (jget_or ev ''type'' (JStr ''?'')))
         (\<lambda>ty. bind (lift_res (event_line n ty))
           (\<lambda>line. seq (change (\<lambda>c. c\<lparr>printed := printed c @ [line]\<rparr>))
             (bind (\<lambda>c. (py_max (cursor c) n, c))
               (\<lambda>m. seq (change (\<lambda>c. c\<lparr>cursor := m\<rparr>)) (deliver rest))))))"

definition deliver_all :: "json \<Rightarrow> (client, exn, unit) op" where
  "deliver_all resp =
     bind (lift_res (jget_or resp ''events'' (JList []))) (\<lambda>v. bind (lift_res (py_iter v)) deliver)"

subsection \<open>Outcomes of calls\<close>

definition unreachable :: "client_args \<Rightarrow> string \<Rightarrow> string \<Rightarrow> client \<Rightarrow> client" where
  "unreachable a what e c =
     (let c = c\<lparr>failures := failures c + 1\<rparr>
      in if max_failures a < failures c
         then say (what @ c_host a @ '':'' @ show_int (c_port a) @ '' ('' @ e @ ''); giving up'') (c\<lparr>phase := Exited 1\<rparr>)
         else c)"

text \<open>Run the reading part: an exception out of it ends the process.\<close>

definition guarded :: "(client, exn, unit) op \<Rightarrow> client \<Rightarrow> client" where
  "guarded m c = (case m c of (Inr _, c') \<Rightarrow> c' | (Inl e, c') \<Rightarrow> c'\<lparr>phase := Crashed e\<rparr>)"

definition contact_answer :: "client_args \<Rightarrow> json \<Rightarrow> (client, exn, unit) op" where
  "contact_answer a resp =
     bind (lift_res (jget_or resp ''latest_seq'' (JInt (c_since a))))
       (\<lambda>newest. seq (if c_since a \<le> 0 then change (\<lambda>c. c\<lparr>cursor := newest\<rparr>) else deliver_all resp)
         (change (\<lambda>c. c\<lparr>failures := 0, phase := Polling\<rparr>)))"

definition contact_error :: "client_args \<Rightarrow> exn \<Rightarrow> client \<Rightarrow> client" where
  "contact_error a e c =
     (case e of
        RpcError code m _ \<Rightarrow>
          (if code = METHOD_NOT_FOUND then say ''tunnel has no event RPCs yet; exiting'' (c\<lparr>phase := Exited 0\<rparr>)
           else say (''event.list failed: '' @ m) (c\<lparr>phase := Exited 1\<rparr>))
      | OSError m \<Rightarrow> unreachable a ''cannot reach tunnel at '' m c
      | _ \<Rightarrow> c\<lparr>phase := Crashed e\<rparr>)"

definition poll_answer :: "json \<Rightarrow> (client, exn, unit) op" where
  "poll_answer resp = seq (change (\<lambda>c. c\<lparr>failures := 0\<rparr>)) (deliver_all resp)"

definition poll_error :: "client_args \<Rightarrow> exn \<Rightarrow> client \<Rightarrow> client" where
  "poll_error a e c =
     (case e of
        RpcError code m _ \<Rightarrow>
          (if have_wait c \<and> code = METHOD_NOT_FOUND
           then say ''tunnel has no event.wait; polling event.list'' (c\<lparr>have_wait := False\<rparr>)
           else say (''event poll failed: '' @ m) (c\<lparr>phase := Exited 1\<rparr>))
      | OSError m \<Rightarrow> unreachable a ''lost tunnel at '' m c
      | _ \<Rightarrow> c\<lparr>phase := Crashed e\<rparr>)"

definition client_reply :: "client_args \<Rightarrow> reply \<Rightarrow> client \<Rightarrow> client" where
  "client_reply a r c =
     (case phase c of
        Contact \<Rightarrow> (case r of Inr resp \<Rightarrow> guarded (contact_answer a resp) c | Inl e \<Rightarrow> contact_error a e c)
      | Polling \<Rightarrow> (case r of Inr resp \<Rightarrow> guarded (poll_answer resp) c | Inl e \<Rightarrow> poll_error a e c)
      | _ \<Rightarrow> c)"

definition run_real :: "client_args \<Rightarrow> reply list \<Rightarrow> client" where
  "run_real a replies = fold (client_reply a) replies (client_start a)"

subsection \<open>Mock mode\<close>

definition MOCK_TYPES :: "string list" where
  "MOCK_TYPES = [''proposal.created'', ''proposal.approved'', ''transaction.created'', ''result.updated'', ''run.done'']"

definition run_mock :: "int \<Rightarrow> nat \<Rightarrow> string list" where
  "run_mock since mock_count =
     map (\<lambda>i. ''VFP-EVT '' @ show_int (since + int i + 1) @ '' '' @ MOCK_TYPES ! (i mod length MOCK_TYPES)) [0..<mock_count]"

subsection \<open>What the client relies on\<close>

text \<open>The line of a well-formed event.\<close>

definition event_text :: "dict \<Rightarrow> string" where
  "event_text e = ''VFP-EVT '' @ show_int (event_seq e) @ '' '' @ py_str (dget e ''type'')"

lemma well_formed_reads:
  assumes "well_formed_event e"
  shows "subscript (JObj e) ''seq'' = Inr (JInt (event_seq e))"
    and "jget_or (JObj e) ''type'' (JStr ''?'') = Inr (dget e ''type'')"
  using assms by (auto simp: well_formed_event_def item_def jget_or_def is_str_conv dget_or_present dget_def split: option.splits)

lemma deliver_events:
  assumes "list_all well_formed_event es" and "cursor c = JInt n"
  shows "deliver (map JObj es) c =
    (Inr (), c\<lparr>printed := printed c @ map event_text es, cursor := JInt (fold max (map event_seq es) n)\<rparr>)"
  using assms
proof (induction es arbitrary: c n)
  case Nil
  then show ?case by (simp add: ret_def)
next
  case (Cons e es)
  then have wf: "well_formed_event e" by simp
  have mx: "py_max (cursor c) (JInt (event_seq e)) = Inr (JInt (max n (event_seq e)))"
    using Cons.prems by (auto simp: py_max_def max_def)
  let ?c = "c\<lparr>printed := printed c @ [event_text e], cursor := JInt (max n (event_seq e))\<rparr>"
  have "deliver (map JObj (e # es)) c = deliver (map JObj es) ?c"
    using mx by (simp add: op_defs well_formed_reads [OF wf, simplified] event_line_def event_text_def)
  also have "\<dots> = (Inr (), ?c\<lparr>printed := printed ?c @ map event_text es,
      cursor := JInt (fold max (map event_seq es) (max n (event_seq e)))\<rparr>)"
    using Cons.prems by (intro Cons.IH) simp_all
  finally show ?case by (simp add: max.commute)
qed

locale event_source =
  fixes history :: "'l \<Rightarrow> dict list" and served :: "'l \<Rightarrow> int \<Rightarrow> dict list"
    and covers :: "'l \<Rightarrow> int \<Rightarrow> bool" and proper :: "'l \<Rightarrow> bool" and grows :: "'l \<Rightarrow> 'l \<Rightarrow> bool"
  assumes ascending: "proper l \<Longrightarrow> sorted_wrt (<) (map event_seq (history l))"
    and readable: "proper l \<Longrightarrow> list_all well_formed_event (history l)"
    and complete: "proper l \<Longrightarrow> covers l n \<Longrightarrow> served l n = filter (\<lambda>e. n < event_seq e) (history l)"
    and later: "proper l \<Longrightarrow> grows l l' \<Longrightarrow> proper l' \<and> (\<exists>new. history l' = history l @ new)"
begin

definition seen :: "'l \<Rightarrow> int \<Rightarrow> dict list" where
  "seen l n = filter (\<lambda>e. n < event_seq e) (history l)"

lemma fold_max: "fold max xs (n::int) = Max (insert n (set xs))"
  using Max.set_eq_fold [of n xs] by simp

lemma poll_step:
  assumes "proper l" "phase c = Polling" "cursor c = JInt n" "covers l n"
    and d: "dget d ''events'' = JList (map JObj (served l n))"
  shows "client_reply a (Inr (JObj d)) c =
    c\<lparr>failures := 0, printed := printed c @ map event_text (seen l n), cursor := JInt (fold max (map event_seq (seen l n)) n)\<rparr>"
proof -
  have "list_all well_formed_event (seen l n)"
    using readable [OF assms(1)] by (auto simp: seen_def list_all_iff)
  from deliver_events [OF this, of "c\<lparr>failures := 0\<rparr>" n] assms(3)
  have "deliver (map JObj (seen l n)) (c\<lparr>failures := 0\<rparr>) = (Inr (), c\<lparr>failures := 0,
      printed := printed c @ map event_text (seen l n), cursor := JInt (fold max (map event_seq (seen l n)) n)\<rparr>)"
    by simp
  moreover have "jget_or (JObj d) ''events'' (JList []) = Inr (JList (map JObj (served l n)))"
    using d by (simp add: jget_or_def dget_or_present)
  ultimately show ?thesis using assms complete [OF assms(1,4)]
    by (simp add: client_reply_def guarded_def poll_answer_def deliver_all_def op_defs seen_def)
qed

text \<open>The client has printed what is newer than \<open>n0\<close>, and its cursor is at the newest event.\<close>

definition up_to_date :: "int \<Rightarrow> string list \<Rightarrow> 'l \<Rightarrow> client \<Rightarrow> bool" where
  "up_to_date n0 ps l c \<longleftrightarrow> phase c = Polling \<and>
     printed c = ps @ map event_text (seen l n0) \<and>
     cursor c = JInt (Max (insert n0 (event_seq ` set (history l))))"

lemma seen_later:
  assumes "proper l" and "grows l l1" and "history l1 = history l @ new"
  shows "seen l1 (Max (insert n0 (event_seq ` set (history l)))) = filter (\<lambda>e. n0 < event_seq e) new"
proof -
  have "proper l1" using later [OF assms(1,2)] by blast
  from ascending [OF this] have "sorted_wrt (<) (map event_seq (history l @ new))" unfolding assms(3) .
  then have "event_seq x < event_seq y" if "x \<in> set (history l)" "y \<in> set new" for x y
    using that by (auto simp: sorted_wrt_append)
  then have "(Max (insert n0 (event_seq ` set (history l))) < event_seq e) = (n0 < event_seq e)" if "e \<in> set new" for e
    using that by (subst Max_less_iff) auto
  moreover have "\<not> Max (insert n0 (event_seq ` set (history l))) < event_seq e" if "e \<in> set (history l)" for e
    using that by (auto simp: not_less Max_ge_iff)
  ultimately show ?thesis using assms(3) by (simp add: seen_def filter_False cong: filter_cong)
qed

lemma poll_up_to_date:
  assumes l: "proper l" "grows l l1" and c: "up_to_date n0 ps l c" "cursor c = JInt n" and "covers l1 n"
    and d: "dget d ''events'' = JList (map JObj (served l1 n))"
  shows "up_to_date n0 ps l1 (client_reply a (Inr (JObj d)) c) \<and> failures (client_reply a (Inr (JObj d)) c) = 0"
proof -
  obtain new where new: "history l1 = history l @ new" and l1: "proper l1" using later [OF l] by blast
  have n: "n = Max (insert n0 (event_seq ` set (history l)))" using c by (simp add: up_to_date_def)
  have seen: "seen l1 n = filter (\<lambda>e. n0 < event_seq e) new" unfolding n by (rule seen_later [OF l new])
  have "fold max (map event_seq (seen l1 n)) n = Max (insert n (event_seq ` set (seen l1 n)))"
    unfolding fold_max by simp
  also have "\<dots> = Max (insert n0 (event_seq ` set (history l1)))"
  proof (rule antisym)
    have mono: "n \<le> Max (insert n0 (event_seq ` set (history l1)))" unfolding n new by (rule Max_mono) auto
    show "Max (insert n (event_seq ` set (seen l1 n))) \<le> Max (insert n0 (event_seq ` set (history l1)))"
      using mono by (intro Max.boundedI) (auto simp: seen_def new intro: order_trans [OF _ Max_ge])
    show "Max (insert n0 (event_seq ` set (history l1))) \<le> Max (insert n (event_seq ` set (seen l1 n)))"
    proof (rule Max.boundedI)
      fix x assume x: "x \<in> insert n0 (event_seq ` set (history l1))"
      show "x \<le> Max (insert n (event_seq ` set (seen l1 n)))"
      proof (cases "x \<le> n")
        case True
        then show ?thesis by (rule order_trans) simp
      next
        case False
        moreover have "n0 \<le> n" unfolding n by simp
        ultimately have "x \<in> event_seq ` set (seen l1 n)" using x by (auto simp: seen_def)
        then show ?thesis by simp
      qed
    qed simp_all
  qed
  finally have cur: "fold max (map event_seq (seen l1 n)) n = Max (insert n0 (event_seq ` set (history l1)))" .
  have "phase c = Polling" using c(1) by (simp add: up_to_date_def)
  from poll_step [OF l1 this c(2) assms(5) d, of a, unfolded cur, unfolded seen] c(1) show ?thesis
    by (simp add: up_to_date_def seen_def new)
qed

lemma lost_up_to_date:
  assumes "up_to_date n0 ps l c" and "failures c < max_failures a"
  shows "up_to_date n0 ps l (client_reply a (Inl (OSError m)) c) \<and>
    failures (client_reply a (Inl (OSError m)) c) = failures c + 1"
  using assms by (auto simp: up_to_date_def client_reply_def poll_error_def unreachable_def Let_def)

text \<open>First contact of a fresh start: the history is skipped.\<close>

lemma fresh_contact:
  assumes "c_since a \<le> 0" and "\<forall>e \<in> set (history l). event_seq e \<le> newest" and "dget d ''latest_seq'' = JInt newest"
  shows "up_to_date newest [] l (client_reply a (Inr (JObj d)) (client_start a)) \<and>
    failures (client_reply a (Inr (JObj d)) (client_start a)) = 0"
proof -
  have "Max (insert newest (event_seq ` set (history l))) = newest" using assms(2) by (intro Max_eqI) auto
  moreover have "seen l newest = []" using assms(2) by (auto simp: seen_def filter_empty_conv not_less)
  ultimately show ?thesis
    using assms(1,3)
    by (simp add: client_start_def client_reply_def guarded_def contact_answer_def op_defs jget_or_def dget_or_present
        up_to_date_def)
qed

end

subsection \<open>The event log as a source\<close>

text \<open>A log together with everything that has been emitted.\<close>

type_synonym recorded = "dict list \<times> event_log"

definition recorded_ok :: "recorded \<Rightarrow> bool" where
  "recorded_ok h \<longleftrightarrow> (case h of (es, l) \<Rightarrow>
     sorted_wrt (<) (map event_seq es) \<and> list_all well_formed_event es \<and> suffix (evs l) es \<and>
     (\<forall>e \<in> set es. event_seq e \<le> seqno l) \<and> (evs l = [] \<longrightarrow> es = []))"

definition recorded_grows :: "recorded \<Rightarrow> recorded \<Rightarrow> bool" where
  "recorded_grows h h' \<longleftrightarrow> (\<exists>new. fst h' = fst h @ new \<and> log_adds (snd h) new (snd h'))"

definition window_covers :: "recorded \<Rightarrow> int \<Rightarrow> bool" where
  "window_covers h n \<longleftrightarrow> oldest_seq (take_snapshot (snd h) n) \<le> n + 1"

lemma sorted_wrt_less_upto: "sorted_wrt (<) [i..j]"
  by (induction i j rule: upto.induct) (subst upto.simps, auto)

lemma recorded_later:
  assumes "recorded_ok h" and "recorded_grows h h'" shows "recorded_ok h'"
proof -
  obtain es l new l' where h: "h = (es, l)" "h' = (es @ new, l')" and add: "log_adds l new l'"
    using assms(2) by (cases h; cases h') (auto simp: recorded_grows_def)
  have seqs: "map event_seq new = [seqno l + 1..seqno l']" using add by (simp add: log_adds_def)
  have range: "seqno l < event_seq e \<and> event_seq e \<le> seqno l'" if "e \<in> set new" for e
  proof -
    have "event_seq e \<in> set (map event_seq new)" using that by simp
    then show ?thesis unfolding seqs by simp
  qed
  have old: "event_seq e \<le> seqno l" if "e \<in> set es" for e using assms(1) that h by (simp add: recorded_ok_def)
  have "sorted_wrt (<) (map event_seq (es @ new))"
    using assms(1) h seqs old range sorted_wrt_less_upto by (fastforce simp: recorded_ok_def sorted_wrt_append)
  moreover have "suffix (evs l @ new) (es @ new)" using assms(1) h by (auto simp: recorded_ok_def suffix_def)
  then have "suffix (evs l') (es @ new)" using add by (auto simp: log_adds_def intro: suffix_order.trans)
  moreover have "event_seq e \<le> seqno l'" if "e \<in> set (es @ new)" for e
    using that old range add by (fastforce simp: log_adds_def)
  ultimately show ?thesis using assms(1) h add by (auto simp: recorded_ok_def log_adds_def)
qed

lemma recorded_served:
  assumes "recorded_ok h" and "window_covers h n"
  shows "events (take_snapshot (snd h) n) = filter (\<lambda>e. n < event_seq e) (fst h)"
proof -
  obtain es l where h: "h = (es, l)" by fastforce
  from assms(1) h obtain old where old: "es = old @ evs l" by (auto simp: recorded_ok_def suffix_def)
  have "filter (\<lambda>e. n < event_seq e) old = []"
  proof (cases "evs l")
    case Nil
    then show ?thesis using assms(1) h old by (simp add: recorded_ok_def)
  next
    case (Cons y ys)
    then have "event_seq y \<le> n + 1" using assms(2) h by (simp add: window_covers_def take_snapshot_def)
    moreover have "event_seq e < event_seq y" if "e \<in> set old" for e
      using that assms(1) h old Cons by (auto simp: recorded_ok_def sorted_wrt_append)
    ultimately show ?thesis by (fastforce simp: filter_empty_conv)
  qed
  then show ?thesis using h old by (simp add: take_snapshot_def)
qed

interpretation tail: event_source fst "\<lambda>h n. events (take_snapshot (snd h) n)" window_covers recorded_ok recorded_grows
proof unfold_locales
  fix h h' :: recorded and n
  show "sorted_wrt (<) (map event_seq (fst h))" and "list_all well_formed_event (fst h)" if "recorded_ok h"
    using that by (auto simp: recorded_ok_def)
  show "events (take_snapshot (snd h) n) = filter (\<lambda>e. n < event_seq e) (fst h)" if "recorded_ok h" "window_covers h n"
    using that by (rule recorded_served)
  show "recorded_ok h' \<and> (\<exists>new. fst h' = fst h @ new)" if "recorded_ok h" "recorded_grows h h'"
    using that recorded_later by (auto simp: recorded_grows_def)
qed

subsection \<open>The client at a running daemon\<close>

text \<open>
  The daemon handles any messages of other clients between two calls of this one; a call may also
  fail to reach it. \<open>answered\<close>: the call got a result whose oldest number shows no gap after the cursor.
\<close>

definition answered :: "client \<Rightarrow> reply \<Rightarrow> bool" where
  "answered c r =
     (case (cursor c, r) of
        (JInt n, Inr (JObj d)) \<Rightarrow> (case dget d ''oldest_seq'' of JInt i \<Rightarrow> i \<le> n + 1 | _ \<Rightarrow> False)
      | _ \<Rightarrow> False)"

inductive client_run :: "world \<Rightarrow> client_args \<Rightarrow> nat \<Rightarrow> daemon \<Rightarrow> client \<Rightarrow> daemon \<Rightarrow> client \<Rightarrow> bool"
  for w :: world and a :: client_args where
  stay: "client_run w a 0 s c s c"
| lost: "client_run w a k s (client_reply a (Inl (OSError m)) c) s' c' \<Longrightarrow> client_run w a (Suc k) s c s' c'"
| served: "client_request a c = Some (meth, params) \<Longrightarrow>
    call (methods w) i meth params (handle_messages w msgs s) = (r, s2) \<Longrightarrow> answered c r \<Longrightarrow>
    client_run w a k s2 (client_reply a r c) s' c' \<Longrightarrow> client_run w a k s c s' c'"

lemma heartbeat_events: "d_events (snd (heartbeat w params s)) = d_events s"
  by (simp add: heartbeat_def touch_def bind_def with_tick_def on_sessions_def zoom_def ret_def split: prod.split sum.split)

lemma client_since: "py_int (py_or (dget (client_params a (JInt n) x) ''since'') (JInt 0)) = Inr n"
  by (simp add: client_params_def py_or_def)

lemma event_list_call:
  assumes "m_event_list w (client_params a (JInt n) x) s = (r, s')"
  shows "d_events s' = d_events s \<and> (\<forall>v. r = Inr v \<longrightarrow> v = snapshot_json (take_snapshot (d_events s) n))"
  using assms heartbeat_events [of w "client_params a (JInt n) x" s]
  by (auto simp: m_event_list_def seq_def bind_def since_param_def lift_res_def client_since ask_def event_list_def
      split: prod.splits sum.splits)

lemma event_wait_call:
  assumes "m_event_wait_alone w (client_params a (JInt n) x) s = (r, s')"
  shows "d_events s' = d_events s \<and> (\<forall>v. r = Inr v \<longrightarrow> v = snapshot_json (take_snapshot (d_events s) n))"
  using assms heartbeat_events [of w "client_params a (JInt n) x" s]
  by (auto simp: m_event_wait_alone_def seq_def bind_def since_param_def lift_res_def client_since ask_def event_list_def
      with_tick_def split: prod.splits sum.splits)

lemma event_methods: "methods w ''event.list'' = Some (m_event_list w)" "methods w ''event.wait'' = Some (m_event_wait_alone w)"
  by (simp_all add: methods_def method_table_def)

lemma seen_Inr: "seen_outcome r = Inr v \<longleftrightarrow> r = Inr v"
  by (cases r rule: seen_outcome.cases) auto

lemma poll_call:
  assumes ok: "daemon_ok s" and req: "client_request a c = Some (meth, params)" "phase c = Polling" "cursor c = JInt n"
    and r: "call (methods w) i meth params s = (Inr v, s')"
  shows "v = snapshot_json (take_snapshot (d_events s) n) \<and> d_events s' = d_events s \<and> daemon_ok s'"
proof -
  obtain x where x: "params = client_params a (JInt n) x"
    and meth: "meth = ''event.list'' \<or> meth = ''event.wait''"
    using req by (auto simp: client_request_def split: if_splits)
  then obtain fn where fn: "methods w meth = Some fn" "fn = m_event_list w \<or> fn = m_event_wait_alone w"
    using event_methods by auto
  obtain q s1 where run: "fn params s = (q, s1)" by fastforce
  have "call (methods w) i meth params s = (seen_outcome q, s1)" using fn(1) run by (rule call_known)
  with r have "q = Inr v" "s1 = s'" by (simp_all add: seen_Inr)
  with run fn(2) x have "v = snapshot_json (take_snapshot (d_events s) n) \<and> d_events s' = d_events s"
    using event_list_call [of w a n x s q s1] event_wait_call [of w a n x s q s1] by auto
  moreover have "moves daemon_ok (evolution.R w) (fn params)"
    using fn(2) evolution.M_event_methods by auto
  from movesD [OF this ok] run \<open>s1 = s'\<close> have "daemon_ok s'" by simp
  ultimately show ?thesis by blast
qed

lemma snapshot_fields:
  "snapshot_json n = JObj [(''events'', JList (map JObj (events n))), (''latest_seq'', JInt (latest_seq n)),
     (''oldest_seq'', JInt (oldest_seq n)), (''boot_id'', JStr (snap_boot n))]"
  by (simp add: snapshot_json_def)

lemma messages_record:
  assumes "daemon_ok s" shows "\<exists>new. log_adds (d_events s) new (d_events (handle_messages w msgs s))"
  using evolution.M_all [OF assms, of w msgs] unfolding daemon_rel_def log_grows_def by blast

lemma client_run_prints:
  assumes "client_run w a k s c s' c'" and "daemon_ok s" and "recorded_ok (es, d_events s)"
    and "tail.up_to_date n0 [] (es, d_events s) c"
    and "0 \<le> failures c" and "failures c + int k \<le> max_failures a"
  shows "\<exists>new. log_adds (d_events s) new (d_events s') \<and> recorded_ok (es @ new, d_events s') \<and>
    tail.up_to_date n0 [] (es @ new, d_events s') c'"
  using assms
proof (induction arbitrary: es rule: client_run.induct)
  case (stay s c)
  then show ?case by (intro exI [of _ "[]"]) simp
next
  case (lost k s m c s' c')
  from tail.lost_up_to_date [OF lost.prems(3), of a m] lost.prems(4,5)
  have "tail.up_to_date n0 [] (es, d_events s) (client_reply a (Inl (OSError m)) c)"
    and "0 \<le> failures (client_reply a (Inl (OSError m)) c)"
    and "failures (client_reply a (Inl (OSError m)) c) + int k \<le> max_failures a" by simp_all
  from lost.IH [OF lost.prems(1,2) this] show ?case .
next
  case (served c meth params i msgs s r s2 k s' c')
  let ?s1 = "handle_messages w msgs s"
  obtain new1 where new1: "log_adds (d_events s) new1 (d_events ?s1)" using messages_record [OF served.prems(1)] by blast
  have ok1: "daemon_ok ?s1" using evolution.M_all [OF served.prems(1), of w msgs] by blast
  have c: "phase c = Polling" using served.prems(3) by (simp add: tail.up_to_date_def)
  obtain n d where n: "cursor c = JInt n" and r: "r = Inr (JObj d)"
    using served.hyps(3) by (auto simp: answered_def split: json.splits sum.splits)
  from poll_call [OF ok1 served.hyps(1) c n served.hyps(2) [unfolded r]]
  have d: "JObj d = snapshot_json (take_snapshot (d_events ?s1) n)" and s2: "d_events s2 = d_events ?s1" "daemon_ok s2"
    by blast+
  have grows: "recorded_grows (es, d_events s) (es @ new1, d_events s2)"
    using new1 s2(1) by (simp add: recorded_grows_def)
  have covers: "window_covers (es @ new1, d_events s2) n"
    using served.hyps(3) d n s2(1) by (simp add: answered_def r snapshot_fields window_covers_def)
  have evs: "dget d ''events'' = JList (map JObj (events (take_snapshot (snd (es @ new1, d_events s2)) n)))"
    using d s2(1) by (simp add: snapshot_fields)
  from tail.poll_up_to_date [OF served.prems(2) grows served.prems(3) n covers evs, of a]
  have upd: "tail.up_to_date n0 [] (es @ new1, d_events s2) (client_reply a r c)" "failures (client_reply a r c) = 0"
    by (simp_all add: r)
  have "0 \<le> failures (client_reply a r c)" and "failures (client_reply a r c) + int k \<le> max_failures a"
    using upd(2) served.prems(4,5) by simp_all
  from served.IH [OF s2(2) recorded_later [OF served.prems(2) grows] upd(1) this]
  obtain new2 where "log_adds (d_events s2) new2 (d_events s')" "recorded_ok (es @ new1 @ new2, d_events s')"
    "tail.up_to_date n0 [] (es @ new1 @ new2, d_events s') c'" by auto
  with log_adds_trans [OF new1] s2(1) show ?case by (intro exI [of _ "new1 @ new2"]) simp
qed

subsection \<open>Properties\<close>

text \<open>
  C29. Every event reaches the design tool once. A client that starts without a resume point, whose
  first call succeeds, and whose later calls either fail to connect (no more often than it
  tolerates) or are answered without a gap, prints exactly the events the daemon has emitted since
  the first contact, one line each, in the order of their numbers, whatever other clients did in between.
\<close>

theorem client_prints_all:
  assumes ok: "daemon_ok s" and wf: "list_all well_formed_event (evs (d_events s))" and since: "c_since a \<le> 0"
    and contact: "client_request a (client_start a) = Some (meth, params)" "call (methods w) i meth params s = (Inr v, s1)"
    and run: "client_run w a k s1 (client_reply a (Inr v) (client_start a)) s' c'" and k: "int k \<le> max_failures a"
  shows "\<exists>new. log_adds (d_events s1) new (d_events s') \<and> printed c' = map event_text new \<and> phase c' = Polling"
proof -
  let ?es = "evs (d_events s)"
  have log: "log_ok (d_events s)" using ok by (simp add: daemon_ok_def)
  then have rec: "recorded_ok (?es, d_events s)" using wf by (auto simp: recorded_ok_def log_ok_def)
  have pc: "meth = ''event.list''" "params = client_params a (JInt 0) None"
    using contact(1) since by (auto simp: client_request_def client_start_def max_def)
  obtain q s2 where q: "m_event_list w params s = (q, s2)" by fastforce
  from call_known [where methods = "methods w", OF event_methods(1) q, of i] contact(2) pc(1)
  have "q = Inr v" "s2 = s1" by (simp_all add: seen_Inr)
  with event_list_call [of w a 0 None s q s2] q pc(2)
  have v: "v = snapshot_json (take_snapshot (d_events s) 0)" and s1: "d_events s1 = d_events s" by auto
  have "moves daemon_ok (evolution.R w) (m_event_list w params)" by (rule evolution.M_event_methods)
  from movesD [OF this ok] q \<open>s2 = s1\<close> have ok1: "daemon_ok s1" by simp
  have "\<forall>e \<in> set (fst (?es, d_events s)). event_seq e \<le> seqno (d_events s)" using log by (simp add: log_ok_def)
  from tail.fresh_contact [OF since this, of "[(''events'', JList (map JObj (events (take_snapshot (d_events s) 0)))),
      (''latest_seq'', JInt (seqno (d_events s))), (''oldest_seq'', JInt (oldest_seq (take_snapshot (d_events s) 0))),
      (''boot_id'', JStr (snap_boot (take_snapshot (d_events s) 0)))]"]
  have upd: "tail.up_to_date (seqno (d_events s)) [] (?es, d_events s1) (client_reply a (Inr v) (client_start a))"
    and f: "failures (client_reply a (Inr v) (client_start a)) = 0"
    using s1 by (simp_all add: v snapshot_fields take_snapshot_def)
  from client_run_prints [OF run ok1 _ upd] rec s1 f k obtain new where
    new: "log_adds (d_events s1) new (d_events s')" "tail.up_to_date (seqno (d_events s)) [] (?es @ new, d_events s') c'"
    by auto
  have "event_seq e > seqno (d_events s)" if "e \<in> set new" for e
  proof -
    have "event_seq e \<in> set (map event_seq new)" using that by simp
    then show ?thesis using new(1) s1 unfolding log_adds_def by (auto simp del: set_map)
  qed
  then have "filter (\<lambda>e. seqno (d_events s) < event_seq e) new = new" by (simp add: filter_id_conv)
  moreover have "filter (\<lambda>e. seqno (d_events s) < event_seq e) ?es = []"
    using log by (auto simp: filter_empty_conv log_ok_def not_less)
  ultimately show ?thesis using new by (auto simp: tail.up_to_date_def tail.seen_def)
qed

lemma unreachable_phase:
  assumes "phase c = Polling" and "0 \<le> failures c"
  shows "phase (fold (client_reply a) (map (\<lambda>m. Inl (OSError m)) ms) c) =
    (if ms = [] \<or> failures c + int (length ms) \<le> max_failures a then Polling else Exited 1)"
  using assms
proof (induction ms arbitrary: c)
  case (Cons m ms)
  let ?c = "client_reply a (Inl (OSError m)) c"
  have stuck: "phase (fold (client_reply a) rs d) = Exited 1" if "phase d = Exited 1" for rs d
    using that by (induction rs arbitrary: d) (simp_all add: client_reply_def)
  show ?case
  proof (cases "failures c + 1 \<le> max_failures a")
    case True
    then have "phase ?c = Polling" "failures ?c = failures c + 1"
      using Cons.prems by (simp_all add: client_reply_def poll_error_def unreachable_def Let_def)
    with Cons.IH [of ?c] Cons.prems True show ?thesis by auto
  next
    case False
    then have "phase ?c = Exited 1"
      using Cons.prems by (simp add: client_reply_def poll_error_def unreachable_def say_def Let_def)
    with stuck False show ?thesis by auto
  qed
qed simp

text \<open>
  C30. The client gives up in the end. After a successful poll it survives exactly \<open>max_failures\<close>
  consecutive failures to connect, and exits with code 1 at the next one.
\<close>

theorem client_gives_up:
  assumes "phase c = Polling" and "failures c = 0" and "0 \<le> max_failures a"
  shows "phase (fold (client_reply a) (map (\<lambda>m. Inl (OSError m)) ms) c) =
    (if int (length ms) \<le> max_failures a then Polling else Exited 1)"
  using unreachable_phase [OF assms(1), of a ms] assms(2,3) by auto

text \<open>
  A tunnel without \<open>event.wait\<close>: the client falls back to polling \<open>event.list\<close> with the same cursor.
\<close>

lemma client_falls_back:
  assumes "phase c = Polling" and "have_wait c"
  shows "client_request a (client_reply a (Inl (RpcError METHOD_NOT_FOUND m data)) c) =
    Some (''event.list'', client_params a (cursor c) None)"
  using assms by (simp add: client_reply_def poll_error_def say_def client_request_def)

subsection \<open>Witnesses\<close>

definition demo_args :: client_args where
  "demo_args = \<lparr>c_since = 0, c_session = None, wait_timeout = 25, max_failures = 60, c_host = ''127.0.0.1'', c_port = 47891\<rparr>"

definition demo_contact :: "reply \<times> daemon" where
  "demo_contact = call (methods demo_world) ''1'' ''event.list'' (client_params demo_args (JInt 0) None) demo_busy"

definition demo_client :: client where
  "demo_client = client_reply demo_args (fst demo_contact) (client_start demo_args)"

definition demo_poll :: "reply \<times> daemon" where
  "demo_poll = call (methods demo_world) ''2'' ''event.wait'' (client_params demo_args (cursor demo_client) (Some 25))
     (handle_messages demo_world demo_messages (snd demo_contact))"

lemma demo_contact_ok: "case fst demo_contact of Inr _ \<Rightarrow> True | _ \<Rightarrow> False"
  by code_simp

lemma demo_poll_ok: "phase demo_client = Polling \<and> have_wait demo_client \<and> answered demo_client (fst demo_poll)"
  by code_simp

theorem client_prints_all_witness:
  "\<exists>new. printed (client_reply demo_args (fst demo_poll) demo_client) = map event_text new \<and>
     log_adds (d_events (snd demo_contact)) new (d_events (snd demo_poll))"
proof -
  obtain v where v: "fst demo_contact = Inr v" using demo_contact_ok by (auto split: sum.splits)
  have run: "client_run demo_world demo_args 0 (snd demo_contact) demo_client (snd demo_poll)
      (client_reply demo_args (fst demo_poll) demo_client)"
  proof (rule client_run.served)
    show "client_request demo_args demo_client =
        Some (''event.wait'', client_params demo_args (cursor demo_client) (Some 25))"
      using demo_poll_ok by (simp add: client_request_def) (simp add: demo_args_def)
    show "call (methods demo_world) ''2'' ''event.wait'' (client_params demo_args (cursor demo_client) (Some 25))
        (handle_messages demo_world demo_messages (snd demo_contact)) = (fst demo_poll, snd demo_poll)"
      by (simp add: demo_poll_def)
    show "answered demo_client (fst demo_poll)" using demo_poll_ok by blast
  qed (rule client_run.stay)
  have "list_all well_formed_event (evs (d_events demo_busy))" by code_simp
  moreover have "client_request demo_args (client_start demo_args) = Some (''event.list'', client_params demo_args (JInt 0) None)"
    by (simp add: client_request_def client_start_def) (simp add: demo_args_def)
  moreover have "call (methods demo_world) ''1'' ''event.list'' (client_params demo_args (JInt 0) None) demo_busy =
      (Inr v, snd demo_contact)"
    using v by (simp add: demo_contact_def prod_eq_iff)
  moreover have "client_reply demo_args (Inr v) (client_start demo_args) = demo_client" using v by (simp add: demo_client_def)
  ultimately show ?thesis
    using client_prints_all [OF demo_busy_ok, of demo_args _ _ demo_world _ v "snd demo_contact" 0 "snd demo_poll"] run
    by (fastforce simp: demo_args_def)
qed

theorem client_gives_up_witness:
  "phase (fold (client_reply demo_args) (map (\<lambda>m. Inl (OSError m)) (replicate 61 ''refused'')) demo_client) = Exited 1"
proof -
  have "failures demo_client = 0" by code_simp
  with client_gives_up [of demo_client demo_args "replicate 61 ''refused''"] demo_poll_ok
  show ?thesis by (simp add: demo_args_def)
qed

end
