(* ===== verification/Skill_Rpc.thy ===== *)
theory Skill_Rpc
  imports Tunnel_Safety
begin

section \<open>The SKILL bridge and the clients' endpoint\<close>

text \<open>
  \<open>skillrpc.py\<close>: one RPC call per process for the SKILL side, which has no JSON. The result is printed as
  one s-expression on one line. The files of the clients resolve the tunnel's address in their own
  copies of one function; they are here as \<open>skill_endpoint\<close>, \<open>tool_endpoint\<close>, \<open>client_endpoint\<close> and
  \<open>cli_endpoint\<close>. The state file is what reading it gives: None when it is absent or no JSON.
\<close>

subsection \<open>Address\<close>

text \<open>\<open>x or st.get(k) or dflt\<close>, the last of which may raise\<close>

definition first_set :: "json \<Rightarrow> json \<Rightarrow> string \<Rightarrow> exn + json \<Rightarrow> exn + json" where
  "first_set x st k dflt =
     (if truthy x then Inr x
      else case jget st k of
             Inl e \<Rightarrow> Inl e
           | Inr v \<Rightarrow> (if truthy v then Inr v else dflt))"

definition endpoint :: "environ \<Rightarrow> json \<Rightarrow> json \<Rightarrow> json \<Rightarrow> exn + json \<times> int" where
  "endpoint env st host port =
     (case first_set host st ''host'' (Inr (JStr (resolve_host env None))) of
        Inl e \<Rightarrow> Inl e
      | Inr h \<Rightarrow>
          (case first_set port st ''port'' (map_sum id JInt (resolve_port env None)) of
             Inl e \<Rightarrow> Inl e
           | Inr p \<Rightarrow> map_sum id (\<lambda>n. (h, n)) (py_int p)))"

definition read_or_empty :: "json option \<Rightarrow> json" where
  "read_or_empty state = (case state of None \<Rightarrow> JObj [] | Some v \<Rightarrow> v)"

definition skill_endpoint :: "environ \<Rightarrow> json option \<Rightarrow> json \<Rightarrow> json \<Rightarrow> exn + json \<times> int" where
  "skill_endpoint env state host port =
     (if \<not> truthy host \<or> \<not> truthy port then endpoint env (read_or_empty state) host port
      else map_sum id (\<lambda>n. (host, n)) (py_int port))"

definition tool_endpoint :: "environ \<Rightarrow> json option \<Rightarrow> json \<Rightarrow> json \<Rightarrow> exn + json \<times> int" where
  "tool_endpoint env state host port =
     (if truthy host \<and> truthy port then map_sum id (\<lambda>n. (host, n)) (py_int port)
      else endpoint env (read_or_empty state) host port)"

definition client_endpoint :: "environ \<Rightarrow> json option \<Rightarrow> json \<Rightarrow> json \<Rightarrow> exn + json \<times> int" where
  "client_endpoint env state host port =
     (if \<not> truthy host \<or> \<not> truthy port then endpoint env (read_or_empty state) host port
      else map_sum id (\<lambda>n. (host, n)) (py_int port))"

definition cli_endpoint :: "environ \<Rightarrow> json option \<Rightarrow> json \<Rightarrow> json \<Rightarrow> exn + json \<times> int" where
  "cli_endpoint env state host port =
     endpoint env (py_or (case state of None \<Rightarrow> JNull | Some v \<Rightarrow> v) (JObj [])) host port"

subsection \<open>S-expressions\<close>

definition escape :: "string \<Rightarrow> string" where
  "escape s =
     replace_char CHR 0x0A [CHR 0x5C, CHR ''n'']
       (replace_char CHR 0x22 [CHR 0x5C, CHR 0x22] (replace_char CHR 0x5C [CHR 0x5C, CHR 0x5C] s))"

definition quoted :: "string \<Rightarrow> string" where
  "quoted s = CHR 0x22 # escape s @ [CHR 0x22]"

fun to_sexpr :: "json \<Rightarrow> string" where
  "to_sexpr JNull = ''nil''"
| "to_sexpr (JBool b) = (if b then ''t'' else ''nil'')"
| "to_sexpr (JInt i) = show_int i"
| "to_sexpr (JFloat x) = flt_repr x"
| "to_sexpr (JStr s) = quoted s"
| "to_sexpr (JList xs) = ''('' @ join '' '' (map to_sexpr xs) @ '')''"
| "to_sexpr (JObj d) = ''('' @ join '' '' (map (\<lambda>(k, v). ''('' @ quoted k @ '' '' @ to_sexpr v @ '')'') d) @ '')''"

subsection \<open>The helper\<close>

record skill_args =
  s_method :: string
  s_param :: "string list"
  s_param_json :: "string list"
  s_file :: "(exn + json) option"

definition set_param :: "string \<Rightarrow> dict \<Rightarrow> dict" where
  "set_param kv params = (case partition_at CHR ''='' kv of (k, v) \<Rightarrow> dset k (JStr v) params)"

fun set_json_params :: "(string \<Rightarrow> json option) \<Rightarrow> string list \<Rightarrow> dict \<Rightarrow> exn + dict" where
  "set_json_params parse [] params = Inr params"
| "set_json_params parse (kv # kvs) params =
     (case partition_at CHR ''='' kv of
        (k, v) \<Rightarrow>
          (case parse v of
             None \<Rightarrow> Inl (ValueError ''not a JSON text'')
           | Some x \<Rightarrow> set_json_params parse kvs (dset k x params)))"

definition skill_params :: "(string \<Rightarrow> json option) \<Rightarrow> skill_args \<Rightarrow> exn + dict" where
  "skill_params parse a =
     (case (case s_file a of
              None \<Rightarrow> Inr []
            | Some (Inl e) \<Rightarrow> Inl e
            | Some (Inr (JObj d)) \<Rightarrow> Inr (dict_update [] d)
            | Some (Inr _) \<Rightarrow> Inr []) of
        Inl e \<Rightarrow> Inl e
      | Inr p0 \<Rightarrow>
          map_sum id (\<lambda>p. if s_method a = ''session.register'' then [(''client'', JObj p)] else p)
            (set_json_params parse (s_param_json a) (fold set_param (s_param a) p0)))"

text \<open>The line for an outcome; any other exception ends the process without one.\<close>

definition skill_line :: "json \<Rightarrow> int \<Rightarrow> exn + json \<Rightarrow> exn + string" where
  "skill_line host port r =
     (case r of
        Inr v \<Rightarrow> Inr (''(t '' @ to_sexpr v @ '')'' @ [CHR 0x0A])
      | Inl (RpcError code m _) \<Rightarrow>
          Inr (''(nil '' @ to_sexpr (JObj [(''code'', JInt code), (''message'', JStr m)]) @ '')'' @ [CHR 0x0A])
      | Inl (OSError m) \<Rightarrow>
          Inr (''(nil '' @ to_sexpr (JObj [(''code'', JInt (- 32000)), (''message'', JStr
            (''cannot reach tunnel at '' @ py_str host @ '':'' @ show_int port @ '' ('' @ m @ '')''))]) @ '')'' @ [CHR 0x0A])
      | Inl e \<Rightarrow> Inl e)"

text \<open>
  One run: \<open>down\<close> is the error of the connection, if the tunnel cannot be reached.
\<close>

definition skill_main ::
  "world \<Rightarrow> string \<Rightarrow> string option \<Rightarrow> environ \<Rightarrow> json option \<Rightarrow> json \<Rightarrow> json \<Rightarrow> skill_args \<Rightarrow> string step" where
  "skill_main w i down env state host port a s =
     (case skill_endpoint env state host port of
        Inl e \<Rightarrow> (Inl e, s)
      | Inr (h, p) \<Rightarrow>
          (case skill_params (loads w) a of
             Inl e \<Rightarrow> (skill_line h p (Inl e), s)
           | Inr params \<Rightarrow>
               (case down of
                  Some m \<Rightarrow> (skill_line h p (Inl (OSError m)), s)
                | None \<Rightarrow>
                    (case call (methods w) i (s_method a) params s of (r, s') \<Rightarrow> (skill_line h p r, s')))))"

subsection \<open>Numbers are plain text\<close>

definition digit :: "char set" where
  "digit = set ''0123456789''"

definition numeric :: "char set" where
  "numeric = set ''0123456789.-+einfa''"

lemma digit_of: "n < 10 \<Longrightarrow> char_of (48 + n :: nat) \<in> digit"
proof -
  assume "n < 10"
  moreover have "\<forall>n \<in> {0, 1, 2, 3, 4, 5, 6, 7, 8, 9 :: nat}. char_of (48 + n) \<in> digit"
    unfolding digit_def by code_simp
  moreover have "n \<in> {0, 1, 2, 3, 4, 5, 6, 7, 8, 9}" using \<open>n < 10\<close> by auto
  ultimately show ?thesis by blast
qed

lemma digit_numeric: "digit \<subseteq> numeric"
  by (auto simp: digit_def numeric_def)

lemma show_nat_digits: "set (show_nat n) \<subseteq> digit \<and> show_nat n \<noteq> []"
proof (induction n rule: show_nat.induct)
  case (1 n)
  then show ?case by (subst (1 2) show_nat.simps) (auto simp: digit_of)
qed

lemma show_nat_numeric: "set (show_nat n) \<subseteq> numeric"
  using show_nat_digits [of n] digit_numeric by blast

lemma strip_zeros_subset: "set (strip_zeros ds) \<subseteq> set ds"
  by (auto simp: strip_zeros_def dest: set_dropWhileD)

lemma layout_digits_numeric:
  assumes "set ds \<subseteq> numeric"
  shows "set (layout_digits ds e) \<subseteq> numeric \<and> layout_digits ds e \<noteq> []"
proof -
  have c: "CHR ''0'' \<in> numeric" "CHR ''.'' \<in> numeric" "CHR ''e'' \<in> numeric" "CHR ''-'' \<in> numeric"
    "CHR ''+'' \<in> numeric"
    by (simp_all add: numeric_def)
  have cut: "set (take k ds) \<subseteq> numeric" "set (drop k ds) \<subseteq> numeric" for k
    using assms set_take_subset set_drop_subset by fastforce+
  have head: "set (case ds of [] \<Rightarrow> [] | d # r \<Rightarrow> (if r = [] then [d] else d # CHR ''.'' # r)) \<subseteq> numeric"
    using assms c by (cases ds) auto
  have exp: "set (if length (show_nat n) < 2 then CHR ''0'' # show_nat n else show_nat n) \<subseteq> numeric" for n
    using show_nat_numeric [of n] c by auto
  show ?thesis
  proof (cases "- 4 \<le> e \<and> e < 16")
    case True
    then show ?thesis using assms c cut by (auto simp: layout_digits_def Let_def)
  next
    case False
    then have "layout_digits ds e =
        (case ds of [] \<Rightarrow> [] | d # r \<Rightarrow> (if r = [] then [d] else d # CHR ''.'' # r)) @
        (if e < 0 then ''e-'' else ''e+'') @
        (if length (show_nat (nat \<bar>e\<bar>)) < 2 then CHR ''0'' # show_nat (nat \<bar>e\<bar>) else show_nat (nat \<bar>e\<bar>))"
      unfolding layout_digits_def Let_def by (simp only: if_False)
    then show ?thesis using head exp [of "nat \<bar>e\<bar>"] c by (simp only: set_append) auto
  qed
qed

lemma repr_pos_numeric: "set (repr_pos q) \<subseteq> numeric \<and> repr_pos q \<noteq> []"
proof -
  have "set (strip_zeros (show_nat n)) \<subseteq> numeric" for n
    using strip_zeros_subset show_nat_numeric by blast
  note layout_digits_numeric [OF this]
  then show ?thesis by (simp add: repr_pos_def Let_def split: prod.split)
qed

lemma flt_repr_numeric: "set (flt_repr x) \<subseteq> numeric \<and> flt_repr x \<noteq> []"
proof -
  have "CHR ''-'' \<in> numeric" "set ''0.0'' \<subseteq> numeric" "set ''inf'' \<subseteq> numeric" "set ''-inf'' \<subseteq> numeric"
    "set ''nan'' \<subseteq> numeric"
    by (simp_all add: numeric_def)
  then show ?thesis using repr_pos_numeric by (cases x) auto
qed

lemma show_int_numeric: "set (show_int i) \<subseteq> numeric \<and> show_int i \<noteq> []"
proof -
  have "CHR ''-'' \<in> numeric" by (simp add: numeric_def)
  then show ?thesis using show_nat_numeric show_nat_digits by (auto simp: show_int_def)
qed

subsection \<open>A reader\<close>

text \<open>
  The SKILL side reads the line back: white space separates, parentheses nest, a string ends at the
  next bare quote, and a backslash quotes one character, with \<open>n\<close> for a new line. The open lists
  are a stack, each with its items in reverse.
\<close>

datatype sexp = Symbol string | Text string | Node "sexp list"

datatype mode = Plain | Word string | Inside string | Quoting string

type_synonym reader = "mode \<times> sexp list list"

definition gap :: "char set" where
  "gap = set [CHR '' '', CHR 0x0A]"

definition delimiter :: "char set" where
  "delimiter = gap \<union> set [CHR ''('', CHR '')'', CHR 0x22]"

fun push :: "sexp \<Rightarrow> sexp list list \<Rightarrow> sexp list list" where
  "push x [] = [[x]]"
| "push x (xs # st) = (x # xs) # st"

definition plain :: "char \<Rightarrow> sexp list list \<Rightarrow> reader option" where
  "plain c st =
     (if c \<in> gap then Some (Plain, st)
      else if c = CHR ''('' then Some (Plain, [] # st)
      else if c = CHR '')'' then (case st of xs # ys # st' \<Rightarrow> Some (Plain, push (Node (rev xs)) (ys # st')) | _ \<Rightarrow> None)
      else if c = CHR 0x22 then Some (Inside [], st)
      else Some (Word [c], st))"

fun feed :: "char \<Rightarrow> reader \<Rightarrow> reader option" where
  "feed c (Plain, st) = plain c st"
| "feed c (Word w, st) = (if c \<in> delimiter then plain c (push (Symbol (rev w)) st) else Some (Word (c # w), st))"
| "feed c (Inside w, st) =
     (if c = CHR 0x22 then Some (Plain, push (Text (rev w)) st)
      else if c = CHR 0x5C then Some (Quoting w, st)
      else Some (Inside (c # w), st))"
| "feed c (Quoting w, st) = Some (Inside ((if c = CHR ''n'' then CHR 0x0A else c) # w), st)"

fun feeds :: "string \<Rightarrow> reader \<Rightarrow> reader option" where
  "feeds [] r = Some r"
| "feeds (c # s) r = (case feed c r of None \<Rightarrow> None | Some r' \<Rightarrow> feeds s r')"

definition read_sexps :: "string \<Rightarrow> sexp list option" where
  "read_sexps s = (case feeds s (Plain, [[]]) of Some (Plain, [xs]) \<Rightarrow> Some (rev xs) | _ \<Rightarrow> None)"

text \<open>What the SKILL side sees of a value.\<close>

fun sexp_of :: "json \<Rightarrow> sexp" where
  "sexp_of JNull = Symbol ''nil''"
| "sexp_of (JBool b) = Symbol (if b then ''t'' else ''nil'')"
| "sexp_of (JInt i) = Symbol (show_int i)"
| "sexp_of (JFloat x) = Symbol (flt_repr x)"
| "sexp_of (JStr s) = Text s"
| "sexp_of (JList xs) = Node (map sexp_of xs)"
| "sexp_of (JObj d) = Node (map (\<lambda>(k, v). Node [Text k, sexp_of v]) d)"

lemma feeds_append: "feeds (s @ t) r = (case feeds s r of None \<Rightarrow> None | Some r' \<Rightarrow> feeds t r')"
  by (induction s arbitrary: r) (auto split: option.split)

lemma feeds_word: "set s \<inter> delimiter = {} \<Longrightarrow> feeds s (Word w, st) = Some (Word (rev s @ w), st)"
  by (induction s arbitrary: w) auto

lemma feeds_symbol:
  assumes "s \<noteq> []" and "set s \<inter> delimiter = {}" and "d \<in> delimiter"
  shows "feeds (s @ d # t) (Plain, st) = feeds (d # t) (Plain, push (Symbol s) st)"
proof -
  obtain c s' where s: "s = c # s'" using assms(1) by (cases s) auto
  with assms(2) have "c \<notin> delimiter" by simp
  then have "feed c (Plain, st) = Some (Word [c], st)" by (auto simp: plain_def delimiter_def)
  with s assms(2,3) feeds_word [of s' "[c]" st] show ?thesis by (simp add: feeds_append)
qed

lemma escape_simps [simp]:
  "escape [] = []"
  "escape (c # s) =
     (if c = CHR 0x5C then [CHR 0x5C, CHR 0x5C] else if c = CHR 0x22 then [CHR 0x5C, CHR 0x22]
      else if c = CHR 0x0A then [CHR 0x5C, CHR ''n''] else [c]) @ escape s"
  by (simp_all add: escape_def replace_char_def)

lemma feeds_escape: "feeds (escape s @ t) (Inside w, st) = feeds t (Inside (rev s @ w), st)"
  by (induction s arbitrary: w) simp_all

lemma feeds_quoted: "feeds (quoted s @ t) (Plain, st) = feeds t (Plain, push (Text s) st)"
  by (simp add: quoted_def plain_def gap_def feeds_escape)

lemma numeric_symbol:
  "set s \<subseteq> numeric \<and> s \<noteq> [] \<Longrightarrow> d \<in> delimiter \<Longrightarrow>
   feeds (s @ d # t) (Plain, st) = feeds (d # t) (Plain, push (Symbol s) st)"
  by (rule feeds_symbol) (auto simp: numeric_def delimiter_def gap_def)

lemma feeds_open: "feeds (CHR ''('' # t) (Plain, st) = feeds t (Plain, [] # st)"
  by (simp add: plain_def gap_def)

lemma feeds_close: "feeds (CHR '')'' # t) (Plain, xs # ys # st) = feeds t (Plain, (Node (rev xs) # ys) # st)"
  by (simp add: plain_def gap_def)

lemma feeds_gap: "d \<in> gap \<Longrightarrow> feeds (d # t) (Plain, st) = feeds t (Plain, st)"
  by (simp add: plain_def)

lemma delimiters [simp]: "CHR '' '' \<in> delimiter" "CHR '')'' \<in> delimiter" "CHR '' '' \<in> gap" "CHR 0x0A \<in> gap"
  by (simp_all add: delimiter_def gap_def)

lemma feeds_join:
  assumes "\<And>x d t zs. x \<in> set xs \<Longrightarrow> d \<in> delimiter \<Longrightarrow>
    feeds (f x @ d # t) (Plain, zs # st) = feeds (d # t) (Plain, (g x # zs) # st)"
  shows "feeds (join '' '' (map f xs) @ CHR '')'' # t) (Plain, ys # st) =
    feeds (CHR '')'' # t) (Plain, (rev (map g xs) @ ys) # st)"
  using assms
proof (induction "'' ''" "map f xs" arbitrary: xs ys rule: join.induct)
  case (3 x x' xs0)
  then obtain v v' vs where xs: "xs = v # v' # vs" by (metis list.map_disc_iff list.exhaust list.simps(9) list.distinct(1) list.inject)
  have first: "feeds (f v @ CHR '' '' # join '' '' (map f (v' # vs)) @ CHR '')'' # t) (Plain, ys # st) =
      feeds (join '' '' (map f (v' # vs)) @ CHR '')'' # t) (Plain, (g v # ys) # st)"
    using 3(3) [of v "CHR '' ''"] xs by (simp add: feeds_gap del: feeds.simps)
  have "feeds (join '' '' (map f (v' # vs)) @ CHR '')'' # t) (Plain, (g v # ys) # st) =
      feeds (CHR '')'' # t) (Plain, (rev (map g (v' # vs)) @ g v # ys) # st)"
    by (rule 3(1)) (use 3(2,3) xs in auto)
  with first xs show ?case by (simp del: feeds.simps)
qed auto

text \<open>Reading what \<open>to_sexpr\<close> writes, in front of any delimiter.\<close>

lemma feeds_sexpr:
  "d \<in> delimiter \<Longrightarrow> feeds (to_sexpr v @ d # t) (Plain, zs # st) = feeds (d # t) (Plain, (sexp_of v # zs) # st)"
proof (induction v arbitrary: d t zs st rule: to_sexpr.induct)
  case 1
  then show ?case using feeds_symbol [of "''nil''"] by (simp add: delimiter_def gap_def del: feeds.simps)
next
  case (2 b)
  then show ?case using feeds_symbol [of "''nil''"] feeds_symbol [of "''t''"]
    by (simp add: delimiter_def gap_def del: feeds.simps)
next
  case (3 i)
  then show ?case using numeric_symbol [OF show_int_numeric] by simp
next
  case (4 x)
  then show ?case using numeric_symbol [OF flt_repr_numeric] by simp
next
  case (5 s)
  then show ?case by (simp add: feeds_quoted del: feeds.simps)
next
  case (6 xs)
  have "feeds (join '' '' (map to_sexpr xs) @ CHR '')'' # d # t) (Plain, [] # zs # st) =
      feeds (CHR '')'' # d # t) (Plain, (rev (map sexp_of xs) @ []) # zs # st)"
    by (rule feeds_join) (rule 6(1))
  then show ?case by (simp add: feeds_open feeds_close del: feeds.simps)
next
  case (7 kvs)
  let ?f = "\<lambda>(k, v). ''('' @ quoted k @ '' '' @ to_sexpr v @ '')''"
  let ?g = "\<lambda>(k, v). Node [Text k, sexp_of v]"
  have pair: "feeds (?f x @ c # u) (Plain, ys # st') = feeds (c # u) (Plain, (?g x # ys) # st')"
    if "x \<in> set kvs" for x c u ys st'
  proof -
    obtain k v where x: "x = (k, v)" by (cases x)
    show ?thesis using 7(1) [OF that x [symmetric], of "CHR '')''" "c # u"]
      by (simp add: x feeds_open feeds_quoted feeds_gap feeds_close del: feeds.simps)
  qed
  have "feeds (join '' '' (map ?f kvs) @ CHR '')'' # d # t) (Plain, [] # zs # st) =
      feeds (CHR '')'' # d # t) (Plain, (rev (map ?g kvs) @ []) # zs # st)"
    by (rule feeds_join) (rule pair)
  then show ?case by (simp add: feeds_open feeds_close del: feeds.simps)
qed

text \<open>No line break inside.\<close>

lemma numeric_line: "set s \<subseteq> numeric \<Longrightarrow> CHR 0x0A \<notin> set s"
  by (auto simp: numeric_def)

lemma escape_line: "CHR 0x0A \<notin> set (escape s)"
  by (induction s) simp_all

lemma join_line: "c \<notin> set sep \<Longrightarrow> (\<And>x. x \<in> set xs \<Longrightarrow> c \<notin> set x) \<Longrightarrow> c \<notin> set (join sep xs)"
  by (induction sep xs rule: join.induct) auto

lemma sexpr_line: "CHR 0x0A \<notin> set (to_sexpr v)"
proof (induction v rule: to_sexpr.induct)
  case (6 xs)
  have "CHR 0x0A \<notin> set (join '' '' (map to_sexpr xs))"
    by (rule join_line) (use 6 in auto)
  then show ?case by simp
next
  case (7 d)
  have "CHR 0x0A \<notin> set (join '' '' (map (\<lambda>(k, v). ''('' @ quoted k @ '' '' @ to_sexpr v @ '')'') d))"
    by (rule join_line) (use 7 in \<open>auto simp: quoted_def escape_line\<close>)
  then show ?case by simp
qed (use numeric_line show_int_numeric flt_repr_numeric escape_line in \<open>auto simp: quoted_def\<close>)

definition reads_as :: "string \<Rightarrow> sexp \<Rightarrow> bool" where
  "reads_as line x \<longleftrightarrow> read_sexps line = Some [x] \<and> (\<exists>b. line = b @ [CHR 0x0A] \<and> CHR 0x0A \<notin> set b)"

lemma reads_as_line:
  assumes "h = ''t'' \<or> h = ''nil''"
  shows "reads_as (''('' @ h @ '' '' @ to_sexpr v @ '')'' @ [CHR 0x0A]) (Node [Symbol h, sexp_of v])"
proof -
  have "feeds (h @ CHR '' '' # u) (Plain, zs # st) = feeds u (Plain, (Symbol h # zs) # st)" for u zs st
    using feeds_symbol [of h "CHR '' ''"] assms by (auto simp: delimiter_def gap_def feeds_gap simp del: feeds.simps)
  then have "read_sexps (''('' @ h @ '' '' @ to_sexpr v @ '')'' @ [CHR 0x0A]) = Some [Node [Symbol h, sexp_of v]]"
    by (simp add: read_sexps_def feeds_open feeds_sexpr feeds_close feeds_gap del: feeds.simps(2))
  moreover have "CHR 0x0A \<notin> set (''('' @ h @ '' '' @ to_sexpr v @ '')'')"
    using assms sexpr_line [of v] by auto
  ultimately show ?thesis unfolding reads_as_def by (metis append.assoc)
qed

lemma skill_line_Inl:
  "skill_line h p (Inl (RpcError c m data)) =
     Inr (''(nil '' @ to_sexpr (JObj [(''code'', JInt c), (''message'', JStr m)]) @ '')'' @ [CHR 0x0A])"
  by (simp add: skill_line_def)

lemma nil_line: "reads_as (''(nil '' @ to_sexpr v @ '')'' @ [CHR 0x0A]) (Node [Symbol ''nil'', sexp_of v])"
  using reads_as_line [of "''nil''" v] by simp

text \<open>What the line says of an outcome.\<close>

fun reply_sexp :: "exn + json \<Rightarrow> sexp" where
  "reply_sexp (Inr v) = Node [Symbol ''t'', sexp_of v]"
| "reply_sexp (Inl (RpcError c m _)) = Node [Symbol ''nil'', sexp_of (JObj [(''code'', JInt c), (''message'', JStr m)])]"
| "reply_sexp (Inl e) = Node [Symbol ''nil'', sexp_of (JObj [(''code'', JInt INTERNAL_ERROR),
     (''message'', JStr (exn_name e @ '': '' @ exn_str e))])]"

lemma seen_line: "\<exists>line. skill_line h p (seen_outcome r) = Inr line \<and> reads_as line (reply_sexp r)"
proof (cases r)
  case (Inr v)
  then show ?thesis using reads_as_line [of "''t''" v] by (simp add: skill_line_def)
next
  case (Inl e)
  then have "\<exists>c m d. seen_outcome r = Inl (RpcError c m d) \<and>
      reply_sexp r = Node [Symbol ''nil'', sexp_of (JObj [(''code'', JInt c), (''message'', JStr m)])]"
    by (cases e) simp_all
  then show ?thesis using nil_line by (metis skill_line_Inl)
qed

text \<open>
  C32. The SKILL side reads back what the tunnel answered. When the address and the parameters can be
  made and the method is known, the helper runs the method once with them and prints one line, with
  its only line break at the end. Reading the line gives a list of \<open>t\<close> and the method's result, or
  of \<open>nil\<close> and the error's code and message, for any result and any text in it.
\<close>

theorem skill_reply:
  assumes "skill_endpoint env state host port = Inr (h, p)"
    and "skill_params (loads w) a = Inr params"
    and "methods w (s_method a) = Some fn" and "fn params s = (r, s')"
  shows "\<exists>line. skill_main w i None env state host port a s = (Inr line, s') \<and> reads_as line (reply_sexp r)"
  using assms(1,2) seen_line [of h p r] call_known [where methods = "methods w" and fn = fn, OF assms(3), OF assms(4)]
  by (auto simp: skill_main_def)

text \<open>
  The four copies of the address lookup agree on every state file a daemon writes. The helper, the agent's
  tools and the event client give the same answer always; the command line gives the answer the
  others give when a state file that holds a false value (an empty object, null, an empty list) is
  taken as absent.
\<close>

theorem endpoints_agree:
  "skill_endpoint env state host port = tool_endpoint env state host port \<and>
   client_endpoint env state host port = tool_endpoint env state host port \<and>
   cli_endpoint env state host port =
     tool_endpoint env (case state of None \<Rightarrow> None | Some v \<Rightarrow> if truthy v then Some v else None) host port"
  by (auto simp: skill_endpoint_def client_endpoint_def tool_endpoint_def cli_endpoint_def endpoint_def first_set_def
    read_or_empty_def py_or_def split: option.split)

text \<open>The others fail on a state file that holds \<open>null\<close>, with no host given.\<close>

theorem null_state_file:
  "\<exists>m. tool_endpoint env (Some JNull) JNull JNull = Inl (AttributeError m)"
  "cli_endpoint env (Some JNull) JNull JNull = tool_endpoint env None JNull JNull"
  by (auto simp: tool_endpoint_def cli_endpoint_def endpoint_def first_set_def read_or_empty_def py_or_def)

text \<open>A parameter file that cannot be opened is reported as an unreachable tunnel.\<close>

theorem missing_file_blames_tunnel:
  assumes "skill_endpoint env state host port = Inr (h, p)" and "s_file a = Some (Inl (OSError m))"
  shows "skill_main w i down env state host port a s = skill_main w i (Some m) env state host port (a\<lparr>s_file := None, s_param_json := []\<rparr>) s"
  using assms by (simp add: skill_main_def skill_params_def)

subsection \<open>Concrete instance\<close>

definition demo_skill_args :: skill_args where
  "demo_skill_args = \<lparr>s_method = ''result.latest'', s_param = [], s_param_json = [], s_file = None\<rparr>"

theorem skill_reply_witness:
  "\<exists>line. fst (skill_main demo_world ''1'' None (\<lambda>_. None) None JNull JNull demo_skill_args demo_daemon) = Inr line \<and>
     reads_as line (Node [Symbol ''t'', Node [Node [Text ''result'', Symbol ''nil'']]])"
proof -
  have ep: "skill_endpoint (\<lambda>_. None) None JNull JNull = Inr (JStr DEFAULT_HOST, DEFAULT_PORT)"
    by (simp add: skill_endpoint_def endpoint_def first_set_def read_or_empty_def resolve_host_def resolve_port_def
        DEFAULT_HOST_def DEFAULT_PORT_def)
  have ps: "skill_params (loads demo_world) demo_skill_args = Inr []"
    by (simp add: skill_params_def demo_skill_args_def)
  have m: "methods demo_world (s_method demo_skill_args) = Some (m_result_latest demo_world)"
    by (simp add: methods_def method_table_def demo_skill_args_def)
  have run: "m_result_latest demo_world [] demo_daemon = (Inr (JObj [(''result'', JNull)]), demo_daemon)"
    by (simp add: m_result_latest_def ask_def latest_value_def load_latest_def demo_daemon_def Tunnel_init_def
        demo_home_def Registry_load_def ProposalStore_load_def TransactionStore_load_def RunStore_load_def
        JobStore_load_def)
  show ?thesis using skill_reply [where i = "''1''", OF ep ps m run] by auto
qed

end
