(* ===== verification/Read_Back.thy ===== *)
theory Read_Back
  imports Py_Strings
begin

section \<open>Numbers read back as they were written\<close>

text \<open>
  \<open>int(str(i))\<close> and \<open>float(repr(x))\<close>. A float is written with the fewest digits that round to it; that 17 digits are enough,
  and that the written form is read digit by digit to the same rational, is proved here.
\<close>

subsection \<open>Digits\<close>

lemma digit_char:
  assumes "n < 10" shows "is_digit (char_of (48 + n))" and "digit_val (char_of (48 + n)) = n"
  using assms by (simp_all add: is_digit_def digit_val_def)

definition stops :: "string \<Rightarrow> bool" where
  "stops t \<longleftrightarrow> (case t of [] \<Rightarrow> True | c # _ \<Rightarrow> \<not> is_digit c \<and> c \<noteq> CHR ''_'')"

lemma underscore_no_digit: "\<not> is_digit CHR ''_''"
  by (simp add: is_digit_def)

lemma scan_digits_stop: "list_all is_digit s \<Longrightarrow> stops t \<Longrightarrow> scan_digits (s @ t) = (map digit_val s, t)"
proof (induction s)
  case Nil
  then show ?case by (cases t) (auto simp: stops_def)
next
  case (Cons c s)
  then have r: "scan_digits (s @ t) = (map digit_val s, t)" and c: "is_digit c" by simp_all
  have "hd (s @ t) \<noteq> CHR ''_''" if "s @ t \<noteq> []"
    using that Cons(2,3) underscore_no_digit by (cases s; cases t) (auto simp: stops_def)
  with r c show ?case by (cases "s @ t"; cases "tl (s @ t)") auto
qed

lemma scan_digits_all: "list_all is_digit s \<Longrightarrow> scan_digits s = (map digit_val s, [])"
  using scan_digits_stop [of s "[]"] by (simp add: stops_def)

lemma show_nat_is_digit: "list_all is_digit (show_nat n)"
proof (induction n rule: show_nat.induct)
  case (1 n)
  then show ?case using digit_char(1) by (subst show_nat.simps) simp
qed

lemma show_nat_not_Nil: "show_nat n \<noteq> []"
  by (subst show_nat.simps) simp

lemma digits_val_snoc: "digits_val (ds @ [d]) = 10 * digits_val ds + int d"
  by (simp add: digits_val_def)

lemma digits_val_zeros: "digits_val (ds @ replicate z 0) = digits_val ds * 10 ^ z"
  by (induction z) (simp_all add: replicate_append_same [symmetric] digits_val_snoc flip: append_assoc)

lemma digits_val_lead: "digits_val (replicate z 0 @ ds) = digits_val ds"
proof -
  have "foldl (\<lambda>a d. 10 * a + int d) 0 (replicate z 0) = 0" by (induction z) simp_all
  then show ?thesis by (simp add: digits_val_def)
qed

lemma digits_val_0: "digits_val (0 # ds) = digits_val ds"
  using digits_val_lead [of 1 ds] by simp

lemma show_nat_val: "digits_val (map digit_val (show_nat n)) = int n"
proof (induction n rule: show_nat.induct)
  case (1 n)
  show ?case
  proof (cases "n < 10")
    case True
    then show ?thesis using digit_char(2) by (subst show_nat.simps) (simp add: digits_val_def)
  next
    case False
    with 1 have "digits_val (map digit_val (show_nat n)) = 10 * int (n div 10) + int (n mod 10)"
      using digit_char(2) [of "n mod 10"] by (subst show_nat.simps) (simp add: digits_val_snoc)
    then show ?thesis by presburger
  qed
qed

text \<open>No number but zero begins with a zero.\<close>

lemma show_nat_first: "0 < n \<Longrightarrow> hd (show_nat n) \<noteq> CHR ''0''"
proof (induction n rule: show_nat.induct)
  case (1 n)
  show ?case
  proof (cases "n < 10")
    case True
    have "char_of (48 + n) \<noteq> CHR ''0''"
    proof
      assume "char_of (48 + n) = CHR ''0''"
      then have "digit_val (char_of (48 + n)) = digit_val CHR ''0''" by simp
      with digit_char(2) [OF True] 1(2) show False by (simp add: digit_val_def)
    qed
    with True show ?thesis by (subst show_nat.simps) simp
  next
    case False
    with 1 show ?thesis using show_nat_not_Nil by (subst show_nat.simps) simp
  qed
qed

lemma strip_plain: "\<forall>c \<in> set s. \<not> is_space c \<Longrightarrow> strip s = s"
proof -
  assume s: "\<forall>c \<in> set s. \<not> is_space c"
  then have "dropWhile is_space t = t" if "set t \<subseteq> set s" for t using that by (cases t) auto
  from this [of s] this [of "rev s"] show "strip s = s" by (simp add: strip_def lstrip_def rstrip_def)
qed

lemma scan_sign_digits: "list_all is_digit s \<Longrightarrow> scan_sign (s @ t) = (False, s @ t)" if "s \<noteq> []"
proof -
  have "\<not> is_digit CHR ''-''" "\<not> is_digit CHR ''+''" by (simp_all add: is_digit_def)
  with that show "list_all is_digit s \<Longrightarrow> scan_sign (s @ t) = (False, s @ t)" by (cases s) (auto simp: scan_sign_def)
qed

lemma strip_show_int: "strip (show_int i) = show_int i"
proof (rule strip_plain)
  have "\<not> is_space CHR ''-''" "is_digit c \<Longrightarrow> \<not> is_space c" for c by (auto simp: is_space_def is_digit_def)
  then show "\<forall>c \<in> set (show_int i). \<not> is_space c"
    using show_nat_is_digit by (auto simp: show_int_def list_all_iff)
qed

lemma scan_sign_show_int: "scan_sign (show_int i) = (i < 0, show_nat (nat \<bar>i\<bar>))"
  using scan_sign_digits [OF show_nat_not_Nil show_nat_is_digit, of _ "[]"] by (simp add: show_int_def) (simp add: scan_sign_def)

lemma parse_show_int: "parse_int (show_int i) = Some i"
  by (simp add: parse_int_def strip_show_int scan_sign_show_int scan_digits_all [OF show_nat_is_digit] show_nat_val show_nat_not_Nil)

subsection \<open>Seventeen digits are enough\<close>

lemma pow2_add: "pow2 (a + b) = pow2 a * pow2 b"
proof -
  have *: "pow2 e = 2 powi e" for e by (auto simp: pow2_def power_int_def field_simps)
  show ?thesis by (simp add: * power_int_add)
qed

lemma pow2_powi: "pow2 e = 2 powi e"
  by (auto simp: pow2_def power_int_def field_simps)

lemma pow10_powi: "pow10 e = 10 powi e"
  by (auto simp: pow10_def power_int_def field_simps)

lemma pow2_pos [simp]: "0 < pow2 e"
  by (simp add: pow2_powi)

lemma pow2_not_0 [simp]: "pow2 e \<noteq> 0"
  by (metis less_irrefl pow2_pos)

lemma pow2_mono: "a \<le> b \<Longrightarrow> pow2 a \<le> pow2 b"
  by (simp add: pow2_powi power_int_increasing)

lemma pow2_strict: "a < b \<Longrightarrow> pow2 a < pow2 b"
  by (simp add: pow2_powi power_int_strict_increasing)

lemma pow2_less: "pow2 a < pow2 b \<Longrightarrow> a < b"
  using pow2_mono [of b a] by force

lemma floor_log2_spec:
  assumes "0 < q" shows "pow2 (floor_log2 q) \<le> q" and "q < pow2 (floor_log2 q + 1)"
proof -
  obtain n d where nd: "quotient_of q = (n, d)" by fastforce
  have d: "0 < d" and q: "q = of_int n / of_int d" using quotient_of_denom_pos [OF nd] quotient_of_div [OF nd] by auto
  with assms have n: "0 < n" by (simp add: zero_less_divide_iff)
  define a b where "a = ilog2 (nat n)" and "b = ilog2 (nat d)"
  have nb: "(2::int) ^ a \<le> n \<and> n < 2 ^ Suc a" "(2::int) ^ b \<le> d \<and> d < 2 ^ Suc b"
    using ilog2_bounds [of "nat n"] ilog2_bounds [of "nat d"] n d
    by (auto simp: a_def b_def le_nat_iff nat_less_iff)
  then have nr: "pow2 (int a) \<le> of_int n" "of_int n < pow2 (int a + 1)" "pow2 (int b) \<le> of_int d" "of_int d < pow2 (int b + 1)"
  proof -
    have p: "pow2 (int k) = of_int (2 ^ k)" "pow2 (int k + 1) = of_int (2 ^ Suc k)" for k
      by (simp_all add: pow2_def nat_add_distrib)
    show "pow2 (int a) \<le> of_int n" "of_int n < pow2 (int a + 1)" "pow2 (int b) \<le> of_int d" "of_int d < pow2 (int b + 1)"
      using nb by (simp_all only: p of_int_le_iff of_int_less_iff)
  qed
  define k where "k = int a - int b"
  have up: "q < pow2 (k + 1)"
  proof -
    have "of_int n < pow2 (k + 1) * pow2 (int b)" using nr(2) by (simp add: k_def flip: pow2_add)
    also have "\<dots> \<le> pow2 (k + 1) * of_int d" using nr(3) by (intro mult_left_mono) (simp_all add: less_imp_le)
    finally show ?thesis using d by (simp add: q divide_less_eq)
  qed
  have low: "pow2 (k - 1) < q"
  proof -
    have "pow2 (k - 1) * of_int d < pow2 (k - 1) * pow2 (int b + 1)" using nr(4) by (intro mult_strict_left_mono) simp_all
    also have "\<dots> = pow2 (int a)" by (simp add: k_def flip: pow2_add)
    also have "\<dots> \<le> of_int n" by (rule nr(1))
    finally show ?thesis using d by (simp add: q less_divide_eq)
  qed
  have "floor_log2 q = (if pow2 k \<le> q then k else k - 1)" by (simp add: floor_log2_def nd k_def a_def b_def)
  then show "pow2 (floor_log2 q) \<le> q" "q < pow2 (floor_log2 q + 1)" using up low by auto
qed

lemma floor_log2_unique:
  assumes "pow2 k \<le> q" and "q < pow2 (k + 1)" shows "floor_log2 q = k"
proof -
  have q: "0 < q" using assms(1) pow2_pos [of k] by linarith
  have "k < floor_log2 q + 1" "floor_log2 q < k + 1"
    using pow2_less [OF le_less_trans [OF assms(1) floor_log2_spec(2) [OF q]]]
      pow2_less [OF le_less_trans [OF floor_log2_spec(1) [OF q] assms(2)]] by simp_all
  then show ?thesis by simp
qed

lemma round_near: "\<bar>x - of_int m\<bar> < 1 / 2 \<Longrightarrow> round_half_even x = m"
proof -
  assume x: "\<bar>x - of_int m\<bar> < 1 / 2"
  show ?thesis
  proof (cases "of_int m \<le> x")
    case True
    with x have "\<lfloor>x\<rfloor> = m" by (auto simp: floor_eq_iff)
    with x True show ?thesis by (simp add: round_half_even_def Let_def)
  next
    case False
    with x have "\<lfloor>x\<rfloor> = m - 1" by (auto simp: floor_eq_iff)
    with x False show ?thesis by (simp add: round_half_even_def Let_def)
  qed
qed

text \<open>A float is its significand times a power of two.\<close>

lemma double_form:
  assumes "to_double q = Fin q" and "0 < q"
  obtains m where "q = of_int m * pow2 (max (floor_log2 q) (- 1022) - 52)" "0 < m" "m < 2 ^ 53" "q < pow2 1024"
proof -
  let ?e = "max (floor_log2 q) (- 1022) - 52"
  let ?m = "round_half_even (q / pow2 ?e)"
  have q: "of_int ?m * pow2 ?e = q" "q < pow2 1024"
    using assms by (auto simp: to_double_def Let_def split: if_splits)
  then have "0 < of_int ?m * pow2 ?e" using assms(2) by simp
  then have pos: "0 < ?m" using pow2_pos [of ?e] by (auto simp: zero_less_mult_iff dest: less_asym)
  have "floor_log2 q + 1 \<le> 53 + ?e" by simp
  then have "q < pow2 (53 + ?e)" using floor_log2_spec(2) [OF assms(2)] pow2_mono less_le_trans by blast
  also have "\<dots> = of_int (2 ^ 53) * pow2 ?e" by (simp only: pow2_add) (simp add: pow2_def)
  finally have "of_int ?m * pow2 ?e < of_int (2 ^ 53) * pow2 ?e" by (simp only: q(1))
  then have "?m < 2 ^ 53" by (simp only: mult_less_cancel_right_pos [OF pow2_pos] of_int_less_iff)
  with that [of ?m] q pos show ?thesis by simp
qed

lemma to_double_by:
  assumes "0 < x" and "max (floor_log2 x) (- 1022) - 52 = e" and "\<bar>x - of_int m * pow2 e\<bar> < pow2 e / 2"
    and "of_int m * pow2 e < pow2 1024"
  shows "to_double x = Fin (of_int m * pow2 e)"
proof -
  have "x / pow2 e - of_int m = (x - of_int m * pow2 e) / pow2 e" by (simp add: diff_divide_distrib)
  then have "\<bar>x / pow2 e - of_int m\<bar> < 1 / 2" using assms(3) by (simp add: abs_divide divide_less_eq)
  then have "round_half_even (x / pow2 e) = m" by (rule round_near)
  with assms show ?thesis by (simp add: to_double_def Let_def)
qed

lemma read_near:
  assumes "to_double q = Fin q" and "0 < q" and near: "\<bar>x - q\<bar> < q / 2 ^ 54"
  shows "to_double x = Fin q"
proof -
  define k where "k = floor_log2 q"
  define e where "e = max k (- 1022) - 52"
  obtain m where m: "q = of_int m * pow2 e" "0 < m" "m < 2 ^ 53" "q < pow2 1024"
    using double_form [OF assms(1,2)] unfolding e_def k_def .
  have k: "pow2 k \<le> q" "q < pow2 (k + 1)" using floor_log2_spec [OF assms(2)] by (simp_all add: k_def)
  have step: "pow2 (e + 53) = 2 ^ 53 * pow2 e" "pow2 (e + 52) = 2 ^ 52 * pow2 e"
    by (simp_all add: pow2_add) (simp_all add: pow2_def)
  have top: "of_int m + 1 \<le> (2 :: rat) ^ 53"
  proof -
    have "m + 1 \<le> 2 ^ 53" using m(3) by simp
    then have "of_int (m + 1) \<le> (of_int (2 ^ 53) :: rat)" by (simp only: of_int_le_iff)
    then show ?thesis by simp
  qed
  have "q < 2 ^ 53 * pow2 e"
    unfolding m(1) using top by (intro mult_strict_right_mono) simp_all
  then have half: "\<bar>x - q\<bar> < pow2 e / 2" using near by simp
  have x: "0 < x" using near assms(2) by (simp add: abs_if split: if_splits)
  have below: "x < pow2 (e + 53)"
  proof -
    have "0 < pow2 e" by simp
    with half m(1) have "x < of_int m * pow2 e + pow2 e" by linarith
    also have "\<dots> = (of_int m + 1) * pow2 e" by (simp add: distrib_right)
    also have "\<dots> \<le> 2 ^ 53 * pow2 e" using top by (intro mult_right_mono) (simp_all add: less_imp_le)
    finally show ?thesis by (simp add: step)
  qed
  then have le: "floor_log2 x \<le> max k (- 1022)"
    using pow2_less [OF le_less_trans [OF floor_log2_spec(1) [OF x]]] by (force simp: e_def)
  show ?thesis
  proof (cases "max (floor_log2 x) (- 1022) = max k (- 1022)")
    case True
    with to_double_by [OF x, of e m] half m show ?thesis by (simp add: e_def)
  next
    case False
    with le have kk: "floor_log2 x < k" "- 1022 < k" and e: "e = k - 52" by (auto simp: e_def)
    have low: "x < pow2 k"
      using floor_log2_spec(2) [OF x] pow2_mono [of "floor_log2 x + 1" k] kk by simp
    have pk: "pow2 k = 2 ^ 52 * pow2 e" using step(2) by (simp add: e)
    have "q - pow2 e / 2 < 2 ^ 52 * pow2 e" using half low unfolding pk by linarith
    then have "of_int m * pow2 e - pow2 e / 2 < 2 ^ 52 * pow2 e" unfolding m(1) .
    then have "(of_int m - 1 / 2) * pow2 e < 2 ^ 52 * pow2 e" by (simp add: left_diff_distrib)
    then have "(of_int m :: rat) < 2 ^ 52 + 1 / 2" by simp
    then have "(of_int m :: rat) < of_int (2 ^ 52 + 1)" by simp
    then have "m < 2 ^ 52 + 1" by (simp only: of_int_less_iff)
    moreover have "of_int (2 ^ 52) * pow2 e \<le> of_int m * pow2 e" using k(1) pk m(1) by simp
    then have "2 ^ 52 \<le> m" by (simp only: mult_le_cancel_right_pos [OF pow2_pos] of_int_le_iff)
    ultimately have "m = 2 ^ 52" by simp
    then have q: "q = pow2 k" using m(1) pk by simp
    have e1: "pow2 e = 2 * pow2 (e - 1)" using pow2_add [of 1 "e - 1"] by (simp add: pow2_def)
    have n: "\<bar>x - q\<bar> < pow2 (e - 1) / 2" using near by (simp add: q pk e1)
    have "pow2 (k - 1) = 4503599627370496 * pow2 (e - 1)" using pow2_add [of 52 "e - 1"] by (simp add: e pow2_def)
    moreover have "0 < pow2 (e - 1)" by simp
    moreover have "q = 9007199254740992 * pow2 (e - 1)" by (simp add: q pk e1)
    ultimately have "pow2 (k - 1) \<le> x" using n by linarith
    then have "floor_log2 x = k - 1" using low by (intro floor_log2_unique) simp_all
    moreover have "q = of_int (2 * m) * pow2 (e - 1)" by (simp add: m(1) e1)
    ultimately show ?thesis using to_double_by [OF x, of "e - 1" "2 * m"] n m(4) kk(2) by (simp add: e)
  qed
qed

lemma dec_exp_below:
  assumes "to_double q = Fin q" and "0 < q" shows "pow10 (dec_exp q) \<le> q"
proof (cases "find (\<lambda>e. pow10 e \<le> q) (rev [- 324..308])")
  case None
  obtain m where m: "q = of_int m * pow2 (max (floor_log2 q) (- 1022) - 52)" "0 < m" using double_form [OF assms] .
  have "pow10 (- 324) \<le> pow2 (- 1074)" by (simp add: pow10_def pow2_def)
  also have "\<dots> \<le> pow2 (max (floor_log2 q) (- 1022) - 52)" by (rule pow2_mono) simp
  also have "\<dots> \<le> of_int m * pow2 (max (floor_log2 q) (- 1022) - 52)" using m(2) by simp
  finally show ?thesis using None m(1) by (simp only: dec_exp_def option.case)
next
  case (Some e)
  then have "pow10 e \<le> q" unfolding find_Some_iff by blast
  with Some show ?thesis by (simp only: dec_exp_def option.case)
qed

lemma pow10_pos [simp]: "0 < pow10 e"
  by (simp add: pow10_powi)

lemma shortest_at_reads:
  assumes "shortest_at q e n = Some (m, n')"
  shows "n' = n \<and> to_double (of_int m * pow10 (e - int n + 1)) = Fin q \<and> (0 \<le> q \<longrightarrow> 0 \<le> m)"
proof -
  have "0 \<le> \<lfloor>q / pow10 (e - int n + 1)\<rfloor>" if "0 \<le> q" using that by (simp add: less_imp_le)
  with assms show ?thesis by (fastforce simp: shortest_at_def Let_def split: if_splits)
qed

lemma seventeen_digits:
  assumes "to_double q = Fin q" and "0 < q" shows "shortest_at q (dec_exp q) 17 \<noteq> None"
proof -
  define u where "u = pow10 (dec_exp q - 16)"
  define lo where "lo = \<lfloor>q / u\<rfloor>"
  have u: "0 < u" by (simp add: u_def)
  have "pow10 (dec_exp q) = 10 ^ 16 * u" by (simp add: u_def pow10_powi power_int_diff)
  then have small: "u / 2 < q / 2 ^ 54" using dec_exp_below [OF assms] u assms(2) by simp
  have lo: "of_int lo \<le> q / u" "q / u < of_int lo + 1"
    unfolding lo_def by linarith+
  then have b: "of_int lo * u \<le> q" "q < (of_int lo + 1) * u" using u by (simp_all add: le_divide_eq divide_less_eq)
  have "to_double (of_int lo * u) = Fin q \<or> to_double (of_int (lo + 1) * u) = Fin q"
  proof (cases "q - of_int lo * u \<le> u / 2")
    case True
    then show ?thesis using small b(1) by (intro disjI1 read_near [OF assms]) simp
  next
    case False
    then have "\<bar>of_int (lo + 1) * u - q\<bar> < q / 2 ^ 54" using small b(2) by (simp add: distrib_right)
    then show ?thesis by (intro disjI2 read_near [OF assms])
  qed
  then show ?thesis by (auto simp: shortest_at_def Let_def u_def lo_def)
qed

text \<open>What \<open>repr\<close> lays out: digits of a decimal that rounds to the float.\<close>

lemma repr_digits:
  assumes "to_double q = Fin q" and "0 < q"
  obtains m n where "0 < m" and "to_double (of_int m * pow10 (dec_exp q - int n + 1)) = Fin q"
    and "repr_pos q = layout_digits (strip_zeros (show_nat (nat m))) (dec_exp q - int n + int (length (show_nat (nat m))))"
proof -
  let ?f = "shortest_at q (dec_exp q)"
  have "the (?f 17) \<in> set (List.map_filter ?f [1..<18])"
    using seventeen_digits [OF assms] by (auto simp: List.map_filter_def intro!: image_eqI [of _ _ 17])
  then obtain m n l where l: "List.map_filter ?f [1..<18] = (m, n) # l"
    by (cases "List.map_filter ?f [1..<18]") auto
  then have "(m, n) \<in> set (List.map_filter ?f [1..<18])" by simp
  then obtain n' where "?f n' = Some (m, n)" by (auto simp: List.map_filter_def)
  from shortest_at_reads [OF this] have m: "to_double (of_int m * pow10 (dec_exp q - int n + 1)) = Fin q" "0 \<le> m"
    using assms(2) by simp_all
  have "m \<noteq> 0" using m(1) assms(2) by (auto simp: to_double_def)
  with m that [of m n] l show ?thesis by (simp add: repr_pos_def Let_def)
qed

subsection \<open>The written form\<close>

text \<open>The parts of a decimal: digits, digits after the point if there are any, and the exponent with its sign\<close>

type_synonym decimal = "string \<times> string \<times> (char \<times> string) option"

fun decimal_text :: "decimal \<Rightarrow> string" where
  "decimal_text (ip, fp, ex) =
     ip @ (if fp = [] then [] else CHR ''.'' # fp) @ (case ex of None \<Rightarrow> [] | Some (sg, xs) \<Rightarrow> CHR ''e'' # sg # xs)"

fun decimal_ok :: "decimal \<Rightarrow> bool" where
  "decimal_ok (ip, fp, ex) =
     (list_all is_digit ip \<and> ip \<noteq> [] \<and> (hd ip = CHR ''0'' \<longrightarrow> tl ip = []) \<and> list_all is_digit fp \<and> (fp \<noteq> [] \<or> ex \<noteq> None) \<and>
      (case ex of None \<Rightarrow> True | Some (sg, xs) \<Rightarrow> sg \<in> set ''+-'' \<and> list_all is_digit xs \<and> xs \<noteq> []))"

fun decimal_exponent :: "decimal \<Rightarrow> int" where
  "decimal_exponent (ip, fp, ex) =
     (case ex of None \<Rightarrow> 0
      | Some (sg, xs) \<Rightarrow> (if sg = CHR ''-'' then - digits_val (map digit_val xs) else digits_val (map digit_val xs)))"

fun decimal_value :: "decimal \<Rightarrow> rat" where
  "decimal_value (ip, fp, ex) =
     of_int (digits_val (map digit_val (ip @ fp))) * pow10 (decimal_exponent (ip, fp, ex) - int (length fp))"

lemma scan_number_decimal:
  assumes "decimal_ok d" shows "scan_number (decimal_text d) = Some (decimal_value d)"
proof -
  obtain ip fp ex where d: "d = (ip, fp, ex)" by (cases d)
  define et where "et = (case ex of None \<Rightarrow> [] | Some (sg, xs) \<Rightarrow> CHR ''e'' # sg # xs)"
  have ok: "list_all is_digit ip" "ip \<noteq> []" "list_all is_digit fp" using assms by (simp_all add: d)
  have no: "\<not> is_digit CHR ''.''" "\<not> is_digit CHR ''e''" by (simp_all add: is_digit_def)
  then have et: "stops et" "et = [] \<or> hd et = CHR ''e''" by (auto simp: et_def stops_def split: option.splits)
  have ex: "scan_exponent et = Some (decimal_exponent d, [])"
  proof (cases ex)
    case (Some a)
    then obtain sg xs where a: "ex = Some (sg, xs)" by (cases a) simp
    then have xs: "list_all is_digit xs" "xs \<noteq> []" "sg = CHR ''+'' \<or> sg = CHR ''-''" using assms by (auto simp: d)
    then show ?thesis using scan_digits_all [OF xs(1)]
      by (auto simp: et_def a d scan_exponent_def scan_sign_def)
  qed (simp add: et_def d scan_exponent_def)
  have "stops ((if fp = [] then [] else CHR ''.'' # fp) @ et)" using et(1) no by (simp add: stops_def)
  from scan_digits_stop [OF ok(1) this]
  have ip: "scan_digits (decimal_text d) = (map digit_val ip, (if fp = [] then [] else CHR ''.'' # fp) @ et)"
    by (simp add: d et_def)
  have fp: "(case (if fp = [] then [] else CHR ''.'' # fp) @ et of
      c # r \<Rightarrow> (if c = CHR ''.'' then scan_digits r else ([], (if fp = [] then [] else CHR ''.'' # fp) @ et)) | [] \<Rightarrow> ([], [])) = (map digit_val fp, et)"
    using scan_digits_stop [OF ok(3) et(1)] et(2) by (auto split: list.split)
  show ?thesis using ok(2) by (simp add: scan_number_def ip fp ex) (simp add: d)
qed

lemma decimal_first: "decimal_ok d \<Longrightarrow> \<exists>c r. decimal_text d = c # r \<and> is_digit c"
  by (cases d; cases "fst d") auto

lemma decimal_chars: "decimal_ok d \<Longrightarrow> c \<in> set (decimal_text d) \<Longrightarrow> is_digit c \<or> c \<in> set ''.e+-''"
  by (cases d) (auto simp: list_all_iff split: if_splits option.splits)

text \<open>Digits at a place of the point, without a leading zero, are laid out as such a decimal.\<close>

lemma digits_map_zeros [simp]: "map digit_val (replicate z CHR ''0'') = replicate z 0"
  by (simp add: digit_val_def)

lemma digit_zero [simp]: "is_digit CHR ''0''" "digit_val CHR ''0'' = 0"
  by (simp_all add: is_digit_def digit_val_def)

lemma pow10_add: "pow10 (a + b) = pow10 a * pow10 b"
  by (simp add: pow10_powi power_int_add)

lemma pow10_nat: "pow10 (int n) = 10 ^ n"
  by (simp add: pow10_def)

lemma layout_decimal:
  assumes "list_all is_digit ds" and "ds \<noteq> []" and "hd ds \<noteq> CHR ''0''"
  obtains d where "layout_digits ds e = decimal_text d" and "decimal_ok d"
    and "decimal_value d = of_int (digits_val (map digit_val ds)) * pow10 (e - int (length ds) + 1)"
proof -
  consider (small) "- 4 \<le> e" "e < 0" | (whole) "0 \<le> e" "e < 16" "length ds \<le> nat e + 1"
    | (point) "0 \<le> e" "e < 16" "nat e + 1 < length ds" | (power) "e < - 4 \<or> 16 \<le> e" by linarith
  then show ?thesis
  proof cases
    case small
    let ?d = "(''0'', replicate (nat (- e) - 1) CHR ''0'' @ ds, None) :: decimal"
    show ?thesis
    proof (rule that [of ?d])
      show "layout_digits ds e = decimal_text ?d" using small assms(2) by (simp add: layout_digits_def)
      show "decimal_ok ?d" using assms by (auto simp: list_all_iff)
      show "decimal_value ?d = of_int (digits_val (map digit_val ds)) * pow10 (e - int (length ds) + 1)"
        using small by (simp add: digits_val_0 digits_val_lead algebra_simps)
    qed
  next
    case whole
    let ?z = "nat e + 1 - length ds"
    let ?d = "(ds @ replicate ?z CHR ''0'', ''0'', None) :: decimal"
    have *: "e - int (length ds) + 1 = int ?z" using whole by simp
    show ?thesis
    proof (rule that [of ?d])
      show "layout_digits ds e = decimal_text ?d" using whole by (simp add: layout_digits_def Let_def)
      show "decimal_ok ?d" using assms by (auto simp: list_all_iff)
      have "decimal_value ?d = of_int (digits_val (map digit_val ds)) * (10 ^ Suc ?z * pow10 (- 1))"
        using digits_val_zeros [of "map digit_val ds" "Suc ?z"] by (simp add: replicate_append_same)
      also have "10 ^ Suc ?z * pow10 (- 1) = pow10 (int ?z)" using pow10_nat [of ?z] by (simp add: pow10_def)
      finally show "decimal_value ?d = of_int (digits_val (map digit_val ds)) * pow10 (e - int (length ds) + 1)"
        unfolding * .
    qed
  next
    case point
    let ?k = "nat e + 1"
    let ?d = "(take ?k ds, drop ?k ds, None) :: decimal"
    show ?thesis
    proof (rule that [of ?d])
      show "layout_digits ds e = decimal_text ?d" using point by (simp add: layout_digits_def Let_def)
      show "decimal_ok ?d" using assms point by (cases ds) (auto simp: list_all_iff dest: in_set_takeD in_set_dropD)
      show "decimal_value ?d = of_int (digits_val (map digit_val ds)) * pow10 (e - int (length ds) + 1)"
        using point by (simp add: of_nat_diff flip: map_append) (simp add: algebra_simps)
    qed
  next
    case power
    define m where "m = show_nat (nat \<bar>e\<bar>)"
    define x where "x = (if length m < 2 then CHR ''0'' # m else m)"
    let ?d = "([hd ds], tl ds, Some (if e < 0 then CHR ''-'' else CHR ''+'', x)) :: decimal"
    have m: "list_all is_digit m" "m \<noteq> []" "digits_val (map digit_val m) = \<bar>e\<bar>"
      using show_nat_is_digit show_nat_not_Nil show_nat_val [of "nat \<bar>e\<bar>"] by (simp_all add: m_def)
    then have x: "list_all is_digit x" "x \<noteq> []" "digits_val (map digit_val x) = \<bar>e\<bar>" by (simp_all add: x_def digits_val_0)
    show ?thesis
    proof (rule that [of ?d])
      show "layout_digits ds e = decimal_text ?d"
        using power assms(2) by (auto simp: layout_digits_def Let_def x_def m_def split: list.split)
      show "decimal_ok ?d" using assms x by (cases ds) auto
      show "decimal_value ?d = of_int (digits_val (map digit_val ds)) * pow10 (e - int (length ds) + 1)"
        using assms(2) x(3) by (cases ds) (auto simp: algebra_simps)
    qed
  qed
qed

lemma strip_zeros_spec: "s = strip_zeros s @ replicate (length s - length (strip_zeros s)) CHR ''0''"
proof -
  let ?t = "takeWhile (\<lambda>c. c = CHR ''0'') (rev s)"
  have s: "s = strip_zeros s @ rev ?t" by (simp add: strip_zeros_def flip: rev_append)
  have "\<forall>c \<in> set (rev ?t). c = CHR ''0''" by (auto dest: set_takeWhileD)
  then have "rev ?t = replicate (length (rev ?t)) CHR ''0''" by (simp only: replicate_length_same)
  moreover have "length (rev ?t) = length s - length (strip_zeros s)" using arg_cong [OF s, of length] by simp
  ultimately show ?thesis using s by metis
qed

lemma repr_pos_decimal:
  assumes "to_double q = Fin q" and "0 < q"
  obtains d where "repr_pos q = decimal_text d" "decimal_ok d" "to_double (decimal_value d) = Fin q"
proof -
  obtain m n where m: "0 < m" "to_double (of_int m * pow10 (dec_exp q - int n + 1)) = Fin q"
    "repr_pos q = layout_digits (strip_zeros (show_nat (nat m))) (dec_exp q - int n + int (length (show_nat (nat m))))"
    using repr_digits [OF assms] .
  define s where "s = show_nat (nat m)"
  define ds where "ds = strip_zeros s"
  define z where "z = length s - length ds"
  have s: "s = ds @ replicate z CHR ''0''" using strip_zeros_spec [of s] by (simp add: ds_def z_def)
  have first: "hd s \<noteq> CHR ''0''" "s \<noteq> []" using show_nat_first [of "nat m"] show_nat_not_Nil m(1) by (simp_all add: s_def)
  then have ne: "ds \<noteq> []" using s by (cases z) auto
  then have "hd ds \<noteq> CHR ''0''" using first s by (metis hd_append2)
  moreover have "list_all is_digit ds" using show_nat_is_digit [of "nat m"] s by (simp add: s_def [symmetric])
  ultimately obtain d where d: "layout_digits ds (dec_exp q - int n + int (length s)) = decimal_text d" "decimal_ok d"
    "decimal_value d = of_int (digits_val (map digit_val ds)) * pow10 (dec_exp q - int n + int (length s) - int (length ds) + 1)"
    using layout_decimal [of ds "dec_exp q - int n + int (length s)"] ne by metis
  have "digits_val (map digit_val s) = digits_val (map digit_val ds) * 10 ^ z"
    by (subst s) (simp add: digits_val_zeros)
  moreover have "digits_val (map digit_val s) = m" using show_nat_val [of "nat m"] m(1) by (simp add: s_def)
  ultimately have mz: "m = digits_val (map digit_val ds) * 10 ^ z" by simp
  have "int (length s) - int (length ds) = int z" using arg_cong [OF s, of length] by simp
  then have "dec_exp q - int n + int (length s) - int (length ds) + 1 = int z + (dec_exp q - int n + 1)" by simp
  then have "decimal_value d = of_int m * pow10 (dec_exp q - int n + 1)"
    unfolding d(3) by (simp only: pow10_add [of "int z"] pow10_nat mz of_int_mult of_int_power of_int_numeral mult.assoc)
  with that [of d] d m show ?thesis by (simp add: s_def ds_def)
qed

lemma to_double_minus: "to_double x = Fin y \<Longrightarrow> to_double (- x) = Fin (- y)"
  by (auto simp: to_double_def Let_def split: if_splits)

lemma parse_decimal:
  assumes "decimal_ok d"
  shows "parse_float (decimal_text d) = Some (to_double (decimal_value d))"
    and "parse_float (CHR ''-'' # decimal_text d) = Some (to_double (- decimal_value d))"
proof -
  obtain c r where c: "decimal_text d = c # r" "is_digit c" using decimal_first [OF assms] by blast
  have no: "\<not> is_space x" if "is_digit x \<or> x \<in> set ''.e+-''" for x
    using that by (auto simp: is_space_def is_digit_def)
  then have "\<forall>x \<in> set (decimal_text d). \<not> is_space x" and dash: "\<not> is_space CHR ''-''"
    using decimal_chars [OF assms] by (blast, simp add: is_space_def)
  then have plain: "strip (decimal_text d) = decimal_text d" "strip (CHR ''-'' # decimal_text d) = CHR ''-'' # decimal_text d"
    by (intro strip_plain; simp)+
  have low: "to_lower c = c" using c(2) by (simp add: to_lower_def is_digit_def)
  have sign: "scan_sign (decimal_text d) = (False, decimal_text d)" "scan_sign (CHR ''-'' # decimal_text d) = (True, decimal_text d)"
    using c by (auto simp: scan_sign_def is_digit_def)
  have word: "map to_lower (decimal_text d) \<notin> {''inf'', ''infinity'', ''nan''}"
    using c low by (auto simp: is_digit_def)
  show "parse_float (decimal_text d) = Some (to_double (decimal_value d))"
    "parse_float (CHR ''-'' # decimal_text d) = Some (to_double (- decimal_value d))"
    using word by (simp_all add: parse_float_def plain sign scan_number_decimal [OF assms] Let_def)
qed

lemma round_bounds: "of_int a \<le> x \<Longrightarrow> x \<le> of_int b \<Longrightarrow> a \<le> round_half_even x \<and> round_half_even x \<le> b"
  using round_half_even_mono [of "of_int a" x] round_half_even_mono [of x "of_int b"] by simp

text \<open>Rounding gives a float.\<close>

lemma to_double_idem_pos:
  assumes "to_double q = Fin r" and "0 < q" shows "to_double r = Fin r"
proof -
  define k where "k = max (floor_log2 q) (- 1022)"
  define e where "e = k - 52"
  define m where "m = round_half_even (q / pow2 e)"
  have r: "r = of_int m * pow2 e" "r < pow2 1024"
    using assms by (auto simp: to_double_def Let_def m_def e_def k_def split: if_splits)
  have p53: "pow2 (e + 53) = of_int (2 ^ 53) * pow2 e" "pow2 (e + 52) = of_int (2 ^ 52) * pow2 e"
    by (simp_all only: pow2_add) (simp_all add: pow2_def)
  have "q < pow2 (e + 53)"
    using floor_log2_spec(2) [OF assms(2)] pow2_mono [of "floor_log2 q + 1" "e + 53"] by (simp add: e_def k_def)
  then have "q / pow2 e \<le> of_int (2 ^ 53)" unfolding p53 by (simp add: divide_le_eq)
  moreover have "of_int 0 \<le> q / pow2 e" using assms(2) pow2_pos [of e] by (simp only: of_int_0) (intro divide_nonneg_pos, simp_all)
  ultimately have m: "0 \<le> m" "m \<le> 2 ^ 53" unfolding m_def using round_bounds by blast+
  show ?thesis
  proof (cases "m = 0")
    case True
    then show ?thesis using r by (simp add: to_double_def)
  next
    case False
    then have "of_int 0 * pow2 e < of_int m * pow2 e" using m(1) by (intro mult_strict_right_mono) simp_all
    then have pos: "0 < r" using r by simp
    consider (top) "m = 2 ^ 53" | (normal) "m < 2 ^ 53" "- 1022 \<le> floor_log2 q" | (low) "m < 2 ^ 53" "floor_log2 q < - 1022"
      using m by linarith
    then show ?thesis
    proof cases
      case top
      then have rt: "r = pow2 (e + 53)" using r(1) p53 by simp
      then have "floor_log2 r = e + 53" using pow2_strict [of "e + 53" "e + 53 + 1"] by (intro floor_log2_unique) simp_all
      moreover have "r = of_int (2 ^ 52) * pow2 (e + 1)" using rt pow2_add [of 52 "e + 1"] by (simp add: pow2_def add.commute)
      moreover have "- 1022 \<le> e + 53" by (simp add: e_def k_def)
      ultimately show ?thesis using to_double_by [OF pos, of "e + 1" "2 ^ 52"] r(2) by simp
    next
      case normal
      then have e: "e = floor_log2 q - 52" by (simp add: e_def k_def)
      then have "pow2 (e + 52) \<le> q" using floor_log2_spec(1) [OF assms(2)] by simp
      then have "of_int (2 ^ 52) \<le> q / pow2 e" unfolding p53 by (simp add: le_divide_eq)
      then have "2 ^ 52 \<le> m" unfolding m_def using round_half_even_mono [of "of_int (2 ^ 52)" "q / pow2 e"] by (simp only: round_half_even_of_int)
      then have "of_int (2 ^ 52) * pow2 e \<le> r" unfolding r(1) by (simp only: mult_le_cancel_right_pos [OF pow2_pos] of_int_le_iff)
      moreover have "r < of_int (2 ^ 53) * pow2 e" unfolding r(1) using normal(1) by (simp only: mult_less_cancel_right_pos [OF pow2_pos] of_int_less_iff)
      ultimately have "floor_log2 r = e + 52" using p53 add.commute [of e 53] by (intro floor_log2_unique) simp_all
      then show ?thesis using to_double_by [OF pos, of e m] r normal(2) e by simp
    next
      case low
      have "r < of_int (2 ^ 53) * pow2 e" unfolding r(1) using low(1) by (simp only: mult_less_cancel_right_pos [OF pow2_pos] of_int_less_iff)
      then have "pow2 (floor_log2 r) < pow2 (e + 53)" using floor_log2_spec(1) [OF pos] p53 by simp
      then have "floor_log2 r \<le> - 1022" using low(2) by (auto dest!: pow2_less simp: e_def k_def)
      then show ?thesis using to_double_by [OF pos, of e m] r low(2) by (simp add: e_def k_def)
    qed
  qed
qed

lemma to_double_idem:
  assumes "to_double q = Fin r" shows "to_double r = Fin r"
proof -
  consider "q = 0" | "0 < q" | "0 < - q" by linarith
  then show ?thesis
  proof cases
    case 1
    with assms show ?thesis by (simp add: to_double_def)
  next
    case 3
    with to_double_idem_pos [OF to_double_minus [OF assms]] to_double_minus [of "- r" "- r"] show ?thesis by simp
  qed (rule to_double_idem_pos [OF assms])
qed

fun is_double :: "pyfloat \<Rightarrow> bool" where
  "is_double (Fin q) = (to_double q = Fin q)"
| "is_double _ = True"

lemma is_double_to_double: "is_double (to_double q)"
  by (cases "to_double q") (auto dest: to_double_idem)

lemma is_double_parse: "parse_float s = Some x \<Longrightarrow> is_double x"
  by (auto simp: parse_float_def Let_def is_double_to_double split: prod.splits if_splits)

lemma flt_repr_decimal:
  assumes "is_double (Fin q)"
  obtains (plain) d where "decimal_ok d" "flt_repr (Fin q) = decimal_text d" "to_double (decimal_value d) = Fin q"
    | (minus) d where "decimal_ok d" "flt_repr (Fin q) = CHR ''-'' # decimal_text d" "to_double (- decimal_value d) = Fin q"
proof -
  consider "q = 0" | "0 < q" | "q < 0" by linarith
  then show ?thesis
  proof cases
    case 1
    then show ?thesis by (intro plain [of "(''0'', ''0'', None)"]) (simp_all add: is_digit_def digits_val_def to_double_def)
  next
    case 2
    with assms repr_pos_decimal [of q] plain show ?thesis by (metis flt_repr.simps(1) is_double.simps(1) less_asym less_irrefl)
  next
    case 3
    then have "to_double (- q) = Fin (- q)" "0 < - q" using assms to_double_minus by simp_all
    then obtain d where "repr_pos (- q) = decimal_text d" "decimal_ok d" "to_double (decimal_value d) = Fin (- q)"
      using repr_pos_decimal by blast
    with to_double_minus [of "decimal_value d" "- q"] 3 show ?thesis by (intro minus [of d]) simp_all
  qed
qed

text \<open>
  Every float is read back from its text: \<open>float(repr(x))\<close> is \<open>x\<close>.
\<close>

lemma float_reads_back:
  assumes "is_double x" shows "parse_float (flt_repr x) = Some x"
proof (cases x)
  case (Fin q)
  from assms have "is_double (Fin q)" by (simp add: Fin)
  then show ?thesis by (cases rule: flt_repr_decimal) (simp_all add: Fin parse_decimal)
qed (simp, code_simp)+

end
