(* ===== verification/Json_Text.thy ===== *)
theory Json_Text
  imports Read_Back Fingerprint
begin

section \<open>JSON texts\<close>

text \<open>
  \<open>json.dumps\<close> and \<open>json.loads\<close> of the standard library, by which every message, every file of a store and every file
  between programs is written and read: the compact text, the text indented by two (\<open>indent=2\<close>), and the
  scanner with its white space, escapes, numbers, the constants \<open>NaN\<close> and \<open>Infinity\<close>, and the last value of a
  repeated key. Strings have code points below 256, so a text with an escape above \<open>\\u00ff\<close> has an outcome
  of its own. The depth of nesting is not limited.
\<close>

subsection \<open>Writing\<close>

fun dumps :: "json \<Rightarrow> string" where
  "dumps (JList xs) = ''['' @ join '', '' (map dumps xs) @ '']''"
| "dumps (JObj d) = ''{'' @ join '', '' (map (\<lambda>(k, v). json_str k @ '': '' @ dumps v) d) @ ''}''"
| "dumps v = dumps_sorted v"

fun dumps_indent :: "nat \<Rightarrow> json \<Rightarrow> string" where
  "dumps_indent n (JList xs) =
     (if xs = [] then ''[]''
      else ''['' @ [CHR 0x0A] @
        join ('','' @ [CHR 0x0A]) (map (\<lambda>x. replicate (n + 2) CHR '' '' @ dumps_indent (n + 2) x) xs) @
        [CHR 0x0A] @ replicate n CHR '' '' @ '']'')"
| "dumps_indent n (JObj d) =
     (if d = [] then ''{}''
      else ''{'' @ [CHR 0x0A] @
        join ('','' @ [CHR 0x0A])
          (map (\<lambda>(k, x). replicate (n + 2) CHR '' '' @ json_str k @ '': '' @ dumps_indent (n + 2) x) d) @
        [CHR 0x0A] @ replicate n CHR '' '' @ ''}'')"
| "dumps_indent n v = dumps_sorted v"

subsection \<open>Reading\<close>

text \<open>A value with the text after it, an error, or a text the strings of the model cannot hold\<close>

datatype 'a scan = Got 'a string | Malformed | Beyond

fun then_scan :: "'a scan \<Rightarrow> ('a \<Rightarrow> string \<Rightarrow> 'b scan) \<Rightarrow> 'b scan" where
  "then_scan (Got x t) f = f x t"
| "then_scan Malformed f = Malformed"
| "then_scan Beyond f = Beyond"

definition as_scan :: "('a \<Rightarrow> 'b) \<Rightarrow> 'a scan \<Rightarrow> 'b scan" where
  "as_scan g r = then_scan r (\<lambda>x t. Got (g x) t)"

definition json_space :: "char \<Rightarrow> bool" where
  "json_space c = (c \<in> set [CHR '' '', CHR 0x09, CHR 0x0A, CHR 0x0D])"

definition skip_space :: "string \<Rightarrow> string" where
  "skip_space s = dropWhile json_space s"

definition hex_val :: "char \<Rightarrow> nat option" where
  "hex_val c =
     (let n = of_char c :: nat
      in if 48 \<le> n \<and> n \<le> 57 then Some (n - 48) else if 65 \<le> n \<and> n \<le> 70 then Some (n - 55)
         else if 97 \<le> n \<and> n \<le> 102 then Some (n - 87) else None)"

text \<open>The number of four hexadecimal digits\<close>

definition hex4 :: "char \<Rightarrow> char \<Rightarrow> char \<Rightarrow> char \<Rightarrow> nat option" where
  "hex4 a b c d =
     (case (hex_val a, hex_val b, hex_val c, hex_val d) of
        (Some i, Some j, Some k, Some l) \<Rightarrow> Some (((i * 16 + j) * 16 + k) * 16 + l) | _ \<Rightarrow> None)"

definition escape_char :: "char \<Rightarrow> char option" where
  "escape_char =
     map_of [(CHR 0x22, CHR 0x22), (CHR 0x5C, CHR 0x5C), (CHR ''/'', CHR ''/''), (CHR ''b'', CHR 0x08), (CHR ''f'', CHR 0x0C),
       (CHR ''n'', CHR 0x0A), (CHR ''r'', CHR 0x0D), (CHR ''t'', CHR 0x09)]"

definition put_char :: "nat \<Rightarrow> string scan \<Rightarrow> string scan" where
  "put_char n r =
     (if n < 256 then as_scan (Cons (char_of n)) r else case r of Malformed \<Rightarrow> Malformed | _ \<Rightarrow> Beyond)"

text \<open>The rest of a string after its opening quote\<close>

fun scan_str :: "string \<Rightarrow> string scan" where
  "scan_str [] = Malformed"
| "scan_str (c # s) =
     (if c = CHR 0x22 then Got [] s
      else if c = CHR 0x5C then
        (case s of
           [] \<Rightarrow> Malformed
         | e # r \<Rightarrow>
             (if e = CHR ''u'' then
                (case r of
                   h1 # h2 # h3 # h4 # t \<Rightarrow> (case hex4 h1 h2 h3 h4 of None \<Rightarrow> Malformed | Some n \<Rightarrow> put_char n (scan_str t))
                 | _ \<Rightarrow> Malformed)
              else case escape_char e of None \<Rightarrow> Malformed | Some x \<Rightarrow> put_char (of_char x) (scan_str r)))
      else if (of_char c :: nat) < 32 then Malformed
      else put_char (of_char c) (scan_str s))"

declare scan_str.simps(2) [simp del]

text \<open>\<open>(-?(?:0|[1-9]\\d*))(\\.\\d+)?([eE][-+]?\\d+)?\<close>: an integer, or a float when one of the last two parts is there\<close>

definition scan_whole :: "string \<Rightarrow> (string \<times> string) option" where
  "scan_whole s =
     (case s of
        [] \<Rightarrow> None
      | c # r \<Rightarrow>
          (if c = CHR ''0'' then Some (''0'', r)
           else if is_digit c then Some (takeWhile is_digit s, dropWhile is_digit s) else None))"

definition scan_fraction :: "string \<Rightarrow> string \<times> string" where
  "scan_fraction s =
     (case s of
        c # r \<Rightarrow> (if c = CHR ''.'' \<and> takeWhile is_digit r \<noteq> [] then (c # takeWhile is_digit r, dropWhile is_digit r) else ([], s))
      | [] \<Rightarrow> ([], []))"

definition scan_power :: "string \<Rightarrow> string \<times> string" where
  "scan_power s =
     (case s of
        c # r \<Rightarrow>
          (let (sg, t) = (case r of x # y \<Rightarrow> (if x \<in> set ''+-'' then ([x], y) else ([], r)) | [] \<Rightarrow> ([], []))
           in if c \<in> set ''eE'' \<and> takeWhile is_digit t \<noteq> [] then (c # sg @ takeWhile is_digit t, dropWhile is_digit t) else ([], s))
      | [] \<Rightarrow> ([], []))"

definition scan_num :: "string \<Rightarrow> (json \<times> string) option" where
  "scan_num s =
     (let (sg, r) = (case s of c # t \<Rightarrow> (if c = CHR ''-'' then ([c], t) else ([], s)) | [] \<Rightarrow> ([], []))
      in case scan_whole r of
           None \<Rightarrow> None
         | Some (ip, r1) \<Rightarrow>
             (case scan_fraction r1 of
                (fp, r2) \<Rightarrow>
                  (case scan_power r2 of
                     (ex, r3) \<Rightarrow>
                       (if fp = [] \<and> ex = [] then map_option (\<lambda>i. (JInt i, r3)) (parse_int (sg @ ip))
                        else map_option (\<lambda>x. (JFloat x, r3)) (parse_float (sg @ ip @ fp @ ex))))))"

definition scan_word :: "(string \<times> json) list \<Rightarrow> string \<Rightarrow> (json \<times> string) option" where
  "scan_word ws s = map_option (\<lambda>(w, v). (v, drop (length w) s)) (find (\<lambda>(w, v). startswith s w) ws)"

definition json_words :: "(string \<times> json) list" where
  "json_words = [(''null'', JNull), (''true'', JBool True), (''false'', JBool False)]"

definition float_words :: "(string \<times> json) list" where
  "float_words = [(''NaN'', JFloat NaN), (''Infinity'', JFloat PInf), (''-Infinity'', JFloat NInf)]"

definition scan_plain :: "string \<Rightarrow> json scan" where
  "scan_plain s =
     (case scan_word json_words s of
        Some (v, t) \<Rightarrow> Got v t
      | None \<Rightarrow>
          (case scan_num s of
             Some (v, t) \<Rightarrow> Got v t
           | None \<Rightarrow> (case scan_word float_words s of Some (v, t) \<Rightarrow> Got v t | None \<Rightarrow> Malformed)))"

text \<open>After an item: the next one, or the end\<close>

definition after_item :: "char \<Rightarrow> 'a \<Rightarrow> (string \<Rightarrow> 'a list scan) \<Rightarrow> string \<Rightarrow> 'a list scan" where
  "after_item close x more s =
     (case skip_space s of
        c # r \<Rightarrow> (if c = close then Got [x] r else if c = CHR '','' then as_scan (Cons x) (more (skip_space r)) else Malformed)
      | [] \<Rightarrow> Malformed)"

text \<open>Values, the items of a list and the members of an object; the number bounds the recursion.\<close>

fun scan_value :: "nat \<Rightarrow> string \<Rightarrow> json scan"
  and scan_items :: "nat \<Rightarrow> string \<Rightarrow> json list scan"
  and scan_members :: "nat \<Rightarrow> string \<Rightarrow> (string \<times> json) list scan" where
  "scan_value 0 s = Malformed"
| "scan_value (Suc n) s =
     (case s of
        [] \<Rightarrow> Malformed
      | c # r \<Rightarrow>
          (if c = CHR 0x22 then as_scan JStr (scan_str r)
           else if c = CHR ''{'' then
             (if skip_space r \<noteq> [] \<and> hd (skip_space r) = CHR ''}'' then Got (JObj []) (tl (skip_space r))
              else as_scan (\<lambda>ps. JObj (dict_update [] ps)) (scan_members n (skip_space r)))
           else if c = CHR ''['' then
             (if skip_space r \<noteq> [] \<and> hd (skip_space r) = CHR '']'' then Got (JList []) (tl (skip_space r))
              else as_scan JList (scan_items n (skip_space r)))
           else scan_plain s))"
| "scan_items 0 s = Malformed"
| "scan_items (Suc n) s = then_scan (scan_value n s) (\<lambda>v. after_item CHR '']'' v (scan_items n))"
| "scan_members 0 s = Malformed"
| "scan_members (Suc n) s =
     (case s of
        [] \<Rightarrow> Malformed
      | c # r \<Rightarrow>
          (if c \<noteq> CHR 0x22 then Malformed
           else then_scan (scan_str r)
             (\<lambda>k t. case skip_space t of
                      d # u \<Rightarrow>
                        (if d \<noteq> CHR '':'' then Malformed
                         else then_scan (scan_value n (skip_space u)) (\<lambda>v. after_item CHR ''}'' (k, v) (scan_members n)))
                    | [] \<Rightarrow> Malformed)))"

datatype json_read = Reads json | Refused | Unheld

definition json_loads :: "string \<Rightarrow> json_read" where
  "json_loads s =
     (case scan_value (2 * length s + 2) (skip_space s) of
        Got v t \<Rightarrow> (if skip_space t = [] then Reads v else Refused)
      | Malformed \<Rightarrow> Refused
      | Beyond \<Rightarrow> Unheld)"

text \<open>As the parser parameters of the other theories: a value, or none\<close>

definition json_value :: "string \<Rightarrow> json option" where
  "json_value s = (case json_loads s of Reads v \<Rightarrow> Some v | _ \<Rightarrow> None)"

subsection \<open>Strings read back\<close>

lemma hex_val_digit: "k < 16 \<Longrightarrow> hex_val (hex_digit k) = Some k"
  by (auto simp: hex_val_def hex_digit_def Let_def)

lemma hex4_low:
  fixes c :: char
  shows "hex4 CHR ''0'' CHR ''0'' (hex_digit (of_char c div 16)) (hex_digit (of_char c mod 16)) = Some (of_char c)"
proof -
  have "(of_char c :: nat) < 16 * 16" using nat_of_char_less_256 [of c] by simp
  then have "(of_char c :: nat) div 16 < 16" by (rule less_mult_imp_div_less)
  moreover have "hex_val CHR ''0'' = Some 0" by (simp add: hex_val_def)
  ultimately show ?thesis by (simp add: hex4_def hex_val_digit)
qed

lemma scan_json_char: "scan_str (json_char c @ t) = as_scan (Cons c) (scan_str t)"
proof -
  let ?n = "of_char c :: nat"
  have low: "?n < 256" by (rule nat_of_char_less_256)
  have same: "c = d" if "?n = of_char d" for d using that by simp
  consider (quote) "c = CHR 0x22" | (backslash) "c = CHR 0x5C" | (escape) "?n \<in> {8, 9, 10, 12, 13}"
    | (plain) "32 \<le> ?n" "?n \<le> 126" "c \<noteq> CHR 0x22" "c \<noteq> CHR 0x5C"
    | (code) "?n < 32 \<or> 126 < ?n" "?n \<notin> {8, 9, 10, 12, 13}" by linarith
  then show ?thesis
  proof cases
    case escape
    then have "c \<in> {CHR 0x08, CHR 0x09, CHR 0x0A, CHR 0x0C, CHR 0x0D}"
      using same [of "CHR 0x08"] same [of "CHR 0x09"] same [of "CHR 0x0A"] same [of "CHR 0x0C"] same [of "CHR 0x0D"] by auto
    then show ?thesis by (auto simp: json_char_def scan_str.simps(2) escape_char_def put_char_def char_of_def bit_Suc_0_iff)
  next
    case plain
    then show ?thesis by (simp add: json_char_def Let_def scan_str.simps(2) put_char_def)
  next
    case code
    then have "c \<noteq> CHR 0x22" "c \<noteq> CHR 0x5C" by auto
    with code have "json_char c = [CHR 0x5C, CHR ''u'', CHR ''0'', CHR ''0'', hex_digit (?n div 16), hex_digit (?n mod 16)]"
      by (auto simp: json_char_def Let_def)
    then show ?thesis using low by (simp add: scan_str.simps(2) hex4_low put_char_def)
  qed (use low in \<open>auto simp: json_char_def Let_def scan_str.simps(2) escape_char_def put_char_def char_of_def bit_Suc_0_iff\<close>)
qed

lemma scan_json_str: "scan_str (concat (map json_char s) @ CHR 0x22 # t) = Got s t"
  by (induction s) (simp_all add: scan_str.simps(2) [of "CHR 0x22"] scan_json_char as_scan_def)

subsection \<open>Numbers read back\<close>

definition free_end :: "string \<Rightarrow> bool" where
  "free_end t \<longleftrightarrow> (case t of [] \<Rightarrow> True | c # _ \<Rightarrow> \<not> is_digit c \<and> c \<notin> set ''.eE'')"

lemma take_digits: "list_all is_digit s \<Longrightarrow> t = [] \<or> \<not> is_digit (hd t) \<Longrightarrow> takeWhile is_digit (s @ t) = s \<and> dropWhile is_digit (s @ t) = t"
  by (induction s) (cases t; auto)+

lemma scan_whole_digits:
  assumes "list_all is_digit s" "s \<noteq> []" "hd s = CHR ''0'' \<longrightarrow> tl s = []" "t = [] \<or> \<not> is_digit (hd t)"
  shows "scan_whole (s @ t) = Some (s, t)"
  using assms take_digits [OF assms(1,4)] by (cases s) (auto simp: scan_whole_def)

lemma scan_num_int:
  assumes "free_end t" shows "scan_num (show_int i @ t) = Some (JInt i, t)"
proof -
  let ?d = "show_nat (nat \<bar>i\<bar>)"
  have one: "hd ?d = CHR ''0'' \<longrightarrow> tl ?d = []"
  proof
    assume "hd ?d = CHR ''0''"
    then have "nat \<bar>i\<bar> = 0" using show_nat_first [of "nat \<bar>i\<bar>"] by auto
    then show "tl ?d = []" by (simp add: show_nat.simps)
  qed
  have t: "t = [] \<or> \<not> is_digit (hd t)" "scan_fraction t = ([], t)" "scan_power t = ([], t)"
    using assms by (cases t; auto simp: free_end_def scan_fraction_def scan_power_def split_def)+
  have w: "scan_whole (?d @ t) = Some (?d, t)" by (rule scan_whole_digits [OF show_nat_is_digit show_nat_not_Nil one t(1)])
  have first: "\<exists>c r. ?d = c # r \<and> c \<noteq> CHR ''-''"
    using show_nat_is_digit [of "nat \<bar>i\<bar>"] show_nat_not_Nil [of "nat \<bar>i\<bar>"] by (cases ?d) (auto simp: is_digit_def)
  have p: "parse_int (show_int i) = Some i" by (rule parse_show_int)
  show ?thesis
  proof (cases "i < 0")
    case True
    then have "show_int i = CHR ''-'' # ?d" by (simp add: show_int_def)
    with w t p show ?thesis by (simp add: scan_num_def Let_def)
  next
    case False
    then have "show_int i = ?d" by (simp add: show_int_def)
    with w t p first show ?thesis by (auto simp: scan_num_def Let_def)
  qed
qed

lemma scan_num_decimal:
  assumes "decimal_ok d" and "free_end t"
  shows "scan_num (decimal_text d @ t) = Some (JFloat (to_double (decimal_value d)), t)"
    and "scan_num (CHR ''-'' # decimal_text d @ t) = Some (JFloat (to_double (- decimal_value d)), t)"
proof -
  obtain ip fp ex where d: "d = (ip, fp, ex)" by (cases d)
  define ft where "ft = (if fp = [] then [] else CHR ''.'' # fp)"
  define et where "et = (case ex of None \<Rightarrow> [] | Some (sg, xs) \<Rightarrow> CHR ''e'' # sg # xs)"
  have ok: "list_all is_digit ip" "ip \<noteq> []" "hd ip = CHR ''0'' \<longrightarrow> tl ip = []" "list_all is_digit fp" "ft \<noteq> [] \<or> et \<noteq> []"
    using assms(1) by (auto simp: d ft_def et_def split: option.splits)
  have no: "\<not> is_digit CHR ''.''" "\<not> is_digit CHR ''e''" "\<not> is_digit CHR ''-''" by (simp_all add: is_digit_def)
  have tt: "t = [] \<or> \<not> is_digit (hd t)" "t = [] \<or> hd t \<notin> set ''.eE''" using assms(2) by (cases t; simp add: free_end_def)+
  have parts: "decimal_text d = ip @ ft @ et" by (simp add: d ft_def et_def)
  have power: "scan_power (et @ t) = (et, t)"
  proof (cases ex)
    case None
    then show ?thesis using tt by (cases t) (auto simp: et_def scan_power_def split_def)
  next
    case (Some a)
    then obtain sg xs where a: "ex = Some (sg, xs)" by (cases a) simp
    then have xs: "list_all is_digit xs" "xs \<noteq> []" "sg \<in> set ''+-''" using assms(1) by (auto simp: d)
    with take_digits [OF xs(1) tt(1)] show ?thesis by (auto simp: et_def a scan_power_def)
  qed
  have et: "et @ t = [] \<or> \<not> is_digit (hd (et @ t)) \<and> hd (et @ t) \<noteq> CHR ''.''"
    using tt no by (auto simp: et_def split: option.splits)
  have fraction: "scan_fraction (ft @ et @ t) = (ft, et @ t)"
  proof (cases "fp = []")
    case True
    with et show ?thesis by (cases "et @ t") (auto simp: ft_def scan_fraction_def)
  next
    case False
    have "takeWhile is_digit (fp @ et @ t) = fp \<and> dropWhile is_digit (fp @ et @ t) = et @ t"
      by (rule take_digits [OF ok(4)]) (use et in auto)
    with False show ?thesis by (simp add: ft_def scan_fraction_def)
  qed
  have whole: "scan_whole (ip @ ft @ et @ t) = Some (ip, ft @ et @ t)"
    using et no by (intro scan_whole_digits [OF ok(1-3)]) (auto simp: ft_def)
  have first: "\<exists>c r. ip = c # r \<and> c \<noteq> CHR ''-''" using ok(1,2) no by (cases ip) auto
  show "scan_num (decimal_text d @ t) = Some (JFloat (to_double (decimal_value d)), t)"
    using first whole fraction power ok(5) parse_decimal(1) [OF assms(1)] unfolding parts by (auto simp: scan_num_def Let_def)
  show "scan_num (CHR ''-'' # decimal_text d @ t) = Some (JFloat (to_double (- decimal_value d)), t)"
    using whole fraction power ok(5) parse_decimal(2) [OF assms(1)] unfolding parts by (auto simp: scan_num_def Let_def)
qed

subsection \<open>Texts and their values\<close>

text \<open>A text that is read as a value whatever follows it, if only it does not continue a number\<close>

definition reads_value :: "string \<Rightarrow> json \<Rightarrow> bool" where
  "reads_value t v \<longleftrightarrow> t \<noteq> [] \<and> \<not> json_space (hd t) \<and>
     (\<forall>n r. 2 * length (t @ r) < n \<longrightarrow> free_end r \<longrightarrow> scan_value n (t @ r) = Got v r)"

definition spaces :: "string \<Rightarrow> bool" where
  "spaces s = list_all json_space s"

lemma spaces_simps [simp]: "spaces []" "spaces (c # s) = (json_space c \<and> spaces s)" "spaces (s @ t) = (spaces s \<and> spaces t)"
  "spaces (replicate n CHR '' '')"
  by (auto simp add: spaces_def list_all_iff json_space_def)

lemma skip_spaces: "spaces s \<Longrightarrow> skip_space (s @ t) = skip_space t"
  by (induction s) (simp_all add: skip_space_def)

lemma skip_none: "t \<noteq> [] \<Longrightarrow> \<not> json_space (hd t) \<Longrightarrow> skip_space t = t"
  by (cases t) (simp_all add: skip_space_def)

lemma json_space_no [simp]:
  "\<not> json_space CHR '',''" "\<not> json_space CHR '']''" "\<not> json_space CHR ''}''" "\<not> json_space CHR '':''" "\<not> json_space CHR 0x22"
  "\<not> json_space CHR ''[''" "\<not> json_space CHR ''{''" "\<not> json_space CHR ''-''"
  by (simp_all add: json_space_def)

lemma free_after: "spaces s \<Longrightarrow> c \<in> set '',]}'' \<Longrightarrow> free_end (s @ c # r)"
  by (cases s) (auto simp: free_end_def json_space_def is_digit_def)

lemma readsI:
  assumes "t \<noteq> []" and "hd t \<notin> {CHR 0x22, CHR ''{'', CHR ''[''}" and "\<not> json_space (hd t)" and "\<And>r. free_end r \<Longrightarrow> scan_plain (t @ r) = Got v r"
  shows "reads_value t v"
  unfolding reads_value_def
proof (intro conjI allI impI)
  fix n r assume n: "2 * length (t @ r) < n" and r: "free_end r"
  then obtain k where "n = Suc k" by (cases n) auto
  with assms r show "scan_value n (t @ r) = Got v r" by (cases t) auto
qed (rule assms)+

lemma scan_plain_number:
  assumes "scan_num s = Some (v, r)" and "s = c # t" and "is_digit c \<or> c = CHR ''-''" shows "scan_plain s = Got v r"
  using assms by (auto simp: scan_plain_def scan_word_def json_words_def is_digit_def)

lemma show_int_first: "\<exists>c t. show_int i = c # t \<and> (is_digit c \<or> c = CHR ''-'')"
  using show_nat_is_digit [of "nat i"] show_nat_not_Nil [of "nat i"] by (cases "show_nat (nat i)") (auto simp: show_int_def)

lemma reads_int: "reads_value (show_int i) (JInt i)"
proof (rule readsI)
  obtain c t where c: "show_int i = c # t" "is_digit c \<or> c = CHR ''-''" using show_int_first by blast
  then show "show_int i \<noteq> []" "hd (show_int i) \<notin> {CHR 0x22, CHR ''{'', CHR ''[''}" "\<not> json_space (hd (show_int i))"
    by (auto simp: is_digit_def json_space_def)
  show "scan_plain (show_int i @ r) = Got (JInt i) r" if "free_end r" for r
    using scan_plain_number [OF scan_num_int [OF that]] c by simp
qed

lemma reads_float:
  assumes "is_double x" shows "reads_value (json_float x) (JFloat x)"
proof (cases x)
  case (Fin q)
  from assms have "is_double (Fin q)" by (simp add: Fin)
  then obtain d where d: "decimal_ok d" "flt_repr x = decimal_text d \<and> to_double (decimal_value d) = x \<or>
      flt_repr x = CHR ''-'' # decimal_text d \<and> to_double (- decimal_value d) = x"
    by (cases rule: flt_repr_decimal) (auto simp: Fin)
  obtain c t where c: "decimal_text d = c # t" "is_digit c" using decimal_first [OF d(1)] by blast
  have x: "json_float x = flt_repr x" by (simp add: json_float_def Fin)
  show ?thesis unfolding x
  proof (rule readsI)
    show "flt_repr x \<noteq> []" "hd (flt_repr x) \<notin> {CHR 0x22, CHR ''{'', CHR ''[''}" "\<not> json_space (hd (flt_repr x))"
      using d(2) c by (auto simp: is_digit_def json_space_def)
    show "scan_plain (flt_repr x @ r) = Got (JFloat x) r" if "free_end r" for r
      using d(2) scan_plain_number [OF scan_num_decimal(1) [OF d(1) that]] scan_plain_number [OF scan_num_decimal(2) [OF d(1) that]] c by auto
  qed
qed (auto intro!: readsI simp: json_float_def json_space_def scan_plain_def scan_word_def json_words_def float_words_def
    scan_num_def scan_whole_def is_digit_def)

lemma reads_str: "reads_value (json_str s) (JStr s)"
  unfolding reads_value_def
proof (intro conjI allI impI)
  fix n r assume "2 * length (json_str s @ r) < n"
  then obtain k where "n = Suc k" by (cases n) auto
  with scan_json_str [of s r] show "scan_value n (json_str s @ r) = Got (JStr s) r" by (simp add: json_str_def as_scan_def)
qed (simp_all add: json_str_def)

lemma reads_word: "reads_value ''null'' JNull" "reads_value ''true'' (JBool True)" "reads_value ''false'' (JBool False)"
  by (rule readsI; simp add: json_space_def scan_plain_def scan_word_def json_words_def)+

text \<open>White space may stand before and after every item; a name is followed by a colon.\<close>

lemma join_Cons: "join sep (t # ts) = t @ (if ts = [] then [] else sep @ join sep ts)"
  by (cases ts) simp_all

definition plain_starts :: "string list \<Rightarrow> bool" where
  "plain_starts ts = list_all (\<lambda>t. t \<noteq> [] \<and> \<not> json_space (hd t)) ts"

lemma skip_join: "plain_starts ts \<Longrightarrow> ts \<noteq> [] \<Longrightarrow> skip_space (join sep ts @ x) = join sep ts @ x"
  by (rule skip_none) (cases ts; simp add: plain_starts_def join_Cons)+

lemma after_close:
  "spaces e \<Longrightarrow> \<not> json_space c \<Longrightarrow> after_item c x more (e @ c # r) = Got [x] r"
  by (simp add: after_item_def skip_spaces skip_none)

lemma after_comma:
  "plain_starts ts \<Longrightarrow> ts \<noteq> [] \<Longrightarrow> spaces sep \<Longrightarrow> c \<noteq> CHR '','' \<Longrightarrow>
   after_item c x more (CHR '','' # sep @ join s ts @ y) = as_scan (Cons x) (more (join s ts @ y))"
  by (simp add: after_item_def skip_spaces skip_none [of "CHR '','' # t" for t] skip_join)

lemma scan_items_texts:
  assumes "list_all2 reads_value ts vs" and "ts \<noteq> []" and "spaces sep" and "spaces e"
    and "2 * length (join (CHR '','' # sep) ts @ e @ CHR '']'' # r) + 1 < n"
  shows "scan_items n (join (CHR '','' # sep) ts @ e @ CHR '']'' # r) = Got vs r"
  using assms(1,2,5)
proof (induction ts vs arbitrary: n rule: list_all2_induct)
  case (Cons t ts v vs)
  obtain k where n: "n = Suc k" using Cons(5) by (cases n) auto
  have t: "2 * length (t @ r) < k \<Longrightarrow> free_end r \<Longrightarrow> scan_value k (t @ r) = Got v r" for r using Cons(1) by (simp add: reads_value_def)
  have st: "plain_starts ts" using Cons(2) unfolding plain_starts_def list_all_length list_all2_conv_all_nth reads_value_def by auto
  show ?case
  proof (cases "ts = []")
    case True
    with Cons(2,5) t [of "e @ CHR '']'' # r"] free_after [OF assms(4), of "CHR '']''" r] show ?thesis
      by (simp add: n after_close [OF assms(4)])
  next
    case False
    let ?rest = "join (CHR '','' # sep) ts @ e @ CHR '']'' # r"
    have "scan_value k (t @ CHR '','' # sep @ ?rest) = Got v (CHR '','' # sep @ ?rest)"
      using t [of "CHR '','' # sep @ ?rest"] Cons(5) False free_after [of "[]" "CHR '',''"] by (simp add: n join_Cons)
    moreover have "scan_items k ?rest = Got vs r" using Cons(3) [OF False, of k] Cons(5) False by (simp add: n join_Cons)
    ultimately show ?thesis using False by (simp add: n join_Cons after_comma [OF st False assms(3)] as_scan_def)
  qed
qed simp

definition member_text :: "string \<Rightarrow> string \<times> string \<Rightarrow> string" where
  "member_text gap m = json_str (fst m) @ CHR '':'' # gap @ snd m"

lemma member_length: "length (member_text gap m) = length (json_str (fst m)) + length gap + length (snd m) + 1"
  by (simp add: member_text_def)

lemma member_starts: "plain_starts (map (member_text gap) ms)"
  by (simp add: plain_starts_def member_text_def json_str_def list_all_iff)

lemma scan_members_texts:
  assumes "list_all2 (\<lambda>m kv. fst m = fst kv \<and> reads_value (snd m) (snd kv)) ms kvs" and "ms \<noteq> []" and "spaces sep" and "spaces e" and "spaces gap"
    and "2 * length (join (CHR '','' # sep) (map (member_text gap) ms) @ e @ CHR ''}'' # r) + 1 < n"
  shows "scan_members n (join (CHR '','' # sep) (map (member_text gap) ms) @ e @ CHR ''}'' # r) = Got kvs r"
  using assms(1,2,6)
proof (induction ms kvs arbitrary: n rule: list_all2_induct)
  case (Cons m ms kv kvs)
  obtain k where n: "n = Suc k" using Cons(5) by (cases n) auto
  obtain key t v where m: "m = (key, t)" "kv = (key, v)" "reads_value t v" using Cons(1) by (cases m; cases kv) auto
  have t: "2 * length (t @ r) < k \<Longrightarrow> free_end r \<Longrightarrow> scan_value k (t @ r) = Got v r" for r using m(3) by (simp add: reads_value_def)
  have "t \<noteq> []" "\<not> json_space (hd t)" using m(3) by (simp_all add: reads_value_def)
  then have gap: "skip_space (gap @ t @ x) = t @ x" for x using assms(5) by (simp add: skip_spaces skip_none)
  have first: "scan_members (Suc k) (member_text gap m @ x) = then_scan (scan_value k (t @ x)) (\<lambda>v. after_item CHR ''}'' (key, v) (scan_members k))" for x
    using scan_json_str [of key "CHR '':'' # gap @ t @ x"]
    by (simp add: member_text_def m(1) json_str_def skip_none [of "CHR '':'' # y" for y] gap)
  show ?case
  proof (cases "ms = []")
    case True
    then have "kvs = []" using Cons(2) by simp
    moreover have "scan_value k (t @ e @ CHR ''}'' # r) = Got v (e @ CHR ''}'' # r)"
      using Cons(5) True free_after [OF assms(4), of "CHR ''}''" r] by (intro t) (simp_all add: n member_text_def m(1))
    ultimately show ?thesis
      using first [of "e @ CHR ''}'' # r"] True by (simp add: n after_close [OF assms(4)] m(2) del: scan_members.simps)
  next
    case False
    let ?rest = "join (CHR '','' # sep) (map (member_text gap) ms) @ e @ CHR ''}'' # r"
    have "scan_value k (t @ CHR '','' # sep @ ?rest) = Got v (CHR '','' # sep @ ?rest)"
      using Cons(5) False free_after [of "[]" "CHR '',''"] by (intro t) (simp_all add: n join_Cons member_length m(1))
    moreover have "scan_members k ?rest = Got kvs r" using Cons(3) [OF False, of k] Cons(5) False by (simp add: n join_Cons)
    ultimately show ?thesis using False
      by (simp add: n join_Cons first after_comma [OF member_starts _ assms(3)] as_scan_def m(2) del: scan_members.simps)
  qed
qed simp

lemma readsD: "reads_value t v \<Longrightarrow> 2 * length (t @ r) < n \<Longrightarrow> free_end r \<Longrightarrow> scan_value n (t @ r) = Got v r"
  by (simp add: reads_value_def)

lemma reads_not_close:
  assumes "reads_value t v" shows "hd t \<noteq> CHR '']''"
proof
  assume h: "hd t = CHR '']''"
  have "scan_value (Suc (2 * length t)) t = Got v []" using readsD [OF assms, of "[]"] by (simp add: free_end_def del: scan_value.simps)
  moreover have "scan_plain (CHR '']'' # r) = Malformed" for r
    by (simp add: scan_plain_def scan_word_def json_words_def float_words_def scan_num_def scan_whole_def is_digit_def)
  ultimately show False using h assms by (cases t) (auto simp: reads_value_def)
qed

lemma reads_list:
  assumes "list_all2 reads_value ts vs" and "ts \<noteq> []" and "spaces lead" and "spaces sep" and "spaces e"
  shows "reads_value (CHR ''['' # lead @ join (CHR '','' # sep) ts @ e @ '']'') (JList vs)"
  unfolding reads_value_def
proof (intro conjI allI impI)
  fix n r assume n: "2 * length ((CHR ''['' # lead @ join (CHR '','' # sep) ts @ e @ '']'') @ r) < n"
  then obtain k where k: "n = Suc k" by (cases n) auto
  have st: "plain_starts ts" using assms(1) unfolding plain_starts_def list_all_length list_all2_conv_all_nth reads_value_def by auto
  let ?s = "join (CHR '','' # sep) ts @ e @ CHR '']'' # r"
  have s: "skip_space (lead @ ?s) = ?s" using skip_join [OF st assms(2)] by (simp add: skip_spaces [OF assms(3)])
  have open_: "hd ?s \<noteq> CHR '']'' \<and> ?s \<noteq> []"
  proof -
    obtain t ts' v where "ts = t # ts'" "reads_value t v" using assms(1,2) by (cases ts) (auto simp: list_all2_Cons1)
    moreover from this(2) have "t \<noteq> []" "hd t \<noteq> CHR '']''" using reads_not_close by (auto simp: reads_value_def)
    ultimately show ?thesis by (simp add: join_Cons)
  qed
  have "scan_items k ?s = Got vs r" using n by (intro scan_items_texts [OF assms(1,2,4,5)]) (simp add: k)
  with s open_ show "scan_value n ((CHR ''['' # lead @ join (CHR '','' # sep) ts @ e @ '']'') @ r) = Got (JList vs) r"
    by (simp add: k as_scan_def)
qed simp_all

lemma dict_update_distinct: "distinct (map fst d @ map fst e) \<Longrightarrow> dict_update d e = d @ e"
proof (induction e arbitrary: d)
  case (Cons a e)
  obtain k v where a: "a = (k, v)" by fastforce
  have "dset k v d = d @ [(k, v)]" if "k \<notin> fst ` set d" for d using that by (induction d) auto
  with Cons a show ?case by auto
qed simp

lemma reads_object:
  assumes "list_all2 (\<lambda>m kv. fst m = fst kv \<and> reads_value (snd m) (snd kv)) ms kvs" and "ms \<noteq> []" and "distinct (map fst kvs)"
    and "spaces lead" and "spaces sep" and "spaces e" and "spaces gap"
  shows "reads_value (CHR ''{'' # lead @ join (CHR '','' # sep) (map (member_text gap) ms) @ e @ ''}'') (JObj kvs)"
  unfolding reads_value_def
proof (intro conjI allI impI)
  fix n r assume n: "2 * length ((CHR ''{'' # lead @ join (CHR '','' # sep) (map (member_text gap) ms) @ e @ ''}'') @ r) < n"
  then obtain k where k: "n = Suc k" by (cases n) auto
  let ?s = "join (CHR '','' # sep) (map (member_text gap) ms) @ e @ CHR ''}'' # r"
  have s: "skip_space (lead @ ?s) = ?s" using skip_join [OF member_starts] assms(2) by (simp add: skip_spaces [OF assms(4)])
  have open_: "hd ?s = CHR 0x22 \<and> ?s \<noteq> []" using assms(2) by (cases ms) (auto simp: join_Cons member_text_def json_str_def)
  have "scan_members k ?s = Got kvs r" using n by (intro scan_members_texts [OF assms(1,2,5,6,7)]) (simp add: k)
  with s open_ show "scan_value n ((CHR ''{'' # lead @ join (CHR '','' # sep) (map (member_text gap) ms) @ e @ ''}'') @ r) = Got (JObj kvs) r"
    using dict_update_distinct [of "[]" kvs] assms(3) by (simp add: k as_scan_def)
qed simp_all

lemma reads_empty: "reads_value ''[]'' (JList [])" "reads_value ''{}'' (JObj [])"
  unfolding reads_value_def by (auto simp: skip_none gr0_conv_Suc dest!: gr_implies_not_zero elim!: not0_implies_Suc [THEN exE])

subsection \<open>Round trips\<close>

text \<open>The values of Python: floats are doubles, and the keys of a dictionary differ.\<close>

fun json_ok :: "json \<Rightarrow> bool" where
  "json_ok (JFloat x) = is_double x"
| "json_ok (JList xs) = list_all json_ok xs"
| "json_ok (JObj d) = (distinct (map fst d) \<and> list_all (\<lambda>(k, v). json_ok v) d)"
| "json_ok _ = True"

lemma list_all2_map_self: "(\<And>x. x \<in> set xs \<Longrightarrow> P (f x) x) \<Longrightarrow> list_all2 P (map f xs) xs"
  by (simp add: list_all2_conv_all_nth)

lemma reads_dumps: "json_ok v \<Longrightarrow> reads_value (dumps v) v"
proof (induction v)
  case (JList xs)
  then have "list_all2 reads_value (map dumps xs) xs" by (intro list_all2_map_self) (auto simp: list_all_iff)
  from reads_list [OF this, of "[]" "'' ''" "[]"] show ?case by (cases "xs = []") (simp_all add: reads_empty json_space_def)
next
  case (JObj d)
  let ?ms = "map (\<lambda>(k, v). (k, dumps v)) d"
  have "reads_value (dumps v) v" if "(k, v) \<in> set d" for k v
    using JObj(1) [OF that, of v] JObj(2) that by (auto simp: list_all_iff)
  then have "list_all2 (\<lambda>m kv. fst m = fst kv \<and> reads_value (snd m) (snd kv)) ?ms d"
    by (intro list_all2_map_self) auto
  from reads_object [OF this, of "[]" "'' ''" "[]" "'' ''"] JObj(2) show ?case
    by (cases "d = []") (simp_all add: reads_empty json_space_def member_text_def split_def comp_def)
qed (auto simp: reads_int reads_float reads_str reads_word)

lemma join_lead: "xs \<noteq> [] \<Longrightarrow> join sep (map (\<lambda>x. lead @ f x) xs) = lead @ join (sep @ lead) (map f xs)"
  by (induction xs) (auto simp: join_Cons)

lemma reads_dumps_indent: "json_ok v \<Longrightarrow> reads_value (dumps_indent n v) v"
proof (induction n v rule: dumps_indent.induct)
  case (1 n xs)
  let ?in = "replicate (n + 2) CHR '' ''"
  have "reads_value (dumps_indent (n + 2) x) x" if "x \<in> set xs" for x using that 1 by (cases "xs = []") (auto simp: list_all_iff)
  then have "list_all2 reads_value (map (dumps_indent (n + 2)) xs) xs" by (rule list_all2_map_self)
  from reads_list [OF this, of "CHR 0x0A # ?in" "CHR 0x0A # ?in" "CHR 0x0A # replicate n CHR '' ''"] show ?case
    by (cases "xs = []") (simp_all add: reads_empty json_space_def join_lead del: replicate_Suc)
next
  case (2 n d)
  let ?in = "replicate (n + 2) CHR '' ''"
  let ?ms = "map (\<lambda>(k, v). (k, dumps_indent (n + 2) v)) d"
  have "reads_value (dumps_indent (n + 2) v) v" if "(k, v) \<in> set d" for k v
    using that 2 by (cases "d = []") (auto simp: list_all_iff)
  then have "list_all2 (\<lambda>m kv. fst m = fst kv \<and> reads_value (snd m) (snd kv)) ?ms d"
    by (intro list_all2_map_self) auto
  from reads_object [OF this, of "CHR 0x0A # ?in" "CHR 0x0A # ?in" "CHR 0x0A # replicate n CHR '' ''" "'' ''"] 2(2) show ?case
    by (cases "d = []") (simp_all add: reads_empty json_space_def member_text_def split_def comp_def join_lead del: replicate_Suc)
qed (auto simp: reads_int reads_float reads_str reads_word)

lemma loads_reads:
  assumes "reads_value t v" and "spaces a" and "spaces b" shows "json_loads (a @ t @ b) = Reads v"
proof -
  have t: "skip_space (a @ t @ b) = t @ b" using assms(1,2) by (simp add: skip_spaces skip_none reads_value_def)
  have "free_end b" using assms(3) by (cases b) (auto simp: free_end_def json_space_def is_digit_def)
  then have "scan_value (2 * length (a @ t @ b) + 2) (t @ b) = Got v b" using readsD [OF assms(1)] by (simp del: scan_value.simps)
  moreover have "skip_space b = []" using skip_spaces [OF assms(3), of "[]"] by (simp add: skip_space_def)
  ultimately show ?thesis by (simp add: json_loads_def t)
qed

lemma json_value_indent: "json_ok v \<Longrightarrow> json_value (dumps_indent n v) = Some v"
  using loads_reads [OF reads_dumps_indent, of v "[]" "[]" n] by (simp add: json_value_def)

end
