(* ===== verification/Cli.thy ===== *)
theory Cli
  imports Event_Client Skill_Rpc Json_Text
begin

section \<open>The command line\<close>

text \<open>
  \<open>cli.py\<close>, the commands that are calls of the daemon: each is one definition over the console, which
  holds the tunnel, what was printed and the files written. A command returns its exit code; an
  exception that no handler of the command catches ends it with a traceback and is an error here.
  The text of a JSON parser's error is not modelled.
\<close>

record cli_world =
  k_world :: world
  k_id :: string
  k_down :: "string option"
  k_endpoint :: "exn + json \<times> int"
  k_read :: "string \<Rightarrow> exn + string"
  k_yaml :: "(string \<Rightarrow> exn + json) option"
  k_refuses :: "string \<Rightarrow> string option"

record console =
  k_tunnel :: daemon
  k_out :: "string list"
  k_err :: "string list"
  k_files :: "(string \<times> string) list"

type_synonym 'a cli = "(console, exn, 'a) op"

subsection \<open>Text\<close>

definition ljust :: "nat \<Rightarrow> string \<Rightarrow> string" where
  "ljust n s = s @ replicate (n - length s) CHR '' ''"

text \<open>A value as a dictionary, or the error of calling \<open>get\<close> on it.\<close>

definition dict_of :: "json \<Rightarrow> exn + dict" where
  "dict_of v = (case v of JObj d \<Rightarrow> Inr d | _ \<Rightarrow> map_sum id (\<lambda>_. []) (jget v []))"

definition py_len :: "json \<Rightarrow> exn + int" where
  "py_len v =
     map_sum id (\<lambda>_. case v of JStr s \<Rightarrow> int (length s) | JList xs \<Rightarrow> int (length xs) | JObj d \<Rightarrow> int (length d) | _ \<Rightarrow> 0)
       (can_len v)"

definition text_or :: "dict \<Rightarrow> string \<Rightarrow> string \<Rightarrow> string" where
  "text_or d k dflt = py_str (dget_or d k (JStr dflt))"

definition text_of :: "dict \<Rightarrow> string \<Rightarrow> string" where
  "text_of d k = py_str (dget d k)"

definition cell_text :: "dict \<Rightarrow> string" where
  "cell_text cv = text_or cv ''lib'' ''?'' @ ''/'' @ text_or cv ''cell'' ''?'' @ ''/'' @ text_or cv ''view'' ''?''"

subsection \<open>Printing, failing, calling\<close>

definition say_out :: "string \<Rightarrow> unit cli" where
  "say_out line = change (\<lambda>c. c\<lparr>k_out := k_out c @ [line]\<rparr>)"

definition cli_fail :: "string \<Rightarrow> int cli" where
  "cli_fail m = seq (change (\<lambda>c. c\<lparr>k_err := k_err c @ [''ERROR: '' @ m]\<rparr>)) (ret 1)"

definition finish :: "string \<Rightarrow> int cli" where
  "finish line = seq (say_out line) (ret 0)"

text \<open>\<open>except (OSError, JsonRpcError)\<close> and \<open>except (OSError, ValueError)\<close>\<close>

fun call_error :: "exn \<Rightarrow> bool" where
  "call_error (OSError _) = True"
| "call_error (RpcError _ _ _) = True"
| "call_error _ = False"

fun file_error :: "exn \<Rightarrow> bool" where
  "file_error (OSError _) = True"
| "file_error (ValueError _) = True"
| "file_error _ = False"

definition cli_call :: "cli_world \<Rightarrow> string \<Rightarrow> dict \<Rightarrow> json cli" where
  "cli_call k meth params =
     (case k_down k of
        Some m \<Rightarrow> raise (OSError m)
      | None \<Rightarrow> zoom k_tunnel (\<lambda>s c. c\<lparr>k_tunnel := s\<rparr>) (call (methods (k_world k)) (k_id k) meth params))"

text \<open>\<open>try: x = m  except ...: return _fail(...)\<close>, then the rest.\<close>

definition trying :: "(exn \<Rightarrow> bool) \<Rightarrow> (exn \<Rightarrow> string) \<Rightarrow> 'a cli \<Rightarrow> ('a \<Rightarrow> int cli) \<Rightarrow> int cli" where
  "trying catches msg m next c =
     (case m c of
        (Inl e, c') \<Rightarrow> (if catches e then cli_fail (msg e) c' else (Inl e, c'))
      | (Inr x, c') \<Rightarrow> next x c')"

definition cli_request :: "cli_world \<Rightarrow> string \<Rightarrow> dict \<Rightarrow> (json \<Rightarrow> int cli) \<Rightarrow> int cli" where
  "cli_request k meth params next =
     bind (lift_res (k_endpoint k)) (\<lambda>_. trying call_error exn_str (cli_call k meth params) next)"

definition status_params :: "string option \<Rightarrow> dict" where
  "status_params status =
     (case status of None \<Rightarrow> [] | Some s \<Rightarrow> (if s = [] then [] else [(''status'', JStr s)]))"

text \<open>\<open>for x in v: m(x)\<close>\<close>

fun for_each :: "(json \<Rightarrow> unit cli) \<Rightarrow> json list \<Rightarrow> unit cli" where
  "for_each m [] = ret ()"
| "for_each m (x # xs) = seq (m x) (for_each m xs)"

definition iterate :: "json \<Rightarrow> (json \<Rightarrow> unit cli) \<Rightarrow> unit cli" where
  "iterate v m = bind (lift_res (py_iter v)) (for_each m)"

text \<open>The answer's list under a key, or a line saying there is none.\<close>

definition show_rows :: "string \<Rightarrow> string \<Rightarrow> (dict \<Rightarrow> exn + string) \<Rightarrow> json \<Rightarrow> int cli" where
  "show_rows key none row res =
     bind (lift_res (jget_or res key (JList [])))
       (\<lambda>items. if \<not> truthy items then finish none
         else seq (iterate items (\<lambda>x. bind (lift_res (dict_of x)) (\<lambda>d. bind (lift_res (row d)) say_out))) (ret 0))"

definition sub_dict :: "dict \<Rightarrow> string \<Rightarrow> exn + dict" where
  "sub_dict d k = dict_of (dget_or d k (JObj []))"

subsection \<open>Sessions\<close>

definition session_label :: "dict \<Rightarrow> string" where
  "session_label c = py_str (py_or (dget c ''client'') (py_or (dget c ''name'') (JStr ''?'')))"

definition session_row :: "dict \<Rightarrow> exn + string" where
  "session_row s =
     map_sum id
       (\<lambda>c. text_of s ''session_id'' @ ''  '' @ ljust 24 (session_label c) @ ''  created='' @ text_of s ''created_at'' @
          ''  last_seen='' @ text_of s ''last_seen'')
       (sub_dict s ''client'')"

definition cmd_session_list :: "cli_world \<Rightarrow> int cli" where
  "cmd_session_list k = cli_request k ''session.list'' [] (show_rows ''sessions'' ''No sessions registered.'' session_row)"

definition cmd_session_reap :: "cli_world \<Rightarrow> pyfloat option \<Rightarrow> int cli" where
  "cmd_session_reap k max_idle =
     cli_request k ''session.reap'' (case max_idle of None \<Rightarrow> [] | Some x \<Rightarrow> [(''max_idle_s'', JFloat x)])
       (\<lambda>res. bind (lift_res (jget_or res ''count'' (JInt 0)))
         (\<lambda>n. bind (lift_res (format_d n)) (\<lambda>t. finish (''reaped '' @ t @ '' session(s)''))))"

text \<open>Commands that print one record of the answer, or say that there is none.\<close>

definition show_or :: "string \<Rightarrow> string \<Rightarrow> json \<Rightarrow> int cli" where
  "show_or key none res =
     bind (lift_res (jget res key)) (\<lambda>v. if \<not> truthy v then finish none else finish (dumps_indent 0 v))"

definition cmd_session_current :: "cli_world \<Rightarrow> int cli" where
  "cmd_session_current k = cli_request k ''session.current'' [] (show_or ''session'' ''No current session.'')"

definition cmd_ping :: "cli_world \<Rightarrow> string option \<Rightarrow> int cli" where
  "cmd_ping k sid =
     cli_request k ''session.ping'' [(''session_id'', case sid of None \<Rightarrow> JNull | Some i \<Rightarrow> JStr i)]
       (\<lambda>res. bind (lift_res (jget res ''time'')) (\<lambda>t. finish (''pong @ '' @ py_str t)))"

subsection \<open>Contexts\<close>

definition cmd_context_show :: "cli_world \<Rightarrow> int cli" where
  "cmd_context_show k = cli_request k ''design.context.get'' [] (show_or ''context'' ''No design context stored yet.'')"

definition write_file :: "cli_world \<Rightarrow> string \<Rightarrow> string \<Rightarrow> unit cli" where
  "write_file k path text =
     (case k_refuses k path of
        Some m \<Rightarrow> raise (OSError m)
      | None \<Rightarrow> change (\<lambda>c. c\<lparr>k_files := AList.update path text (k_files c)\<rparr>))"

definition cmd_context_export :: "cli_world \<Rightarrow> string option \<Rightarrow> int cli" where
  "cmd_context_export k out_arg =
     cli_request k ''design.context.get'' []
       (\<lambda>res. bind (lift_res (jget res ''context''))
         (\<lambda>ctx. if \<not> truthy ctx then cli_fail ''no design context stored yet''
           else let out = (case out_arg of Some f \<Rightarrow> (if f = [] then ''context.json'' else f) | None \<Rightarrow> ''context.json'')
                in seq (write_file k out (dumps_indent 0 ctx)) (finish (''wrote '' @ out))))"

definition read_json :: "cli_world \<Rightarrow> string \<Rightarrow> exn + json" where
  "read_json k path =
     (case k_read k path of
        Inl e \<Rightarrow> Inl e
      | Inr text \<Rightarrow> (case loads (k_world k) text of None \<Rightarrow> Inl (ValueError ''not a JSON text'') | Some v \<Rightarrow> Inr v))"

definition could_not_read :: "string \<Rightarrow> exn \<Rightarrow> string" where
  "could_not_read path e = ''could not read '' @ path @ '': '' @ exn_str e"

definition cmd_context_import :: "cli_world \<Rightarrow> string \<Rightarrow> int cli" where
  "cmd_context_import k path =
     trying file_error (could_not_read path) (lift_res (read_json k path))
       (\<lambda>ctx. cli_request k ''design.context.update'' [(''context'', ctx)]
         (\<lambda>res. bind (lift_res (jget res ''path'')) (\<lambda>p. finish (''context stored: '' @ py_str p))))"

subsection \<open>Proposals and transactions\<close>

definition changed_line :: "string \<Rightarrow> json \<Rightarrow> int cli" where
  "changed_line verb res =
     bind (lift_res (jget_or res ''proposal'' (JObj [])))
       (\<lambda>v. bind (lift_res (dict_of v))
         (\<lambda>p. finish (verb @ ''  '' @ text_of p ''proposal_id'' @ ''  status='' @ text_of p ''status'')))"

definition cmd_proposal_create :: "cli_world \<Rightarrow> string \<Rightarrow> int cli" where
  "cmd_proposal_create k path =
     trying file_error (could_not_read path) (lift_res (read_json k path))
       (\<lambda>data. cli_request k ''proposal.create'' [(''proposal'', data)] (changed_line ''created''))"

definition proposal_row :: "dict \<Rightarrow> exn + string" where
  "proposal_row p =
     map_sum id
       (\<lambda>cv. ljust 26 (text_of p ''proposal_id'') @ ''  '' @ ljust 12 (text_of p ''status'') @ ''  '' @ cell_text cv @ ''  '' @
          text_or p ''created_at'' [])
       (sub_dict p ''cellview'')"

definition cmd_proposal_list :: "cli_world \<Rightarrow> string option \<Rightarrow> int cli" where
  "cmd_proposal_list k status =
     cli_request k ''proposal.list'' (status_params status) (show_rows ''proposals'' ''No proposals found.'' proposal_row)"

text \<open>\<open>show\<close> prints the record under a key, by default an empty one.\<close>

definition show_record :: "string \<Rightarrow> json \<Rightarrow> int cli" where
  "show_record key res = bind (lift_res (jget_or res key (JObj []))) (\<lambda>v. finish (dumps_indent 0 v))"

definition cmd_proposal_show :: "cli_world \<Rightarrow> string \<Rightarrow> int cli" where
  "cmd_proposal_show k i = cli_request k ''proposal.get'' [(''proposal_id'', JStr i)] (show_record ''proposal'')"

definition cmd_proposal_approve :: "cli_world \<Rightarrow> string \<Rightarrow> int cli" where
  "cmd_proposal_approve k i = cli_request k ''proposal.approve'' [(''proposal_id'', JStr i)] (changed_line ''approved'')"

definition cmd_proposal_reject :: "cli_world \<Rightarrow> string \<Rightarrow> int cli" where
  "cmd_proposal_reject k i = cli_request k ''proposal.reject'' [(''proposal_id'', JStr i)] (changed_line ''rejected'')"

definition transaction_row :: "dict \<Rightarrow> exn + string" where
  "transaction_row t =
     map_sum id
       (\<lambda>cv. ljust 26 (text_of t ''transaction_id'') @ ''  '' @ ljust 12 (text_of t ''status'') @ ''  '' @ cell_text cv @
          ''  proposal='' @ text_or t ''proposal_id'' ''-'' @ ''  '' @ text_or t ''timestamp'' [])
       (sub_dict t ''cellview'')"

definition cmd_transaction_list :: "cli_world \<Rightarrow> string option \<Rightarrow> int cli" where
  "cmd_transaction_list k status =
     cli_request k ''transaction.list'' (status_params status)
       (show_rows ''transactions'' ''No transactions found.'' transaction_row)"

definition cmd_transaction_show :: "cli_world \<Rightarrow> string \<Rightarrow> int cli" where
  "cmd_transaction_show k i =
     cli_request k ''transaction.get'' [(''transaction_id'', JStr i)] (show_record ''transaction'')"

subsection \<open>Results and constraints\<close>

definition load_struct :: "cli_world \<Rightarrow> string \<Rightarrow> exn + json" where
  "load_struct k path =
     (if endswith path ''.yaml'' \<or> endswith path ''.yml'' then
        (case k_yaml k of
           None \<Rightarrow> Inl (ValueError (''reading '' @ path @ '' needs PyYAML (pip install pyyaml) or provide a .json file''))
         | Some safe_load \<Rightarrow> (case k_read k path of Inl e \<Rightarrow> Inl e | Inr text \<Rightarrow> safe_load text))
      else read_json k path)"

definition load_limits :: "cli_world \<Rightarrow> string \<Rightarrow> exn + json" where
  "load_limits k path =
     (case load_struct k path of Inl e \<Rightarrow> Inl e | Inr v \<Rightarrow> jget (py_or v (JObj [])) ''metrics'')"

definition load_metrics :: "cli_world \<Rightarrow> string \<Rightarrow> exn + json" where
  "load_metrics k path =
     (case k_read k path of Inl e \<Rightarrow> Inl e | Inr text \<Rightarrow> parse_metrics_file (loads (k_world k)) text)"

text \<open>The metrics of a file, which must not be empty.\<close>

definition with_metrics :: "cli_world \<Rightarrow> string \<Rightarrow> (json \<Rightarrow> int cli) \<Rightarrow> int cli" where
  "with_metrics k path next =
     trying file_error (could_not_read path) (lift_res (load_metrics k path))
       (\<lambda>m. if \<not> truthy m then cli_fail (''no metrics found in '' @ path) else next m)"

text \<open>The parameters with the limits of an optional constraint file.\<close>

definition with_limits :: "cli_world \<Rightarrow> string option \<Rightarrow> dict \<Rightarrow> (dict \<Rightarrow> int cli) \<Rightarrow> int cli" where
  "with_limits k path params next =
     (case path of
        None \<Rightarrow> next params
      | Some f \<Rightarrow>
          (if f = [] then next params
           else trying file_error exn_str (lift_res (load_limits k f))
             (\<lambda>limits. next (if truthy limits then dset ''constraints'' limits params else params))))"

definition verdict_suffix :: "json \<Rightarrow> exn + string" where
  "verdict_suffix r =
     (case jget r ''constraints'' of
        Inl e \<Rightarrow> Inl e
      | Inr cons \<Rightarrow>
          (if \<not> truthy cons then Inr [] else map_sum id (\<lambda>v. ''  constraints='' @ py_str v) (jget cons ''overall'')))"

definition imported_line :: "json \<Rightarrow> exn + string" where
  "imported_line r =
     (case dict_of r of
        Inl e \<Rightarrow> Inl e
      | Inr d \<Rightarrow>
          (case py_len (dget_or d ''metrics'' (JObj [])) of
             Inl e \<Rightarrow> Inl e
           | Inr n \<Rightarrow>
               map_sum id (\<lambda>x. ''imported '' @ text_of d ''result_id'' @ ''  ('' @ show_int n @ '' metrics)'' @ x)
                 (verdict_suffix r)))"

definition cmd_result_import :: "cli_world \<Rightarrow> string \<Rightarrow> string \<Rightarrow> string option \<Rightarrow> string option \<Rightarrow> int cli" where
  "cmd_result_import k path source test constraints =
     with_metrics k path
       (\<lambda>m. let result = [(''metrics'', m), (''source'', JStr source)] @
                  (case test of None \<Rightarrow> [] | Some t \<Rightarrow> (if t = [] then [] else [(''test'', JStr t)]))
            in with_limits k constraints [(''result'', JObj result)]
              (\<lambda>payload. cli_request k ''result.update'' payload
                (\<lambda>res. bind (lift_res (jget_or res ''result'' (JObj [])))
                  (\<lambda>r. bind (lift_res (imported_line r)) finish))))"

definition cmd_result_latest :: "cli_world \<Rightarrow> int cli" where
  "cmd_result_latest k = cli_request k ''result.latest'' [] (show_or ''result'' ''No result stored yet.'')"

definition check_row :: "json \<Rightarrow> exn + string" where
  "check_row it =
     (case jget_or it ''value'' (JStr ''-'') of
        Inl e \<Rightarrow> Inl e
      | Inr val \<Rightarrow>
          (case subscript it ''status'' of
             Inl e \<Rightarrow> Inl e
           | Inr st \<Rightarrow>
               (case jget it ''reason'' of
                  Inl e \<Rightarrow> Inl e
                | Inr reason \<Rightarrow>
                    map_sum id
                      (\<lambda>m. ''  ['' @ (if py_eq st (JStr ''pass'') then ''PASS'' else ''FAIL'') @ ''] '' @ ljust 14 (py_str m) @
                         '' '' @ py_str val @ (if truthy reason then ''  '' @ py_str reason else []))
                      (subscript it ''metric''))))"

text \<open>\<open>overall.upper()\<close>\<close>

definition upper :: "json \<Rightarrow> exn + string" where
  "upper v =
     (case v of
        JStr s \<Rightarrow> Inr (map to_upper s)
      | _ \<Rightarrow> Inl (AttributeError (CHR 0x27 # type_name v @ CHR 0x27 # '' object has no attribute '' @
          CHR 0x27 # ''upper'' @ [CHR 0x27])))"

definition show_check :: "json \<Rightarrow> int cli" where
  "show_check res =
     bind (lift_res (jget_or res ''items'' (JList [])))
       (\<lambda>items. seq (iterate items (\<lambda>it. bind (lift_res (check_row it)) say_out))
         (bind (lift_res (jget res ''overall''))
           (\<lambda>overall. bind (lift_res (upper overall))
             (\<lambda>up. bind (lift_res (jget res ''source''))
               (\<lambda>src. seq (say_out (''overall: '' @ up @ '' (metrics from '' @ py_str src @ '')''))
                 (ret (if py_eq overall (JStr ''pass'') then 0 else 1)))))))"

definition cmd_constraint_check :: "cli_world \<Rightarrow> string \<Rightarrow> string option \<Rightarrow> int cli" where
  "cmd_constraint_check k path result =
     trying file_error exn_str (lift_res (load_limits k path))
       (\<lambda>limits.
          if \<not> truthy limits
          then cli_fail (''no '' @ CHR 0x27 # ''metrics'' @ CHR 0x27 # '' limits found in '' @ path)
          else
            (let params = [(''constraints'', limits)]
             in case result of
                  None \<Rightarrow> cli_request k ''constraint.check'' params show_check
                | Some f \<Rightarrow>
                    (if f = [] then cli_request k ''constraint.check'' params show_check
                     else trying file_error exn_str (lift_res (load_metrics k f))
                       (\<lambda>m. cli_request k ''constraint.check'' (dset ''metrics'' m params) show_check))))"

subsection \<open>Runs\<close>

definition run_row :: "dict \<Rightarrow> exn + string" where
  "run_row r =
     Inr (ljust 22 (text_of r ''run_id'') @ ''  '' @ ljust 8 (text_of r ''status'') @ ''  test='' @ text_or r ''test'' ''-'' @
       ''  result='' @ py_str (py_or (dget r ''result_id'') (JStr ''-'')) @ ''  '' @ text_or r ''created_at'' [])"

definition cmd_run_list :: "cli_world \<Rightarrow> string option \<Rightarrow> int cli" where
  "cmd_run_list k status = cli_request k ''run.list'' (status_params status) (show_rows ''runs'' ''No runs found.'' run_row)"

definition cmd_run_show :: "cli_world \<Rightarrow> string \<Rightarrow> int cli" where
  "cmd_run_show k i = cli_request k ''run.get'' [(''run_id'', JStr i)] (show_record ''run'')"

definition run_imported_line :: "json \<Rightarrow> exn + string" where
  "run_imported_line res =
     (case (jget_or res ''run'' (JObj []), jget_or res ''result'' (JObj [])) of
        (Inr run, Inr result) \<Rightarrow>
          (case (dict_of run, dict_of result) of
             (Inr r, Inr q) \<Rightarrow>
               map_sum id
                 (\<lambda>x. ''run '' @ text_of r ''run_id'' @ '' -> '' @ text_of r ''status'' @ ''  result '' @ text_of q ''result_id'' @ x)
                 (verdict_suffix result)
           | (Inl e, _) \<Rightarrow> Inl e
           | (_, Inl e) \<Rightarrow> Inl e)
      | (Inl e, _) \<Rightarrow> Inl e
      | (_, Inl e) \<Rightarrow> Inl e)"

definition cmd_run_import_result :: "cli_world \<Rightarrow> string \<Rightarrow> string \<Rightarrow> string \<Rightarrow> string option \<Rightarrow> int cli" where
  "cmd_run_import_result k i path source constraints =
     with_metrics k path
       (\<lambda>m. with_limits k constraints [(''run_id'', JStr i), (''metrics'', m), (''source'', JStr source)]
         (\<lambda>params. cli_request k ''run.import_result'' params
           (\<lambda>res. bind (lift_res (run_imported_line res)) finish)))"

subsection \<open>Status and diagnosis\<close>

text \<open>The answer of \<open>tunnel.status\<close>, or None when the tunnel does not answer.\<close>

definition cli_probe :: "cli_world \<Rightarrow> json cli" where
  "cli_probe k =
     handle (\<lambda>e. if call_error e then Some (ret JNull) else None) (cli_call k ''tunnel.status'' [])"

definition address_text :: "json \<times> int \<Rightarrow> string" where
  "address_text hp = py_str (fst hp) @ '':'' @ show_int (snd hp)"

definition status_lines :: "dict \<Rightarrow> string list" where
  "status_lines d =
     map (\<lambda>k. ''  '' @ ljust 11 (k @ '':'') @ '' '' @ text_of d k)
       (filter (has_key d) [''version'', ''host'', ''port'', ''pid'', ''started_at'', ''uptime_s'', ''sessions''])"

definition cmd_tunnel_status :: "cli_world \<Rightarrow> int cli" where
  "cmd_tunnel_status k =
     bind (lift_res (k_endpoint k))
       (\<lambda>hp. bind (cli_probe k)
         (\<lambda>running.
            if \<not> truthy running
            then seq (say_out (''VFP Tunnel: not running (endpoint '' @ address_text hp @ '')'')) (ret 1)
            else seq (say_out ''VFP Tunnel: running'')
              (bind (lift_res (dict_of running))
                (\<lambda>d. seq (for_each (\<lambda>l. say_out (py_str l)) (map JStr (status_lines d))) (ret 0)))))"

definition doctor_row :: "pyfloat \<Rightarrow> dict \<Rightarrow> exn + bool \<times> string" where
  "doctor_row stale_after s =
     (case sub_dict s ''client'' of
        Inl e \<Rightarrow> Inl e
      | Inr c \<Rightarrow>
          (case py_gt (dget_or s ''idle_s'' (JInt 0)) (JFloat stale_after) of
             Inl e \<Rightarrow> Inl e
           | Inr bad \<Rightarrow>
               Inr (bad, ''  '' @ text_of s ''session_id'' @ ''  pid='' @ text_or c ''virtuoso_pid'' ''?'' @
                 '' start='' @ text_or c ''virtuoso_start'' ''?'' @ '' display='' @ text_or c ''display'' ''?'' @ ''  '' @
                 cell_text c @ ''  idle='' @ text_or s ''idle_s'' ''0'' @ ''s'' @
                 (if truthy (dget s ''reconnects'') then ''  reconnects='' @ text_of s ''reconnects'' else []) @
                 (if bad then ''  STALE'' else []))))"

fun doctor_rows :: "pyfloat \<Rightarrow> json list \<Rightarrow> nat \<Rightarrow> nat cli" where
  "doctor_rows a [] stale = ret stale"
| "doctor_rows a (x # xs) stale =
     bind (lift_res (dict_of x))
       (\<lambda>s. bind (lift_res (doctor_row a s))
         (\<lambda>(bad, line). seq (say_out line) (doctor_rows a xs (if bad then Suc stale else stale))))"

definition doctor_sessions :: "pyfloat \<Rightarrow> json \<Rightarrow> int cli" where
  "doctor_sessions a sessions =
     (if \<not> truthy sessions then finish ''Sessions: none registered.''
      else bind (lift_res (py_len sessions))
        (\<lambda>n. seq (say_out (''Sessions: '' @ show_int n))
          (bind (lift_res (py_iter sessions))
            (\<lambda>xs. bind (doctor_rows a xs 0)
              (\<lambda>stale. finish
                 (if stale \<noteq> 0
                  then ''  -> '' @ show_int (int stale) @ '' stale (idle > '' @ flt_repr a @ ''s); reap with: vfp session reap''
                  else ''  all sessions live.''))))))"

definition cmd_doctor :: "cli_world \<Rightarrow> pyfloat \<Rightarrow> int cli" where
  "cmd_doctor k stale_after =
     bind (lift_res (k_endpoint k))
       (\<lambda>hp. bind (cli_probe k)
         (\<lambda>st.
            if \<not> truthy st
            then seq (say_out (''VFP Tunnel: NOT running (endpoint '' @ address_text hp @ '')''))
                   (seq (say_out ''  -> start it with: vfp tunnel start'') (ret 1))
            else bind (lift_res (dict_of st))
              (\<lambda>d. seq (say_out (''VFP Tunnel: running  v'' @ text_of d ''version'' @ ''  up '' @ text_of d ''uptime_s'' @
                      ''s  pid '' @ text_of d ''pid'' @ ''  @ '' @ address_text hp))
                (trying call_error exn_str
                   (bind (cli_call k ''session.list'' []) (\<lambda>r. lift_res (jget_or r ''sessions'' (JList []))))
                   (doctor_sessions stale_after)))))"

subsection \<open>The commands\<close>

datatype cli_command =
    Cmd_Tunnel_Status
  | Cmd_Doctor pyfloat
  | Cmd_Session_List
  | Cmd_Session_Current
  | Cmd_Session_Reap "pyfloat option"
  | Cmd_Context_Show
  | Cmd_Context_Export "string option"
  | Cmd_Context_Import string
  | Cmd_Ping "string option"
  | Cmd_Proposal_Create string
  | Cmd_Proposal_List "string option"
  | Cmd_Proposal_Show string
  | Cmd_Proposal_Approve string
  | Cmd_Proposal_Reject string
  | Cmd_Transaction_List "string option"
  | Cmd_Transaction_Show string
  | Cmd_Result_Import string string "string option" "string option"
  | Cmd_Result_Latest
  | Cmd_Constraint_Check string "string option"
  | Cmd_Run_List "string option"
  | Cmd_Run_Show string
  | Cmd_Run_Import_Result string string string "string option"

text \<open>The command of the parsed arguments; with none the help is printed.\<close>

fun cli_main :: "cli_world \<Rightarrow> string \<Rightarrow> cli_command option \<Rightarrow> int cli" where
  "cli_main k usage None = finish usage"
| "cli_main k usage (Some Cmd_Tunnel_Status) = cmd_tunnel_status k"
| "cli_main k usage (Some (Cmd_Doctor a)) = cmd_doctor k a"
| "cli_main k usage (Some Cmd_Session_List) = cmd_session_list k"
| "cli_main k usage (Some Cmd_Session_Current) = cmd_session_current k"
| "cli_main k usage (Some (Cmd_Session_Reap a)) = cmd_session_reap k a"
| "cli_main k usage (Some Cmd_Context_Show) = cmd_context_show k"
| "cli_main k usage (Some (Cmd_Context_Export out)) = cmd_context_export k out"
| "cli_main k usage (Some (Cmd_Context_Import f)) = cmd_context_import k f"
| "cli_main k usage (Some (Cmd_Ping i)) = cmd_ping k i"
| "cli_main k usage (Some (Cmd_Proposal_Create f)) = cmd_proposal_create k f"
| "cli_main k usage (Some (Cmd_Proposal_List st)) = cmd_proposal_list k st"
| "cli_main k usage (Some (Cmd_Proposal_Show i)) = cmd_proposal_show k i"
| "cli_main k usage (Some (Cmd_Proposal_Approve i)) = cmd_proposal_approve k i"
| "cli_main k usage (Some (Cmd_Proposal_Reject i)) = cmd_proposal_reject k i"
| "cli_main k usage (Some (Cmd_Transaction_List st)) = cmd_transaction_list k st"
| "cli_main k usage (Some (Cmd_Transaction_Show i)) = cmd_transaction_show k i"
| "cli_main k usage (Some (Cmd_Result_Import f src t lims)) = cmd_result_import k f src t lims"
| "cli_main k usage (Some Cmd_Result_Latest) = cmd_result_latest k"
| "cli_main k usage (Some (Cmd_Constraint_Check f r)) = cmd_constraint_check k f r"
| "cli_main k usage (Some (Cmd_Run_List st)) = cmd_run_list k st"
| "cli_main k usage (Some (Cmd_Run_Show i)) = cmd_run_show k i"
| "cli_main k usage (Some (Cmd_Run_Import_Result i f src lims)) = cmd_run_import_result k i f src lims"

text \<open>The methods a command may call, and the calls it makes as changes of the tunnel.\<close>

fun cli_methods :: "cli_command \<Rightarrow> string list" where
  "cli_methods Cmd_Tunnel_Status = [''tunnel.status'']"
| "cli_methods (Cmd_Doctor _) = [''tunnel.status'', ''session.list'']"
| "cli_methods Cmd_Session_List = [''session.list'']"
| "cli_methods Cmd_Session_Current = [''session.current'']"
| "cli_methods (Cmd_Session_Reap _) = [''session.reap'']"
| "cli_methods Cmd_Context_Show = [''design.context.get'']"
| "cli_methods (Cmd_Context_Export _) = [''design.context.get'']"
| "cli_methods (Cmd_Context_Import _) = [''design.context.update'']"
| "cli_methods (Cmd_Ping _) = [''session.ping'']"
| "cli_methods (Cmd_Proposal_Create _) = [''proposal.create'']"
| "cli_methods (Cmd_Proposal_List _) = [''proposal.list'']"
| "cli_methods (Cmd_Proposal_Show _) = [''proposal.get'']"
| "cli_methods (Cmd_Proposal_Approve _) = [''proposal.approve'']"
| "cli_methods (Cmd_Proposal_Reject _) = [''proposal.reject'']"
| "cli_methods (Cmd_Transaction_List _) = [''transaction.list'']"
| "cli_methods (Cmd_Transaction_Show _) = [''transaction.get'']"
| "cli_methods (Cmd_Result_Import _ _ _ _) = [''result.update'']"
| "cli_methods Cmd_Result_Latest = [''result.latest'']"
| "cli_methods (Cmd_Constraint_Check _ _) = [''constraint.check'']"
| "cli_methods (Cmd_Run_List _) = [''run.list'']"
| "cli_methods (Cmd_Run_Show _) = [''run.get'']"
| "cli_methods (Cmd_Run_Import_Result _ _ _ _) = [''run.import_result'']"

definition run_calls :: "cli_world \<Rightarrow> (string \<times> dict) list \<Rightarrow> daemon \<Rightarrow> daemon" where
  "run_calls k ls s = fold (\<lambda>(meth, params) s. snd (call (methods (k_world k)) (k_id k) meth params s)) ls s"

definition by_calls :: "cli_world \<Rightarrow> string set \<Rightarrow> console \<Rightarrow> console \<Rightarrow> bool" where
  "by_calls k M c c' \<longleftrightarrow> (\<exists>ls. fst ` set ls \<subseteq> M \<and> k_tunnel c' = run_calls k ls (k_tunnel c))"

lemma by_calls_refl: "k_tunnel c' = k_tunnel c \<Longrightarrow> by_calls k M c c'"
  unfolding by_calls_def by (rule exI [of _ "[]"]) (simp add: run_calls_def)

interpretation cmd: progress "\<lambda>_. True" "by_calls k M" for k M
proof unfold_locales
  fix c c' c'' assume "by_calls k M c c'" "by_calls k M c' c''"
  then obtain l1 l2 where "fst ` set l1 \<subseteq> M" "k_tunnel c' = run_calls k l1 (k_tunnel c)"
    "fst ` set l2 \<subseteq> M" "k_tunnel c'' = run_calls k l2 (k_tunnel c')"
    unfolding by_calls_def by blast
  then show "by_calls k M c c''"
    unfolding by_calls_def by (intro exI [of _ "l1 @ l2"]) (auto simp: run_calls_def)
qed (rule by_calls_refl, rule refl)

abbreviation B :: "cli_world \<Rightarrow> string set \<Rightarrow> 'a cli \<Rightarrow> bool" where
  "B k M \<equiv> moves (\<lambda>_. True) (by_calls k M)"

lemma B_console: "B k M (say_out l)" "B k M (cli_fail m)" "B k M (finish l)" "B k M (write_file w f t)"
  by (auto simp: moves_def say_out_def cli_fail_def finish_def write_file_def op_defs intro: by_calls_refl
    split: option.split)

lemma B_cli_call: "meth \<in> M \<Longrightarrow> B k M (cli_call k meth params)"
proof (rule movesI)
  fix c assume m: "meth \<in> M"
  show "True \<and> by_calls k M c (snd (cli_call k meth params c))"
  proof (cases "k_down k")
    case None
    then have "k_tunnel (snd (cli_call k meth params c)) = run_calls k [(meth, params)] (k_tunnel c)"
      by (simp add: cli_call_def zoom_def run_calls_def split: prod.split)
    with m show ?thesis unfolding by_calls_def by (intro conjI TrueI exI [of _ "[(meth, params)]"]) simp_all
  qed (simp add: cli_call_def raise_def by_calls_refl)
qed

lemma B_trying:
  assumes m: "B k M m" and n: "\<And>x. B k M (next x)"
  shows "B k M (trying catches msg m next)"
proof (rule movesI)
  fix c
  obtain r c1 where r: "m c = (r, c1)" by fastforce
  then have c1: "by_calls k M c c1" using movesD [OF m, of c] by simp
  have "by_calls k M c1 (snd (cli_fail t c1))" for t using movesD [OF B_console(2)] by blast
  moreover have "by_calls k M c1 (snd (next x c1))" for x using movesD [OF n] by blast
  ultimately show "True \<and> by_calls k M c (snd (trying catches msg m next c))"
    using r c1 cmd.R_trans [OF c1] by (auto simp: trying_def split: sum.split)
qed

lemma B_for_each: "(\<And>x. B k M (m x)) \<Longrightarrow> B k M (for_each m xs)"
  by (induction xs) (simp_all add: cmd.moves_ret cmd.moves_seq)

lemma B_iterate: "(\<And>x. B k M (m x)) \<Longrightarrow> B k M (iterate v m)"
  unfolding iterate_def by (intro cmd.moves_rules B_for_each)

lemma B_request: "meth \<in> M \<Longrightarrow> (\<And>r. B k M (next r)) \<Longrightarrow> B k M (cli_request k meth params next)"
  unfolding cli_request_def by (intro cmd.moves_rules B_trying B_cli_call)

lemma B_let: "(\<And>x. B k M (f x)) \<Longrightarrow> B k M (Let v f)"
  by simp

lemmas B_rules = cmd.moves_rules B_console B_trying B_iterate B_for_each B_request B_let

lemma B_shows:
  "B k M (show_rows key none row res)" "B k M (show_or key none res)" "B k M (show_record key res)"
  "B k M (changed_line verb res)" "B k M (show_check res)"
  unfolding show_rows_def show_or_def show_record_def changed_line_def show_check_def by (intro B_rules)+

lemma B_with:
  "(\<And>x. B k M (next x)) \<Longrightarrow> B k M (with_metrics k f next)"
  "(\<And>x. B k M (next' x)) \<Longrightarrow> B k M (with_limits k lims params next')"
  unfolding with_metrics_def with_limits_def by (intro B_rules | assumption)+

lemma B_probe: "''tunnel.status'' \<in> M \<Longrightarrow> B k M (cli_probe k)"
  unfolding cli_probe_def
  by (rule cmd.moves_handle) (auto intro: B_cli_call cmd.moves_ret split: if_splits)

lemma B_doctor_rows: "B k M (doctor_rows a xs n)"
  by (induction xs arbitrary: n) (auto intro!: B_rules)

lemma B_doctor_sessions: "B k M (doctor_sessions a v)"
  unfolding doctor_sessions_def by (intro B_rules B_doctor_rows)

lemma B_main: "B k (set (cli_methods cmd)) (cli_main k usage (Some cmd))"
  by (cases cmd)
    (simp_all add: cmd_tunnel_status_def cmd_doctor_def cmd_session_list_def cmd_session_current_def
      cmd_session_reap_def cmd_context_show_def cmd_context_export_def cmd_context_import_def cmd_ping_def
      cmd_proposal_create_def cmd_proposal_list_def cmd_proposal_show_def cmd_proposal_approve_def
      cmd_proposal_reject_def cmd_transaction_list_def cmd_transaction_show_def cmd_result_import_def
      cmd_result_latest_def cmd_constraint_check_def cmd_run_list_def cmd_run_show_def cmd_run_import_result_def,
      (intro B_rules B_shows B_with B_probe B_cli_call B_doctor_sessions; simp)+)

subsection \<open>Exit codes\<close>

text \<open>
  How a command may end: code 0 with nothing on the error stream, or code 1 with one line there. A
  verdict (a status, a diagnosis, a constraint check) may also end with code 1 and no such line.
\<close>

definition ends_well :: "bool \<Rightarrow> console \<Rightarrow> int \<Rightarrow> console \<Rightarrow> bool" where
  "ends_well verdict c n c' \<longleftrightarrow>
     n = 0 \<and> k_err c' = k_err c \<or> n = 1 \<and> (\<exists>m. k_err c' = k_err c @ [''ERROR: '' @ m]) \<or>
     verdict \<and> n = 1 \<and> k_err c' = k_err c"

definition quiet :: "'a cli \<Rightarrow> bool" where
  "quiet m \<longleftrightarrow> (\<forall>c. k_err (snd (m c)) = k_err c)"

definition codes :: "bool \<Rightarrow> int cli \<Rightarrow> bool" where
  "codes b m \<longleftrightarrow> (\<forall>c n c'. m c = (Inr n, c') \<longrightarrow> ends_well b c n c')"

lemma quiet_ops:
  "quiet (ret x)" "quiet (raise e)" "quiet (lift_res r)" "quiet (say_out l)" "quiet (write_file w p t)" "quiet (ask f)"
  by (auto simp: quiet_def op_defs say_out_def write_file_def split: option.split)

lemma quiet_bind: "quiet m \<Longrightarrow> (\<And>x. quiet (f x)) \<Longrightarrow> quiet (bind m f)"
  by (simp add: quiet_def snd_bind split: sum.split)

lemma quiet_seq: "quiet m \<Longrightarrow> quiet n \<Longrightarrow> quiet (seq m n)"
  by (simp add: seq_def quiet_bind)

lemma quiet_call: "quiet (cli_call k meth params)"
  by (simp add: quiet_def cli_call_def zoom_def raise_def split: option.split prod.split)

lemma quiet_probe: "quiet (cli_probe k)"
  using quiet_call [of k "''tunnel.status''" "[]"]
  by (auto simp: quiet_def cli_probe_def handle_def ret_def split: prod.splits sum.splits) (metis snd_conv)+

lemma quiet_for_each: "(\<And>x. quiet (m x)) \<Longrightarrow> quiet (for_each m xs)"
  by (induction xs) (simp_all add: quiet_ops quiet_seq)

lemma quiet_iterate: "(\<And>x. quiet (m x)) \<Longrightarrow> quiet (iterate v m)"
  unfolding iterate_def by (intro quiet_bind quiet_ops quiet_for_each)

lemma quiet_prod: "(\<And>a b. quiet (f a b)) \<Longrightarrow> quiet (case x of (a, b) \<Rightarrow> f a b)"
  by (cases x) simp

lemmas quiet_rules = quiet_ops quiet_bind quiet_seq quiet_call quiet_probe quiet_for_each quiet_iterate quiet_prod

lemma quiet_doctor_rows: "quiet (doctor_rows a xs n)"
  by (induction xs arbitrary: n) (auto intro!: quiet_rules)

lemma codes_ret: "codes b (ret 0)" "codes True (ret 1)" "codes True (ret (if p then 0 else 1))"
  by (simp_all add: codes_def ret_def ends_well_def)

lemma codes_fail: "codes b (cli_fail m)"
  by (auto simp: codes_def ends_well_def cli_fail_def op_defs)

lemma codes_bind:
  assumes "quiet m" and "\<And>x. codes b (f x)"
  shows "codes b (bind m f)"
  unfolding codes_def
proof (intro allI impI)
  fix c n c' assume "bind m f c = (Inr n, c')"
  then obtain x c1 where c1: "m c = (Inr x, c1)" and f: "f x c1 = (Inr n, c')" by (elim bind_InrE)
  have "k_err c1 = k_err c" using assms(1) c1 unfolding quiet_def by (metis snd_conv)
  moreover have "ends_well b c1 n c'" using assms(2) f unfolding codes_def by blast
  ultimately show "ends_well b c n c'" by (simp add: ends_well_def)
qed

lemma codes_seq: "quiet m \<Longrightarrow> codes b n \<Longrightarrow> codes b (seq m n)"
  by (simp add: seq_def codes_bind)

lemma codes_finish: "codes b (finish l)"
  unfolding finish_def by (intro codes_seq quiet_ops codes_ret)

lemma codes_trying:
  assumes m: "quiet m" and n: "\<And>x. codes b (next x)"
  shows "codes b (trying catches msg m next)"
  unfolding codes_def
proof (intro allI impI)
  fix c k c' assume r: "trying catches msg m next c = (Inr k, c')"
  obtain q c1 where q: "m c = (q, c1)" by fastforce
  with m have "k_err c1 = k_err c" unfolding quiet_def by (metis snd_conv)
  moreover have "ends_well b c1 k c'"
    using r q n codes_fail [of b] by (auto simp: trying_def codes_def split: sum.splits if_splits)
  ultimately show "ends_well b c k c'" by (simp add: ends_well_def)
qed

lemma codes_if: "(b \<Longrightarrow> codes v m) \<Longrightarrow> (\<not> b \<Longrightarrow> codes v n) \<Longrightarrow> codes v (if b then m else n)"
  by simp

lemma codes_option:
  "codes v m \<Longrightarrow> (\<And>y. codes v (f y)) \<Longrightarrow> codes v (case x of None \<Rightarrow> m | Some y \<Rightarrow> f y)"
  by (cases x) simp_all

lemma codes_let: "(\<And>x. codes v (f x)) \<Longrightarrow> codes v (Let y f)"
  by simp

lemma codes_request: "(\<And>r. codes b (next r)) \<Longrightarrow> codes b (cli_request k meth params next)"
  unfolding cli_request_def by (intro codes_bind codes_trying quiet_rules)

lemmas codes_rules = codes_ret codes_fail codes_bind codes_seq codes_finish codes_trying codes_if codes_option codes_let
  codes_request quiet_rules

lemma codes_shows:
  "codes b (show_rows key none row res)" "codes b (show_or key none res)" "codes b (show_record key res)"
  "codes b (changed_line verb res)" "codes True (show_check res)"
  unfolding show_rows_def show_or_def show_record_def changed_line_def show_check_def by (intro codes_rules)+

lemma codes_with:
  "(\<And>x. codes b (next x)) \<Longrightarrow> codes b (with_metrics k f next)"
  "(\<And>x. codes b (next' x)) \<Longrightarrow> codes b (with_limits k lims params next')"
  unfolding with_metrics_def with_limits_def by (intro codes_rules | assumption)+

lemma codes_doctor_sessions: "codes b (doctor_sessions a v)"
  unfolding doctor_sessions_def by (intro codes_rules quiet_doctor_rows)

fun is_verdict :: "cli_command \<Rightarrow> bool" where
  "is_verdict Cmd_Tunnel_Status = True"
| "is_verdict (Cmd_Doctor _) = True"
| "is_verdict (Cmd_Constraint_Check _ _) = True"
| "is_verdict _ = False"

lemma codes_main: "codes (is_verdict cmd) (cli_main k usage (Some cmd))"
  by (cases cmd)
    (simp_all add: cmd_tunnel_status_def cmd_doctor_def cmd_session_list_def cmd_session_current_def
      cmd_session_reap_def cmd_context_show_def cmd_context_export_def cmd_context_import_def cmd_ping_def
      cmd_proposal_create_def cmd_proposal_list_def cmd_proposal_show_def cmd_proposal_approve_def
      cmd_proposal_reject_def cmd_transaction_list_def cmd_transaction_show_def cmd_result_import_def
      cmd_result_latest_def cmd_constraint_check_def cmd_run_list_def cmd_run_show_def cmd_run_import_result_def,
      (intro codes_rules codes_shows codes_with codes_doctor_sessions)+)

subsection \<open>Properties\<close>

definition requests :: "cli_world \<Rightarrow> (string \<times> dict) list \<Rightarrow> json list" where
  "requests k ls = map (\<lambda>(meth, params). rpc_request (k_id k) meth params) ls"

lemma snd_call: "snd (call (methods w) i meth params s) = snd (tunnel_dispatch w (rpc_request i meth params) s)"
  by (auto simp: call_def tunnel_dispatch_def split: prod.split sum.split option.split)

lemma run_calls_messages: "run_calls k ls s = handle_messages (k_world k) (requests k ls) s"
  by (induction ls arbitrary: s) (auto simp: run_calls_def requests_def snd_call)

lemma asked_request [simp]: "asked_method (rpc_request i meth params) = Some meth"
  by (simp add: asked_method_def rpc_request_def)

lemma cli_runs_calls:
  obtains ls where "fst ` set ls \<subseteq> set (cli_methods cmd)"
    and "k_tunnel (snd (cli_main k usage (Some cmd) c)) = handle_messages (k_world k) (requests k ls) (k_tunnel c)"
  using movesD [OF B_main [of k cmd usage] TrueI, of c] unfolding by_calls_def run_calls_messages by blast

lemma requests_ask: "msg \<in> set (requests k ls) \<Longrightarrow> \<exists>m \<in> fst ` set ls. asked_method msg = Some m"
  by (auto simp: requests_def intro: rev_bexI)


lemma cli_asks:
  obtains msgs where "\<And>msg m. msg \<in> set msgs \<Longrightarrow> m \<notin> set (cli_methods cmd) \<Longrightarrow> asked_method msg \<noteq> Some m"
    and "k_tunnel (snd (cli_main k usage (Some cmd) c)) = handle_messages (k_world k) msgs (k_tunnel c)"
proof -
  obtain ls where ls: "fst ` set ls \<subseteq> set (cli_methods cmd)"
    "k_tunnel (snd (cli_main k usage (Some cmd) c)) = handle_messages (k_world k) (requests k ls) (k_tunnel c)"
    by (rule cli_runs_calls)
  have "asked_method msg \<noteq> Some m" if "msg \<in> set (requests k ls)" "m \<notin> set (cli_methods cmd)" for msg m
    using requests_ask [OF that(1)] ls(1) that(2) by auto
  then show ?thesis using that ls(2) by blast
qed

text \<open>Only the approving command approves, and no command records a change.\<close>

lemma cli_never_approves:
  assumes "daemon_ok (k_tunnel c)" and "''proposal.approve'' \<notin> set (cli_methods cmd)"
  shows "never_approves (d_proposals (k_tunnel c)) (d_proposals (k_tunnel (snd (cli_main k usage (Some cmd) c))))"
proof -
  obtain msgs where m: "\<And>msg m. msg \<in> set msgs \<Longrightarrow> m \<notin> set (cli_methods cmd) \<Longrightarrow> asked_method msg \<noteq> Some m"
    "k_tunnel (snd (cli_main k usage (Some cmd) c)) = handle_messages (k_world k) msgs (k_tunnel c)"
    by (rule cli_asks [where cmd = cmd and k = k and usage = usage and c = c]) blast
  with assms show ?thesis using oversight.M_without_approval [of msgs "k_tunnel c" "k_world k"]
    unfolding daemon_rel_def by auto
qed

lemma cli_adds_no_transaction:
  assumes "daemon_ok (k_tunnel c)"
  shows "no_new_transactions (d_transactions (k_tunnel c)) (d_transactions (k_tunnel (snd (cli_main k usage (Some cmd) c))))"
proof -
  obtain msgs where m: "\<And>msg m. msg \<in> set msgs \<Longrightarrow> m \<notin> set (cli_methods cmd) \<Longrightarrow> asked_method msg \<noteq> Some m"
    "k_tunnel (snd (cli_main k usage (Some cmd) c)) = handle_messages (k_world k) msgs (k_tunnel c)"
    by (rule cli_asks [where cmd = cmd and k = k and usage = usage and c = c]) blast
  have "''transaction.create'' \<notin> set (cli_methods cmd)" by (cases cmd) simp_all
  with assms m show ?thesis using gate.M_without_creation [of msgs "k_tunnel c" "k_world k"]
    unfolding daemon_rel_def by auto
qed


subsection \<open>Concrete instance\<close>

definition demo_cli :: cli_world where
  "demo_cli = \<lparr>k_world = demo_world, k_id = ''1'', k_down = None, k_endpoint = Inr (JStr DEFAULT_HOST, DEFAULT_PORT),
     k_read = (\<lambda>_. Inl (OSError ''No such file'')), k_yaml = None, k_refuses = (\<lambda>_. None)\<rparr>"

definition demo_console :: console where
  "demo_console = \<lparr>k_tunnel = demo_busy, k_out = [], k_err = [], k_files = []\<rparr>"


end
