(* ===== verification/Arguments.thy ===== *)
theory Arguments
  imports Daemon "HOL-Library.Sublist"
begin

section \<open>Command lines\<close>

text \<open>
  What \<open>argparse\<close> makes of a list of words, as far as the programs of the repository use it: options with one value or none,
  repeated options, positional names, levels of commands, \<open>--opt=value\<close>, unambiguous prefixes of long
  options, joined short options, and words that look like negative numbers. A command line with \<open>--\<close> is an
  outcome of its own, because its meaning depends on the version of the library; the texts of help
  and of errors are left out.
\<close>

subsection \<open>Tables\<close>

datatype value_kind = Text_Value | Float_Value | Int_Value | Appended | Switch_On

record option_spec =
  o_flag :: string
  o_dest :: string
  o_kind :: value_kind
  o_required :: bool
  o_default :: json

record leaf =
  f_options :: "option_spec list"
  f_words :: "string list"

definition opt :: "string \<Rightarrow> string \<Rightarrow> option_spec" where
  "opt flag dest = \<lparr>o_flag = flag, o_dest = dest, o_kind = Text_Value, o_required = False, o_default = JNull\<rparr>"

definition needed :: "option_spec \<Rightarrow> option_spec" where
  "needed sp = sp\<lparr>o_required := True\<rparr>"

definition float_opt :: "string \<Rightarrow> string \<Rightarrow> json \<Rightarrow> option_spec" where
  "float_opt flag dest dflt = (opt flag dest)\<lparr>o_kind := Float_Value, o_default := dflt\<rparr>"

definition address :: "option_spec list" where
  "address = [opt ''--host'' ''host'', opt ''--port'' ''port'']"

definition only :: "option_spec list \<Rightarrow> leaf" where
  "only opts = \<lparr>f_options = opts, f_words = []\<rparr>"

definition word :: "string \<Rightarrow> leaf" where
  "word dest = \<lparr>f_options = [], f_words = [dest]\<rparr>"

subsection \<open>Reading words\<close>

datatype word_class = Plain | Flag string "string option" | Ambiguous | Unknown_Flag

text \<open>\<open>^-\\d+$|^-\\d*\\.\\d+$\<close>\<close>

definition negative_number :: "string \<Rightarrow> bool" where
  "negative_number a =
     (case a of
        [] \<Rightarrow> False
      | c # r \<Rightarrow>
          (let ds = takeWhile is_digit r; t = dropWhile is_digit r
           in c = CHR ''-'' \<and>
              (t = [] \<and> ds \<noteq> [] \<or> (case t of d # f \<Rightarrow> d = CHR ''.'' \<and> f \<noteq> [] \<and> list_all is_digit f | [] \<Rightarrow> False))))"

text \<open>The flags a word abbreviates, with the text joined to it\<close>

definition abbreviated :: "string list \<Rightarrow> string \<Rightarrow> (string \<times> string option) list" where
  "abbreviated flags a =
     (if startswith a ''--''
      then (case partition_at CHR ''='' a of
              (n, v) \<Rightarrow> map (\<lambda>f. (f, if CHR ''='' \<in> set a then Some v else None)) (filter (\<lambda>f. startswith f n) flags))
      else map (\<lambda>f. (f, Some (drop 2 a))) (filter (\<lambda>f. f = take 2 a) flags) @
           map (\<lambda>f. (f, None)) (filter (\<lambda>f. f \<noteq> take 2 a \<and> startswith f a) flags))"

definition classify_word :: "string list \<Rightarrow> string \<Rightarrow> word_class" where
  "classify_word flags a =
     (if \<not> startswith a ''-'' then Plain
      else if a \<in> set flags then Flag a None
      else if length a = 1 then Plain
      else if CHR ''='' \<in> set a \<and> fst (partition_at CHR ''='' a) \<in> set flags
      then Flag (fst (partition_at CHR ''='' a)) (Some (snd (partition_at CHR ''='' a)))
      else case abbreviated flags a of
             [(f, x)] \<Rightarrow> Flag f x
           | _ # _ # _ \<Rightarrow> Ambiguous
           | [] \<Rightarrow> (if negative_number a \<or> CHR '' '' \<in> set a then Plain else Unknown_Flag))"

subsection \<open>One command\<close>

datatype 'a outcome = Parsed 'a | Show_Help | Show_Version | Usage_Error | Double_Dash

text \<open>
  An option without a value ends the program. Letters joined to a short one are further options, which the
  end of the program leaves unread (older versions of the library refuse unknown ones first).
\<close>

definition exit_by :: "(string \<times> 'a outcome) list \<Rightarrow> string \<Rightarrow> string option \<Rightarrow> 'a outcome" where
  "exit_by exits flag x =
     (case map_of exits flag of
        None \<Rightarrow> Usage_Error
      | Some r \<Rightarrow>
          (case x of
             None \<Rightarrow> r
           | Some v \<Rightarrow>
               (if startswith flag ''--'' \<or> v = [] then Usage_Error else r)))"

definition help_flags :: "(string \<times> 'a outcome) list" where
  "help_flags = [(''-h'', Show_Help), (''--help'', Show_Help)]"

definition version_flags :: "(string \<times> 'a outcome) list" where
  "version_flags = [(''-v'', Show_Version), (''--version'', Show_Version)]"

definition leaf_flags :: "leaf \<Rightarrow> string list" where
  "leaf_flags f = [''-h'', ''--help''] @ map o_flag (f_options f)"

definition option_of :: "leaf \<Rightarrow> string \<Rightarrow> option_spec option" where
  "option_of f flag = find (\<lambda>sp. o_flag sp = flag) (f_options f)"

text \<open>The value of an option's text; None when it cannot be converted\<close>

definition converted :: "value_kind \<Rightarrow> string \<Rightarrow> json option" where
  "converted k v =
     (if k = Float_Value then map_option JFloat (parse_float v)
      else if k = Int_Value then map_option JInt (parse_int v) else Some (JStr v))"

text \<open>\<open>action="append"\<close> keeps what the option has had so far.\<close>

definition stored :: "option_spec \<Rightarrow> json \<Rightarrow> dict \<Rightarrow> json" where
  "stored sp j ns =
     (if o_kind sp = Appended then (case dget ns (o_dest sp) of JList xs \<Rightarrow> JList (xs @ [j]) | _ \<Rightarrow> JList [j]) else j)"

definition leaf_defaults :: "leaf \<Rightarrow> dict" where
  "leaf_defaults f = map (\<lambda>sp. (o_dest sp, o_default sp)) (f_options f) @ map (\<lambda>d. (d, JNull)) (f_words f)"

definition leaf_complete :: "leaf \<Rightarrow> string list \<Rightarrow> bool" where
  "leaf_complete f given = list_all (\<lambda>sp. o_required sp \<longrightarrow> o_dest sp \<in> set given) (f_options f)"

text \<open>An option: its text joined to it or the next word, which must not look like an option\<close>

definition option_value :: "leaf \<Rightarrow> option_spec \<Rightarrow> string option \<Rightarrow> string list \<Rightarrow> (json \<times> bool) option" where
  "option_value f sp x as =
     (if o_kind sp = Switch_On then (if x = None then Some (JBool True, False) else None)
      else case x of
             Some v \<Rightarrow> map_option (\<lambda>j. (j, False)) (converted (o_kind sp) v)
           | None \<Rightarrow>
               (case as of
                  [] \<Rightarrow> None
                | v # rest \<Rightarrow>
                    (if classify_word (leaf_flags f) v = Plain then map_option (\<lambda>j. (j, True)) (converted (o_kind sp) v) else None)))"

text \<open>The words in order: the positional names left, the values so far, the options given, whether a word was left over\<close>

function parse_leaf :: "leaf \<Rightarrow> string list \<Rightarrow> string list \<Rightarrow> dict \<Rightarrow> string list \<Rightarrow> bool \<Rightarrow> dict outcome" where
  "parse_leaf f [] names ns given extra =
     (if names \<noteq> [] \<or> \<not> leaf_complete f given \<or> extra then Usage_Error else Parsed ns)"
| "parse_leaf f (a # as) names ns given extra =
     (case classify_word (leaf_flags f) a of
        Plain \<Rightarrow>
          (case names of
             [] \<Rightarrow> parse_leaf f as [] ns given True
           | d # ds \<Rightarrow> parse_leaf f as ds (dset d (JStr a) ns) given extra)
      | Unknown_Flag \<Rightarrow> parse_leaf f as names ns given True
      | Ambiguous \<Rightarrow> Usage_Error
      | Flag flag x \<Rightarrow>
          (case option_of f flag of
             None \<Rightarrow> exit_by help_flags flag x
           | Some sp \<Rightarrow>
               (case option_value f sp x as of
                  None \<Rightarrow> Usage_Error
                | Some (j, took) \<Rightarrow>
                    parse_leaf f (if took then tl as else as) names (dset (o_dest sp) (stored sp j ns) ns) (o_dest sp # given) extra)))"
  by pat_completeness auto
termination by (relation "measure (\<lambda>(f, as, x). length as)") auto

declare parse_leaf.simps(2) [simp del]

text \<open>An ambiguous word is refused before anything else is done.\<close>

definition parse_command :: "leaf \<Rightarrow> string list \<Rightarrow> bool \<Rightarrow> dict outcome" where
  "parse_command f as extra =
     (if list_ex (\<lambda>a. classify_word (leaf_flags f) a = Ambiguous) as then Usage_Error
      else parse_leaf f as (f_words f) (leaf_defaults f) [] extra)"

subsection \<open>Groups\<close>

text \<open>The words before a command's name; with no name there is nothing to do but to print the help.\<close>

fun parse_names ::
  "(string \<times> 'a outcome) list \<Rightarrow> (string \<Rightarrow> (string list \<Rightarrow> bool \<Rightarrow> 'a outcome) option) \<Rightarrow> string list \<Rightarrow> bool \<Rightarrow> 'a outcome" where
  "parse_names exits subs [] extra = (if extra then Usage_Error else Show_Help)"
| "parse_names exits subs (a # as) extra =
     (case classify_word (map fst exits) a of
        Plain \<Rightarrow> (case subs a of None \<Rightarrow> Usage_Error | Some p \<Rightarrow> p as extra)
      | Unknown_Flag \<Rightarrow> parse_names exits subs as True
      | Ambiguous \<Rightarrow> Usage_Error
      | Flag flag x \<Rightarrow> exit_by exits flag x)"

definition parse_group ::
  "(string \<times> 'a outcome) list \<Rightarrow> (string \<Rightarrow> (string list \<Rightarrow> bool \<Rightarrow> 'a outcome) option) \<Rightarrow> string list \<Rightarrow> bool \<Rightarrow> 'a outcome" where
  "parse_group exits subs as extra =
     (if list_ex (\<lambda>a. classify_word (map fst exits) a = Ambiguous) as then Usage_Error else parse_names exits subs as extra)"

text \<open>A program without commands\<close>

definition parse_program :: "leaf \<Rightarrow> string list \<Rightarrow> dict outcome" where
  "parse_program f argv = (if ''--'' \<in> set argv then Double_Dash else parse_command f argv False)"

definition given_text :: "dict \<Rightarrow> string \<Rightarrow> string option" where
  "given_text ns k = (case dget ns k of JStr s \<Rightarrow> Some s | _ \<Rightarrow> None)"

definition given_word :: "dict \<Rightarrow> string \<Rightarrow> string" where
  "given_word ns k = (case dget ns k of JStr s \<Rightarrow> s | _ \<Rightarrow> [])"

definition given_float :: "dict \<Rightarrow> string \<Rightarrow> pyfloat option" where
  "given_float ns k = (case dget ns k of JFloat x \<Rightarrow> Some x | _ \<Rightarrow> None)"

subsection \<open>Written words\<close>

definition assign :: "string \<Rightarrow> string \<Rightarrow> string" where
  "assign flag x = flag @ CHR ''='' # x"

definition joined :: "string \<Rightarrow> string option \<Rightarrow> string list" where
  "joined flag v = (case v of None \<Rightarrow> [] | Some x \<Rightarrow> [assign flag x])"

lemma classify_plain [simp]: "\<not> startswith a ''-'' \<Longrightarrow> classify_word flags a = Plain"
  by (simp add: classify_word_def)

definition flags_ok :: "string list \<Rightarrow> bool" where
  "flags_ok flags = list_all (\<lambda>f. startswith f ''-'' \<and> CHR ''='' \<notin> set f) flags"

lemma classify_assign:
  assumes "flags_ok flags" and "f \<in> set flags"
  shows "classify_word flags (assign f x) = Flag f (Some x)"
proof -
  from assms have f: "startswith f ''-''" "CHR ''='' \<notin> set f" and all: "f @ CHR ''='' # x \<notin> set flags"
    by (auto simp: flags_ok_def list_all_iff)
  from f(1) obtain r where r: "f = CHR ''-'' # r" by (auto simp: startswith_conv)
  show ?thesis using f(2) all assms(2) partition_at_append [of "CHR ''=''" f x] by (auto simp: classify_word_def assign_def r)
qed

lemma stored_plain [simp]: "o_kind sp \<noteq> Appended \<Longrightarrow> stored sp j ns = j"
  by (simp add: stored_def)

lemma option_of_flag: "option_of f flag = Some sp \<Longrightarrow> flag \<in> set (leaf_flags f)"
  by (auto simp: option_of_def leaf_flags_def find_Some_iff)

lemma leaf_assign:
  assumes "flags_ok (leaf_flags f)" and "option_of f flag = Some sp" and "o_kind sp \<noteq> Switch_On"
    and "converted (o_kind sp) x = Some j"
  shows "parse_leaf f (assign flag x # as) names ns given extra =
    parse_leaf f as names (dset (o_dest sp) (stored sp j ns) ns) (o_dest sp # given) extra"
  using classify_assign [OF assms(1) option_of_flag [OF assms(2)]] assms(2-4)
  by (simp add: parse_leaf.simps(2) option_value_def)

lemma leaf_pair:
  assumes "option_of f flag = Some sp" and "o_kind sp \<noteq> Switch_On" and "flags_ok (leaf_flags f)"
    and "classify_word (leaf_flags f) x = Plain" and "converted (o_kind sp) x = Some j"
  shows "parse_leaf f (flag # x # as) names ns given extra =
    parse_leaf f as names (dset (o_dest sp) (stored sp j ns) ns) (o_dest sp # given) extra"
proof -
  have "classify_word (leaf_flags f) flag = Flag flag None"
    using option_of_flag [OF assms(1)] assms(3) by (auto simp: classify_word_def flags_ok_def list_all_iff)
  with assms show ?thesis by (simp add: parse_leaf.simps(2) option_value_def)
qed

lemma flag_not_ambiguous:
  "flags_ok flags \<Longrightarrow> flag \<in> set flags \<Longrightarrow> classify_word flags flag \<noteq> Ambiguous"
  by (auto simp: classify_word_def)

lemma leaf_word:
  "\<not> startswith a ''-'' \<Longrightarrow> parse_leaf f (a # as) (d # ds) ns given extra = parse_leaf f as ds (dset d (JStr a) ns) given extra"
  by (simp add: parse_leaf.simps(2))

end
