(* ===== verification/Cli_Parser.thy ===== *)
theory Cli_Parser
  imports Cli Arguments
begin

section \<open>The arguments of the command line\<close>

text \<open>
  \<open>build_parser\<close> and \<open>main\<close> of \<open>cli.py\<close>: the table of groups, commands and options, the two levels of
  commands, and the call that the words of a line stand for.
\<close>

subsection \<open>The table\<close>

definition doctor_leaf :: leaf where
  "doctor_leaf = only (address @ [float_opt ''--stale-after'' ''stale_after'' (JFloat (Fin 120))])"

definition ping_leaf :: leaf where
  "ping_leaf = only [opt ''--session-id'' ''session_id'']"

definition cli_groups :: "(string \<times> (string \<times> leaf) list) list" where
  "cli_groups =
     [(''tunnel'',
        [(''start'', only (address @ [(opt ''--foreground'' ''foreground'')\<lparr>o_kind := Switch_On, o_default := JBool False\<rparr>])),
         (''stop'', only address), (''status'', only address)]),
      (''daemon'',
        [(''start'', only [opt ''--boot'' ''boot'', opt ''--cwd'' ''cwd'', float_opt ''--timeout'' ''timeout'' (JFloat (Fin 200))]),
         (''status'', only []), (''stop'', only [])]),
      (''session'',
        [(''list'', only []), (''current'', only []), (''reap'', only [float_opt ''--max-idle-s'' ''max_idle_s'' JNull])]),
      (''context'',
        [(''show'', only []), (''export'', only [opt ''--out'' ''out'']), (''import'', only [needed (opt ''--file'' ''file'')])]),
      (''proposal'',
        [(''create'', only [needed (opt ''--file'' ''file'')]), (''list'', only [opt ''--status'' ''status'']),
         (''show'', word ''proposal_id''), (''approve'', word ''proposal_id''), (''reject'', word ''proposal_id'')]),
      (''transaction'', [(''list'', only [opt ''--status'' ''status'']), (''show'', word ''transaction_id'')]),
      (''result'',
        [(''import'', only [needed (opt ''--file'' ''file''), (opt ''--source'' ''source'')\<lparr>o_default := JStr ''manual''\<rparr>,
            opt ''--test'' ''test'', opt ''--constraints'' ''constraints'']),
         (''latest'', only [])]),
      (''constraint'', [(''check'', only [needed (opt ''--file'' ''file''), opt ''--result'' ''result''])]),
      (''run'',
        [(''list'', only [opt ''--status'' ''status'']), (''show'', word ''run_id''),
         (''import-result'', only [needed (opt ''--run'' ''run_id''), needed (opt ''--file'' ''file''),
            (opt ''--source'' ''source'')\<lparr>o_default := JStr ''ade''\<rparr>, opt ''--constraints'' ''constraints''])])]"

type_synonym chosen = "string list \<times> dict"

definition at_path :: "string list \<Rightarrow> leaf \<Rightarrow> string list \<Rightarrow> bool \<Rightarrow> chosen outcome" where
  "at_path path f as extra = map_outcome (Pair path) (parse_command f as extra)"

definition group_parser :: "string \<Rightarrow> (string list \<Rightarrow> bool \<Rightarrow> chosen outcome) option" where
  "group_parser g =
     (if g = ''doctor'' then Some (at_path [g] doctor_leaf)
      else if g = ''ping'' then Some (at_path [g] ping_leaf)
      else map_option (\<lambda>cmds. parse_group help_flags (\<lambda>c. map_option (at_path [g, c]) (map_of cmds c))) (map_of cli_groups g))"

definition parse_args :: "string list \<Rightarrow> chosen outcome" where
  "parse_args argv =
     (if ''--'' \<in> set argv then Double_Dash else parse_group (help_flags @ version_flags) group_parser argv False)"

subsection \<open>The command\<close>

datatype invocation =
    Calls "string option" "string option" cli_command
  | Start_Tunnel "string option" "string option" bool
  | Stop_Tunnel "string option" "string option"
  | Start_Daemon "string option" "string option" pyfloat
  | Status_Daemon
  | Stop_Daemon

text \<open>\<open>set_defaults(func=...)\<close>: the function of each command, with its arguments\<close>

definition invocation_of :: "string list \<Rightarrow> dict \<Rightarrow> invocation option" where
  "invocation_of path ns =
     (let txt = given_text ns; wrd = given_word ns; flt = given_float ns;
          at_address = Calls (txt ''host'') (txt ''port''); calls = Calls None None
      in map_of
        [([''tunnel'', ''start''], Start_Tunnel (txt ''host'') (txt ''port'') (dget ns ''foreground'' = JBool True)),
         ([''tunnel'', ''stop''], Stop_Tunnel (txt ''host'') (txt ''port'')),
         ([''tunnel'', ''status''], at_address Cmd_Tunnel_Status),
         ([''daemon'', ''start''], Start_Daemon (txt ''boot'') (txt ''cwd'') (case flt ''timeout'' of Some x \<Rightarrow> x | None \<Rightarrow> NaN)),
         ([''daemon'', ''status''], Status_Daemon),
         ([''daemon'', ''stop''], Stop_Daemon),
         ([''session'', ''list''], calls Cmd_Session_List),
         ([''session'', ''current''], calls Cmd_Session_Current),
         ([''session'', ''reap''], calls (Cmd_Session_Reap (flt ''max_idle_s''))),
         ([''doctor''], at_address (Cmd_Doctor (case flt ''stale_after'' of Some x \<Rightarrow> x | None \<Rightarrow> NaN))),
         ([''context'', ''show''], calls Cmd_Context_Show),
         ([''context'', ''export''], calls (Cmd_Context_Export (txt ''out''))),
         ([''context'', ''import''], calls (Cmd_Context_Import (wrd ''file''))),
         ([''ping''], calls (Cmd_Ping (txt ''session_id''))),
         ([''proposal'', ''create''], calls (Cmd_Proposal_Create (wrd ''file''))),
         ([''proposal'', ''list''], calls (Cmd_Proposal_List (txt ''status''))),
         ([''proposal'', ''show''], calls (Cmd_Proposal_Show (wrd ''proposal_id''))),
         ([''proposal'', ''approve''], calls (Cmd_Proposal_Approve (wrd ''proposal_id''))),
         ([''proposal'', ''reject''], calls (Cmd_Proposal_Reject (wrd ''proposal_id''))),
         ([''transaction'', ''list''], calls (Cmd_Transaction_List (txt ''status''))),
         ([''transaction'', ''show''], calls (Cmd_Transaction_Show (wrd ''transaction_id''))),
         ([''result'', ''import''],
            calls (Cmd_Result_Import (wrd ''file'') (wrd ''source'') (txt ''test'') (txt ''constraints''))),
         ([''result'', ''latest''], calls Cmd_Result_Latest),
         ([''constraint'', ''check''], calls (Cmd_Constraint_Check (wrd ''file'') (txt ''result''))),
         ([''run'', ''list''], calls (Cmd_Run_List (txt ''status''))),
         ([''run'', ''show''], calls (Cmd_Run_Show (wrd ''run_id''))),
         ([''run'', ''import-result''],
            calls (Cmd_Run_Import_Result (wrd ''run_id'') (wrd ''file'') (wrd ''source'') (txt ''constraints'')))] path)"

definition vfp_main :: "string list \<Rightarrow> invocation outcome" where
  "vfp_main argv =
     (case parse_args argv of
        Parsed (path, ns) \<Rightarrow> (case invocation_of path ns of Some i \<Rightarrow> Parsed i | None \<Rightarrow> Show_Help)
      | Show_Help \<Rightarrow> Show_Help | Show_Version \<Rightarrow> Show_Version | Usage_Error \<Rightarrow> Usage_Error | Double_Dash \<Rightarrow> Double_Dash)"

subsection \<open>Writing a command line\<close>

text \<open>\<open>num\<close> writes a number.\<close>

fun argv_of_call :: "(pyfloat \<Rightarrow> string) \<Rightarrow> cli_command \<Rightarrow> string list" where
  "argv_of_call num Cmd_Tunnel_Status = [''tunnel'', ''status'']"
| "argv_of_call num (Cmd_Doctor a) = [''doctor'', assign ''--stale-after'' (num a)]"
| "argv_of_call num Cmd_Session_List = [''session'', ''list'']"
| "argv_of_call num Cmd_Session_Current = [''session'', ''current'']"
| "argv_of_call num (Cmd_Session_Reap m) = [''session'', ''reap''] @ joined ''--max-idle-s'' (map_option num m)"
| "argv_of_call num Cmd_Context_Show = [''context'', ''show'']"
| "argv_of_call num (Cmd_Context_Export out) = [''context'', ''export''] @ joined ''--out'' out"
| "argv_of_call num (Cmd_Context_Import f) = [''context'', ''import'', assign ''--file'' (f)]"
| "argv_of_call num (Cmd_Ping i) = ''ping'' # joined ''--session-id'' i"
| "argv_of_call num (Cmd_Proposal_Create f) = [''proposal'', ''create'', assign ''--file'' (f)]"
| "argv_of_call num (Cmd_Proposal_List st) = [''proposal'', ''list''] @ joined ''--status'' st"
| "argv_of_call num (Cmd_Proposal_Show i) = [''proposal'', ''show'', i]"
| "argv_of_call num (Cmd_Proposal_Approve i) = [''proposal'', ''approve'', i]"
| "argv_of_call num (Cmd_Proposal_Reject i) = [''proposal'', ''reject'', i]"
| "argv_of_call num (Cmd_Transaction_List st) = [''transaction'', ''list''] @ joined ''--status'' st"
| "argv_of_call num (Cmd_Transaction_Show i) = [''transaction'', ''show'', i]"
| "argv_of_call num (Cmd_Result_Import f src t lims) =
     [''result'', ''import'', assign ''--file'' (f), assign ''--source'' (src)] @ joined ''--test'' t @ joined ''--constraints'' lims"
| "argv_of_call num Cmd_Result_Latest = [''result'', ''latest'']"
| "argv_of_call num (Cmd_Constraint_Check f r) = [''constraint'', ''check'', assign ''--file'' (f)] @ joined ''--result'' r"
| "argv_of_call num (Cmd_Run_List st) = [''run'', ''list''] @ joined ''--status'' st"
| "argv_of_call num (Cmd_Run_Show i) = [''run'', ''show'', i]"
| "argv_of_call num (Cmd_Run_Import_Result i f src lims) =
     [''run'', ''import-result'', assign ''--run'' (i), assign ''--file'' (f), assign ''--source'' (src)] @ joined ''--constraints'' lims"

fun argv_of :: "(pyfloat \<Rightarrow> string) \<Rightarrow> invocation \<Rightarrow> string list" where
  "argv_of num (Calls h p cmd) = argv_of_call num cmd @ joined ''--host'' h @ joined ''--port'' p"
| "argv_of num (Start_Tunnel h p b) =
     [''tunnel'', ''start''] @ joined ''--host'' h @ joined ''--port'' p @ (if b then [''--foreground''] else [])"
| "argv_of num (Stop_Tunnel h p) = [''tunnel'', ''stop''] @ joined ''--host'' h @ joined ''--port'' p"
| "argv_of num (Start_Daemon b d t) =
     [''daemon'', ''start''] @ joined ''--boot'' b @ joined ''--cwd'' d @ [assign ''--timeout'' (num t)]"
| "argv_of num Status_Daemon = [''daemon'', ''status'']"
| "argv_of num Stop_Daemon = [''daemon'', ''stop'']"

text \<open>The ids that stand alone do not begin like an option, and only two commands take an address.\<close>

fun typeable_call :: "cli_command \<Rightarrow> bool" where
  "typeable_call (Cmd_Proposal_Show i) = (\<not> startswith i ''-'')"
| "typeable_call (Cmd_Proposal_Approve i) = (\<not> startswith i ''-'')"
| "typeable_call (Cmd_Proposal_Reject i) = (\<not> startswith i ''-'')"
| "typeable_call (Cmd_Transaction_Show i) = (\<not> startswith i ''-'')"
| "typeable_call (Cmd_Run_Show i) = (\<not> startswith i ''-'')"
| "typeable_call _ = True"

fun typeable :: "invocation \<Rightarrow> bool" where
  "typeable (Calls h p cmd) =
     (typeable_call cmd \<and> (h = None \<and> p = None \<or> cmd = Cmd_Tunnel_Status \<or> (\<exists>a. cmd = Cmd_Doctor a)))"
| "typeable _ = True"

subsection \<open>Words\<close>

text \<open>Words that no level of the parser takes for an ambiguous abbreviation\<close>

definition all_flags :: "string list" where
  "all_flags = [''--host'', ''--port'', ''--stale-after'', ''--session-id'', ''--boot'', ''--cwd'', ''--timeout'', ''--max-idle-s'', ''--out'',
     ''--file'', ''--status'', ''--source'', ''--test'', ''--constraints'', ''--result'', ''--run'']"

fun clear_word :: "leaf \<Rightarrow> string \<Rightarrow> bool" where
  "clear_word f w = (\<not> startswith w ''-'' \<or> w = ''--foreground'' \<and> w \<in> set (leaf_flags f) \<or>
     (\<exists>flag x. w = assign flag x \<and> flag \<in> set all_flags \<and> flag \<in> set (leaf_flags f)))"

declare clear_word.simps [simp del]

lemma abbreviated_assign:
  "startswith f ''--'' \<Longrightarrow> CHR ''='' \<notin> set f \<Longrightarrow>
   abbreviated flags (assign f x) = map (\<lambda>g. (g, Some x)) (filter (\<lambda>g. startswith g f) flags)"
  using partition_at_append [of "CHR ''=''" f x] by (auto simp: abbreviated_def assign_def startswith_conv)

lemma clear_names:
  assumes "flag \<in> set all_flags" and "set flags \<subseteq> {''-h'', ''--help'', ''-v'', ''--version''}"
  shows "classify_word flags (assign flag x) \<noteq> Ambiguous"
proof -
  from assms(1) have f: "startswith flag ''--''" "CHR ''='' \<notin> set flag" "\<forall>g \<in> {''-h'', ''--help'', ''-v'', ''--version''}. \<not> startswith g flag"
    by (auto simp: all_flags_def)
  with assms(2) have none: "abbreviated flags (assign flag x) = []"
    by (auto simp: abbreviated_assign filter_empty_conv)
  show ?thesis by (simp add: classify_word_def none)
qed

lemma clear_word_names:
  assumes "clear_word f w" and "set flags \<subseteq> {''-h'', ''--help'', ''-v'', ''--version''}"
  shows "classify_word flags w \<noteq> Ambiguous"
proof -
  have "abbreviated flags ''--foreground'' = []"
    using assms(2) by (auto simp: abbreviated_def filter_empty_conv)
  then have "classify_word flags ''--foreground'' \<noteq> Ambiguous" by (simp add: classify_word_def)
  with assms clear_names [OF _ assms(2)] show ?thesis by (auto simp: clear_word.simps)
qed

lemma clear_word_leaf:
  assumes "clear_word f w" and "flags_ok (leaf_flags f)"
  shows "classify_word (leaf_flags f) w \<noteq> Ambiguous" and "w \<noteq> ''--''"
proof -
  have "classify_word (leaf_flags f) ''--foreground'' \<noteq> Ambiguous" if "''--foreground'' \<in> set (leaf_flags f)"
    using that by (simp add: classify_word_def)
  with assms classify_assign [OF assms(2)] show "classify_word (leaf_flags f) w \<noteq> Ambiguous"
    by (auto simp: clear_word.simps)
  have "''--'' \<noteq> assign flag x" for flag x by (cases flag; cases "tl flag") (auto simp: assign_def)
  then have "clear_word f ''--'' = False" by (simp add: clear_word.simps)
  with assms(1) show "w \<noteq> ''--''" by auto
qed

lemma parse_two:
  assumes "map_of cli_groups g = Some cmds" and "map_of cmds c = Some f" and "\<forall>w \<in> {g, c}. \<not> startswith w ''-''"
    and "g \<notin> {''doctor'', ''ping''}" and "flags_ok (leaf_flags f)" and "\<forall>w \<in> set ws. clear_word f w"
  shows "parse_args (g # c # ws) = map_outcome (Pair [g, c]) (parse_leaf f ws (f_words f) (leaf_defaults f) [] False)"
proof -
  have plain: "clear_word f g" "clear_word f c" using assms(3) by (auto simp: clear_word.simps)
  have no: "\<not> list_ex (\<lambda>a. classify_word flags a = Ambiguous) vs"
    if "set vs \<subseteq> insert g (insert c (set ws))" "set flags \<subseteq> {''-h'', ''--help'', ''-v'', ''--version''}" for vs flags
    using clear_word_names [OF _ that(2), of f] plain assms(6) that(1) by (fastforce simp: list_ex_iff)
  have "\<not> list_ex (\<lambda>a. classify_word (leaf_flags f) a = Ambiguous) ws"
    using clear_word_leaf(1) [OF _ assms(5)] assms(6) by (auto simp: list_ex_iff)
  moreover have "''--'' \<notin> set (g # c # ws)" using clear_word_leaf(2) [OF _ assms(5)] assms(6) plain by fastforce
  moreover have "set ws \<subseteq> insert g (insert c (set ws))" by auto
  ultimately show ?thesis
    using assms(1-4) no [of "g # c # ws" "map fst (help_flags @ version_flags)"] no [of "c # ws" "map fst help_flags"]
    by (simp add: parse_args_def parse_group_def group_parser_def at_path_def parse_command_def help_flags_def version_flags_def)
qed

lemma parse_one:
  assumes "(g, f) \<in> {(''doctor'', doctor_leaf), (''ping'', ping_leaf)}" and "\<forall>w \<in> set ws. clear_word f w"
  shows "parse_args (g # ws) = map_outcome (Pair [g]) (parse_leaf f ws (f_words f) (leaf_defaults f) [] False)"
proof -
  have ok: "flags_ok (leaf_flags f)" and g: "clear_word f g" "\<not> startswith g ''-''"
    using assms(1) by (auto simp: flags_ok_def leaf_flags_def doctor_leaf_def ping_leaf_def only_def address_def opt_def float_opt_def clear_word.simps)
  have "\<not> list_ex (\<lambda>a. classify_word (map fst (help_flags @ version_flags :: (string \<times> nat outcome) list)) a = Ambiguous) (g # ws)"
    using clear_word_names [of f _ "map fst (help_flags @ version_flags)"] assms(2) g by (fastforce simp: list_ex_iff help_flags_def version_flags_def)
  moreover have "\<not> list_ex (\<lambda>a. classify_word (leaf_flags f) a = Ambiguous) ws"
    using clear_word_leaf(1) [OF _ ok] assms(2) by (auto simp: list_ex_iff)
  moreover have "''--'' \<notin> set (g # ws)" using clear_word_leaf(2) [OF _ ok] assms(2) g by fastforce
  moreover have "group_parser g = Some (at_path [g] f)" using assms(1) by (auto simp: group_parser_def)
  ultimately show ?thesis
    using g(2) by (simp add: parse_args_def parse_group_def at_path_def parse_command_def help_flags_def version_flags_def)
qed

lemma clear_joined:
  "flag \<in> set all_flags \<Longrightarrow> flag \<in> set (leaf_flags f) \<Longrightarrow> clear_word f (assign flag x)"
  "\<not> startswith w ''-'' \<Longrightarrow> clear_word f w"
  by (auto simp: clear_word.simps)

lemma leaf_joined:
  assumes "flags_ok (leaf_flags f)" and "option_of f flag = Some sp" and "o_kind sp = Text_Value"
  shows "parse_leaf f (joined flag v @ as) names ns given extra =
    parse_leaf f as names (case v of None \<Rightarrow> ns | Some x \<Rightarrow> dset (o_dest sp) (JStr x) ns)
      (case v of None \<Rightarrow> given | Some x \<Rightarrow> o_dest sp # given) extra"
  using leaf_assign [OF assms(1,2)] assms(3) by (cases v) (simp_all add: joined_def converted_def)

lemma leaf_joined_last:
  assumes "flags_ok (leaf_flags f)" and "option_of f flag = Some sp" and "o_kind sp = Text_Value"
  shows "parse_leaf f (joined flag v) names ns given extra =
    parse_leaf f [] names (case v of None \<Rightarrow> ns | Some x \<Rightarrow> dset (o_dest sp) (JStr x) ns)
      (case v of None \<Rightarrow> given | Some x \<Rightarrow> o_dest sp # given) extra"
  using leaf_joined [OF assms, where as = "[]"] by simp

lemma joined_None: "joined flag None = []"
  by (simp add: joined_def)

lemma set_joined: "(\<forall>w \<in> set (joined flag v). P w) \<longleftrightarrow> (\<forall>x. v = Some x \<longrightarrow> P (assign flag x))"
  by (cases v) (simp_all add: joined_def)

lemma leaf_foreground:
  assumes "option_of f ''--foreground'' = Some sp" and "o_kind sp = Switch_On"
  shows "parse_leaf f (''--foreground'' # as) names ns given extra =
    parse_leaf f as names (dset (o_dest sp) (JBool True) ns) (o_dest sp # given) extra"
proof -
  have "classify_word (leaf_flags f) ''--foreground'' = Flag ''--foreground'' None"
    using option_of_flag [OF assms(1)] by (simp add: classify_word_def)
  with assms show ?thesis by (simp add: parse_leaf.simps(2) option_value_def)
qed

lemma typed_two:
  assumes "map_of cli_groups g = Some cmds" and "map_of cmds c = Some f" and "\<forall>w \<in> {g, c}. \<not> startswith w ''-''"
    and "g \<notin> {''doctor'', ''ping''}" and "flags_ok (leaf_flags f)" and "\<forall>w \<in> set ws. clear_word f w"
    and "(case parse_leaf f ws (f_words f) (leaf_defaults f) [] False of Parsed ns \<Rightarrow> invocation_of [g, c] ns | _ \<Rightarrow> None) = Some iv"
  shows "vfp_main (g # c # ws) = Parsed iv"
  using parse_two [OF assms(1-6)] assms(7) by (auto simp: vfp_main_def split: outcome.splits)

lemma typed_one:
  assumes "(g, f) \<in> {(''doctor'', doctor_leaf), (''ping'', ping_leaf)}" and "\<forall>w \<in> set ws. clear_word f w"
    and "(case parse_leaf f ws (f_words f) (leaf_defaults f) [] False of Parsed ns \<Rightarrow> invocation_of [g] ns | _ \<Rightarrow> None) = Some iv"
  shows "vfp_main (g # ws) = Parsed iv"
  using parse_one [OF assms(1,2)] assms(3) by (auto simp: vfp_main_def split: outcome.splits)

lemmas leaf_parts = only_def opt_def needed_def float_opt_def address_def word_def leaf_flags_def flags_ok_def option_of_def
  converted_def leaf_complete_def leaf_defaults_def all_flags_def set_joined ball_Un joined_None clear_joined leaf_assign leaf_joined
  leaf_joined_last leaf_foreground leaf_word invocation_of_def given_text_def given_word_def given_float_def

fun floats_of :: "invocation \<Rightarrow> pyfloat list" where
  "floats_of (Calls h p (Cmd_Doctor a)) = [a]"
| "floats_of (Calls h p (Cmd_Session_Reap (Some m))) = [m]"
| "floats_of (Start_Daemon b d t) = [t]"
| "floats_of _ = []"

lemma clear_foreground: "''--foreground'' \<in> set (leaf_flags f) \<Longrightarrow> clear_word f ''--foreground''"
  by (simp add: clear_word.simps)

lemma doctor_typed:
  assumes "parse_float (num a) = Some a"
  shows "vfp_main (argv_of num (Calls h p (Cmd_Doctor a))) = Parsed (Calls h p (Cmd_Doctor a))"
  unfolding argv_of.simps argv_of_call.simps append.simps
proof (rule typed_one [where f = doctor_leaf])
qed (simp_all add: leaf_parts doctor_leaf_def assms split: option.split)

lemma ping_typed: "vfp_main (argv_of num (Calls None None (Cmd_Ping i))) = Parsed (Calls None None (Cmd_Ping i))"
  unfolding argv_of.simps argv_of_call.simps append.simps
  by (rule typed_one [where f = ping_leaf]) (simp_all add: leaf_parts ping_leaf_def split: option.split)

lemma processes_typed:
  "vfp_main ([''tunnel'', ''start''] @ joined ''--host'' h @ joined ''--port'' p @ (if b then [''--foreground''] else [])) =
     Parsed (Start_Tunnel h p b)"
  "vfp_main ([''tunnel'', ''stop''] @ joined ''--host'' h @ joined ''--port'' p) = Parsed (Stop_Tunnel h p)"
  "parse_float t = Some x \<Longrightarrow>
     vfp_main ([''daemon'', ''start''] @ joined ''--boot'' il @ joined ''--cwd'' d @ [assign ''--timeout'' t]) = Parsed (Start_Daemon il d x)"
  "vfp_main [''daemon'', ''status''] = Parsed Status_Daemon"
  "vfp_main [''daemon'', ''stop''] = Parsed Stop_Daemon"
  unfolding append.simps
  by (rule typed_two, simp add: cli_groups_def, simp, simp, simp, simp add: leaf_parts, simp add: leaf_parts clear_foreground,
      simp add: leaf_parts split: option.split)+

lemma listing_typed:
  "vfp_main ([''tunnel'', ''status''] @ joined ''--host'' h @ joined ''--port'' p) = Parsed (Calls h p Cmd_Tunnel_Status)"
  "vfp_main [''session'', ''list''] = Parsed (Calls None None Cmd_Session_List)"
  "vfp_main [''session'', ''current''] = Parsed (Calls None None Cmd_Session_Current)"
  "vfp_main [''context'', ''show''] = Parsed (Calls None None Cmd_Context_Show)"
  "vfp_main (''context'' # ''export'' # joined ''--out'' v) = Parsed (Calls None None (Cmd_Context_Export v))"
  "vfp_main (''proposal'' # ''list'' # joined ''--status'' v) = Parsed (Calls None None (Cmd_Proposal_List v))"
  "vfp_main (''transaction'' # ''list'' # joined ''--status'' v) = Parsed (Calls None None (Cmd_Transaction_List v))"
  "vfp_main (''run'' # ''list'' # joined ''--status'' v) = Parsed (Calls None None (Cmd_Run_List v))"
  "vfp_main [''result'', ''latest''] = Parsed (Calls None None Cmd_Result_Latest)"
  unfolding append.simps
  by (rule typed_two, simp add: cli_groups_def, simp, simp, simp, simp add: leaf_parts, simp add: leaf_parts,
      simp add: leaf_parts split: option.split)+

lemma reaping_typed:
  "vfp_main [''session'', ''reap''] = Parsed (Calls None None (Cmd_Session_Reap None))"
  "parse_float t = Some x \<Longrightarrow>
     vfp_main [''session'', ''reap'', assign ''--max-idle-s'' t] = Parsed (Calls None None (Cmd_Session_Reap (Some x)))"
  by (rule typed_two, simp add: cli_groups_def, simp, simp, simp, simp add: leaf_parts, simp add: leaf_parts, simp add: leaf_parts)+

lemma filing_typed:
  "vfp_main [''context'', ''import'', assign ''--file'' f] = Parsed (Calls None None (Cmd_Context_Import f))"
  "vfp_main [''proposal'', ''create'', assign ''--file'' f] = Parsed (Calls None None (Cmd_Proposal_Create f))"
  "vfp_main ([''result'', ''import'', assign ''--file'' f, assign ''--source'' src] @ joined ''--test'' v @ joined ''--constraints'' lims) =
     Parsed (Calls None None (Cmd_Result_Import f src v lims))"
  "vfp_main ([''constraint'', ''check'', assign ''--file'' f] @ joined ''--result'' v) = Parsed (Calls None None (Cmd_Constraint_Check f v))"
  "vfp_main ([''run'', ''import-result'', assign ''--run'' i, assign ''--file'' f, assign ''--source'' src] @ joined ''--constraints'' lims) =
     Parsed (Calls None None (Cmd_Run_Import_Result i f src lims))"
  unfolding append.simps
  by (rule typed_two, simp add: cli_groups_def, simp, simp, simp, simp add: leaf_parts, simp add: leaf_parts,
      simp add: leaf_parts split: option.split)+

lemma naming_typed:
  assumes "\<not> startswith i ''-''"
  shows "vfp_main [''proposal'', ''show'', i] = Parsed (Calls None None (Cmd_Proposal_Show i))"
    and "vfp_main [''proposal'', ''approve'', i] = Parsed (Calls None None (Cmd_Proposal_Approve i))"
    and "vfp_main [''proposal'', ''reject'', i] = Parsed (Calls None None (Cmd_Proposal_Reject i))"
    and "vfp_main [''transaction'', ''show'', i] = Parsed (Calls None None (Cmd_Transaction_Show i))"
    and "vfp_main [''run'', ''show'', i] = Parsed (Calls None None (Cmd_Run_Show i))"
  by (rule typed_two, simp add: cli_groups_def, simp, simp, simp, simp add: leaf_parts, simp add: leaf_parts assms,
      simp add: leaf_parts assms)+

lemmas calls_typed = listing_typed [unfolded append.simps] filing_typed [unfolded append.simps] naming_typed

text \<open>
  C37. Every command can be typed. For every command and all arguments there is a command line, with the
  values joined to their options, that \<open>vfp\<close> reads as exactly this command: nothing a value contains, a
  leading dash, a blank or an equals sign included, makes it something else. Only an id that
  stands alone must not begin with a dash, and a number must be written so that it reads back.
\<close>

theorem command_line_roundtrip:
  assumes "typeable iv" and "\<forall>x \<in> set (floats_of iv). parse_float (num x) = Some x"
  shows "vfp_main (argv_of num iv) = Parsed iv"
proof (cases iv)
  case (Calls h p cmd)
  show ?thesis
  proof (cases cmd)
    case (Cmd_Session_Reap m)
    with Calls assms reaping_typed show ?thesis by (cases m) (simp_all add: joined_def)
  next
    case (Cmd_Doctor a)
    with Calls assms doctor_typed show ?thesis by simp
  next
    case (Cmd_Ping i)
    with Calls assms ping_typed show ?thesis by auto
  qed (use assms(1) Calls in \<open>auto simp: joined_None calls_typed\<close>)
qed (use assms in \<open>simp_all add: processes_typed [unfolded append.simps]\<close>)

theorem command_line_roundtrip_witness:
  "vfp_main [''proposal'', ''approve'', ''p_1''] = Parsed (Calls None None (Cmd_Proposal_Approve ''p_1''))"
  using command_line_roundtrip [of "Calls None None (Cmd_Proposal_Approve ''p_1'')" "\<lambda>x. []"] by (simp add: joined_def)

subsection \<open>Reading it backwards\<close>

lemma exit_by_Parsed: "exit_by exits flag x = Parsed r \<Longrightarrow> Parsed r \<in> set (map snd exits)"
  by (force simp: exit_by_def split: option.splits if_splits dest: map_of_SomeD)

lemma parse_names_Parsed:
  "parse_names exits subs as extra = Parsed r \<Longrightarrow> Parsed r \<notin> set (map snd exits) \<Longrightarrow>
     \<exists>pre a rest p e. as = pre @ a # rest \<and> subs a = Some p \<and> p rest e = Parsed r"
proof (induction exits subs as extra rule: parse_names.induct)
  case (2 exits subs a as extra)
  show ?case
  proof (cases "classify_word (map fst exits) a")
    case Plain
    with 2 obtain p where "subs a = Some p" "p as extra = Parsed r" by (auto split: option.splits)
    then show ?thesis by (metis append_Nil)
  next
    case Unknown_Flag
    with 2 obtain pre b rest p e where "as = pre @ b # rest" "subs b = Some p" "p rest e = Parsed r" by auto
    then show ?thesis by (metis append_Cons)
  next
    case (Flag f x)
    then have "exit_by exits f x = Parsed r" using 2 by simp
    from exit_by_Parsed [OF this] 2 show ?thesis by (elim notE)
  qed (use 2 in simp)
qed (simp split: if_splits)

lemma parse_group_Parsed:
  assumes "parse_group exits subs as extra = Parsed r" and "Parsed r \<notin> set (map snd exits)"
  shows "\<exists>pre a rest p e. as = pre @ a # rest \<and> subs a = Some p \<and> p rest e = Parsed r"
  using assms parse_names_Parsed by (auto simp: parse_group_def split: if_splits)

lemma exits_not_Parsed [simp]: "Parsed r \<notin> set (map snd help_flags)" "Parsed r \<notin> set (map snd (help_flags @ version_flags))"
  by (simp_all add: help_flags_def version_flags_def)

lemma parse_args_Parsed:
  assumes "parse_args argv = Parsed r"
  obtains pre g rest p e where "argv = pre @ g # rest" "group_parser g = Some p" "p rest e = Parsed r"
  using assms parse_group_Parsed [OF _ exits_not_Parsed(2)] by (fastforce simp: parse_args_def split: if_splits)

lemma at_path_Parsed: "at_path q f as extra = Parsed (path, ns) \<Longrightarrow> path = q \<and> parse_command f as extra = Parsed ns"
  by (cases "parse_command f as extra") (auto simp: at_path_def)

text \<open>A command of two words: both stand in the line, in this order.\<close>

lemma parse_args_two:
  assumes "parse_args argv = Parsed ([g, c], ns)"
  shows "\<exists>pre mid rest cmds f e. argv = pre @ g # mid @ c # rest \<and> map_of cli_groups g = Some cmds \<and>
           map_of cmds c = Some f \<and> parse_command f rest e = Parsed ns"
proof -
  obtain pre h as p e where a: "argv = pre @ h # as" "group_parser h = Some p" "p as e = Parsed ([g, c], ns)"
    using parse_args_Parsed [OF assms] .
  have "h \<noteq> ''doctor''" "h \<noteq> ''ping''" using a(2,3) by (auto simp: group_parser_def dest: at_path_Parsed)
  then obtain cmds where g: "map_of cli_groups h = Some cmds"
    and p: "p = parse_group help_flags (\<lambda>c. map_option (at_path [h, c]) (map_of cmds c))"
    using a(2) by (auto simp: group_parser_def)
  obtain mid d rest q e' where b: "as = mid @ d # rest" "map_option (at_path [h, d]) (map_of cmds d) = Some q"
    "q rest e' = Parsed ([g, c], ns)"
    using parse_group_Parsed [OF a(3) [unfolded p] exits_not_Parsed(1)] by blast
  then obtain f where f: "map_of cmds d = Some f" "q = at_path [h, d] f" by auto
  from at_path_Parsed [OF b(3) [unfolded f(2)]] have "h = g" "d = c" "parse_command f rest e' = Parsed ns" by auto
  then show ?thesis using a(1) b(1) f(1) g by auto
qed

lemma help_not_Parsed [simp]: "exit_by help_flags flag x \<noteq> Parsed r"
  by (simp add: exit_by_def help_flags_def split: option.splits)

lemma parse_leaf_word:
  "parse_leaf f as names ns given extra = Parsed ns' \<Longrightarrow> f_options f = [] \<Longrightarrow>
     names = [d] \<and> set as \<subseteq> X \<or> names = [] \<and> (\<exists>x \<in> X. dget ns d = JStr x) \<Longrightarrow> \<exists>x \<in> X. dget ns' d = JStr x"
proof (induction f as names ns given extra rule: parse_leaf.induct)
  case (2 f a as names ns given extra)
  have none: "option_of f flag = None" for flag using 2(6) by (simp add: option_of_def)
  show ?case
  proof (cases "classify_word (leaf_flags f) a")
    case Plain
    show ?thesis
    proof (cases names)
      case Nil
      with Plain 2 show ?thesis by (auto simp: parse_leaf.simps(2))
    next
      case (Cons n ns')
      with Plain 2(2) [OF Plain Cons] 2(5-) show ?thesis by (auto simp: parse_leaf.simps(2))
    qed
  next
    case Unknown_Flag
    with 2 show ?thesis by (auto simp: parse_leaf.simps(2))
  qed (use 2(5) none in \<open>simp_all add: parse_leaf.simps(2)\<close>)
qed (simp split: if_splits)

lemma word_Parsed:
  assumes "parse_command (word d) as extra = Parsed ns"
  shows "given_word ns d \<in> set as"
proof -
  have "\<exists>x \<in> set as. dget ns d = JStr x"
    using assms by (intro parse_leaf_word [of "word d" as "[d]"]) (auto simp: parse_command_def word_def split: if_splits)
  then show ?thesis by (auto simp: given_word_def)
qed

lemma approving:
  assumes "invocation_of path ns = Some (Calls h p cmd)" and "''proposal.approve'' \<in> set (cli_methods cmd)"
  shows "path = [''proposal'', ''approve''] \<and> cmd = Cmd_Proposal_Approve (given_word ns ''proposal_id'')"
proof -
  obtain i where "cmd = Cmd_Proposal_Approve i" using assms(2) by (cases cmd) (auto split: option.splits)
  with assms(1) show ?thesis unfolding invocation_of_def Let_def by (simp split: if_splits)
qed

text \<open>A line that approves holds both words of the command, written out, and after them the id.\<close>

lemma approval_typed:
  assumes "vfp_main argv = Parsed (Calls h p cmd)" and "''proposal.approve'' \<in> set (cli_methods cmd)"
  shows "\<exists>pre mid rest i. argv = pre @ ''proposal'' # mid @ ''approve'' # rest \<and> i \<in> set rest \<and> cmd = Cmd_Proposal_Approve i"
proof -
  obtain path ns where parsed: "parse_args argv = Parsed (path, ns)" and "invocation_of path ns = Some (Calls h p cmd)"
    using assms(1) by (auto simp: vfp_main_def split: outcome.splits prod.splits option.splits)
  from approving [OF this(2) assms(2)] have path: "path = [''proposal'', ''approve'']"
    and cmd: "cmd = Cmd_Proposal_Approve (given_word ns ''proposal_id'')" by simp_all
  from parse_args_two [OF parsed [unfolded path]] obtain pre mid rest cmds f e
    where a: "argv = pre @ ''proposal'' # mid @ ''approve'' # rest" "map_of cli_groups ''proposal'' = Some cmds"
      "map_of cmds ''approve'' = Some f" "parse_command f rest e = Parsed ns" by auto
  from a(2,3) have "f = word ''proposal_id''" by (simp add: cli_groups_def) (auto simp: word_def)
  with a(4) word_Parsed have "given_word ns ''proposal_id'' \<in> set rest" by blast
  with a(1) cmd show ?thesis by blast
qed

end
