(* ===== verification/Typed_Approval.thy ===== *)
theory Typed_Approval
  imports Cli_Parser Tunnel_Decisions
begin

section \<open>What a typed line approves\<close>

text \<open>
  The command line from its words to the stores of the tunnel: the words are read by the parser, the command
  calls the tunnel, and the tunnel's method changes the stored proposal (\<open>vfp_tunnel/cli.py\<close>,
  \<open>vfp_tunnel/daemon.py\<close>, \<open>vfp_tunnel/proposals.py\<close>).
\<close>

subsection \<open>An approval touches one proposal\<close>

definition only_at :: "pkey \<Rightarrow> (pkey \<Rightarrow> dict option) \<Rightarrow> rec_store \<Rightarrow> bool" where
  "only_at k m0 s \<longleftrightarrow> (\<forall>k'. k' \<noteq> k \<longrightarrow> map_of (mem s) k' = m0 k')"

lemma approve_only_at: "preserves (only_at (KStr i) m0) (proposal_approve t (JStr i))"
proof (rule preservesI)
  fix s assume s: "only_at (KStr i) m0 s"
  obtain r s' where r: "proposal_approve t (JStr i) s = (r, s')" by fastforce
  from r [unfolded proposal_ops] show "only_at (KStr i) m0 (snd (proposal_approve t (JStr i) s))"
    by (rule proposals.set_status_cases) (use s r in \<open>auto simp: only_at_def\<close>)
qed

lemma m_approve_only_at:
  "preserves (\<lambda>s. only_at (KStr i) m0 (d_proposals s)) (m_proposal_approve w [(''proposal_id'', JStr i)])"
  unfolding m_proposal_approve_def move_proposal_def Let_def emit_event_def on_proposals_def invalid_def
  by (intro keeps preserves_with_tick preserves_change)
     (auto simp: dget_def key_or_value_error_def invalid_def not_found_def split: exn.splits
       intro: preserves_zoom [OF _ _ approve_only_at])

lemma approve_asked: "methods w ''proposal.approve'' = Some (m_proposal_approve w)"
  by (simp add: methods_def method_table_def)

lemma call_approve:
  "preserves (\<lambda>s. only_at (KStr i) m0 (d_proposals s)) (call (methods w) mid ''proposal.approve'' [(''proposal_id'', JStr i)])"
proof (rule preservesI)
  fix s :: daemon assume "only_at (KStr i) m0 (d_proposals s)"
  then have "only_at (KStr i) m0 (d_proposals (snd (m_proposal_approve w [(''proposal_id'', JStr i)] s)))"
    using m_approve_only_at unfolding preserves_def by blast
  then show "only_at (KStr i) m0 (d_proposals (snd (call (methods w) mid ''proposal.approve'' [(''proposal_id'', JStr i)] s)))"
    by (auto simp: snd_call tunnel_dispatch_def dispatch_request approve_asked call_method_def split: prod.split sum.split)
qed

definition c_only :: "string \<Rightarrow> (pkey \<Rightarrow> dict option) \<Rightarrow> console \<Rightarrow> bool" where
  "c_only i m0 c \<longleftrightarrow> only_at (KStr i) m0 (d_proposals (k_tunnel c))"

lemma c_only_console: "preserves (c_only i m0) (cli_fail t)" "preserves (c_only i m0) (finish t)"
  by (auto simp: preserves_def c_only_def cli_fail_def finish_def say_out_def op_defs)

lemma preserves_trying:
  assumes "preserves I m" and "\<And>x. preserves I (next x)" and "\<And>t. preserves I (cli_fail t)"
  shows "preserves I (trying catches msg m next)"
proof (rule preservesI)
  fix c assume c: "I c"
  obtain r c' where r: "m c = (r, c')" by fastforce
  from preserves_run [OF assms(1) r c] assms(2,3) show "I (snd (trying catches msg m next c))"
    by (auto simp: trying_def r preserves_def split: sum.split)
qed

lemma cmd_approve_only: "preserves (c_only i m0) (cmd_proposal_approve k i)"
  unfolding cmd_proposal_approve_def cli_request_def cli_call_def changed_line_def c_only_def
  by (intro keeps preserves_trying preserves_zoom [OF _ _ call_approve] c_only_console [unfolded c_only_def]) auto

subsection \<open>From the words to the proposal\<close>


subsection \<open>Concrete instance\<close>

lemma demo_typed: "vfp_main [''proposal'', ''approve'', ''p_1''] = Parsed (Calls None None (Cmd_Proposal_Approve ''p_1''))"
  by code_simp

lemma demo_ran:
  "map_option (\<lambda>q. dget q ''status'') (map_of (mem (d_proposals (k_tunnel
     (snd (cli_main demo_cli [] (Some (Cmd_Proposal_Approve ''p_1'')) demo_console))))) (KStr ''p_1'')) = Some (JStr ''approved'')"
  by code_simp


end
