(* ===== verification/Virtuoso_Daemon.thy ===== *)
theory Virtuoso_Daemon
  imports Config
begin

section \<open>The headless Virtuoso and its supervisor\<close>

text \<open>
  \<open>sim/virtuoso_daemon.py\<close>: one child process, the thread that drains its output, the wait for the
  ready marker and the supervisor's loop with its state file. The outside is in the state: the
  processes that run, the clock, and the moments ahead. Every sleep of the source takes the next
  moment: a clock reading, what happened meanwhile, and whether a SIGTERM arrived. With no moment
  left the operation is \<open>Unfinished\<close>: the program is still in its loop. The waits inside \<open>stop\<close> do not
  take moments; how a child reacts to being asked, terminated or killed is its \<open>manners\<close>.
\<close>

definition DEFAULT_VIRTUOSO_CMD :: "string list" where
  "DEFAULT_VIRTUOSO_CMD = [''virtuoso'', ''-nograph'']"

definition READY_MARKER :: string where "READY_MARKER = ''VFP-DAEMON-READY''"

definition TAIL_MAX :: nat where "TAIL_MAX = 200"

definition default_boot_il :: "string \<Rightarrow> string" where
  "default_boot_il repo = path_join (path_join repo ''skill'') ''vfp_daemon_boot.il''"

definition resolve_command :: "(string \<Rightarrow> json option) \<Rightarrow> environ \<Rightarrow> string list" where
  "resolve_command parse env = (case virtuoso_cmd parse env of None \<Rightarrow> DEFAULT_VIRTUOSO_CMD | Some argv \<Rightarrow> argv)"

subsection \<open>The outside\<close>

datatype happening = Output string | Ended nat

record moment =
  m_clock :: rat
  m_term :: bool
  m_events :: "happening list"

datatype halt = Interrupted | Raised exn | Unfinished

datatype manners = Exits_When_Asked | Exits_On_Term | Needs_Kill

datatype request = Load string | Exit_Call | Terminate | Kill

text \<open>A daemon object's fixed attributes, and what the operating system answers to launches.\<close>

record vd_conf =
  command :: "string list"
  boot :: string
  launch_dir :: "string option"
  marker :: string
  ready_timeout :: rat
  spawn :: "nat \<Rightarrow> string + nat"
  manners_of :: "nat \<Rightarrow> manners"
  writable :: bool

record vd =
  v_proc :: "nat option"
  v_started :: "rat option"
  v_ready :: bool
  v_tail :: "string list"
  v_running :: "nat list"
  v_launches :: nat
  v_sent :: "(nat \<times> request) list"
  v_clock :: rat
  v_ahead :: "moment list"
  v_file :: "json option"
  v_stderr :: "string list"

type_synonym 'a vd_op = "(vd, halt, 'a) op"

subsection \<open>Draining the output\<close>

definition rstrip_newlines :: "string \<Rightarrow> string" where
  "rstrip_newlines s = rev (dropWhile (\<lambda>c. c = CHR 0x0A) (rev s))"

definition last_lines :: "nat \<Rightarrow> string list \<Rightarrow> string list" where
  "last_lines n xs = drop (length xs - n) xs"

definition is_marked :: "vd_conf \<Rightarrow> string \<Rightarrow> bool" where
  "is_marked c line = (marker c \<noteq> [] \<and> contains (marker c) line)"

fun happen :: "vd_conf \<Rightarrow> happening \<Rightarrow> vd \<Rightarrow> vd" where
  "happen c (Output raw) v =
     (let line = rstrip_newlines raw; xs = v_tail v @ [line]
      in v\<lparr>v_tail := (if TAIL_MAX < length xs then last_lines TAIL_MAX xs else xs),
           v_ready := (v_ready v \<or> is_marked c line)\<rparr>)"
| "happen c (Ended p) v = v\<lparr>v_running := removeAll p (v_running v)\<rparr>"

text \<open>A sleep.\<close>

definition pause :: "vd_conf \<Rightarrow> unit vd_op" where
  "pause c v =
     (case v_ahead v of
        [] \<Rightarrow> (Inl Unfinished, v)
      | m # ms \<Rightarrow>
          (let v' = fold (happen c) (m_events m) (v\<lparr>v_clock := m_clock m, v_ahead := ms\<rparr>)
           in if m_term m then (Inl Interrupted, v') else (Inr (), v')))"

subsection \<open>The child process\<close>

definition is_alive :: "vd \<Rightarrow> bool" where
  "is_alive v = (case v_proc v of None \<Rightarrow> False | Some p \<Rightarrow> p \<in> set (v_running v))"

definition json_time :: "rat option \<Rightarrow> json" where
  "json_time x = (case x of None \<Rightarrow> JNull | Some t \<Rightarrow> JFloat (Fin t))"

definition json_text :: "string option \<Rightarrow> json" where
  "json_text x = (case x of None \<Rightarrow> JNull | Some s \<Rightarrow> JStr s)"

definition json_pid :: "vd \<Rightarrow> json" where
  "json_pid v = (case v_proc v of None \<Rightarrow> JNull | Some p \<Rightarrow> JInt (int p))"

definition vd_status :: "vd_conf \<Rightarrow> vd \<Rightarrow> json" where
  "vd_status c v =
     JObj [(''alive'', JBool (is_alive v)), (''ready'', JBool (v_ready v)), (''pid'', json_pid v),
       (''started_at'', json_time (v_started v)),
       (''uptime_s'',
          (case v_started v of
             None \<Rightarrow> JNull
           | Some t \<Rightarrow> (if is_alive v \<and> t \<noteq> 0 then JFloat (to_double (v_clock v - t)) else JNull))),
       (''command'', JList (map JStr (command c))), (''boot'', JStr (boot c)), (''cwd'', json_text (launch_dir c))]"

definition start :: "vd_conf \<Rightarrow> json vd_op" where
  "start c v =
     (if is_alive v then (Inr (vd_status c v), v)
      else (let v = v\<lparr>v_ready := False, v_tail := [], v_launches := Suc (v_launches v)\<rparr>
            in case spawn c (v_launches v - 1) of
                 Inl m \<Rightarrow>
                   (Inl (Raised (RuntimeError (''could not launch Virtuoso '' @ py_repr (JList (map JStr (command c))) @
                      '': '' @ m))), v\<lparr>v_proc := None\<rparr>)
               | Inr p \<Rightarrow>
                   (let v = v\<lparr>v_proc := Some p, v_running := p # v_running v, v_started := Some (v_clock v),
                              v_sent := v_sent v @ [(p, Load (boot c))]\<rparr>
                    in (Inr (vd_status c v), v))))"

function wait_until :: "vd_conf \<Rightarrow> rat \<Rightarrow> bool vd_op" where
  "wait_until c deadline v =
     (if v_clock v < deadline
      then if v_ready v then (Inr True, v)
           else if \<not> is_alive v then (Inr (v_ready v), v)
           else case pause c v of (Inl h, v') \<Rightarrow> (Inl h, v') | (Inr _, v') \<Rightarrow> wait_until c deadline v'
      else (Inr (v_ready v), v))"
  by pat_completeness auto

lemma happen_fields [simp]:
  "v_ahead (happen c h v) = v_ahead v" "v_clock (happen c h v) = v_clock v" "v_proc (happen c h v) = v_proc v"
  "v_file (happen c h v) = v_file v" "v_launches (happen c h v) = v_launches v"
  by (cases h; simp add: Let_def)+

lemma fold_happen_fields [simp]:
  "v_ahead (fold (happen c) hs v) = v_ahead v" "v_clock (fold (happen c) hs v) = v_clock v"
  "v_proc (fold (happen c) hs v) = v_proc v" "v_file (fold (happen c) hs v) = v_file v"
  "v_launches (fold (happen c) hs v) = v_launches v"
  by (induction hs arbitrary: v) simp_all

lemma pause_shorter: "pause c v = (Inr u, v') \<Longrightarrow> length (v_ahead v') < length (v_ahead v)"
  by (auto simp: pause_def Let_def split: list.splits if_splits)

termination wait_until
  by (relation "measure (\<lambda>(c, d, v). length (v_ahead v))") (auto simp: pause_shorter)

declare wait_until.simps [simp del]

definition wait_ready :: "vd_conf \<Rightarrow> bool vd_op" where
  "wait_ready c v = wait_until c (v_clock v + ready_timeout c) v"

definition ensure_up :: "vd_conf \<Rightarrow> bool \<Rightarrow> bool vd_op" where
  "ensure_up c wait =
     bind (ask is_alive)
       (\<lambda>up. seq (if up then ret JNull else start c) (if wait then wait_ready c else ask is_alive))"

definition stop :: "vd_conf \<Rightarrow> unit vd_op" where
  "stop c v =
     (let v' = (case v_proc v of
                  None \<Rightarrow> v
                | Some p \<Rightarrow>
                    (if p \<in> set (v_running v)
                     then v\<lparr>v_sent := v_sent v @ map (Pair p)
                              (case manners_of c p of Exits_When_Asked \<Rightarrow> [Exit_Call] | Exits_On_Term \<Rightarrow> [Exit_Call, Terminate]
                               | Needs_Kill \<Rightarrow> [Exit_Call, Terminate, Kill]),
                            v_running := removeAll p (v_running v)\<rparr>
                     else v))
      in (Inr (), v'\<lparr>v_proc := None, v_started := None, v_ready := False\<rparr>))"

definition restart :: "vd_conf \<Rightarrow> json vd_op" where
  "restart c = seq (stop c) (start c)"

definition tail_lines :: "nat \<Rightarrow> vd \<Rightarrow> string list" where
  "tail_lines n v = (if n = 0 then v_tail v else last_lines n (v_tail v))"

subsection \<open>What an operation takes from the moments ahead\<close>

definition shorter :: "vd \<Rightarrow> vd \<Rightarrow> bool" where
  "shorter v v' \<longleftrightarrow> length (v_ahead v') \<le> length (v_ahead v)"

interpretation ahead: progress "\<lambda>_. True" shorter
  by unfold_locales (auto simp: shorter_def)

abbreviation T :: "'a vd_op \<Rightarrow> bool" where
  "T \<equiv> moves (\<lambda>_. True) shorter"

lemma T_pause: "T (pause c)"
  by (simp add: moves_def shorter_def pause_def Let_def split: list.split)

lemma T_start: "T (start c)"
  by (simp add: moves_def shorter_def start_def Let_def split: sum.split)

lemma T_wait_until: "T (wait_until c d)"
proof (rule movesI)
  fix v show "True \<and> shorter v (snd (wait_until c d v))"
  proof (induction c d v rule: wait_until.induct)
    case (1 c d v)
    show ?case
    proof (cases "v_clock v < d \<and> \<not> v_ready v \<and> is_alive v")
      case True
      obtain r v' where r: "pause c v = (r, v')" by fastforce
      then have le: "shorter v v'" using movesD [OF T_pause, of v c] by simp
      show ?thesis
      proof (cases r)
        case (Inl h)
        with True r le show ?thesis by (simp add: wait_until.simps [of c d v])
      next
        case (Inr u)
        with True r have "shorter v' (snd (wait_until c d v'))" using 1 by auto
        with ahead.R_trans [OF le] True r Inr show ?thesis by (simp add: wait_until.simps [of c d v])
      qed
    next
      case False
      then show ?thesis by (auto simp: wait_until.simps [of c d v] ahead.R_refl)
    qed
  qed
qed

lemma T_wait_ready: "T (wait_ready c)"
  using T_wait_until unfolding wait_ready_def moves_def by blast

subsection \<open>The supervisor\<close>

text \<open>\<open>finally\<close>: not for a program that is still running.\<close>

definition finally_do :: "unit vd_op \<Rightarrow> 'a vd_op \<Rightarrow> 'a vd_op" where
  "finally_do m n v = (case n v of (Inl Unfinished, v') \<Rightarrow> (Inl Unfinished, v') | (r, v') \<Rightarrow> (r, snd (m v')))"

text \<open>One round of a supervisor's loop: bring the child up again if it has gone, then sleep.\<close>

definition watch_round :: "vd_conf \<Rightarrow> unit vd_op \<Rightarrow> unit vd_op" where
  "watch_round c announce =
     bind (ask is_alive)
       (\<lambda>up. seq (if up then ret () else seq (start c) (seq (wait_ready c) announce)) (pause c))"

lemma watch_round_shorter:
  assumes "watch_round c m v = (Inr u, v')" and "T m"
  shows "length (v_ahead v') < length (v_ahead v)"
proof -
  let ?b = "if is_alive v then ret () else seq (start c) (seq (wait_ready c) m)"
  have b: "T ?b" by (intro ahead.moves_rules T_start T_wait_ready assms(2))
  obtain r v1 where r: "?b v = (r, v1)" by fastforce
  with movesD [OF b, of v] have "length (v_ahead v1) \<le> length (v_ahead v)" by (simp add: shorter_def)
  moreover from assms(1) r have "pause c v1 = (Inr u, v')"
    unfolding watch_round_def bind_def ask_def seq_def by (simp split: sum.splits prod.splits)
  ultimately show ?thesis using pause_shorter [of c v1] by simp
qed

function serve_loop :: "vd_conf \<Rightarrow> bool \<Rightarrow> nat option \<Rightarrow> nat \<Rightarrow> nat vd_op" where
  "serve_loop c again limit n v =
     (if \<not> is_alive v \<and> (\<not> again \<or> (case limit of None \<Rightarrow> False | Some k \<Rightarrow> k \<le> n)) then (Inr n, v)
      else let n' = (if is_alive v then n else Suc n)
           in case watch_round c (ret ()) v of
                (Inl Interrupted, v') \<Rightarrow> (Inr n', v')
              | (Inl h, v') \<Rightarrow> (Inl h, v')
              | (Inr _, v') \<Rightarrow> serve_loop c again limit n' v')"
  by pat_completeness auto
termination
  by (relation "measure (\<lambda>(c, a, l, n, v). length (v_ahead v))")
    (auto simp: ahead.moves_ret watch_round_shorter)

declare serve_loop.simps [simp del]

definition serve :: "vd_conf \<Rightarrow> bool \<Rightarrow> nat option \<Rightarrow> nat vd_op" where
  "serve c again limit = seq (ensure_up c True) (finally_do (stop c) (serve_loop c again limit 0))"

subsection \<open>The supervisor with its state file\<close>

definition vd_state_file :: "environ \<Rightarrow> string \<Rightarrow> string" where
  "vd_state_file = sub_dir ''virtuoso_daemon.json''"

definition state_doc :: "vd_conf \<Rightarrow> int \<Rightarrow> rat \<Rightarrow> string \<Rightarrow> bool \<Rightarrow> vd \<Rightarrow> json" where
  "state_doc c me started status up v =
     JObj [(''supervisor_pid'', JInt me), (''status'', JStr status), (''ready'', JBool up), (''virtuoso_pid'', json_pid v),
       (''boot'', JStr (boot c)), (''cwd'', json_text (launch_dir c)), (''started_at'', JFloat (Fin started))]"

definition write_state :: "vd_conf \<Rightarrow> int \<Rightarrow> rat \<Rightarrow> string \<Rightarrow> bool \<Rightarrow> unit vd_op" where
  "write_state c me started status up =
     change (\<lambda>v. if writable c then v\<lparr>v_file := Some (state_doc c me started status up v)\<rparr> else v)"

definition unlink_state :: "vd_conf \<Rightarrow> unit vd_op" where
  "unlink_state c = change (\<lambda>v. if writable c then v\<lparr>v_file := None\<rparr> else v)"

lemma T_write_state: "T (write_state c me st status up)"
  by (simp add: write_state_def moves_def change_def shorter_def)

function supervise :: "vd_conf \<Rightarrow> int \<Rightarrow> rat \<Rightarrow> unit vd_op" where
  "supervise c me started v =
     (case watch_round c (write_state c me started ''ready'' True) v of
        (Inl Interrupted, v') \<Rightarrow> (Inr (), v')
      | (Inl h, v') \<Rightarrow> (Inl h, v')
      | (Inr _, v') \<Rightarrow> supervise c me started v')"
  by pat_completeness auto
termination
  by (relation "measure (\<lambda>(c, m, t, v). length (v_ahead v))") (auto simp: T_write_state watch_round_shorter)

declare supervise.simps [simp del]

definition dump_tail :: "nat \<Rightarrow> unit vd_op" where
  "dump_tail n = change (\<lambda>v. v\<lparr>v_stderr := v_stderr v @ tail_lines n v\<rparr>)"

definition serve_main :: "vd_conf \<Rightarrow> int \<Rightarrow> int vd_op" where
  "serve_main c me =
     bind (ask v_clock)
       (\<lambda>started. seq (write_state c me started ''starting'' False)
         (bind (ensure_up c True)
           (\<lambda>up. seq (write_state c me started (if up then ''ready'' else ''failed'') up)
             (if \<not> up then seq (dump_tail 40) (seq (stop c) (seq (unlink_state c) (ret 3)))
              else seq (finally_do (seq (stop c) (unlink_state c)) (supervise c me started)) (ret 0)))))"

text \<open>The object \<open>serve_main\<close> makes of its arguments, and one that has not been started.\<close>

definition conf_of_args ::
  "string \<Rightarrow> (string \<Rightarrow> json option) \<Rightarrow> environ \<Rightarrow> string option \<Rightarrow> string option \<Rightarrow> rat \<Rightarrow>
   (nat \<Rightarrow> string + nat) \<Rightarrow> (nat \<Rightarrow> manners) \<Rightarrow> bool \<Rightarrow> vd_conf" where
  "conf_of_args repo parse env boot_arg cwd_arg timeout os mn wr =
     \<lparr>command = resolve_command parse env,
      boot = (case boot_arg of Some b \<Rightarrow> (if b = [] then default_boot_il repo else b) | None \<Rightarrow> default_boot_il repo),
      launch_dir = (case cwd_arg of Some d \<Rightarrow> (if d = [] then None else Some d) | None \<Rightarrow> None),
      marker = READY_MARKER, ready_timeout = timeout, spawn = os, manners_of = mn, writable = wr\<rparr>"

definition vd_init :: "rat \<Rightarrow> moment list \<Rightarrow> json option \<Rightarrow> vd" where
  "vd_init t0 ms file =
     \<lparr>v_proc = None, v_started = None, v_ready = False, v_tail = [], v_running = [], v_launches = 0, v_sent = [],
      v_clock = t0, v_ahead = ms, v_file = file, v_stderr = []\<rparr>"

subsection \<open>One child at a time\<close>

definition one_child :: "vd \<Rightarrow> bool" where
  "one_child v \<longleftrightarrow> v_running v = [] \<or> (\<exists>p. v_proc v = Some p \<and> v_running v = [p])"

lemma happen_running: "v_running (happen c h v) = (case h of Output _ \<Rightarrow> v_running v | Ended p \<Rightarrow> removeAll p (v_running v))"
  by (cases h) (simp_all add: Let_def)

lemma one_child_happen: "one_child v \<Longrightarrow> one_child (happen c h v)"
  by (cases h) (auto simp: one_child_def Let_def split: if_splits)

lemma one_child_fold: "one_child v \<Longrightarrow> one_child (fold (happen c) hs v)"
  by (induction hs arbitrary: v) (simp_all add: one_child_happen)

lemma one_child_cong: "v_running v' = v_running v \<Longrightarrow> v_proc v' = v_proc v \<Longrightarrow> one_child v' = one_child v"
  by (simp add: one_child_def)

lemma one_child_pause: "preserves one_child (pause c)"
proof (rule preservesI)
  fix v assume v: "one_child v"
  then have "one_child (fold (happen c) hs (v\<lparr>v_clock := t, v_ahead := ms\<rparr>))" for hs t ms
    by (intro one_child_fold) (simp add: one_child_def)
  with v show "one_child (snd (pause c v))" by (simp add: pause_def Let_def split: list.split)
qed

lemma one_child_dead: "one_child v \<Longrightarrow> \<not> is_alive v \<Longrightarrow> v_running v = []"
  by (auto simp: one_child_def is_alive_def)

lemma one_child_start: "preserves one_child (start c)"
  by (rule preservesI) (auto simp: start_def Let_def one_child_def is_alive_def split: sum.split option.splits)

lemma stop_running: "one_child v \<Longrightarrow> v_running (snd (stop c v)) = []"
  by (auto simp: stop_def one_child_def split: option.splits)

lemma one_child_stop: "preserves one_child (stop c)"
  by (rule preservesI) (simp add: one_child_def stop_running)

lemma one_child_wait_until: "preserves one_child (wait_until c d)"
proof (rule preservesI)
  fix v show "one_child v \<Longrightarrow> one_child (snd (wait_until c d v))"
  proof (induction c d v rule: wait_until.induct)
    case (1 c d v)
    obtain r v' where r: "pause c v = (r, v')" by fastforce
    have "one_child v'" by (rule preserves_run [OF one_child_pause r 1(2)])
    with 1 r show ?case by (subst wait_until.simps) (auto split: sum.split)
  qed
qed

lemma one_child_wait_ready: "preserves one_child (wait_ready c)"
  using one_child_wait_until unfolding wait_ready_def preserves_def by blast

lemma one_child_files: "preserves one_child (write_state c me st status up)" "preserves one_child (unlink_state c)"
    "preserves one_child (dump_tail n)"
  by (simp_all add: preserves_def write_state_def unlink_state_def dump_tail_def change_def one_child_def)

lemma one_child_ensure_up: "preserves one_child (ensure_up c b)"
  unfolding ensure_up_def by (intro keeps one_child_start one_child_wait_ready)

lemma one_child_round: "preserves one_child m \<Longrightarrow> preserves one_child (watch_round c m)"
  unfolding watch_round_def by (intro keeps one_child_start one_child_wait_ready one_child_pause)

lemma one_child_supervise: "preserves one_child (supervise c me st)"
proof (rule preservesI)
  fix v show "one_child v \<Longrightarrow> one_child (snd (supervise c me st v))"
  proof (induction c me st v rule: supervise.induct)
    case (1 c me st v)
    obtain r v' where r: "watch_round c (write_state c me st ''ready'' True) v = (r, v')" by fastforce
    have "one_child v'" by (rule preserves_run [OF one_child_round [OF one_child_files(1)] r 1(2)])
    with 1 r show ?case by (subst supervise.simps) (auto split: sum.split halt.split)
  qed
qed

lemma one_child_serve_loop: "preserves one_child (serve_loop c again limit n)"
proof (rule preservesI)
  fix v show "one_child v \<Longrightarrow> one_child (snd (serve_loop c again limit n v))"
  proof (induction c again limit n v rule: serve_loop.induct)
    case (1 c again limit n v)
    obtain r v' where r: "watch_round c (ret ()) v = (r, v')" by fastforce
    have "one_child v'" by (rule preserves_run [OF one_child_round [OF preserves_ret] r 1(2)])
    with 1 r show ?case by (subst serve_loop.simps) (auto simp: Let_def split: sum.split halt.split)
  qed
qed

lemma one_child_finally: "preserves one_child m \<Longrightarrow> preserves one_child n \<Longrightarrow> preserves one_child (finally_do m n)"
  by (auto simp: preserves_def finally_do_def split: prod.split sum.split halt.split)

lemma one_child_serve_main: "preserves one_child (serve_main c me)"
  unfolding serve_main_def
  by (intro keeps one_child_files one_child_ensure_up one_child_finally one_child_stop one_child_supervise)

lemma one_child_serve: "preserves one_child (serve c again limit)"
  unfolding serve_def by (intro keeps one_child_ensure_up one_child_finally one_child_stop one_child_serve_loop)

subsection \<open>Readiness\<close>

text \<open>What the draining thread keeps of any output, and when it signals readiness.\<close>

definition lines_of :: "happening list \<Rightarrow> string list" where
  "lines_of hs = concat (map (\<lambda>h. case h of Output raw \<Rightarrow> [rstrip_newlines raw] | Ended _ \<Rightarrow> []) hs)"

lemma last_lines_short: "length xs \<le> n \<Longrightarrow> last_lines n xs = xs"
  by (simp add: last_lines_def)

lemma last_lines_append: "last_lines n (last_lines n xs @ ys) = last_lines n (xs @ ys)"
  by (cases "length xs \<le> n") (auto simp: last_lines_def drop_append add.commute)

lemma drain_spec:
  assumes "length (v_tail v) \<le> TAIL_MAX"
  shows "v_tail (fold (happen c) hs v) = last_lines TAIL_MAX (v_tail v @ lines_of hs) \<and>
    v_ready (fold (happen c) hs v) = (v_ready v \<or> (\<exists>l \<in> set (lines_of hs). is_marked c l))"
  using assms
proof (induction hs arbitrary: v)
  case Nil
  then show ?case by (simp add: lines_of_def last_lines_short)
next
  case (Cons h hs)
  have t: "v_tail (happen c h v) = last_lines TAIL_MAX (v_tail v @ lines_of [h])"
    using Cons.prems by (cases h) (simp_all add: lines_of_def Let_def last_lines_short)
  then have "length (v_tail (happen c h v)) \<le> TAIL_MAX" by (simp add: last_lines_def)
  note IH = Cons.IH [OF this]
  have r: "v_ready (happen c h v) = (v_ready v \<or> (\<exists>l \<in> set (lines_of [h]). is_marked c l))"
    by (cases h) (simp_all add: lines_of_def Let_def)
  have l: "lines_of (h # hs) = lines_of [h] @ lines_of hs" by (simp add: lines_of_def)
  show ?case using IH t r by (simp add: l last_lines_append [of _ _ "lines_of hs"] bex_Un)
qed

lemma wait_until_result:
  "wait_until c d v = (Inr up, v') \<Longrightarrow> v_ready v' = up"
proof (induction c d v rule: wait_until.induct)
  case (1 c d v)
  then show ?case by (subst (asm) (2) wait_until.simps) (auto split: if_splits sum.splits prod.splits)
qed

lemma pause_next: "v_ahead v = m # ms \<Longrightarrow> v_ahead (snd (pause c v)) = ms \<and> v_clock (snd (pause c v)) = m_clock m \<and>
    (fst (pause c v) = Inl Interrupted \<longleftrightarrow> m_term m) \<and> fst (pause c v) \<in> {Inl Interrupted, Inr ()}"
  by (simp add: pause_def Let_def)

lemma wait_until_returns:
  assumes "\<exists>m \<in> set (v_ahead v). d \<le> m_clock m" and "\<forall>m \<in> set (v_ahead v). \<not> m_term m"
  shows "\<exists>up v'. wait_until c d v = (Inr up, v')"
  using assms
proof (induction c d v rule: wait_until.induct)
  case (1 c d v)
  show ?case
  proof (cases "v_clock v < d \<and> \<not> v_ready v \<and> is_alive v")
    case True
    from "1.prems"(1) obtain m ms where a: "v_ahead v = m # ms" by (cases "v_ahead v") auto
    with pause_next [OF this, of c] "1.prems"(2) obtain v' where
      v': "pause c v = (Inr (), v')" "v_ahead v' = ms" "v_clock v' = m_clock m"
      by (cases "pause c v") auto
    have "\<exists>up v''. wait_until c d v' = (Inr up, v'')"
    proof (cases "d \<le> m_clock m")
      case True
      with v' show ?thesis by (simp add: wait_until.simps [of c d v'])
    next
      case False
      with "1.prems" a v' True show ?thesis by (intro "1.IH") auto
    qed
    with True v' show ?thesis by (simp add: wait_until.simps [of c d v])
  next
    case False
    then show ?thesis by (auto simp: wait_until.simps [of c d v])
  qed
qed

subsection \<open>How the supervisor ends\<close>

definition yields :: "('a \<Rightarrow> vd \<Rightarrow> bool) \<Rightarrow> 'a vd_op \<Rightarrow> bool" where
  "yields P m \<longleftrightarrow> (\<forall>v x v'. one_child v \<longrightarrow> m v = (Inr x, v') \<longrightarrow> P x v')"

lemma yieldsD: "yields P m \<Longrightarrow> one_child v \<Longrightarrow> m v = (Inr x, v') \<Longrightarrow> P x v'"
  by (auto simp: yields_def)

lemma yields_bind:
  assumes "preserves one_child m" and "\<And>x. yields P (f x)"
  shows "yields P (bind m f)"
  unfolding yields_def
proof (intro allI impI)
  fix v y v' assume v: "one_child v" and "bind m f v = (Inr y, v')"
  then obtain x v1 where "m v = (Inr x, v1)" "f x v1 = (Inr y, v')" by (elim bind_InrE)
  with preserves_run [OF assms(1) _ v] yieldsD [OF assms(2)] show "P y v'" by blast
qed

lemma yields_seq: "preserves one_child m \<Longrightarrow> yields P n \<Longrightarrow> yields P (seq m n)"
  unfolding seq_def by (rule yields_bind)

lemma yields_if: "yields P m \<Longrightarrow> yields P n \<Longrightarrow> yields P (if b then m else n)"
  by simp

definition cleaned :: "vd_conf \<Rightarrow> int \<Rightarrow> vd \<Rightarrow> bool" where
  "cleaned c n v \<longleftrightarrow> v_running v = [] \<and> (writable c \<longrightarrow> v_file v = None) \<and> n \<in> {0, 3}"

lemma stop_ends: "stop c v = (u, v') \<Longrightarrow> u = Inr () \<and> (one_child v \<longrightarrow> v_running v' = [])"
  using stop_running [of v c] by (auto simp: stop_def Let_def)

lemma cleanup_yields: "yields (cleaned c) (seq (stop c) (seq (unlink_state c) (ret 3)))"
proof -
  have "cleaned c 3 (snd (unlink_state c (snd (stop c v))))" if "one_child v" for v
    using stop_running [OF that, of c] by (simp add: cleaned_def unlink_state_def change_def)
  then show ?thesis
    by (auto simp: yields_def seq_def bind_def ret_def unlink_state_def change_def dest: stop_ends split: prod.splits sum.splits)
      (metis snd_conv)+
qed

lemma finally_yields:
  assumes "preserves one_child n"
  shows "yields (cleaned c) (seq (finally_do (seq (stop c) (unlink_state c)) n) (ret 0))"
  unfolding yields_def
proof (intro allI impI)
  fix v v' and y :: int assume v: "one_child v" and r: "seq (finally_do (seq (stop c) (unlink_state c)) n) (ret 0) v = (Inr y, v')"
  obtain q v1 where n: "n v = (q, v1)" by fastforce
  have v1: "one_child v1" by (rule preserves_run [OF assms n v])
  obtain v2 where s: "stop c v1 = (Inr (), v2)" using stop_ends by (metis surj_pair)
  then have "v_running v2 = []" using stop_ends v1 by blast
  moreover have "v' = snd (unlink_state c v2) \<and> y = 0"
    using r n s by (auto simp: finally_do_def seq_def bind_def ret_def unlink_state_def change_def
      split: sum.splits halt.splits)
  ultimately show "cleaned c y v'" by (simp add: cleaned_def unlink_state_def change_def)
qed

lemma serve_main_yields: "yields (cleaned c) (serve_main c me)"
  unfolding serve_main_def
  by (intro yields_bind yields_seq yields_if cleanup_yields finally_yields one_child_supervise one_child_files
    one_child_ensure_up preserves_ask)

subsection \<open>Properties\<close>


text \<open>
  Waiting ends. With no signal, the wait for the marker returns once the clock has reached the
  deadline, and what it returns is whether the marker has been seen.
\<close>

theorem wait_ready_returns:
  assumes "\<exists>m \<in> set (v_ahead v). v_clock v + ready_timeout c \<le> m_clock m" and "\<forall>m \<in> set (v_ahead v). \<not> m_term m"
  shows "\<exists>up v'. wait_ready c v = (Inr up, v') \<and> v_ready v' = up"
  using wait_until_returns [OF assms] wait_until_result unfolding wait_ready_def by blast

text \<open>A launch that fails at boot leaves the state file at "starting".\<close>

theorem failed_launch_leaves_state:
  assumes "spawn c 0 = Inl m" and "writable c"
  shows "\<exists>e v. serve_main c me (vd_init t0 ms file) = (Inl (Raised (RuntimeError e)), v) \<and>
    v_file v = Some (state_doc c me t0 ''starting'' False (vd_init t0 ms file))"
  using assms by (simp add: serve_main_def op_defs write_state_def ensure_up_def start_def vd_init_def is_alive_def
    state_doc_def json_pid_def Let_def)

text \<open>A SIGTERM during the boot leaves the child running.\<close>

theorem interrupted_boot_leaves_child:
  assumes "spawn c 0 = Inr p" and "0 < ready_timeout c" and "ms = m # ms'" and "m_term m" and "m_events m = []"
  shows "\<exists>v. serve_main c me (vd_init t0 ms file) = (Inl Interrupted, v) \<and> v_running v = [p]"
  using assms by (simp add: serve_main_def op_defs write_state_def ensure_up_def start_def vd_init_def is_alive_def
    state_doc_def json_pid_def Let_def wait_ready_def wait_until.simps pause_def)

text \<open>After a restart the state file says "ready" whether or not the new child is.\<close>

lemma restart_announces_ready:
  assumes "\<not> is_alive v" and "spawn c (v_launches v) = Inr p" and "writable c"
    and "wait_ready c (snd (start c v)) = (Inr up, v1)"
  shows "\<exists>v'. seq (start c) (seq (wait_ready c) (write_state c me st ''ready'' True)) v = (Inr (), v') \<and>
    v_file v' = Some (state_doc c me st ''ready'' True v1) \<and> v_ready v' = up"
  using assms wait_until_result [OF assms(4) [unfolded wait_ready_def]]
  by (auto simp: seq_def bind_def start_def Let_def write_state_def change_def)

subsection \<open>Concrete instance\<close>

definition demo_conf :: vd_conf where
  "demo_conf = \<lparr>command = DEFAULT_VIRTUOSO_CMD, boot = ''boot.il'', launch_dir = None, marker = ''READY'', ready_timeout = 180,
     spawn = (\<lambda>k. Inr (100 + k)), manners_of = (\<lambda>_. Exits_On_Term), writable = True\<rparr>"

definition demo_moments :: "moment list" where
  "demo_moments =
     [\<lparr>m_clock = 1, m_term = False, m_events = [Output ''x READY'']\<rparr>,
      \<lparr>m_clock = 2, m_term = False, m_events = [Ended 100]\<rparr>,
      \<lparr>m_clock = 182, m_term = False, m_events = []\<rparr>,
      \<lparr>m_clock = 183, m_term = True, m_events = []\<rparr>]"

text \<open>A child that becomes ready, dies and is started again, then a SIGTERM.\<close>

lemma demo_run: "fst (serve_main demo_conf 7 (vd_init 0 demo_moments None)) = Inr 0"
  by code_simp


theorem wait_ready_returns_witness:
  "\<exists>up v'. wait_ready (demo_conf\<lparr>ready_timeout := 1\<rparr>) (vd_init 0 (take 2 demo_moments) None) = (Inr up, v')"
  using wait_ready_returns [of "vd_init 0 (take 2 demo_moments) None" "demo_conf\<lparr>ready_timeout := 1\<rparr>"]
  by (auto simp: vd_init_def demo_moments_def)

end
