(* ===== verification/Cli_Processes.thy ===== *)
theory Cli_Processes
  imports Cli Virtuoso_Daemon
begin

section \<open>The commands that start and stop processes\<close>

text \<open>
  \<open>cli.py\<close>, \<open>vfp tunnel start|stop\<close> and \<open>vfp daemon start|status|stop\<close>. These commands watch the outside:
  a \<open>look\<close> is one observation of the clock, of the tunnel's answer, of the supervisor's state file and of
  the processes alive. A command takes the looks it makes in order; the first one is made before it
  acts, at the time its deadline is counted from. With no look left the command is still waiting and
  its result is None.
\<close>

record look =
  l_clock :: rat
  l_probe :: json
  l_state :: "json option"
  l_alive :: "int \<Rightarrow> bool"

record report =
  r_out :: "string list"
  r_err :: "string list"
  r_code :: int
  r_spawned :: "string list list"
  r_signalled :: "int list"

definition answer :: "string list \<Rightarrow> int \<Rightarrow> report" where
  "answer out code = \<lparr>r_out = out, r_err = [], r_code = code, r_spawned = [], r_signalled = []\<rparr>"

definition failure :: "string \<Rightarrow> report" where
  "failure m = \<lparr>r_out = [], r_err = [''ERROR: '' @ m], r_code = 1, r_spawned = [], r_signalled = []\<rparr>"

text \<open>\<open>while time.time() < deadline\<close>: look, and return when the look decides.\<close>

fun poll_until :: "rat \<Rightarrow> (look \<Rightarrow> exn + 'a option) \<Rightarrow> look list \<Rightarrow> (exn + 'a option) option" where
  "poll_until d f [] = None"
| "poll_until d f (l # ls) =
     (if l_clock l < d
      then case f l of
             Inl e \<Rightarrow> Some (Inl e)
           | Inr (Some x) \<Rightarrow> Some (Inr (Some x))
           | Inr None \<Rightarrow> poll_until d f ls
      else Some (Inr None))"

text \<open>What was spawned or signalled before the result.\<close>

definition after :: "string list list \<Rightarrow> int list \<Rightarrow> string \<Rightarrow> (exn + report option) option \<Rightarrow> (exn + report) option" where
  "after cmds sigs late r =
     map_option (map_sum id (\<lambda>x. (case x of Some rep \<Rightarrow> rep | None \<Rightarrow> failure late)
       \<lparr>r_spawned := cmds, r_signalled := sigs\<rparr>)) r"

subsection \<open>The tunnel\<close>

definition running_line :: "string \<Rightarrow> string \<Rightarrow> int \<Rightarrow> json \<Rightarrow> exn + report" where
  "running_line what host port st =
     map_sum id
       (\<lambda>p. answer [''VFP Tunnel '' @ what @ '' on '' @ host @ '':'' @ show_int port @ '' (pid '' @ py_str p @ '')''] 0)
       (jget st ''pid'')"

definition daemon_command :: "string \<Rightarrow> string \<Rightarrow> int \<Rightarrow> string list" where
  "daemon_command exe host port = [exe, ''-m'', ''vfp_tunnel.daemon'', ''--host'', host, ''--port'', show_int port]"

definition cmd_tunnel_start ::
  "environ \<Rightarrow> string \<Rightarrow> string \<Rightarrow> string option \<Rightarrow> string option \<Rightarrow> bool \<Rightarrow> exn option \<Rightarrow> look list \<Rightarrow> (exn + report) option" where
  "cmd_tunnel_start env wd exe host_arg port_arg foreground served looks =
     (let host = resolve_host env host_arg
      in case resolve_port env port_arg of
           Inl e \<Rightarrow> Some (Inl e)
         | Inr port \<Rightarrow>
             (case looks of
                [] \<Rightarrow> None
              | l # ls \<Rightarrow>
                  (if truthy (l_probe l) then Some (running_line ''already running'' host port (l_probe l))
                   else if foreground then
                     (case served of
                        Some e \<Rightarrow> Some (Inl e)
                      | None \<Rightarrow> Some (Inr (answer [''VFP Tunnel starting in foreground on '' @ host @ '':'' @ show_int port @
                          '' (Ctrl-C to stop)''] 0)))
                   else after [daemon_command exe host port] []
                          (''VFP Tunnel did not become ready; see '' @ path_join (log_dir env wd) ''daemon.out'')
                          (poll_until (l_clock l + 8)
                             (\<lambda>l. if truthy (l_probe l) then map_sum id Some (running_line ''started'' host port (l_probe l)) else Inr None) ls))))"

definition cmd_tunnel_stop :: "exn + json \<times> int \<Rightarrow> look list \<Rightarrow> (exn + report) option" where
  "cmd_tunnel_stop ep looks =
     (case ep of
        Inl e \<Rightarrow> Some (Inl e)
      | Inr _ \<Rightarrow>
          (case looks of
             [] \<Rightarrow> None
           | l # ls \<Rightarrow>
               (if \<not> truthy (l_probe l) then Some (Inr (answer [''VFP Tunnel is not running.''] 0))
                else case poll_until (l_clock l + 5)
                       (\<lambda>l. if \<not> truthy (l_probe l) then Inr (Some (answer [''VFP Tunnel stopped.''] 0)) else Inr None) ls of
                       Some (Inr None) \<Rightarrow>
                         Some (map_sum id (\<lambda>p. failure (''tunnel still responding (pid '' @ py_str p @ '')'')) (jget (l_probe l) ''pid''))
                     | Some (Inr (Some rep)) \<Rightarrow> Some (Inr rep)
                     | Some (Inl e) \<Rightarrow> Some (Inl e)
                     | None \<Rightarrow> None)))"

subsection \<open>The supervisor of the headless Virtuoso\<close>

text \<open>\<open>_pid_alive\<close>, off Windows\<close>

definition pid_alive :: "look \<Rightarrow> json \<Rightarrow> exn + bool" where
  "pid_alive l p =
     (case py_int p of
        Inr n \<Rightarrow> Inr (0 < n \<and> l_alive l n)
      | Inl (TypeError _) \<Rightarrow> Inr False
      | Inl (ValueError _) \<Rightarrow> Inr False
      | Inl e \<Rightarrow> Inl e)"

text \<open>\<open>st and _pid_alive(st.get("supervisor_pid"))\<close>\<close>

definition supervised :: "look \<Rightarrow> exn + bool" where
  "supervised l =
     (case l_state l of
        None \<Rightarrow> Inr False
      | Some st \<Rightarrow>
          (if \<not> truthy st then Inr False
           else case jget st ''supervisor_pid'' of Inl e \<Rightarrow> Inl e | Inr p \<Rightarrow> pid_alive l p))"

definition supervisor_command :: "string \<Rightarrow> string \<Rightarrow> string option \<Rightarrow> string option \<Rightarrow> string list" where
  "supervisor_command exe wd cwd_arg boot_arg =
     [exe, ''-m'', ''vfp_tunnel.sim.virtuoso_daemon'', ''--cwd'',
      (case cwd_arg of Some d \<Rightarrow> (if d = [] then wd else d) | None \<Rightarrow> wd)] @
     (case boot_arg of Some b \<Rightarrow> (if b = [] then [] else [''--boot'', b]) | None \<Rightarrow> [])"

definition boot_log :: "environ \<Rightarrow> string \<Rightarrow> string" where
  "boot_log env wd = path_join (log_dir env wd) ''virtuoso_daemon.out''"

definition boot_progress :: "environ \<Rightarrow> string \<Rightarrow> look \<Rightarrow> exn + report option" where
  "boot_progress env wd l =
     (case l_state l of
        None \<Rightarrow> Inr None
      | Some st \<Rightarrow>
          (if \<not> truthy st then Inr None
           else case dict_of st of
                  Inl e \<Rightarrow> Inl e
                | Inr d \<Rightarrow>
                    (if py_eq (dget d ''status'') (JStr ''ready'')
                     then Inr (Some (answer [''VFP Daemon ready (supervisor pid '' @ text_of d ''supervisor_pid'' @
                       '', virtuoso pid '' @ text_of d ''virtuoso_pid'' @ '')''] 0))
                     else if py_eq (dget d ''status'') (JStr ''failed'')
                     then Inr (Some (failure (''VFP Daemon boot failed; see '' @ boot_log env wd)))
                     else Inr None)))"

definition cmd_daemon_start ::
  "environ \<Rightarrow> string \<Rightarrow> string \<Rightarrow> string option \<Rightarrow> string option \<Rightarrow> rat \<Rightarrow> look list \<Rightarrow> (exn + report) option" where
  "cmd_daemon_start env wd exe cwd_arg boot_arg timeout looks =
     (case looks of
        [] \<Rightarrow> None
      | l # ls \<Rightarrow>
          (case supervised l of
             Inl e \<Rightarrow> Some (Inl e)
           | Inr True \<Rightarrow>
               Some (case dict_of (case l_state l of None \<Rightarrow> JNull | Some st \<Rightarrow> st) of
                       Inl e \<Rightarrow> Inl e
                     | Inr d \<Rightarrow> Inr (answer [''VFP Daemon already running (supervisor pid '' @ text_of d ''supervisor_pid'' @
                         '', status '' @ text_of d ''status'' @ '')''] 0))
           | Inr False \<Rightarrow>
               after [supervisor_command exe wd cwd_arg boot_arg] []
                 (''VFP Daemon did not become ready; see '' @ boot_log env wd)
                 (poll_until (l_clock l + (if timeout = 0 then 200 else timeout)) (boot_progress env wd) ls)))"

definition cmd_daemon_status :: "look \<Rightarrow> exn + report" where
  "cmd_daemon_status l =
     (case supervised l of
        Inl e \<Rightarrow> Inl e
      | Inr False \<Rightarrow> Inr (answer [''VFP Daemon: not running''] 1)
      | Inr True \<Rightarrow>
          (case dict_of (case l_state l of None \<Rightarrow> JNull | Some st \<Rightarrow> st) of
             Inl e \<Rightarrow> Inl e
           | Inr d \<Rightarrow>
               Inr (answer ((''VFP Daemon: '' @ text_of d ''status'') #
                 map (\<lambda>k. ''  '' @ ljust 15 (k @ '':'') @ '' '' @ text_of d k)
                   (filter (has_key d)
                     [''supervisor_pid'', ''virtuoso_pid'', ''ready'', ''boot'', ''cwd'', ''started_at''])) 0)))"

definition cmd_daemon_stop :: "string option \<Rightarrow> look list \<Rightarrow> (exn + report) option" where
  "cmd_daemon_stop kill_error looks =
     (case looks of
        [] \<Rightarrow> None
      | l # ls \<Rightarrow>
          (case (case l_state l of
                   None \<Rightarrow> Inr JNull
                 | Some st \<Rightarrow> (if truthy st then jget st ''supervisor_pid'' else Inr JNull)) of
             Inl e \<Rightarrow> Some (Inl e)
           | Inr p \<Rightarrow>
               (case pid_alive l p of
                  Inl e \<Rightarrow> Some (Inl e)
                | Inr False \<Rightarrow> Some (Inr (answer [''VFP Daemon is not running.''] 0))
                | Inr True \<Rightarrow>
                    (case (kill_error, py_int p) of
                       (_, Inl e) \<Rightarrow> Some (Inl e)
                     | (Some m, Inr n) \<Rightarrow> Some (Inr (failure (''could not signal supervisor pid '' @ py_str p @ '': '' @ m)))
                     | (None, Inr n) \<Rightarrow>
                         after [] [n] (''VFP Daemon supervisor still alive (pid '' @ py_str p @ '')'')
                           (poll_until (l_clock l + 20)
                              (\<lambda>l. map_sum id (\<lambda>up. if up then None else Some (answer [''VFP Daemon stopped.''] 0)) (pid_alive l p))
                              ls)))))"

subsection \<open>Properties\<close>

text \<open>Polling: the first look before the deadline that decides.\<close>

lemma poll_until_spec:
  "poll_until d f ls =
     (let early = takeWhile (\<lambda>l. l_clock l < d) ls
      in case find (\<lambda>l. f l \<noteq> Inr None) early of
           Some l \<Rightarrow> Some (f l)
         | None \<Rightarrow> (if early = ls then None else Some (Inr None)))"
  by (induction ls) (auto simp: Let_def split: sum.splits option.splits)

lemma poll_until_returns: "\<exists>l \<in> set ls. d \<le> l_clock l \<Longrightarrow> poll_until d f ls \<noteq> None"
  by (induction ls) (auto split: sum.split option.split)

lemma find_none_iff: "find P xs = None \<longleftrightarrow> (\<forall>x \<in> set xs. \<not> P x)"
  by (auto simp: find_None_iff)

lemma running_line_code: "running_line what h p st = Inr rep \<Longrightarrow> r_code rep = 0 \<and> r_spawned rep = []"
  by (auto simp: running_line_def answer_def map_sum_def split: sum.splits)

text \<open>
  Starting the tunnel. \<open>vfp tunnel start\<close> spawns nothing when the tunnel already answers and one daemon
  otherwise, with the resolved address; it exits with 0 exactly when the tunnel answered at the start
  or within the eight seconds after it.
\<close>

theorem tunnel_start_spec:
  assumes "cmd_tunnel_start env wd exe ha pa False served (l # ls) = Some (Inr rep)"
    and "resolve_port env pa = Inr port"
  shows "r_spawned rep = (if truthy (l_probe l) then [] else [daemon_command exe (resolve_host env ha) port]) \<and>
    (r_code rep = 0 \<longleftrightarrow> truthy (l_probe l) \<or>
       (\<exists>x \<in> set (takeWhile (\<lambda>x. l_clock x < l_clock l + 8) ls). truthy (l_probe x)))"
proof (cases "truthy (l_probe l)")
  case True
  with assms show ?thesis by (auto simp: cmd_tunnel_start_def Let_def dest: running_line_code)
next
  case False
  let ?host = "resolve_host env ha"
  let ?f = "\<lambda>x. if truthy (l_probe x) then map_sum id Some (running_line ''started'' ?host port (l_probe x)) else Inr None"
  let ?early = "takeWhile (\<lambda>x. l_clock x < l_clock l + 8) ls"
  have dec: "?f x \<noteq> Inr None \<longleftrightarrow> truthy (l_probe x)" for x
    by (cases "running_line ''started'' ?host port (l_probe x)") auto
  have r: "after [daemon_command exe ?host port] [] m (poll_until (l_clock l + 8) ?f ls) = Some (Inr rep) \<Longrightarrow> ?thesis" for m
  proof (cases "find (\<lambda>x. ?f x \<noteq> Inr None) ?early")
    case None
    then have "\<not> (\<exists>x \<in> set ?early. truthy (l_probe x))" unfolding find_none_iff dec by blast
    moreover assume "after [daemon_command exe ?host port] [] m (poll_until (l_clock l + 8) ?f ls) = Some (Inr rep)"
    ultimately show ?thesis using None False
      unfolding poll_until_spec Let_def by (auto simp: after_def failure_def split: if_splits)
  next
    case (Some x)
    then have x: "x \<in> set ?early" "truthy (l_probe x)" using dec by (auto simp: find_Some_iff)
    moreover assume "after [daemon_command exe ?host port] [] m (poll_until (l_clock l + 8) ?f ls) = Some (Inr rep)"
    ultimately show ?thesis using Some False
      unfolding poll_until_spec Let_def
      by (cases "running_line ''started'' ?host port (l_probe x)") (auto simp: after_def dest: running_line_code)
  qed
  from assms False show ?thesis by (intro r) (auto simp: cmd_tunnel_start_def Let_def)
qed

text \<open>
  A state file left by a supervisor that was killed: \<open>vfp daemon start\<close> spawns a new one and reports it ready at
  the first look, before the new one has written anything.
\<close>

theorem stale_state_reported_ready:
  assumes "l_state l = Some (JObj d)" and "d \<noteq> []" and "dget d ''status'' = JStr ''ready''"
    and "pid_alive l (dget d ''supervisor_pid'') = Inr False"
    and "l_state l' = l_state l" and "l_clock l' < l_clock l + timeout" and "timeout \<noteq> 0"
  shows "\<exists>rep. cmd_daemon_start env wd exe ca ba timeout (l # l' # ls) = Some (Inr rep) \<and> r_code rep = 0 \<and>
    r_spawned rep = [supervisor_command exe wd ca ba]"
  using assms
  by (simp add: cmd_daemon_start_def supervised_def boot_progress_def dict_of_def after_def answer_def)

text \<open>
  A launch that fails leaves the state file at "starting" (\<open>failed_launch_leaves_state\<close>), and \<open>vfp daemon start\<close>
  waits for its whole timeout although the supervisor has ended.
\<close>

theorem failed_launch_waits:
  assumes "\<forall>x \<in> set ls. l_state x = Some (state_doc c me t ''starting'' False v)" and "supervised l = Inr False"
    and "timeout \<noteq> 0"
  shows "cmd_daemon_start env wd exe ca ba timeout (l # ls) =
    (if \<forall>x \<in> set ls. l_clock x < l_clock l + timeout then None
     else Some (Inr ((failure (''VFP Daemon did not become ready; see '' @ boot_log env wd))
       \<lparr>r_spawned := [supervisor_command exe wd ca ba], r_signalled := []\<rparr>)))"
proof -
  have "boot_progress env wd x = Inr None" if "x \<in> set ls" for x
    using assms(1) that by (simp add: boot_progress_def state_doc_def dict_of_def)
  then have "find (\<lambda>x. boot_progress env wd x \<noteq> Inr None) (takeWhile (\<lambda>x. l_clock x < l_clock l + timeout) ls) = None"
    unfolding find_none_iff by (auto dest: set_takeWhileD)
  then have p: "poll_until (l_clock l + timeout) (boot_progress env wd) ls =
      (if \<forall>x \<in> set ls. l_clock x < l_clock l + timeout then None else Some (Inr None))"
    unfolding poll_until_spec Let_def by (simp add: takeWhile_eq_all_conv)
  show ?thesis using assms(2,3) by (simp add: cmd_daemon_start_def p after_def)
qed

subsection \<open>Concrete instance\<close>

theorem tunnel_start_spec_witness:
  "\<exists>rep. cmd_tunnel_start (\<lambda>_. None) ''/w'' ''py'' None None False None
      [\<lparr>l_clock = 0, l_probe = JNull, l_state = None, l_alive = (\<lambda>_. False)\<rparr>,
       \<lparr>l_clock = 1, l_probe = JObj [(''pid'', JInt 7)], l_state = None, l_alive = (\<lambda>_. False)\<rparr>] = Some (Inr rep) \<and>
     r_code rep = 0 \<and> length (r_spawned rep) = 1"
proof -
  let ?l = "\<lparr>l_clock = 0, l_probe = JNull, l_state = None, l_alive = (\<lambda>_. False)\<rparr>"
  let ?ls = "[\<lparr>l_clock = 1, l_probe = JObj [(''pid'', JInt 7)], l_state = None, l_alive = (\<lambda>_. False)\<rparr>]"
  have p: "resolve_port (\<lambda>_. None) None = Inr DEFAULT_PORT" by (simp add: resolve_port_def)
  obtain rep where r: "cmd_tunnel_start (\<lambda>_. None) ''/w'' ''py'' None None False None (?l # ?ls) = Some (Inr rep)"
    by (simp add: cmd_tunnel_start_def p running_line_def after_def Let_def)
  from tunnel_start_spec [OF r p] r show ?thesis by simp
qed

end
