(* ===== verification/Tunnel_Process.thy ===== *)
theory Tunnel_Process
  imports Skill_Rpc
begin

section \<open>The daemon's process\<close>

text \<open>
  The end of \<open>daemon.py\<close>: binding the port, the state file \<open>tunnel.json\<close> by which every client finds the
  daemon, serving until a shutdown or an interruption, and the cleanup. What happens while it serves
  is a list of moments: messages that are handled, the shutdown thread reaching the server (it sleeps
  first, so messages can still come), an interruption, and another process writing or removing the
  state file, which all daemons of a home directory share. The state file is what reading it gives;
  binding is a function from the address asked for to an error or the address obtained.
\<close>

record tunnel_proc =
  t_daemon :: daemon
  t_file :: "json option"
  t_bound :: "(string \<times> int) option"

datatype serving = Handled "json list" | Shutdown_Lands | Ctrl_C | Other_File "json option"

definition tunnel_doc :: "world \<Rightarrow> daemon \<Rightarrow> json" where
  "tunnel_doc w s =
     JObj [(''pid'', JInt (pid w)), (''host'', JStr (d_host s)), (''port'', JInt (d_port s)), (''version'', JStr ''0.1.0''),
       (''started_at'', JStr (d_started_at s))]"

definition write_tunnel_state :: "world \<Rightarrow> bool \<Rightarrow> tunnel_proc \<Rightarrow> tunnel_proc" where
  "write_tunnel_state w writes p = (if writes then p\<lparr>t_file := Some (tunnel_doc w (t_daemon p))\<rparr> else p)"

definition clear_tunnel_state :: "bool \<Rightarrow> tunnel_proc \<Rightarrow> tunnel_proc" where
  "clear_tunnel_state writes p = (if writes then p\<lparr>t_file := None\<rparr> else p)"

text \<open>Whether an interruption ended the loop; None while it is still serving\<close>

fun serve_forever :: "world \<Rightarrow> serving list \<Rightarrow> tunnel_proc \<Rightarrow> bool option \<times> tunnel_proc" where
  "serve_forever w [] p = (None, p)"
| "serve_forever w (Handled msgs # ms) p = serve_forever w ms (p\<lparr>t_daemon := handle_messages w msgs (t_daemon p)\<rparr>)"
| "serve_forever w (Shutdown_Lands # ms) p = (if d_stopping (t_daemon p) then (Some False, p) else serve_forever w ms p)"
| "serve_forever w (Ctrl_C # ms) p = (Some True, p)"
| "serve_forever w (Other_File f # ms) p = serve_forever w ms (p\<lparr>t_file := f\<rparr>)"

definition tunnel_serve ::
  "world \<Rightarrow> (string \<Rightarrow> int \<Rightarrow> string + string \<times> int) \<Rightarrow> bool \<Rightarrow> serving list \<Rightarrow> tunnel_proc \<Rightarrow>
   (exn + bool) option \<times> tunnel_proc" where
  "tunnel_serve w binds writes ms p =
     (case binds (d_host (t_daemon p)) (d_port (t_daemon p)) of
        Inl m \<Rightarrow> (Some (Inl (OSError m)), p)
      | Inr (h, n) \<Rightarrow>
          (case serve_forever w ms (write_tunnel_state w writes
                  (p\<lparr>t_daemon := (t_daemon p)\<lparr>d_host := h, d_port := n\<rparr>, t_bound := Some (h, n)\<rparr>)) of
             (None, p') \<Rightarrow> (None, p')
           | (Some b, p') \<Rightarrow> (Some (Inr b), clear_tunnel_state writes (p'\<lparr>t_bound := None\<rparr>))))"

text \<open>The program; its state before the daemon exists is the state file alone.\<close>

definition daemon_main ::
  "world \<Rightarrow> (string \<Rightarrow> int \<Rightarrow> string + string \<times> int) \<Rightarrow> bool \<Rightarrow> string option \<Rightarrow> string option \<Rightarrow> string \<Rightarrow> home \<Rightarrow>
   serving list \<Rightarrow> json option \<Rightarrow> (exn + bool) option \<times> json option \<times> tunnel_proc option" where
  "daemon_main w binds writes host_arg port_arg boot_name h ms f =
     (case resolve_port (environment w) port_arg of
        Inl e \<Rightarrow> (Some (Inl e), f, None)
      | Inr port \<Rightarrow>
          (case Tunnel_init w (resolve_host (environment w) host_arg) port boot_name h of
             Inl e \<Rightarrow> (Some (Inl e), f, None)
           | Inr s \<Rightarrow>
               (case tunnel_serve w binds writes ms \<lparr>t_daemon = s, t_file = f, t_bound = None\<rparr> of
                  (r, p) \<Rightarrow> (r, t_file p, Some p))))"

subsection \<open>Serving\<close>

fun messages_of :: "serving \<Rightarrow> json list" where
  "messages_of (Handled msgs) = msgs"
| "messages_of _ = []"

fun touches_file :: "serving \<Rightarrow> bool" where
  "touches_file (Other_File f) = True"
| "touches_file _ = False"

lemma messages_appended:
  "handle_messages w (xs @ ys) s = handle_messages w ys (handle_messages w xs s)"
  by (induction xs arbitrary: s) simp_all

lemma serve_forever_spec:
  assumes "serve_forever w ms p = (r, p')" and "\<not> list_ex touches_file ms"
  shows "t_file p' = t_file p \<and> t_bound p' = t_bound p \<and>
    (\<exists>k. t_daemon p' = handle_messages w (concat (map messages_of (take k ms))) (t_daemon p) \<and> (r = None \<longrightarrow> k = length ms))"
  using assms
proof (induction w ms p rule: serve_forever.induct)
  case (1 w p)
  then show ?case by (intro conjI exI [of _ 0]) simp_all
next
  case (2 w msgs ms p)
  then obtain k where "t_file p' = t_file p" "t_bound p' = t_bound p" "r = None \<longrightarrow> k = length ms"
    "t_daemon p' = handle_messages w (concat (map messages_of (take k ms))) (handle_messages w msgs (t_daemon p))"
    by auto
  then show ?case by (intro conjI exI [of _ "Suc k"]) (simp_all add: messages_appended)
next
  case (3 w ms p)
  show ?case
  proof (cases "d_stopping (t_daemon p)")
    case True
    with 3(2) show ?thesis by (intro conjI exI [of _ 0]) auto
  next
    case False
    with 3 obtain k where "t_file p' = t_file p" "t_bound p' = t_bound p" "r = None \<longrightarrow> k = length ms"
      "t_daemon p' = handle_messages w (concat (map messages_of (take k ms))) (t_daemon p)" by auto
    then show ?thesis by (intro conjI exI [of _ "Suc k"]) simp_all
  qed
next
  case (4 w ms p)
  then show ?case by (intro conjI exI [of _ 0]) auto
qed simp

lemma doc_found:
  assumes "d_host s \<noteq> []" and "d_port s \<noteq> 0"
  shows "skill_endpoint env (Some (tunnel_doc w s)) JNull JNull = Inr (JStr (d_host s), d_port s)"
  using assms by (simp add: skill_endpoint_def endpoint_def first_set_def read_or_empty_def tunnel_doc_def)

subsection \<open>Properties\<close>


text \<open>
  The state file is removed whoever wrote it. Two daemons can share a home directory on different
  ports; when the one that was announced last is still serving, the end of the other removes its file.
\<close>

theorem other_daemon_forgotten:
  assumes "binds (d_host (t_daemon p)) (d_port (t_daemon p)) = Inr (h, n)"
  shows "\<exists>p'. tunnel_serve w binds True [Other_File (Some (tunnel_doc w' other)), Ctrl_C] p = (Some (Inr True), p') \<and>
    t_file p' = None"
  using assms by (simp add: tunnel_serve_def clear_tunnel_state_def)

subsection \<open>Concrete instance\<close>

definition demo_proc :: tunnel_proc where
  "demo_proc = \<lparr>t_daemon = demo_daemon, t_file = Some (JObj [(''port'', JInt 9)]), t_bound = None\<rparr>"


end
