(* ===== verification/Program_Arguments.thy ===== *)
theory Program_Arguments
  imports Arguments Cli_Processes Tunnel_Process Event_Client Read_Back
begin

section \<open>The programs and their arguments\<close>

text \<open>
  The command lines of the programs that are started by others: the daemon (\<open>main\<close> of \<open>daemon.py\<close>), the supervisor of the
  headless Virtuoso (\<open>serve_main\<close> of \<open>sim/virtuoso_daemon.py\<close>), the bridge of the design tool (\<open>skillrpc.py\<close>) and the
  event client (\<open>scripts/vfp_event_client.py\<close>), each as a function of its list of words; and the two
  launches of \<open>cli.py\<close>, put together with the programs they launch.
\<close>

subsection \<open>The daemon\<close>

definition daemon_leaf :: leaf where
  "daemon_leaf = only address"

definition daemon_program ::
  "world \<Rightarrow> (string \<Rightarrow> int \<Rightarrow> string + string \<times> int) \<Rightarrow> bool \<Rightarrow> string list \<Rightarrow> string \<Rightarrow> home \<Rightarrow>
   serving list \<Rightarrow> json option \<Rightarrow> ((exn + bool) option \<times> json option \<times> tunnel_proc option) outcome" where
  "daemon_program w binds writes argv boot_name h ms f =
     map_outcome (\<lambda>ns. daemon_main w binds writes (given_text ns ''host'') (given_text ns ''port'') boot_name h ms f)
       (parse_program daemon_leaf argv)"

subsection \<open>The supervisor\<close>

definition supervisor_leaf :: leaf where
  "supervisor_leaf =
     only [opt ''--boot'' ''boot'', opt ''--cwd'' ''cwd'', float_opt ''--ready-timeout'' ''ready_timeout'' (JFloat (Fin 180))]"

text \<open>The object it supervises; a limit that is not finite is left out.\<close>

definition supervisor_program ::
  "string \<Rightarrow> (string \<Rightarrow> json option) \<Rightarrow> environ \<Rightarrow> string list \<Rightarrow> (nat \<Rightarrow> string + nat) \<Rightarrow> (nat \<Rightarrow> manners) \<Rightarrow> bool \<Rightarrow>
   vd_conf option outcome" where
  "supervisor_program repo parse env argv os mn wr =
     map_outcome
       (\<lambda>ns. case given_float ns ''ready_timeout'' of
               Some (Fin x) \<Rightarrow> Some (conf_of_args repo parse env (given_text ns ''boot'') (given_text ns ''cwd'') x os mn wr)
             | _ \<Rightarrow> None)
       (parse_program supervisor_leaf argv)"

subsection \<open>The bridge\<close>

definition appended :: "string \<Rightarrow> string \<Rightarrow> option_spec" where
  "appended flag dest = (opt flag dest)\<lparr>o_kind := Appended, o_default := JList []\<rparr>"

definition skill_leaf :: leaf where
  "skill_leaf =
     \<lparr>f_options = address @ [appended ''--param'' ''param'', appended ''--param-json'' ''param_json'', opt ''--params-file'' ''params_file''],
      f_words = [''method'']\<rparr>"

definition given_texts :: "dict \<Rightarrow> string \<Rightarrow> string list" where
  "given_texts ns k = (case dget ns k of JList xs \<Rightarrow> map (\<lambda>x. case x of JStr s \<Rightarrow> s | _ \<Rightarrow> []) xs | _ \<Rightarrow> [])"

text \<open>\<open>reads\<close> opens and parses a file.\<close>

definition skill_args_of :: "(string \<Rightarrow> exn + json) \<Rightarrow> dict \<Rightarrow> skill_args" where
  "skill_args_of reads ns =
     \<lparr>s_method = given_word ns ''method'', s_param = given_texts ns ''param'', s_param_json = given_texts ns ''param_json'',
      s_file = (case given_text ns ''params_file'' of None \<Rightarrow> None | Some p \<Rightarrow> (if p = [] then None else Some (reads p)))\<rparr>"

definition skill_program ::
  "world \<Rightarrow> (string \<Rightarrow> exn + json) \<Rightarrow> string \<Rightarrow> string option \<Rightarrow> environ \<Rightarrow> json option \<Rightarrow> string list \<Rightarrow> daemon \<Rightarrow>
   ((exn + string) \<times> daemon) outcome" where
  "skill_program w reads i down env state argv s =
     map_outcome
       (\<lambda>ns. skill_main w i down env state (dget ns ''host'') (dget ns ''port'') (skill_args_of reads ns) s)
       (parse_program skill_leaf argv)"

subsection \<open>The event client\<close>

definition int_opt :: "string \<Rightarrow> string \<Rightarrow> json \<Rightarrow> option_spec" where
  "int_opt flag dest dflt = (opt flag dest)\<lparr>o_kind := Int_Value, o_default := dflt\<rparr>"

definition client_leaf :: leaf where
  "client_leaf =
     only [opt ''--host'' ''host'', int_opt ''--port'' ''port'' JNull, int_opt ''--since'' ''since'' (JInt 0),
       opt ''--session-id'' ''session_id'', float_opt ''--interval'' ''interval'' (JFloat (Fin 5)),
       float_opt ''--wait-timeout'' ''wait_timeout'' (JFloat (Fin 25)), float_opt ''--retry-interval'' ''retry_interval'' (JFloat (Fin 5)),
       int_opt ''--max-failures'' ''max_failures'' (JInt 60),
       (opt ''--mock'' ''mock'')\<lparr>o_kind := Switch_On, o_default := JBool False\<rparr>,
       int_opt ''--mock-count'' ''mock_count'' (JInt 5), float_opt ''--mock-interval'' ''mock_interval'' (JFloat (Fin 1))]"

definition given_int :: "dict \<Rightarrow> string \<Rightarrow> int" where
  "given_int ns k = (case dget ns k of JInt i \<Rightarrow> i | _ \<Rightarrow> 0)"

datatype client_work = Mock "string list" | Live client_args

definition client_work_of :: "environ \<Rightarrow> json option \<Rightarrow> dict \<Rightarrow> (exn + client_work) option" where
  "client_work_of env state ns =
     (if dget ns ''mock'' = JBool True then Some (Inr (Mock (run_mock (given_int ns ''since'') (nat (given_int ns ''mock_count'')))))
      else case client_endpoint env state (dget ns ''host'') (dget ns ''port'') of
             Inl e \<Rightarrow> Some (Inl e)
           | Inr (h, p) \<Rightarrow>
               (case given_float ns ''wait_timeout'' of
                  Some (Fin x) \<Rightarrow>
                    Some (Inr (Live \<lparr>c_since = given_int ns ''since'', c_session = given_text ns ''session_id'', wait_timeout = x,
                      max_failures = given_int ns ''max_failures'', c_host = py_str h, c_port = p\<rparr>))
                | _ \<Rightarrow> None))"

definition client_program :: "environ \<Rightarrow> json option \<Rightarrow> string list \<Rightarrow> (exn + client_work) option outcome" where
  "client_program env state argv = map_outcome (client_work_of env state) (parse_program client_leaf argv)"

subsection \<open>Numbers among the words\<close>

text \<open>A number is no option, even a negative one.\<close>

lemma classify_show_int:
  assumes "\<forall>f \<in> set flags. \<forall>c \<in> set f. \<not> is_digit c"
  shows "classify_word flags (show_int i) = word_class.Plain"
proof (cases "i < 0")
  case True
  let ?a = "show_int i"
  obtain c r where n: "show_nat (nat (- i)) = c # r" "is_digit c" "list_all is_digit r"
    using show_nat_is_digit [of "nat (- i)"] show_nat_not_Nil [of "nat (- i)"] by (cases "show_nat (nat (- i))") auto
  then have a: "?a = CHR ''-'' # c # r" using True by (simp add: show_int_def)
  have no: "\<not> is_digit CHR ''=''" "\<not> is_digit CHR ''-''" by (simp_all add: is_digit_def)
  have foreign: "f \<noteq> CHR ''-'' # c # t" "\<not> startswith f ?a" if "f \<in> set flags" for f t
    using assms that n(2) by (auto simp: a startswith_conv)
  have "CHR ''='' \<notin> set ?a" using n no by (auto simp: a list_all_iff)
  moreover have "abbreviated flags ?a = []"
    using foreign n(2) no(2) by (auto simp: abbreviated_def a filter_empty_conv)
  moreover have "negative_number ?a"
    using n by (simp add: a negative_number_def Let_def list_all_iff dropWhile_eq_Nil_conv)
  ultimately show ?thesis using foreign(1) by (simp add: classify_word_def a) blast
next
  case False
  have "\<not> is_digit CHR ''-''" by (simp add: is_digit_def)
  with False show_nat_is_digit [of "nat i"] show ?thesis
    by (cases "show_nat (nat i)") (auto simp: show_int_def startswith_conv intro!: classify_plain)
qed

subsection \<open>What is launched\<close>

text \<open>Options with their values as words of their own\<close>

definition pairs :: "(string \<times> string) list \<Rightarrow> string list" where
  "pairs xs = concat (map (\<lambda>(flag, x). [flag, x]) xs)"

fun proper :: "leaf \<Rightarrow> string \<times> string \<Rightarrow> bool" where
  "proper f (flag, x) =
     (classify_word (leaf_flags f) x = word_class.Plain \<and>
      (case option_of f flag of Some sp \<Rightarrow> o_kind sp \<noteq> Switch_On \<and> converted (o_kind sp) x \<noteq> None | None \<Rightarrow> False))"

fun put :: "leaf \<Rightarrow> string \<times> string \<Rightarrow> dict \<Rightarrow> dict" where
  "put f (flag, x) ns =
     (case option_of f flag of
        Some sp \<Rightarrow> dset (o_dest sp) (stored sp (case converted (o_kind sp) x of Some j \<Rightarrow> j | None \<Rightarrow> JNull) ns) ns
      | None \<Rightarrow> ns)"

lemma pairs_simps [simp]: "pairs [] = []" "pairs ((flag, x) # xs) = flag # x # pairs xs"
  by (simp_all add: pairs_def)

lemma leaf_pairs:
  assumes "flags_ok (leaf_flags f)" and "\<forall>a \<in> set xs. proper f a"
  shows "\<exists>g. set g = (\<lambda>a. case option_of f (fst a) of Some sp \<Rightarrow> o_dest sp | None \<Rightarrow> []) ` set xs \<union> set given \<and>
    parse_leaf f (pairs xs) names ns given extra = parse_leaf f [] names (fold (put f) xs ns) g extra"
  using assms(2)
proof (induction xs arbitrary: ns given)
  case Nil
  then show ?case by (intro exI [of _ given]) simp
next
  case (Cons a xs)
  obtain flag x where a: "a = (flag, x)" by fastforce
  with Cons(2) obtain sp j where sp: "option_of f flag = Some sp" "o_kind sp \<noteq> Switch_On"
    "classify_word (leaf_flags f) x = word_class.Plain" "converted (o_kind sp) x = Some j" by (auto split: option.splits)
  from leaf_pair [OF sp(1,2) assms(1) sp(3,4)] Cons(1) [of "o_dest sp # given" "put f a ns"] Cons(2) a sp
  show ?case by auto
qed

lemma dashes_not_plain: "classify_word (leaf_flags f) ''--'' \<noteq> word_class.Plain"
proof -
  have "(''--help'', None) \<in> set (abbreviated (leaf_flags f) ''--'')"
    by (auto simp: abbreviated_def leaf_flags_def startswith_conv intro!: image_eqI)
  then have "abbreviated (leaf_flags f) ''--'' \<noteq> []" by auto
  then show ?thesis by (auto simp: classify_word_def split: list.splits)
qed

lemma program_words:
  assumes "flags_ok (leaf_flags f)" and "''--'' \<notin> set (leaf_flags f)"
    and "\<forall>w \<in> set ws. classify_word (leaf_flags f) w = word_class.Plain" and "\<forall>a \<in> set xs. proper f a"
  shows "parse_program f (ws @ pairs xs) = parse_leaf f (ws @ pairs xs) (f_words f) (leaf_defaults f) [] False"
proof -
  have each: "(w \<in> set (leaf_flags f) \<or> classify_word (leaf_flags f) w = word_class.Plain)" if "w \<in> set (ws @ pairs xs)" for w
    using that assms(3,4) option_of_flag by (fastforce simp: pairs_def split: option.splits)
  then have "classify_word (leaf_flags f) w \<noteq> Ambiguous \<and> w \<noteq> ''--''" if "w \<in> set (ws @ pairs xs)" for w
    using that flag_not_ambiguous [OF assms(1)] assms(2) dashes_not_plain [of f] by fastforce
  then show ?thesis by (auto simp: parse_program_def parse_command_def list_ex_iff)
qed

lemma program_pairs:
  assumes "flags_ok (leaf_flags f)" and "''--'' \<notin> set (leaf_flags f)" and "\<forall>a \<in> set xs. proper f a"
    and "f_words f = []" and "\<forall>sp \<in> set (f_options f). \<not> o_required sp"
  shows "parse_program f (pairs xs) = Parsed (fold (put f) xs (leaf_defaults f))"
proof -
  obtain g where "parse_leaf f (pairs xs) [] (leaf_defaults f) [] False = parse_leaf f [] [] (fold (put f) xs (leaf_defaults f)) g False"
    using leaf_pairs [OF assms(1,3)] by blast
  with program_words [OF assms(1,2) _ assms(3), of "[]"] assms(4,5) show ?thesis by (simp add: leaf_complete_def list_all_iff)
qed

lemma daemon_words:
  assumes "\<not> startswith h ''-''"
  shows "parse_program daemon_leaf [''--host'', h, ''--port'', show_int p] =
    Parsed [(''host'', JStr h), (''port'', JStr (show_int p))]"
proof -
  have "classify_word (leaf_flags daemon_leaf) (show_int p) = word_class.Plain"
    by (rule classify_show_int) (simp add: leaf_flags_def daemon_leaf_def only_def address_def opt_def is_digit_def)
  then have "parse_program daemon_leaf (pairs [(''--host'', h), (''--port'', show_int p)]) =
      Parsed (fold (put daemon_leaf) [(''--host'', h), (''--port'', show_int p)] (leaf_defaults daemon_leaf))"
    using assms by (intro program_pairs)
      (auto simp: daemon_leaf_def only_def address_def opt_def option_of_def leaf_flags_def flags_ok_def converted_def)
  then show ?thesis by (simp add: daemon_leaf_def only_def address_def opt_def option_of_def converted_def leaf_defaults_def)
qed

lemma after_spawned: "after cmds sigs late r = Some (Inr rep) \<Longrightarrow> r_spawned rep = cmds"
  by (cases r; cases "the r") (auto simp: after_def)

text \<open>
  The tunnel is started where it was asked for. The daemon that \<open>vfp tunnel start\<close> spawns reads from its own arguments
  exactly the host and the port the command has resolved, so it is set up and served there, whatever
  its own environment holds.
\<close>

theorem tunnel_started_there:
  assumes "cmd_tunnel_start env wd exe host_arg port_arg False served looks = Some (Inr rep)" and "cmd \<in> set (r_spawned rep)"
    and "\<not> startswith (resolve_host env host_arg) ''-''"
  shows "\<exists>port. resolve_port env port_arg = Inr port \<and>
    daemon_program w binds writes (drop 3 cmd) boot_name h ms f =
      Parsed (case Tunnel_init w (resolve_host env host_arg) port boot_name h of
          Inl e \<Rightarrow> (Some (Inl e), f, None)
        | Inr s \<Rightarrow>
            (case tunnel_serve w binds writes ms \<lparr>t_daemon = s, t_file = f, t_bound = None\<rparr> of (r, p) \<Rightarrow> (r, t_file p, Some p)))"
proof -
  obtain port where port: "resolve_port env port_arg = Inr port"
    using assms(1) by (cases "resolve_port env port_arg") (simp_all add: cmd_tunnel_start_def)
  have cmd: "cmd = daemon_command exe (resolve_host env host_arg) port"
    using assms(1,2) port running_line_code
    by (fastforce simp: cmd_tunnel_start_def Let_def dest: after_spawned split: list.splits if_splits)
  have host: "resolve_host (environment w) (Some (resolve_host env host_arg)) = resolve_host env host_arg"
    by (auto simp: resolve_host_def DEFAULT_HOST_def split: option.splits)
  have "resolve_port (environment w) (Some (show_int port)) = Inr port"
    using parse_show_int [of port] show_nat_not_Nil by (auto simp: resolve_port_def show_int_def)
  then show ?thesis
    using daemon_words [OF assms(3), of port] port host
    by (simp add: cmd daemon_command_def daemon_program_def daemon_main_def given_text_def)
qed

subsection \<open>The supervisor as launched\<close>

text \<open>
  The headless Virtuoso is started as it was asked for, but for the time. The supervisor that \<open>vfp daemon start\<close>
  spawns takes the boot file and the directory of the command; its limit for a start is always 180
  seconds, whatever \<open>--timeout\<close> was given.
\<close>

theorem supervisor_as_asked:
  assumes "cmd_daemon_start env wd exe cwd_arg boot_arg timeout looks = Some (Inr rep)" and "cmd \<in> set (r_spawned rep)"
    and "\<forall>x \<in> {wd} \<union> set_option cwd_arg \<union> set_option boot_arg. \<not> startswith x ''-''"
  shows "supervisor_program repo parse env' (drop 3 cmd) os mn wr =
    Parsed (Some (conf_of_args repo parse env' boot_arg
      (Some (case cwd_arg of Some d \<Rightarrow> (if d = [] then wd else d) | None \<Rightarrow> wd)) 180 os mn wr))"
proof -
  let ?d = "case cwd_arg of Some d \<Rightarrow> (if d = [] then wd else d) | None \<Rightarrow> wd"
  let ?b = "case boot_arg of Some b \<Rightarrow> (if b = [] then [] else [(''--boot'', b)]) | None \<Rightarrow> []"
  have cmd: "cmd = supervisor_command exe wd cwd_arg boot_arg"
    using assms(1,2)
    by (auto simp: cmd_daemon_start_def answer_def dest: after_spawned split: list.splits sum.splits bool.splits)
  have words: "drop 3 cmd = pairs ((''--cwd'', ?d) # ?b)"
    by (auto simp: cmd supervisor_command_def split: option.split)
  have "parse_program supervisor_leaf (pairs ((''--cwd'', ?d) # ?b)) =
      Parsed (fold (put supervisor_leaf) ((''--cwd'', ?d) # ?b) (leaf_defaults supervisor_leaf))"
    using assms(3) by (intro program_pairs)
      (auto simp: supervisor_leaf_def only_def opt_def float_opt_def option_of_def leaf_flags_def flags_ok_def converted_def
        split: option.splits)
  then show ?thesis
    by (auto simp: words supervisor_program_def supervisor_leaf_def only_def opt_def float_opt_def option_of_def converted_def
      leaf_defaults_def given_text_def given_float_def conf_of_args_def split: option.split)
qed

subsection \<open>The bridge as called\<close>

definition param_words :: "(string \<times> string) list \<Rightarrow> (string \<times> string) list" where
  "param_words kvs = map (\<lambda>(k, v). (''--param'', k @ CHR ''='' # v)) kvs"

lemma skill_flags: "leaf_flags skill_leaf = [''-h'', ''--help'', ''--host'', ''--port'', ''--param'', ''--param-json'', ''--params-file'']"
  by (simp add: leaf_flags_def skill_leaf_def address_def opt_def appended_def)

lemma skill_param: "option_of skill_leaf ''--param'' = Some (appended ''--param'' ''param'')"
  by (simp add: option_of_def skill_leaf_def address_def opt_def appended_def)

lemma put_params:
  "dget ns ''param'' = JList xs \<Longrightarrow>
   fold (put skill_leaf) (param_words kvs) ns = (if kvs = [] then ns else dset ''param'' (JList (xs @ map (\<lambda>(k, v). JStr (k @ CHR ''='' # v)) kvs)) ns)"
proof (induction kvs arbitrary: ns xs)
  case (Cons a kvs)
  obtain k v where a: "a = (k, v)" by fastforce
  have "put skill_leaf (''--param'', k @ CHR ''='' # v) ns = dset ''param'' (JList (xs @ [JStr (k @ CHR ''='' # v)])) ns"
    using Cons(2) by (simp add: skill_param appended_def opt_def stored_def converted_def)
  with Cons(1) [of "dset ''param'' (JList (xs @ [JStr (k @ CHR ''='' # v)])) ns"] show ?case
    by (simp add: a param_words_def)
qed (simp add: param_words_def)

lemma skill_words:
  assumes "\<not> startswith m ''-''" and "\<forall>(k, v) \<in> set kvs. k \<noteq> [] \<and> \<not> startswith k ''-''"
  shows "\<exists>ns. parse_program skill_leaf (m # pairs (param_words kvs)) = Parsed ns \<and> dget ns ''host'' = JNull \<and> dget ns ''port'' = JNull \<and>
    skill_args_of reads ns = \<lparr>s_method = m, s_param = map (\<lambda>(k, v). k @ CHR ''='' # v) kvs, s_param_json = [], s_file = None\<rparr>"
proof -
  let ?ns = "dset ''method'' (JStr m) (leaf_defaults skill_leaf)"
  have ok: "flags_ok (leaf_flags skill_leaf)" "''--'' \<notin> set (leaf_flags skill_leaf)"
    by (simp_all add: skill_flags flags_ok_def)
  have proper: "\<forall>a \<in> set (param_words kvs). proper skill_leaf a"
  proof
    fix a assume "a \<in> set (param_words kvs)"
    then obtain k v where a: "(k, v) \<in> set kvs" "a = (''--param'', k @ CHR ''='' # v)" by (auto simp: param_words_def)
    with assms(2) have "\<not> startswith (k @ CHR ''='' # v) ''-''" by (cases k) (auto simp: startswith_conv)
    then show "proper skill_leaf a" by (simp add: a(2) skill_param appended_def opt_def converted_def)
  qed
  obtain g where leaf: "parse_leaf skill_leaf (pairs (param_words kvs)) [] ?ns [] False =
      parse_leaf skill_leaf [] [] (fold (put skill_leaf) (param_words kvs) ?ns) g False"
    using leaf_pairs [OF ok(1) proper] by blast
  have "parse_program skill_leaf (m # pairs (param_words kvs)) =
      parse_leaf skill_leaf (m # pairs (param_words kvs)) [''method''] (leaf_defaults skill_leaf) [] False"
    using program_words [OF ok _ proper, of "[m]"] assms(1) by (simp add: skill_leaf_def)
  also have "\<dots> = Parsed (fold (put skill_leaf) (param_words kvs) ?ns)"
    using leaf assms(1) by (simp add: leaf_word leaf_complete_def) (simp add: skill_leaf_def address_def opt_def appended_def)
  finally have parsed: "parse_program skill_leaf (m # pairs (param_words kvs)) = Parsed (fold (put skill_leaf) (param_words kvs) ?ns)" .
  have ns: "?ns = [(''host'', JNull), (''port'', JNull), (''param'', JList []), (''param_json'', JList []), (''params_file'', JNull), (''method'', JStr m)]"
    by (simp add: leaf_defaults_def skill_leaf_def address_def opt_def appended_def)
  then have "dget ?ns ''param'' = JList []" by (simp add: dget_def)
  from put_params [OF this, of kvs] parsed show ?thesis
    by (auto simp: ns skill_args_of_def given_word_def given_texts_def given_text_def dget_def split_def)
qed

text \<open>
  The bridge calls what is written. With a method and \<open>--param\<close> words \<open>key=value\<close>, values with equals signs, blanks, dashes or
  nothing at all included, the bridge calls the daemon with this method and exactly these values, the last one of a key counting, and
  prints the line for the answer.
\<close>

theorem bridge_calls_as_written:
  assumes "\<not> startswith m ''-''" and "\<forall>(k, v) \<in> set kvs. k \<noteq> [] \<and> \<not> startswith k ''-'' \<and> CHR ''='' \<notin> set k"
    and "skill_endpoint env state JNull JNull = Inr (h, p)"
    and "d = (let ps = fold (\<lambda>(k, v). dset k (JStr v)) kvs [] in if m = ''session.register'' then [(''client'', JObj ps)] else ps)"
  shows "skill_program w reads i None env state (m # pairs (map (\<lambda>(k, v). (''--param'', k @ CHR ''='' # v)) kvs)) s =
    Parsed (case call (methods w) i m d s of (r, s') \<Rightarrow> (skill_line h p r, s'))"
proof -
  have "\<forall>(k, v) \<in> set kvs. k \<noteq> [] \<and> \<not> startswith k ''-''" using assms(2) by auto
  from skill_words [OF assms(1) this] obtain ns where
    ns: "parse_program skill_leaf (m # pairs (param_words kvs)) = Parsed ns" "dget ns ''host'' = JNull" "dget ns ''port'' = JNull"
      "skill_args_of reads ns = \<lparr>s_method = m, s_param = map (\<lambda>(k, v). k @ CHR ''='' # v) kvs, s_param_json = [], s_file = None\<rparr>"
    by blast
  have "fold set_param (map (\<lambda>(k, v). k @ CHR ''='' # v) kvs) q = fold (\<lambda>(k, v). dset k (JStr v)) kvs q" for q
    using assms(2) by (induction kvs arbitrary: q) (auto simp: set_param_def partition_at_append)
  with assms(3,4) ns show ?thesis
    by (simp add: skill_program_def param_words_def skill_main_def skill_params_def Let_def split: prod.split)
qed

subsection \<open>Concrete instances\<close>

definition demo_look :: look where
  "demo_look = \<lparr>l_clock = 0, l_probe = JNull, l_state = None, l_alive = (\<lambda>_. False)\<rparr>"

theorem tunnel_started_there_witness:
  "daemon_program demo_world (\<lambda>h n. Inl ''in use'') True [''--host'', ''node7'', ''--port'', ''4000''] ''b1'' demo_home [] None =
     (case Tunnel_init demo_world ''node7'' 4000 ''b1'' demo_home of
        Inl e \<Rightarrow> Parsed (Some (Inl e), None, None)
      | Inr s \<Rightarrow> Parsed (Some (Inl (OSError ''in use'')), None, Some \<lparr>t_daemon = s, t_file = None, t_bound = None\<rparr>))"
proof -
  have port: "parse_int ''4000'' = Some 4000" and digits: "show_int 4000 = ''4000''" by code_simp+
  let ?ls = "[demo_look, demo_look\<lparr>l_clock := 9\<rparr>]"
  have started: "cmd_tunnel_start (\<lambda>_. None) ''/w'' ''py'' (Some ''node7'') (Some ''4000'') False None ?ls =
      Some (Inr ((failure (''VFP Tunnel did not become ready; see '' @ path_join (log_dir (\<lambda>_. None) ''/w'') ''daemon.out''))
        \<lparr>r_spawned := [daemon_command ''py'' ''node7'' 4000], r_signalled := []\<rparr>))"
    by (simp add: cmd_tunnel_start_def resolve_port_def resolve_host_def port demo_look_def after_def)
  have "d_host s = ''node7'' \<and> d_port s = 4000" if "Tunnel_init demo_world ''node7'' 4000 ''b1'' demo_home = Inr s" for s
    using that by (auto simp: Tunnel_init_def split: sum.splits)
  then show ?thesis
    using tunnel_started_there [OF started, of "daemon_command ''py'' ''node7'' 4000" demo_world "\<lambda>h n. Inl ''in use''" True "''b1''" demo_home "[]" None]
    by (auto simp: resolve_host_def resolve_port_def port daemon_command_def digits tunnel_serve_def split: sum.splits)
qed

theorem supervisor_as_asked_witness:
  "supervisor_program ''/r'' (\<lambda>_. None) (\<lambda>_. None) [''--cwd'', ''/w'', ''--boot'', ''my.il''] os mn True =
     Parsed (Some (conf_of_args ''/r'' (\<lambda>_. None) (\<lambda>_. None) (Some ''my.il'') (Some ''/w'') 180 os mn True))"
proof -
  let ?ls = "[demo_look, demo_look\<lparr>l_clock := 601\<rparr>]"
  have "cmd_daemon_start (\<lambda>_. None) ''/w'' ''py'' None (Some ''my.il'') 600 ?ls =
      Some (Inr ((failure (''VFP Daemon did not become ready; see '' @ boot_log (\<lambda>_. None) ''/w''))
        \<lparr>r_spawned := [supervisor_command ''py'' ''/w'' None (Some ''my.il'')], r_signalled := []\<rparr>))"
    by (simp add: cmd_daemon_start_def supervised_def demo_look_def after_def)
  from supervisor_as_asked [OF this, of "supervisor_command ''py'' ''/w'' None (Some ''my.il'')"] show ?thesis
    by (simp add: supervisor_command_def)
qed

theorem bridge_calls_as_written_witness:
  "skill_program demo_world (\<lambda>_. Inr JNull) ''1'' None (\<lambda>_. None) None
      [''proposal.approve'', ''--param'', ''proposal_id=p_1'', ''--param'', ''note=-- a=b''] demo_daemon =
     Parsed (case call (methods demo_world) ''1'' ''proposal.approve'' [(''proposal_id'', JStr ''p_1''), (''note'', JStr ''-- a=b'')] demo_daemon of
       (r, s') \<Rightarrow> (skill_line (JStr DEFAULT_HOST) DEFAULT_PORT r, s'))"
proof -
  have ep: "skill_endpoint (\<lambda>_. None) None JNull JNull = Inr (JStr DEFAULT_HOST, DEFAULT_PORT)"
    by (simp add: skill_endpoint_def endpoint_def first_set_def read_or_empty_def resolve_host_def resolve_port_def
        DEFAULT_HOST_def DEFAULT_PORT_def)
  from bridge_calls_as_written [OF _ _ ep refl, of "''proposal.approve''" "[(''proposal_id'', ''p_1''), (''note'', ''-- a=b'')]"
      demo_world "\<lambda>_. Inr JNull" "''1''" demo_daemon]
  show ?thesis by simp
qed

end
