(* ===== verification/Sha256.thy ===== *)
theory Sha256
  imports Fingerprint
begin

section \<open>SHA-256\<close>

text \<open>
  The standard library's \<open>hashlib.sha256\<close>, which the simulation wrapper uses to name the deck it ran:
  padding, blocks and words are those of \<open>Fingerprint\<close>; the message schedule and the rounds are the
  algorithm's own, on 32-bit words that wrap around.
\<close>

definition sha256_k :: "sha_word list" where
  "sha256_k =
     [0x428A2F98, 0x71374491, 0xB5C0FBCF, 0xE9B5DBA5, 0x3956C25B, 0x59F111F1, 0x923F82A4, 0xAB1C5ED5,
      0xD807AA98, 0x12835B01, 0x243185BE, 0x550C7DC3, 0x72BE5D74, 0x80DEB1FE, 0x9BDC06A7, 0xC19BF174,
      0xE49B69C1, 0xEFBE4786, 0x0FC19DC6, 0x240CA1CC, 0x2DE92C6F, 0x4A7484AA, 0x5CB0A9DC, 0x76F988DA,
      0x983E5152, 0xA831C66D, 0xB00327C8, 0xBF597FC7, 0xC6E00BF3, 0xD5A79147, 0x06CA6351, 0x14292967,
      0x27B70A85, 0x2E1B2138, 0x4D2C6DFC, 0x53380D13, 0x650A7354, 0x766A0ABB, 0x81C2C92E, 0x92722C85,
      0xA2BFE8A1, 0xA81A664B, 0xC24B8B70, 0xC76C51A3, 0xD192E819, 0xD6990624, 0xF40E3585, 0x106AA070,
      0x19A4C116, 0x1E376C08, 0x2748774C, 0x34B0BCB5, 0x391C0CB3, 0x4ED8AA4A, 0x5B9CCA4F, 0x682E6FF3,
      0x748F82EE, 0x78A5636F, 0x84C87814, 0x8CC70208, 0x90BEFFFA, 0xA4506CEB, 0xBEF9A3F7, 0xC67178F2]"

primrec sha256_schedule :: "nat \<Rightarrow> sha_word list \<Rightarrow> sha_word list" where
  "sha256_schedule 0 w = w"
| "sha256_schedule (Suc k) w =
     (let n = length w; x = w ! (n - 15); y = w ! (n - 2);
          s0 = xor (xor (word_rotr 7 x) (word_rotr 18 x)) (drop_bit 3 x);
          s1 = xor (xor (word_rotr 17 y) (word_rotr 19 y)) (drop_bit 10 y)
      in sha256_schedule k (w @ [w ! (n - 16) + s0 + w ! (n - 7) + s1]))"

fun sha256_round :: "sha_word list \<Rightarrow> sha_word \<times> sha_word \<Rightarrow> sha_word list" where
  "sha256_round [a, b, c, d, e, f, g, h] (k, w) =
     (let s1 = xor (xor (word_rotr 6 e) (word_rotr 11 e)) (word_rotr 25 e);
          ch = xor (and e f) (and (not e) g);
          t1 = h + s1 + ch + k + w;
          s0 = xor (xor (word_rotr 2 a) (word_rotr 13 a)) (word_rotr 22 a);
          maj = xor (xor (and a b) (and a c)) (and b c)
      in [t1 + s0 + maj, a, b, c, d + t1, e, f, g])"
| "sha256_round s _ = s"

definition sha256_block :: "sha_word list \<Rightarrow> nat list \<Rightarrow> sha_word list" where
  "sha256_block hs bytes =
     map2 (+) hs
       (foldl sha256_round hs (zip sha256_k (sha256_schedule 48 (map pack_word (chunks 4 16 bytes)))))"

definition sha256_start :: "sha_word list" where
  "sha256_start =
     [0x6A09E667, 0xBB67AE85, 0x3C6EF372, 0xA54FF53A,
      0x510E527F, 0x9B05688C, 0x1F83D9AB, 0x5BE0CD19]"

definition sha256 :: "nat list \<Rightarrow> sha_word list" where
  "sha256 m = (let p = sha_pad m in foldl sha256_block sha256_start (chunks 64 (length p div 64) p))"

definition sha256_hex :: "string \<Rightarrow> string" where
  "sha256_hex s = concat (map (\<lambda>w. hex_digits 8 (unat w)) (sha256 (map of_char s)))"

subsection \<open>Sizes\<close>

lemma length_sha256_round: "length s = 8 \<Longrightarrow> length (sha256_round s kw) = 8"
  by (induction s kw rule: sha256_round.induct) (simp_all add: Let_def)

lemma length_sha256_rounds: "length s = 8 \<Longrightarrow> length (foldl sha256_round s kws) = 8"
  by (induction kws arbitrary: s) (simp_all add: length_sha256_round)

lemma length_sha256_blocks: "length s = 8 \<Longrightarrow> length (foldl sha256_block s bs) = 8"
  by (induction bs arbitrary: s) (simp_all add: sha256_block_def length_sha256_rounds)

lemma length_sha256: "length (sha256 m) = 8"
  by (simp add: sha256_def Let_def length_sha256_blocks sha256_start_def)

lemma length_sha256_hex [simp]: "length (sha256_hex s) = 64"
proof -
  have "length (concat (map (\<lambda>w. hex_digits 8 (unat w)) ws)) = 8 * length ws" for ws :: "sha_word list"
    by (induction ws) simp_all
  then show ?thesis by (simp add: sha256_hex_def length_sha256)
qed

end
