(* ===== verification/Json_Reading.thy ===== *)
theory Json_Reading
  imports Json_Text
begin

section \<open>The JSON scanner\<close>

text \<open>
  What the scanner of \<open>Json_Text\<close> does on every text: it consumes what it reads, so the bound of its recursion is never
  reached, and the values it returns are values of Python, with doubles for floats and distinct keys.
\<close>

subsection \<open>What is consumed\<close>

lemma as_scan_simps [simp]: "as_scan g (Got x t) = Got (g x) t" "as_scan g Malformed = Malformed" "as_scan g Beyond = Beyond"
  by (simp_all add: as_scan_def)

lemma as_scan_Got: "as_scan g r = Got y t \<longleftrightarrow> (\<exists>x. r = Got x t \<and> y = g x)"
  by (cases r) auto

lemma then_scan_Got: "then_scan r f = Got y t \<longleftrightarrow> (\<exists>x u. r = Got x u \<and> f x u = Got y t)"
  by (cases r) auto

lemma then_scan_cong: "r = r' \<Longrightarrow> (\<And>x t. r' = Got x t \<Longrightarrow> f x t = g x t) \<Longrightarrow> then_scan r f = then_scan r' g"
  by (cases r') auto

lemma put_char_Got: "put_char n r = Got y t \<longleftrightarrow> n < 256 \<and> (\<exists>x. r = Got x t \<and> y = char_of n # x)"
  by (cases r) (auto simp: put_char_def as_scan_Got)

lemma skip_space_length: "length (skip_space s) \<le> length s"
  by (simp add: skip_space_def length_dropWhile_le)

lemma scan_str_length: "scan_str s = Got x r \<Longrightarrow> length r < length s"
proof (induction s arbitrary: x rule: length_induct)
  case (1 s)
  then have IH: "scan_str t = Got y r \<Longrightarrow> length t < length s \<Longrightarrow> length r < length t" for t y by blast
  show ?case
  proof (cases s)
    case (Cons c t)
    with 1(2) IH show ?thesis
      by (auto simp: scan_str.simps(2) put_char_Got split: if_splits list.splits option.splits dest!: IH)
  qed (use 1(2) in simp)
qed

lemma startswith_length: "startswith s w \<Longrightarrow> length w \<le> length s"
  by (induction s w rule: startswith.induct) auto

lemma scan_word_length:
  assumes "scan_word ws s = Some (v, r)" and "list_all (\<lambda>(w, v). w \<noteq> []) ws" shows "length r < length s"
proof -
  obtain w where "r = drop (length w) s" "find (\<lambda>(w, v). startswith s w) ws = Some (w, v)"
    using assms(1) by (auto simp: scan_word_def)
  moreover from this(2) have "(w, v) \<in> set ws" "startswith s w" by (auto simp: find_Some_iff) (metis nth_mem)
  moreover from this(1) have "w \<noteq> []" using assms(2) by (auto simp: list_all_iff)
  ultimately show ?thesis using startswith_length [of s w] by (cases w) auto
qed

lemma scan_whole_length: "scan_whole s = Some (t, r) \<Longrightarrow> length r < length s"
  by (auto simp: scan_whole_def less_Suc_eq_le length_dropWhile_le split: list.splits if_splits)

lemma scan_fraction_length: "scan_fraction s = (t, r) \<Longrightarrow> length r \<le> length s"
  by (auto simp: scan_fraction_def le_SucI length_dropWhile_le split: list.splits if_splits)

lemma scan_power_length: "scan_power s = (t, r) \<Longrightarrow> length r \<le> length s"
  by (auto simp: scan_power_def Let_def le_SucI length_dropWhile_le split: list.splits if_splits prod.splits)

lemma scan_num_length: "scan_num s = Some (v, r) \<Longrightarrow> length r < length s"
  by (auto simp: scan_num_def Let_def split: list.splits if_splits option.splits prod.splits
      dest!: scan_whole_length scan_fraction_length scan_power_length)

lemma scan_plain_length: "scan_plain s = Got v r \<Longrightarrow> length r < length s"
  by (auto simp: scan_plain_def json_words_def float_words_def split: option.splits dest: scan_num_length
      elim!: scan_word_length)

lemma skip_space_Cons: "skip_space s = c # r \<Longrightarrow> length r < length s"
  using skip_space_length [of s] by simp

lemma after_item_cong:
  assumes "\<And>t. length t < length s \<Longrightarrow> more t = more' t" shows "after_item c x more s = after_item c x more' s"
proof -
  have "more (skip_space r) = more' (skip_space r)" if "skip_space s = d # r" for d r
    using skip_space_Cons [OF that] skip_space_length [of r] by (intro assms) simp
  then show ?thesis by (simp add: after_item_def split: list.split)
qed

lemma after_item_Got:
  assumes "after_item c x more s = Got xs r"
  obtains (last) "xs = [x]" "length r < length s" | (next_) t ys where "more t = Got ys r" "xs = x # ys" "length t < length s"
proof (cases "skip_space s")
  case (Cons d q)
  then have "length q < length s" "length (skip_space q) < length s" using skip_space_Cons skip_space_length [of q] by force+
  with Cons assms that show ?thesis by (auto simp: after_item_def as_scan_Got split: if_splits)
qed (use assms in \<open>simp add: after_item_def\<close>)

lemma tl_skip_length: "skip_space r \<noteq> [] \<Longrightarrow> length (tl (skip_space r)) < length r"
  using skip_space_Cons [of r "hd (skip_space r)"] by (cases "skip_space r") auto

lemma scan_members_Suc:
  assumes "scan_members (Suc n) s = Got ms r"
  obtains t k u u' v w where "s = CHR 0x22 # t" "scan_str t = Got k u" "skip_space u = CHR '':'' # u'"
    "scan_value n (skip_space u') = Got v w" "after_item CHR ''}'' (k, v) (scan_members n) w = Got ms r"
  using assms by (auto simp: then_scan_Got split: list.splits if_splits) (metis list.exhaust)

lemma scan_lengths:
  "scan_value n s = Got v r \<Longrightarrow> length r < length s"
  "scan_items n s = Got vs r \<Longrightarrow> length r < length s"
  "scan_members n s = Got ms r \<Longrightarrow> length r < length s"
proof (induction n s and n s and n s arbitrary: v r and vs r and ms r rule: scan_value_scan_items_scan_members.induct)
  case (2 n s)
  show ?case
  proof (cases s)
    case (Cons c t)
    with 2 skip_space_length [of t] tl_skip_length [of t] show ?thesis
      by (auto simp: as_scan_Got simp del: scan_items.simps scan_members.simps split: if_splits
          dest: scan_str_length scan_plain_length) (fastforce dest: less_le_trans)+
  qed (use 2 in simp)
next
  case (4 n s)
  show ?case
    using 4 by (auto simp: then_scan_Got elim!: after_item_Got) (meson less_trans)+
next
  case (6 n s)
  from 6(3) obtain t k u u' v w where s: "s = CHR 0x22 # t" "scan_str t = Got k u" "skip_space u = CHR '':'' # u'"
    "scan_value n (skip_space u') = Got v w" "after_item CHR ''}'' (k, v) (scan_members n) w = Got ms r" by (rule scan_members_Suc)
  then have "length w < length (skip_space u')" using 6(1) by simp
  then have w: "length w < length s"
    using scan_str_length [OF s(2)] skip_space_Cons [OF s(3)] skip_space_length [of u'] by (simp add: s(1))
  from s(5) show ?case
  proof (cases rule: after_item_Got)
    case (next_ x ys)
    then have "length r < length x" using 6(2) s(1-4) by simp
    with next_ w show ?thesis by simp
  qed (use w in simp)
qed simp_all

subsection \<open>The bound is never reached\<close>

lemma scan_fuel:
  "2 * length s < n \<Longrightarrow> 2 * length s < m \<Longrightarrow> scan_value n s = scan_value m s"
  "2 * length s + 1 < n \<Longrightarrow> 2 * length s + 1 < m \<Longrightarrow> scan_items n s = scan_items m s"
  "2 * length s + 1 < n \<Longrightarrow> 2 * length s + 1 < m \<Longrightarrow> scan_members n s = scan_members m s"
proof (induction n s and n s and n s arbitrary: m and m and m rule: scan_value_scan_items_scan_members.induct)
  case (2 n s)
  then obtain k where m: "m = Suc k" by (cases m) auto
  show ?case
  proof (cases s)
    case (Cons c t)
    then have *: "2 * length (skip_space t) + 1 < n" "2 * length (skip_space t) + 1 < k"
      using 2 m skip_space_length [of t] by simp_all
    then have "scan_members n (skip_space t) = scan_members k (skip_space t)"
      if "c = CHR ''{''" "\<not> (skip_space t \<noteq> [] \<and> hd (skip_space t) = CHR ''}'')"
      using that by (intro 2(1) [OF Cons]) auto
    moreover have "scan_items n (skip_space t) = scan_items k (skip_space t)"
      if "c = CHR ''[''" "\<not> (skip_space t \<noteq> [] \<and> hd (skip_space t) = CHR '']'')"
      using that * by (intro 2(2) [OF Cons]) auto
    ultimately show ?thesis using Cons by (cases "skip_space t = []") (simp_all add: m)
  qed (simp add: m)
next
  case (4 n s)
  then obtain k where m: "m = Suc k" by (cases m) auto
  have "scan_value n s = scan_value k s" using 4(3,4) m by (intro 4(1)) simp_all
  moreover have "after_item CHR '']'' v (scan_items n) t = after_item CHR '']'' v (scan_items k) t" if "scan_value k s = Got v t" for v t
    using 4(3,4) m scan_lengths(1) [OF that] by (intro after_item_cong 4(2)) simp_all
  ultimately show ?case by (auto simp: m intro: then_scan_cong)
next
  case (6 n s)
  then obtain k where m: "m = Suc k" by (cases m) auto
  show ?case
  proof (cases s)
    case (Cons c t)
    have "(case skip_space u of [] \<Rightarrow> Malformed
        | d # w \<Rightarrow> if d \<noteq> CHR '':'' then Malformed
                 else then_scan (scan_value n (skip_space w)) (\<lambda>v. after_item CHR ''}'' (x, v) (scan_members n))) =
      (case skip_space u of [] \<Rightarrow> Malformed
        | d # w \<Rightarrow> if d \<noteq> CHR '':'' then Malformed
                 else then_scan (scan_value k (skip_space w)) (\<lambda>v. after_item CHR ''}'' (x, v) (scan_members k)))"
      if c: "c = CHR 0x22" "scan_str t = Got x u" for x u
    proof (cases "skip_space u")
      case (Cons d w)
      let ?w = "skip_space w"
      have l: "length ?w < length s"
        using scan_str_length [OF c(2)] skip_space_Cons [OF Cons] skip_space_length [of w] by (simp add: \<open>s = c # t\<close>)
      show ?thesis
      proof (cases "d = CHR '':''")
        case True
        have "scan_value n ?w = scan_value k ?w" using 6(3,4) m l c Cons True \<open>s = c # t\<close> by (intro 6(1)) simp_all
        moreover have "after_item CHR ''}'' (x, v) (scan_members n) y = after_item CHR ''}'' (x, v) (scan_members k) y"
          if "scan_value k ?w = Got v y" for v y
          using 6(3,4) m l c Cons True \<open>s = c # t\<close> scan_lengths(1) [OF that] by (intro after_item_cong 6(2)) simp_all
        ultimately show ?thesis using Cons by (auto intro: then_scan_cong)
      qed (use Cons in simp)
    qed simp
    then show ?thesis using Cons by (auto simp: m intro: then_scan_cong)
  qed (simp add: m)
qed simp_all

text \<open>The bound \<open>json_loads\<close> takes is enough for every text: a larger one gives the same.\<close>

lemma json_loads_bound:
  assumes "2 * length s < n"
  shows "json_loads s =
     (case scan_value n (skip_space s) of
        Got v t \<Rightarrow> (if skip_space t = [] then Reads v else Refused)
      | Malformed \<Rightarrow> Refused
      | Beyond \<Rightarrow> Unheld)"
  using scan_fuel(1) [of "skip_space s" "2 * length s + 2" n] skip_space_length [of s] assms
  by (simp add: json_loads_def del: scan_value.simps)

subsection \<open>What is read\<close>

lemma dset_keys: "distinct (map fst d) \<Longrightarrow> distinct (map fst (dset k v d))"
proof (induction d)
  case (Cons a d)
  have "fst ` set (dset k v d) = insert k (fst ` set d)" by (induction d) auto
  with Cons show ?case by (cases a) auto
qed simp

lemma dset_values: "list_all (\<lambda>(k, v). P v) d \<Longrightarrow> P v \<Longrightarrow> list_all (\<lambda>(k, v). P v) (dset k v d)"
  by (induction d) auto

lemma dict_update_ok:
  "distinct (map fst d) \<Longrightarrow> list_all (\<lambda>(k, v). P v) d \<Longrightarrow> list_all (\<lambda>(k, v). P v) e \<Longrightarrow>
   distinct (map fst (dict_update d e)) \<and> list_all (\<lambda>(k, v). P v) (dict_update d e)"
  by (induction e arbitrary: d) (auto simp: dset_keys dset_values)

lemma scan_word_ok: "list_all (\<lambda>(w, v). json_ok v) ws \<Longrightarrow> scan_word ws s = Some (v, r) \<Longrightarrow> json_ok v"
  by (auto simp: scan_word_def find_Some_iff list_all_length split_def) (metis snd_conv)

lemma scan_num_ok: "scan_num s = Some (v, r) \<Longrightarrow> json_ok v"
  by (auto simp: scan_num_def Let_def is_double_parse split: list.splits if_splits option.splits prod.splits)

lemma scan_plain_ok: "scan_plain s = Got v r \<Longrightarrow> json_ok v"
  by (auto simp: scan_plain_def json_words_def float_words_def split: option.splits dest: scan_num_ok elim!: scan_word_ok [rotated])

lemma scan_ok:
  "scan_value n s = Got v r \<Longrightarrow> json_ok v"
  "scan_items n s = Got vs r \<Longrightarrow> list_all json_ok vs"
  "scan_members n s = Got ms r \<Longrightarrow> list_all (\<lambda>(k, v). json_ok v) ms"
proof (induction n s and n s and n s arbitrary: v r and vs r and ms r rule: scan_value_scan_items_scan_members.induct)
  case (2 n s)
  show ?case
  proof (cases s)
    case (Cons c t)
    have m: "json_ok (JObj (dict_update [] ms))" if "list_all (\<lambda>(k, v). json_ok v) ms" for ms
      using dict_update_ok [of "[]" json_ok ms] that by simp
    from 2 Cons show ?thesis
      by (auto simp: as_scan_Got simp del: json_ok.simps(3) scan_items.simps scan_members.simps split: if_splits
          intro: scan_plain_ok m) (simp_all add: json_ok.simps(3))
  qed (use 2 in simp)
next
  case (4 n s)
  show ?case
    using 4 by (auto simp: then_scan_Got elim!: after_item_Got)
next
  case (6 n s)
  from 6(3) obtain t k u u' v w where s: "s = CHR 0x22 # t" "scan_str t = Got k u" "skip_space u = CHR '':'' # u'"
    "scan_value n (skip_space u') = Got v w" "after_item CHR ''}'' (k, v) (scan_members n) w = Got ms r" by (rule scan_members_Suc)
  then have v: "json_ok v" using 6(1) by simp
  from s(5) show ?case
  proof (cases rule: after_item_Got)
    case (next_ x ys)
    then have "list_all (\<lambda>(k, v). json_ok v) ys" using 6(2) s(1-4) by simp
    with next_ v show ?thesis by simp
  qed (use v in simp)
qed simp_all

lemma json_loads_ok: "json_loads s = Reads v \<Longrightarrow> json_ok v"
  by (auto simp: json_loads_def simp del: scan_value.simps split: scan.splits if_splits dest: scan_ok(1))

subsection \<open>Texts that go on\<close>

text \<open>A text that is read is read the same when more follows it, so a text that is cut short is refused.\<close>

fun longer :: "string \<Rightarrow> 'a scan \<Rightarrow> 'a scan" where
  "longer q (Got x r) = Got x (r @ q)"
| "longer q Malformed = Malformed"
| "longer q Beyond = Beyond"

lemma longer_as_scan: "longer q (as_scan g r) = as_scan g (longer q r)"
  by (cases r) simp_all

lemma longer_put: "longer q (put_char n r) = put_char n (longer q r)"
  by (cases r) (simp_all add: put_char_def)

lemma put_char_Malformed: "put_char n r = Malformed \<longleftrightarrow> r = Malformed"
  by (cases r) (simp_all add: put_char_def)

lemma as_scan_Malformed: "as_scan g r = Malformed \<longleftrightarrow> r = Malformed"
  by (cases r) simp_all

lemma scan_str_more: "scan_str s \<noteq> Malformed \<Longrightarrow> scan_str (s @ q) = longer q (scan_str s)"
proof (induction s rule: length_induct)
  case (1 s)
  then have IH: "length t < length s \<Longrightarrow> scan_str t \<noteq> Malformed \<Longrightarrow> scan_str (t @ q) = longer q (scan_str t)" for t by blast
  show ?case
  proof (cases s)
    case (Cons c t)
    consider (quote) "c = CHR 0x22" | (code) h1 h2 h3 h4 u where "c = CHR 0x5C" "t = CHR ''u'' # h1 # h2 # h3 # h4 # u"
      | (escape) e u where "c = CHR 0x5C" "t = e # u" "e \<noteq> CHR ''u''" | (other) "c \<noteq> CHR 0x22" "c \<noteq> CHR 0x5C"
      using 1(2) Cons by (cases "c = CHR 0x5C"; cases "c = CHR 0x22") (auto simp: scan_str.simps(2) split: list.splits if_splits)
    then show ?thesis
    proof cases
      case code
      with 1(2) Cons IH [of u] show ?thesis
        by (cases "hex4 h1 h2 h3 h4") (simp_all add: scan_str.simps(2) put_char_Malformed longer_put)
    next
      case escape
      with 1(2) Cons IH [of u] show ?thesis
        by (cases "escape_char e") (simp_all add: scan_str.simps(2) put_char_Malformed longer_put)
    next
      case other
      with 1(2) Cons IH [of t] show ?thesis
        by (cases "(of_char c :: nat) < 32") (simp_all add: scan_str.simps(2) put_char_Malformed longer_put)
    qed (simp add: Cons scan_str.simps(2))
  qed (use 1(2) in simp)
qed

lemma takeWhile_more: "dropWhile P s \<noteq> [] \<Longrightarrow> takeWhile P (s @ q) = takeWhile P s \<and> dropWhile P (s @ q) = dropWhile P s @ q"
  by (induction s) auto

lemma skip_space_more: "skip_space s \<noteq> [] \<Longrightarrow> skip_space (s @ q) = skip_space s @ q"
  unfolding skip_space_def using takeWhile_more by blast

lemma scan_fraction_more:
  assumes "scan_fraction s = (a, b)" and "b \<noteq> []" and "hd b \<noteq> CHR ''.''" shows "scan_fraction (s @ q) = (a, b @ q)"
proof (cases s)
  case (Cons c r)
  with assms takeWhile_more [of is_digit r q] show ?thesis by (auto simp: scan_fraction_def split: if_splits)
qed (use assms in \<open>simp add: scan_fraction_def\<close>)

lemma scan_power_more:
  assumes "scan_power s = (a, b)" and "b \<noteq> []" and "hd b \<notin> set ''eE''" shows "scan_power (s @ q) = (a, b @ q)"
proof (cases s)
  case (Cons c r)
  show ?thesis
  proof (cases r)
    case (Cons x y)
    with assms \<open>s = c # r\<close> takeWhile_more [of is_digit r q] takeWhile_more [of is_digit y q] show ?thesis
      by (auto simp: scan_power_def split: if_splits)
  qed (use assms Cons in \<open>auto simp: scan_power_def split: if_splits list.split prod.split\<close>)
qed (use assms in \<open>simp add: scan_power_def\<close>)

lemma scan_whole_more:
  assumes "scan_whole s = Some (a, b)" and "b \<noteq> []" shows "scan_whole (s @ q) = Some (a, b @ q)"
proof (cases s)
  case (Cons c r)
  with assms takeWhile_more [of is_digit s q] show ?thesis by (auto simp: scan_whole_def split: if_splits)
qed (use assms in \<open>simp add: scan_whole_def\<close>)

lemma scan_num_more:
  assumes "scan_num s = Some (v, r)" and "r \<noteq> []" and "free_end r" shows "scan_num (s @ q) = Some (v, r @ q)"
proof -
  have r: "hd r \<notin> set ''.eE''" "\<not> is_digit (hd r)" using assms(2,3) by (cases r; simp add: free_end_def)+
  obtain sg r0 where s: "(case s of c # t \<Rightarrow> (if c = CHR ''-'' then ([c], t) else ([], s)) | [] \<Rightarrow> ([], [])) = (sg, r0)" by fastforce
  obtain ip r1 where w: "scan_whole r0 = Some (ip, r1)" using assms(1) s by (auto simp: scan_num_def split: option.splits)
  obtain fp r2 where f: "scan_fraction r1 = (fp, r2)" by fastforce
  obtain ex r3 where e: "scan_power r2 = (ex, r3)" by fastforce
  have v: "(if fp = [] \<and> ex = [] then map_option JInt (parse_int (sg @ ip)) else map_option JFloat (parse_float (sg @ ip @ fp @ ex))) = Some v"
    and r3: "r3 = r" using assms(1) s w f e by (auto simp: scan_num_def Let_def split: if_splits)
  have e': "scan_power (r2 @ q) = (ex, r @ q)" using scan_power_more [OF e] r assms(2) r3 by simp
  have r2: "r2 \<noteq> []" "hd r2 \<noteq> CHR ''.''"
    using e r assms(2) r3 by (auto simp: scan_power_def Let_def split: list.splits if_splits prod.splits)
  have f': "scan_fraction (r1 @ q) = (fp, r2 @ q)" using scan_fraction_more [OF f r2] .
  have r1: "r1 \<noteq> []" using f r2 by (auto simp: scan_fraction_def)
  have w': "scan_whole (r0 @ q) = Some (ip, r1 @ q)" using scan_whole_more [OF w r1] .
  have "r0 \<noteq> []" using w by (auto simp: scan_whole_def)
  then have s': "(case s @ q of c # t \<Rightarrow> (if c = CHR ''-'' then ([c], t) else ([], s @ q)) | [] \<Rightarrow> ([], [])) = (sg, r0 @ q)"
    using s by (cases s) (auto split: if_splits)
  show ?thesis using v s' w' f' e' by (auto simp: scan_num_def Let_def split: if_splits)
qed

lemma scan_word_cases:
  "scan_word json_words s = Some (v, r) \<Longrightarrow>
     (v = JNull \<and> s = ''null'' @ r) \<or> (v = JBool True \<and> s = ''true'' @ r) \<or> (v = JBool False \<and> s = ''false'' @ r)"
  "scan_word float_words s = Some (v, r) \<Longrightarrow>
     (v = JFloat NaN \<and> s = ''NaN'' @ r) \<or> (v = JFloat PInf \<and> s = ''Infinity'' @ r) \<or> (v = JFloat NInf \<and> s = ''-Infinity'' @ r)"
  by (auto simp: scan_word_def json_words_def float_words_def startswith_conv split: if_splits)

lemma scan_num_first: "scan_num s = Some (v, r) \<Longrightarrow> \<exists>c t. s = c # t \<and> (is_digit c \<or> c = CHR ''-'')"
  by (auto simp: scan_num_def scan_whole_def is_digit_def split: list.splits if_splits)

lemma scan_plain_more:
  assumes "scan_plain s = Got v r" and "r \<noteq> []" and "free_end r" shows "scan_plain (s @ q) = Got v (r @ q)"
proof -
  consider (word) "scan_word json_words s = Some (v, r)" | (num) "scan_num s = Some (v, r)"
    | (float) "scan_word float_words s = Some (v, r)"
    using assms(1) by (auto simp: scan_plain_def split: option.splits)
  then show ?thesis
  proof cases
    case word
    from scan_word_cases(1) [OF this] show ?thesis by (auto simp: scan_plain_def scan_word_def json_words_def)
  next
    case num
    from scan_num_first [OF num] obtain c t where "s = c # t" "is_digit c \<or> c = CHR ''-''" by blast
    with scan_plain_number [OF scan_num_more [OF num assms(2,3), of q]] show ?thesis by simp
  next
    case float
    from scan_word_cases(2) [OF this] show ?thesis
      by (auto simp: scan_plain_def scan_word_def json_words_def float_words_def scan_num_def scan_whole_def is_digit_def)
  qed
qed

lemma scan_none: "scan_value n [] = Malformed" "scan_items n [] = Malformed" "scan_members n [] = Malformed"
proof -
  show v: "scan_value n [] = Malformed" for n by (cases n) simp_all
  show "scan_items n [] = Malformed" "scan_members n [] = Malformed" by (cases n; simp add: v del: scan_value.simps)+
qed

lemma after_item_free: "after_item c x more t \<noteq> Malformed \<Longrightarrow> c \<in> set '']}'' \<Longrightarrow> t \<noteq> [] \<and> free_end t"
proof -
  assume a: "after_item c x more t \<noteq> Malformed" "c \<in> set '']}''"
  then obtain d u where d: "skip_space t = d # u" "d = c \<or> d = CHR '',''"
    by (auto simp: after_item_def split: list.splits if_splits)
  moreover obtain e w where t: "t = e # w" using d(1) by (cases t) (simp_all add: skip_space_def)
  ultimately have "e = d \<or> json_space e" by (auto simp: skip_space_def split: if_splits)
  with a(2) d(2) show ?thesis unfolding t by (auto simp: free_end_def is_digit_def json_space_def)
qed

lemma after_item_more:
  assumes "after_item c x more t \<noteq> Malformed" and "more [] = Malformed" and "\<And>u. more u \<noteq> Malformed \<Longrightarrow> more (u @ q) = longer q (more u)"
  shows "after_item c x more (t @ q) = longer q (after_item c x more t)"
proof -
  obtain d u where d: "skip_space t = d # u" using assms(1) by (auto simp: after_item_def split: list.splits)
  then have t: "skip_space (t @ q) = d # u @ q" using skip_space_more [of t q] by simp
  show ?thesis
  proof (cases "d = c")
    case False
    then have m: "more (skip_space u) \<noteq> Malformed" "d = CHR '',''"
      using assms(1) d by (auto simp: after_item_def split: if_splits)
    then have "skip_space u \<noteq> []" using assms(2) by auto
    with m d t assms(3) [of "skip_space u"] show ?thesis
      by (simp add: after_item_def skip_space_more longer_as_scan)
  qed (simp add: after_item_def d t)
qed

definition closed_text :: "string \<Rightarrow> bool" where
  "closed_text s \<longleftrightarrow> s \<noteq> [] \<and> hd s \<in> {CHR 0x22, CHR ''{'', CHR ''[''}"

lemma scan_beyond: "scan_value n s = Beyond \<Longrightarrow> closed_text s"
proof (cases n)
  case (Suc k)
  assume "scan_value n s = Beyond"
  moreover have "scan_plain s \<noteq> Beyond" by (simp add: scan_plain_def split: option.split prod.split)
  ultimately show ?thesis by (auto simp: Suc closed_text_def split: list.splits if_splits)
qed simp

text \<open>An item and what stands after it\<close>

definition then_items :: "nat \<Rightarrow> char \<Rightarrow> (json \<Rightarrow> 'a) \<Rightarrow> (string \<Rightarrow> 'a list scan) \<Rightarrow> string \<Rightarrow> 'a list scan" where
  "then_items n c f more s = then_scan (scan_value n s) (\<lambda>v. after_item c (f v) more)"

lemma then_items_more:
  assumes "then_items n c f more s \<noteq> Malformed" and "c \<in> set '']}''" and "more [] = Malformed"
    and "\<And>u. more u \<noteq> Malformed \<Longrightarrow> more (u @ q) = longer q (more u)"
    and IH: "scan_value n s \<noteq> Malformed \<Longrightarrow> closed_text s \<or> (\<exists>v r. scan_value n s = Got v r \<and> r \<noteq> [] \<and> free_end r) \<Longrightarrow>
      scan_value n (s @ q) = longer q (scan_value n s)"
  shows "then_items n c f more (s @ q) = longer q (then_items n c f more s)"
proof (cases "scan_value n s")
  case (Got v t)
  then have a: "after_item c (f v) more t \<noteq> Malformed" using assms(1) by (simp add: then_items_def)
  from after_item_free [OF a assms(2)] after_item_more [OF a assms(3,4)] IH Got show ?thesis by (simp add: then_items_def)
next
  case Beyond
  with scan_beyond [OF Beyond] IH show ?thesis by (simp add: then_items_def)
qed (use assms(1) in \<open>simp add: then_items_def\<close>)

lemma scan_more:
  "scan_value n s \<noteq> Malformed \<Longrightarrow> closed_text s \<or> (\<exists>v r. scan_value n s = Got v r \<and> r \<noteq> [] \<and> free_end r) \<Longrightarrow>
     scan_value n (s @ q) = longer q (scan_value n s)"
  "scan_items n s \<noteq> Malformed \<Longrightarrow> scan_items n (s @ q) = longer q (scan_items n s)"
  "scan_members n s \<noteq> Malformed \<Longrightarrow> scan_members n (s @ q) = longer q (scan_members n s)"
proof (induction n s and n s and n s rule: scan_value_scan_items_scan_members.induct)
  case (2 n s)
  show ?case
  proof (cases s)
    case (Cons c t)
    show ?thesis
    proof (cases "c = CHR ''{'' \<or> c = CHR ''[''")
      case True
      with 2(3) Cons have "skip_space t \<noteq> []"
        by (auto simp: as_scan_Malformed scan_none simp del: scan_items.simps scan_members.simps)
      moreover from this have "skip_space (t @ q) = skip_space t @ q" "hd (skip_space t @ q) = hd (skip_space t)"
        "tl (skip_space t @ q) = tl (skip_space t) @ q" by (simp_all add: skip_space_more)
      ultimately show ?thesis
        using True 2(1,2) [OF Cons] 2(3) Cons by (auto simp: as_scan_Malformed longer_as_scan simp del: scan_items.simps scan_members.simps)
    next
      case False
      with 2(3,4) Cons show ?thesis
        using scan_str_more [of t q] scan_plain_more [of s _ _ q] by (auto simp: as_scan_Malformed longer_as_scan closed_text_def)
    qed
  qed (use 2 in simp)
next
  case (4 n s)
  show ?case
    using then_items_more [of n "CHR '']''" "\<lambda>v. v" "scan_items n" s q] 4 by (simp add: then_items_def scan_none)
next
  case (6 n s)
  show ?case
  proof (cases s)
    case (Cons c t)
    then have c: "c = CHR 0x22" using 6(3) by (simp split: if_splits)
    show ?thesis
    proof (cases "scan_str t")
      case (Got k u)
      then have str: "scan_str (t @ q) = Got k (u @ q)" using scan_str_more [of t q] by simp
      obtain u' where u: "skip_space u = CHR '':'' # u'"
        using 6(3) Cons c Got by (auto split: list.splits if_splits)
      then have uq: "skip_space (u @ q) = CHR '':'' # u' @ q" by (simp add: skip_space_more)
      have now: "scan_members (Suc n) s = then_items n CHR ''}'' (\<lambda>v. (k, v)) (scan_members n) (skip_space u')"
        using Cons c Got u by (simp add: then_items_def)
      have "scan_value n (skip_space u') \<noteq> Malformed" using now 6(3) by (auto simp: then_items_def)
      then have "skip_space u' \<noteq> []" by (auto simp: scan_none)
      then have "scan_members (Suc n) (s @ q) = then_items n CHR ''}'' (\<lambda>v. (k, v)) (scan_members n) (skip_space u' @ q)"
        using Cons c str uq by (simp add: then_items_def skip_space_more)
      moreover have "then_items n CHR ''}'' (\<lambda>v. (k, v)) (scan_members n) (skip_space u' @ q) =
          longer q (then_items n CHR ''}'' (\<lambda>v. (k, v)) (scan_members n) (skip_space u'))"
        using 6(3) unfolding now
      proof (rule then_items_more)
        show "scan_value n (skip_space u' @ q) = longer q (scan_value n (skip_space u'))"
          if "scan_value n (skip_space u') \<noteq> Malformed"
            "closed_text (skip_space u') \<or> (\<exists>v r. scan_value n (skip_space u') = Got v r \<and> r \<noteq> [] \<and> free_end r)"
          using that c by (intro 6(1) [OF Cons _ u]) simp_all
        show "scan_members n (x @ q) = longer q (scan_members n x)" if "scan_members n x \<noteq> Malformed" for x
          using that c by (intro 6(2) [OF Cons _ u]) simp_all
      qed (simp_all add: scan_none)
      ultimately show ?thesis by (simp only: now)
    qed (use 6(3) Cons c scan_str_more [of t q] in simp_all)
  qed (use 6 in simp)
qed simp_all

lemma json_loads_cut:
  assumes "reads_value t v" and "closed_text t" and "t = p @ q" and "q \<noteq> []" shows "json_loads p = Refused"
proof (cases p)
  case Nil
  then show ?thesis by (simp add: json_loads_def skip_space_def scan_none del: scan_value.simps)
next
  case (Cons c u)
  then have p: "closed_text p" "skip_space p = p"
    using assms(1-3) by (auto simp: closed_text_def reads_value_def skip_none)
  define n where "n = 2 * length (p @ q) + 2"
  have "scan_value n (p @ q) = Got v []"
    using readsD [OF assms(1), of "[]" n] assms(3) by (simp add: n_def free_end_def del: scan_value.simps)
  with scan_more(1) [of n p q] p(1) assms(4) have "scan_value n p = Malformed"
    by (cases "scan_value n p") (auto simp del: scan_value.simps)
  then show ?thesis using json_loads_bound [of p n] p(2) by (simp add: n_def)
qed

lemma closed_objects [simp]: "closed_text (dumps (JObj d))" "closed_text (dumps_indent n (JObj d))"
  by (simp_all add: closed_text_def)

subsection \<open>Properties\<close>



end
