(* ===== verification/Simulation_Wrapper.thy ===== *)
theory Simulation_Wrapper
  imports Cli Sha256 Virtuoso_Daemon Json_Reading
begin

section \<open>The simulation wrapper\<close>

text \<open>
  \<open>scripts/cellview_spectre_job.py\<close>: the command the runner starts for a job. It reads the job from its
  environment, finds or makes a deck, runs the simulator on it, reads the measurements from the
  simulator's output files and writes the metrics file. The files are a list of paths and texts; a
  program that is run is a function from its command line and the files to its outcome and the
  files. The regular expressions are written out as scanners; the psf directory's path is taken
  literally by \<open>glob\<close>.
\<close>

subsection \<open>Files and paths\<close>

type_synonym files = "(string \<times> string) list"

definition path_exists :: "files \<Rightarrow> string \<Rightarrow> bool" where
  "path_exists fs p = (\<exists>(q, t) \<in> set fs. q = p \<or> startswith q (p @ ''/''))"

definition read_path :: "files \<Rightarrow> string \<Rightarrow> exn + string" where
  "read_path fs p =
     (case map_of fs p of None \<Rightarrow> Inl (OSError (''No such file or directory: '' @ repr_str p)) | Some t \<Rightarrow> Inr t)"

definition os_join :: "string \<Rightarrow> string \<Rightarrow> string" where
  "os_join a b =
     (if startswith b ''/'' then b else if a = [] \<or> last a = CHR ''/'' then a @ b else a @ CHR ''/'' # b)"

definition dir_name :: "string \<Rightarrow> string" where
  "dir_name p =
     (let head = rev (dropWhile (\<lambda>c. c \<noteq> CHR ''/'') (rev p))
      in if list_all (\<lambda>c. c = CHR ''/'') head then head else rev (dropWhile (\<lambda>c. c = CHR ''/'') (rev head)))"

text \<open>The names in a directory that a pattern of \<open>glob\<close> matches, as paths.\<close>

definition glob_dir :: "files \<Rightarrow> string \<Rightarrow> string \<Rightarrow> string list" where
  "glob_dir fs dir pat =
     map (os_join dir)
       (filter (\<lambda>n. \<not> startswith n ''.'' \<and> glob pat n)
         (remdups (map (\<lambda>(q, t). takeWhile (\<lambda>c. c \<noteq> CHR ''/'') (drop (length dir + 1) q))
           (filter (\<lambda>(q, t). startswith q (dir @ ''/'')) fs))))"

text \<open>Text mode: the lines of a file, whichever way they end.\<close>

fun file_lines_acc :: "string \<Rightarrow> string \<Rightarrow> string list" where
  "file_lines_acc acc [] = (if acc = [] then [] else [rev acc])"
| "file_lines_acc acc (c # s) =
     (if c = CHR 0x0A then rev acc # file_lines_acc [] s
      else if c = CHR 0x0D then
        rev acc # (case s of d # r \<Rightarrow> (if d = CHR 0x0A then file_lines_acc [] r else file_lines_acc [] (d # r)) | [] \<Rightarrow> [])
      else file_lines_acc (c # acc) s)"

definition file_lines :: "string \<Rightarrow> string list" where
  "file_lines s = file_lines_acc [] s"

text \<open>\<open>os.environ.get(k) or dflt\<close>\<close>

definition env_or :: "environ \<Rightarrow> string \<Rightarrow> string \<Rightarrow> string" where
  "env_or env k dflt = (case env k of Some v \<Rightarrow> (if v = [] then dflt else v) | None \<Rightarrow> dflt)"

subsection \<open>The job\<close>

record wrapper_job =
  jc_id :: json
  jc_test :: json
  jc_fingerprint :: json
  jc_lib :: json
  jc_cell :: json
  jc_view :: json
  jc_run_dir :: string
  jc_metrics_file :: string

definition env_job :: "environ \<Rightarrow> string \<Rightarrow> wrapper_job" where
  "env_job env wd =
     \<lparr>jc_id = JStr (env_or env ''VFP_JOB_ID'' []), jc_test = JStr (env_or env ''VFP_JOB_TEST'' []),
      jc_fingerprint = JStr (env_or env ''VFP_JOB_FINGERPRINT'' []), jc_lib = JStr (env_or env ''VFP_JOB_LIB'' []),
      jc_cell = JStr (env_or env ''VFP_JOB_CELL'' []), jc_view = JStr (env_or env ''VFP_JOB_VIEW'' []),
      jc_run_dir = env_or env ''VFP_RUN_DIR'' wd, jc_metrics_file = env_or env ''VFP_METRICS_FILE'' ''metrics.json''\<rparr>"

text \<open>\<open>x or d.get(k) or ""\<close>\<close>

definition filled :: "json \<Rightarrow> dict \<Rightarrow> string \<Rightarrow> json" where
  "filled x d k = py_or x (py_or (dget d k) (JStr []))"

definition fill_job :: "json \<Rightarrow> wrapper_job \<Rightarrow> exn + wrapper_job" where
  "fill_job data job =
     (case dict_of data of
        Inl e \<Rightarrow> Inl e
      | Inr d \<Rightarrow>
          map_sum id
            (\<lambda>cv. job\<lparr>jc_lib := filled (jc_lib job) cv ''lib'', jc_cell := filled (jc_cell job) cv ''cell'',
               jc_view := filled (jc_view job) cv ''view'', jc_test := filled (jc_test job) d ''test'',
               jc_fingerprint := filled (jc_fingerprint job) d ''inputs_fingerprint'',
               jc_id := filled (jc_id job) d ''job_id''\<rparr>)
            (dict_of (py_or (dget d ''cellview'') (JObj []))))"

definition has_cellview :: "wrapper_job \<Rightarrow> bool" where
  "has_cellview job = (truthy (jc_lib job) \<and> truthy (jc_cell job) \<and> truthy (jc_view job))"

definition read_job :: "environ \<Rightarrow> string \<Rightarrow> (string \<Rightarrow> json option) \<Rightarrow> files \<Rightarrow> exn + wrapper_job" where
  "read_job env wd parse fs =
     (let job = env_job env wd; jf = os_join (jc_run_dir job) ''job.json''
      in if has_cellview job \<or> \<not> path_exists fs jf then Inr job
         else case read_path fs jf of
                Inl e \<Rightarrow> Inr job
              | Inr text \<Rightarrow> (case parse text of None \<Rightarrow> Inr job | Some data \<Rightarrow> fill_job data job))"

subsection \<open>The deck\<close>

definition deck_key :: "wrapper_job \<Rightarrow> string" where
  "deck_key job = py_str (jc_lib job) @ ''__'' @ py_str (jc_cell job) @ ''__'' @ py_str (jc_view job)"

text \<open>The paths at which a deck handed over may lie, best first.\<close>

definition netlist_via_reuse :: "environ \<Rightarrow> files \<Rightarrow> wrapper_job \<Rightarrow> exn + string" where
  "netlist_via_reuse env fs job =
     (let p = env_or env ''VFP_REUSE_NETLIST'' [];
          base = env_or env ''VFP_NETLIST_DIR'' [];
          conv = os_join (os_join (os_join base (deck_key job)) ''netlist'') ''input.scs'';
          own = os_join (jc_run_dir job) ''input.scs''
      in if p \<noteq> [] \<and> path_exists fs p then Inr p
         else if base \<noteq> [] \<and> has_cellview job \<and> path_exists fs conv then Inr conv
         else if path_exists fs own then Inr own
         else Inl (RuntimeError ''reuse netlist not found (set VFP_REUSE_NETLIST or VFP_NETLIST_DIR)''))"

type_synonym runner = "string list \<Rightarrow> files \<Rightarrow> (exn + int \<times> string) \<times> files"

text \<open>A command line: a word that is no string is refused.\<close>

fun command_words :: "json list \<Rightarrow> exn + string list" where
  "command_words [] = Inr []"
| "command_words (JStr w # ws) = map_sum id ((#) w) (command_words ws)"
| "command_words (v # ws) =
     Inl (TypeError (''expected str, bytes or os.PathLike object, not '' @ type_name v))"

definition run_words :: "runner \<Rightarrow> json list \<Rightarrow> files \<Rightarrow> (exn + int \<times> string) \<times> files" where
  "run_words run ws fs = (case command_words ws of Inl e \<Rightarrow> (Inl e, fs) | Inr argv \<Rightarrow> run argv fs)"

text \<open>The last \<open>n\<close> characters\<close>

definition last_chars :: "nat \<Rightarrow> string \<Rightarrow> string" where
  "last_chars n s = drop (length s - n) s"

definition netlist_via_si :: "environ \<Rightarrow> runner \<Rightarrow> wrapper_job \<Rightarrow> (files, exn, string) op" where
  "netlist_via_si env run job fs =
     (if \<not> has_cellview job then (Inl (RuntimeError ''no cellview to netlist (lib/cell/view missing)''), fs)
      else let dir = jc_run_dir job; si = (case env ''VFP_SI_BIN'' of Some b \<Rightarrow> b | None \<Rightarrow> ''si'')
        in case run_words run
               ([JStr si, JStr dir, JStr ''-batch'', JStr ''-command'', JStr ''netlist'', JStr ''-cellview'',
                 jc_lib job, jc_cell job, jc_view job]) fs of
             (Inl e, fs') \<Rightarrow> (Inl e, fs')
           | (Inr (code, txt), fs') \<Rightarrow>
               (if code \<noteq> 0
                then (Inl (RuntimeError (''si netlist failed:'' @ [CHR 0x0A] @ last_chars 800 txt)), fs')
                else case find (path_exists fs')
                            [os_join dir ''input.scs'', os_join (os_join dir ''netlist'') ''input.scs''] of
                       Some p \<Rightarrow> (Inr p, fs')
                     | None \<Rightarrow> (Inl (RuntimeError (''si produced no input.scs under '' @ dir)), fs')))"

definition netlist_deck :: "environ \<Rightarrow> runner \<Rightarrow> wrapper_job \<Rightarrow> (files, exn, string \<times> string) op" where
  "netlist_deck env run job =
     (if env ''VFP_NETLIST_MODE'' = Some ''si'' then bind (netlist_via_si env run job) (\<lambda>p. ret (p, ''si''))
      else bind (\<lambda>fs. (netlist_via_reuse env fs job, fs)) (\<lambda>p. ret (p, ''reuse'')))"

subsection \<open>The simulator\<close>

definition SPECTRE :: "environ \<Rightarrow> string" where
  "SPECTRE env = (case env ''VFP_SPECTRE_BIN'' of Some b \<Rightarrow> b | None \<Rightarrow> ''/opt/cadence/SPECTRE231/tools/bin/spectre'')"

definition spectre_base :: "environ \<Rightarrow> (string \<Rightarrow> json option) \<Rightarrow> exn + json" where
  "spectre_base env parse =
     (let cmd = env_or env ''VFP_SPECTRE_CMD'' []; raw = strip cmd
      in if cmd = [] then Inr (JList [JStr (SPECTRE env)])
         else if startswith raw ''['' then
           (case parse raw of None \<Rightarrow> Inl (ValueError ''not a JSON text'') | Some v \<Rightarrow> Inr v)
         else case shlex_split raw of
                None \<Rightarrow> Inl (ValueError ''No closing quotation'')
              | Some ws \<Rightarrow> Inr (JList (map JStr ws)))"

text \<open>A decoded command need not be a list; \<open>+\<close> with a list then fails.\<close>

definition spectre_words :: "json \<Rightarrow> string \<Rightarrow> string \<Rightarrow> exn + json list" where
  "spectre_words base deck dir =
     (case base of
        JList ws \<Rightarrow>
          Inr (ws @ map JStr [deck, ''+log'', os_join dir ''spectre.out'', ''-format'', ''psfascii'', ''-raw'', os_join dir ''psf''])
      | JStr _ \<Rightarrow> Inl (TypeError (''can only concatenate str (not '' @ [CHR 0x22] @ ''list'' @ [CHR 0x22] @ '') to str''))
      | v \<Rightarrow> Inl (TypeError (''unsupported operand type(s) for +: '' @ CHR 0x27 # type_name v @ CHR 0x27 # '' and '' @
          CHR 0x27 # ''list'' @ [CHR 0x27])))"

record wrapper =
  x_files :: files
  x_out :: "string list"
  x_err :: "string list"

type_synonym 'a wrapper_op = "(wrapper, exn, 'a) op"

definition on_files :: "(files, exn, 'a) op \<Rightarrow> 'a wrapper_op" where
  "on_files m = zoom x_files (\<lambda>fs x. x\<lparr>x_files := fs\<rparr>) m"

definition warn :: "string \<Rightarrow> unit wrapper_op" where
  "warn m = change (\<lambda>x. x\<lparr>x_err := x_err x @ [m]\<rparr>)"

definition run_spectre ::
  "environ \<Rightarrow> (string \<Rightarrow> json option) \<Rightarrow> runner \<Rightarrow> string \<Rightarrow> string \<Rightarrow> string wrapper_op" where
  "run_spectre env parse run deck dir =
     bind (lift_res (spectre_base env parse))
       (\<lambda>base. bind (lift_res (spectre_words base deck dir))
         (\<lambda>ws. bind (on_files (run_words run ws))
           (\<lambda>(code, txt). if code \<noteq> 0
              then seq (warn (last_chars 800 txt)) (raise (RuntimeError (''spectre exited '' @ show_int code)))
              else ret (os_join dir ''psf''))))"

subsection \<open>Reading the simulator's output\<close>

definition is_alnum :: "char \<Rightarrow> bool" where
  "is_alnum c =
     (let n = of_char c :: nat in (48 \<le> n \<and> n \<le> 57) \<or> (65 \<le> n \<and> n \<le> 90) \<or> (97 \<le> n \<and> n \<le> 122))"

text \<open>Every run of other characters becomes one underscore.\<close>

fun squash :: "bool \<Rightarrow> string \<Rightarrow> string" where
  "squash b [] = []"
| "squash b (c # s) =
     (if is_alnum c then c # squash False s else if b then squash True s else CHR ''_'' # squash True s)"

definition san :: "string \<Rightarrow> string" where
  "san name =
     (let u = (\<lambda>c. c = CHR ''_'') in rev (dropWhile u (rev (dropWhile u (squash False name)))))"

text \<open>The text between two quotes, which is not empty, and the rest\<close>

definition scan_quoted :: "string \<Rightarrow> (string \<times> string) option" where
  "scan_quoted s =
     (case s of
        [] \<Rightarrow> None
      | c # r \<Rightarrow>
          (let n = takeWhile (\<lambda>c. c \<noteq> CHR 0x22) r; t = dropWhile (\<lambda>c. c \<noteq> CHR 0x22) r
           in if c \<noteq> CHR 0x22 \<or> n = [] \<or> t = [] then None else Some (n, tl t)))"

text \<open>At least one white space character\<close>

definition scan_spaces :: "string \<Rightarrow> string option" where
  "scan_spaces s = (case s of [] \<Rightarrow> None | c # r \<Rightarrow> (if is_space c then Some (lstrip s) else None))"

text \<open>A quoted name, white space, and what \<open>m\<close> makes of the rest\<close>

definition named :: "(string \<Rightarrow> 'a option) \<Rightarrow> string \<Rightarrow> (string \<times> 'a) option" where
  "named m s =
     (case scan_quoted s of
        None \<Rightarrow> None
      | Some (n, r) \<Rightarrow> (case scan_spaces r of None \<Rightarrow> None | Some t \<Rightarrow> map_option (Pair n) (m t)))"

definition token :: "string \<Rightarrow> string option" where
  "token s = (let w = takeWhile (\<lambda>c. \<not> is_space c) s in if w = [] then None else Some w)"

definition trace_match :: "string \<Rightarrow> (string \<times> string) option" where
  "trace_match = named (\<lambda>t. map_option fst (scan_quoted t))"

definition value_match :: "string \<Rightarrow> (string \<times> string) option" where
  "value_match = named (\<lambda>t. if list_all is_space (dropWhile (\<lambda>c. \<not> is_space c) t) then token t else None)"

definition dc_match :: "string \<Rightarrow> (string \<times> string) option" where
  "dc_match s =
     named (\<lambda>t. if startswith t [CHR 0x22, CHR ''V'', CHR 0x22]
                then (case scan_spaces (drop 3 t) of None \<Rightarrow> None | Some u \<Rightarrow> token u) else None) (lstrip s)"

text \<open>\<open>float(text)\<close>, or NaN when it is no number\<close>

definition number_or_nan :: "string \<Rightarrow> json" where
  "number_or_nan t = JFloat (case parse_float t of None \<Rightarrow> NaN | Some x \<Rightarrow> x)"

type_synonym psf_state = "string option \<times> (string \<times> string) list \<times> dict"

definition psf_line :: "string \<Rightarrow> psf_state \<Rightarrow> psf_state" where
  "psf_line raw st =
     (case st of
        (part, units, vals) \<Rightarrow>
          (let row = strip raw
           in if row \<in> {''HEADER'', ''TYPE'', ''SWEEP'', ''TRACE'', ''VALUE'', ''END''} then (Some row, units, vals)
              else if part = Some ''TRACE'' then
                (case trace_match row of
                   None \<Rightarrow> st
                 | Some (n, u) \<Rightarrow> (part, AList.update n u units, vals))
              else if part = Some ''VALUE'' then
                (case value_match row of
                   None \<Rightarrow> st
                 | Some (n, t) \<Rightarrow>
                     (if map_of units n = None then st else (part, units, dset n (number_or_nan t) vals)))
              else st))"

definition unit_prefix :: "string option \<Rightarrow> string" where
  "unit_prefix u = (if u = Some ''V'' then ''V_'' else if u = Some ''I'' then ''I_'' else [])"

definition parse_psf_final :: "string \<Rightarrow> dict" where
  "parse_psf_final text =
     (case fold psf_line (file_lines text) (None, [], []) of
        (_, units, vals) \<Rightarrow>
          fold (\<lambda>(n, v) out. dset (unit_prefix (map_of units n) @ san n) v out) vals [])"

definition dc_line :: "string \<Rightarrow> dict \<Rightarrow> dict" where
  "dc_line row out =
     (case dc_match row of None \<Rightarrow> out | Some (n, t) \<Rightarrow> dset (''V_'' @ san n) (number_or_nan t) out)"

fun read_sweeps :: "files \<Rightarrow> string list \<Rightarrow> dict \<Rightarrow> exn + dict" where
  "read_sweeps fs [] raw = Inr raw"
| "read_sweeps fs (f # rest) raw =
     (if endswith f ''dcOp.dc'' then read_sweeps fs rest raw
      else case read_path fs f of
             Inl e \<Rightarrow> Inl e
           | Inr text \<Rightarrow> read_sweeps fs rest (dict_update raw (parse_psf_final text)))"

definition measure_psf :: "files \<Rightarrow> string \<Rightarrow> exn + dict" where
  "measure_psf fs dir =
     (let dc = os_join dir ''dcOp.dc'';
          sweeps = isort_lt str_less (glob_dir fs dir ''*.tran*'' @ glob_dir fs dir ''*.ac'' @ glob_dir fs dir ''*.dc'')
      in if path_exists fs dc
         then (case read_path fs dc of
                 Inl e \<Rightarrow> Inl e
               | Inr text \<Rightarrow> read_sweeps fs sweeps (fold dc_line (file_lines text) []))
         else read_sweeps fs sweeps [])"

subsection \<open>Metrics and their quality\<close>

definition SENTINEL_DB :: rat where "SENTINEL_DB = 999"

definition is_margin :: "string \<Rightarrow> bool" where
  "is_margin name = (let u = map to_upper name in startswith u ''GM'' \<or> startswith u ''PM'')"

definition is_gain :: "string \<Rightarrow> bool" where
  "is_gain name = (contains ''dB'' name \<or> (let u = map to_upper name in startswith u ''A0'' \<or> startswith u ''GAIN''))"

definition classify :: "string \<Rightarrow> json \<Rightarrow> string option" where
  "classify name v =
     (case v of
        JNull \<Rightarrow> Some ''missing''
      | JFloat (Fin q) \<Rightarrow> (if is_gain name \<and> SENTINEL_DB \<le> \<bar>q\<bar> then Some ''saturated'' else None)
      | JFloat _ \<Rightarrow> Some (if is_margin name then ''unconditional'' else ''undefined'')
      | JInt i \<Rightarrow> (if is_gain name \<and> SENTINEL_DB \<le> of_int \<bar>i\<bar> then Some ''saturated'' else None)
      | _ \<Rightarrow> None)"

text \<open>A number that may cross, as a float: not a bool, and finite. An int too large for a float raises.\<close>

fun crossing :: "json \<Rightarrow> exn + pyfloat option" where
  "crossing (JInt i) = map_sum id Some (py_float (JInt i))"
| "crossing (JFloat x) = Inr (if isfinite x then Some x else None)"
| "crossing _ = Inr None"

fun split_loop :: "dict \<Rightarrow> dict \<Rightarrow> dict \<Rightarrow> exn + dict \<times> dict" where
  "split_loop [] metrics quality = Inr (metrics, quality)"
| "split_loop ((n, v) # raw) metrics quality =
     (case crossing v of
        Inl e \<Rightarrow> Inl e
      | Inr x \<Rightarrow>
          split_loop raw (case x of None \<Rightarrow> metrics | Some f \<Rightarrow> dset n (JFloat f) metrics)
            (case classify n v of None \<Rightarrow> quality | Some t \<Rightarrow> dset n (JStr t) quality))"

definition split_metrics :: "dict \<Rightarrow> exn + dict \<times> dict" where
  "split_metrics raw = split_loop raw [] []"

subsection \<open>Provenance\<close>

definition saved_at :: "environ \<Rightarrow> files \<Rightarrow> string \<Rightarrow> json" where
  "saved_at env fs deck =
     (let set_by_env = env_or env ''VFP_JOB_SAVED_AT'' []
      in if set_by_env \<noteq> [] then JStr set_by_env
         else case read_path fs (os_join (dir_name deck) ''saved_at.txt'') of
                Inl e \<Rightarrow> JNull
              | Inr text \<Rightarrow> py_or (JStr (strip text)) JNull)"

definition provenance :: "environ \<Rightarrow> files \<Rightarrow> wrapper_job \<Rightarrow> string \<Rightarrow> string \<Rightarrow> json" where
  "provenance env fs job deck mode =
     JObj [(''netlist_hash'', JStr (case read_path fs deck of Inl e \<Rightarrow> [] | Inr text \<Rightarrow> sha256_hex text)),
       (''source_mode'', JStr mode),
       (''cellview'', JObj [(''lib'', jc_lib job), (''cell'', jc_cell job), (''view'', jc_view job)]),
       (''saved_at'', saved_at env fs deck), (''fingerprint'', jc_fingerprint job)]"

subsection \<open>The program\<close>

text \<open>\<open>allow_nan=False\<close>: a value with a non-finite float anywhere is refused.\<close>

fun all_finite :: "json \<Rightarrow> bool" where
  "all_finite (JFloat x) = isfinite x"
| "all_finite (JList xs) = list_all all_finite xs"
| "all_finite (JObj d) = list_all (\<lambda>(k, v). all_finite v) d"
| "all_finite _ = True"

text \<open>
  The file is opened, and so emptied, before the value is written; a refused value leaves it empty here (how
  much of it is written before the refusal is the library's).
\<close>

definition dump_to :: "(string \<Rightarrow> bool) \<Rightarrow> string \<Rightarrow> json \<Rightarrow> unit wrapper_op" where
  "dump_to writes path v =
     (if \<not> writes path then raise (OSError (''cannot open '' @ path))
      else seq (change (\<lambda>x. x\<lparr>x_files := AList.update path (if all_finite v then dumps_indent 0 v else []) (x_files x)\<rparr>))
        (if all_finite v then ret () else raise (ValueError ''Out of range float values are not JSON compliant'')))"

record wrapper_world =
  w_env :: environ
  w_cwd :: string
  w_parse :: "string \<Rightarrow> json option"
  w_run :: runner
  w_writes :: "string \<Rightarrow> bool"

fun runtime_error :: "exn \<Rightarrow> bool" where
  "runtime_error (RuntimeError _) = True"
| "runtime_error _ = False"

definition measured :: "wrapper_world \<Rightarrow> wrapper_job \<Rightarrow> (string \<times> string \<times> dict) wrapper_op" where
  "measured w job =
     bind (on_files (netlist_deck (w_env w) (w_run w) job))
       (\<lambda>(deck, mode). seq (run_spectre (w_env w) (w_parse w) (w_run w) deck (jc_run_dir job))
         (bind (\<lambda>x. (measure_psf (x_files x) (os_join (jc_run_dir job) ''psf''), x)) (\<lambda>raw. ret (deck, mode, raw))))"

definition result_doc :: "environ \<Rightarrow> files \<Rightarrow> wrapper_job \<Rightarrow> string \<Rightarrow> string \<Rightarrow> dict \<Rightarrow> dict \<Rightarrow> json" where
  "result_doc env fs job deck mode metrics quality =
     JObj [(''metrics'', JObj metrics), (''provenance'', provenance env fs job deck mode), (''metric_quality'', JObj quality)]"

definition write_result :: "wrapper_world \<Rightarrow> wrapper_job \<Rightarrow> string \<Rightarrow> string \<Rightarrow> dict \<Rightarrow> int wrapper_op" where
  "write_result w job deck mode raw =
     bind (lift_res (split_metrics raw))
       (\<lambda>(metrics, quality).
          bind (ask x_files)
            (\<lambda>fs. seq (dump_to (w_writes w) (os_join (jc_run_dir job) (jc_metrics_file job))
                     (result_doc (w_env w) fs job deck mode metrics quality))
              (seq (change (\<lambda>x. x\<lparr>x_out := x_out x @
                      [''cellview_spectre_job: '' @ py_str (jc_lib job) @ ''/'' @ py_str (jc_cell job) @ ''/'' @
                       py_str (jc_view job) @ '' -> '' @ show_int (int (length metrics)) @ '' metric(s), mode='' @ mode]\<rparr>))
                (ret 0))))"

definition wrapper_main :: "wrapper_world \<Rightarrow> int wrapper_op" where
  "wrapper_main w =
     bind (\<lambda>x. (read_job (w_env w) (w_cwd w) (w_parse w) (x_files x), x))
       (\<lambda>job x.
          case measured w job x of
            (Inl e, x') \<Rightarrow>
              (if runtime_error e then seq (warn (''cellview_spectre_job: '' @ exn_str e)) (ret 1) x' else (Inl e, x'))
          | (Inr (deck, mode, raw), x') \<Rightarrow>
              (if raw = [] then seq (warn ''cellview_spectre_job: no measurements parsed'') (ret 1) x'
               else write_result w job deck mode raw x'))"

subsection \<open>What crosses\<close>

lemma crossing_finite: "crossing v = Inr (Some f) \<Longrightarrow> isfinite f"
  by (cases v rule: crossing.cases)
    (auto simp: map_sum_def split: sum.splits if_splits pyfloat.splits dest: sym [of "Fin _"])

lemma split_loop_lookup:
  assumes "split_loop raw ms qs = Inr (m, q)" and "distinct (map fst raw)"
  shows "map_of m n =
      (case map_of raw n of
         Some v \<Rightarrow> (case crossing v of Inr (Some f) \<Rightarrow> Some (JFloat f) | _ \<Rightarrow> map_of ms n)
       | None \<Rightarrow> map_of ms n) \<and>
    map_of q n =
      (case map_of raw n of
         Some v \<Rightarrow> (case classify n v of Some t \<Rightarrow> Some (JStr t) | None \<Rightarrow> map_of qs n)
       | None \<Rightarrow> map_of qs n)"
  using assms
proof (induction raw ms qs rule: split_loop.induct)
  case (2 k v raw ms qs)
  then have "map_of raw k = None" by (simp add: map_of_eq_None_iff)
  with 2 show ?case by (auto split: sum.splits option.splits)
qed simp

lemma split_loop_keeps:
  assumes "split_loop raw ms qs = Inr (m, q)" and "distinct (map fst ms)"
    and "\<forall>(n, v) \<in> set ms. \<exists>c. v = JFloat (Fin c)" and "\<forall>(n, v) \<in> set qs. is_str v"
  shows "distinct (map fst m) \<and> (\<forall>(n, v) \<in> set m. \<exists>c. v = JFloat (Fin c)) \<and> (\<forall>(n, v) \<in> set q. is_str v)"
  using assms
proof (induction raw ms qs rule: split_loop.induct)
  case (2 k v raw ms qs)
  obtain x where x: "crossing v = Inr x" using 2(2) by (auto split: sum.splits)
  have put: "\<forall>(n, v) \<in> set (AList.update k w d). P v" if "\<forall>(n, v) \<in> set d. P v" "P w" for P and w :: json and d
    using that by (induction d) (auto split: if_splits)
  show ?case
  proof (rule 2(1) [OF x])
    show "distinct (map fst (case x of None \<Rightarrow> ms | Some f \<Rightarrow> dset k (JFloat f) ms))"
      using 2(3) by (cases x) simp_all
    show "\<forall>(n, v) \<in> set (case x of None \<Rightarrow> ms | Some f \<Rightarrow> dset k (JFloat f) ms). \<exists>c. v = JFloat (Fin c)"
    proof (cases x)
      case (Some f)
      with crossing_finite [of v f] x have "\<exists>c. JFloat f = JFloat (Fin c)" by (simp add: isfinite_conv)
      from put [OF 2(4) this] Some show ?thesis by simp
    qed (use 2(4) in simp)
    show "\<forall>(n, v) \<in> set (case classify k v of None \<Rightarrow> qs | Some t \<Rightarrow> dset k (JStr t) qs). is_str v"
    proof (cases "classify k v")
      case (Some t)
      from put [of qs is_str, OF 2(5), of "JStr t"] Some show ?thesis by simp
    qed (use 2(5) in simp)
  qed (use 2(2) x in simp)
qed simp

text \<open>Every number measured is a double, so the documents made of them are read back from their texts.\<close>

lemma number_ok [simp]: "json_ok (number_or_nan t)"
  by (auto simp: number_or_nan_def is_double_parse split: option.split)

lemma values_fold:
  "(\<And>x d. x \<in> set xs \<Longrightarrow> list_all (\<lambda>(k, v). json_ok v) (f d) \<Longrightarrow> list_all (\<lambda>(k, v). json_ok v) (f (g x d))) \<Longrightarrow>
   list_all (\<lambda>(k, v). json_ok v) (f d) \<Longrightarrow> list_all (\<lambda>(k, v). json_ok v) (f (fold g xs d))"
  by (induction xs arbitrary: d) simp_all

lemma psf_values: "list_all (\<lambda>(k, v). json_ok v) (parse_psf_final text)"
proof -
  have "list_all (\<lambda>(k, v). json_ok v) (snd (snd (psf_line raw st)))" if "list_all (\<lambda>(k, v). json_ok v) (snd (snd st))" for raw st
    using that by (auto simp: psf_line_def Let_def dset_values split: prod.split option.split)
  then have vals: "list_all (\<lambda>(k, v). json_ok v) (snd (snd (fold psf_line rows (None, [], []))))" for rows
    by (intro values_fold [where f = "\<lambda>st. snd (snd st)"]) simp_all
  obtain part units vs where st: "fold psf_line (file_lines text) (None, [], []) = (part, units, vs)" by (metis prod.collapse)
  have vs: "list_all (\<lambda>(k, v). json_ok v) vs" using vals [of "file_lines text"] by (simp add: st)
  have "list_all (\<lambda>(k, v). json_ok v) (fold (\<lambda>(n, v) out. dset (g n) v out) vs d)"
    if "list_all (\<lambda>(k, v). json_ok v) d" for g d
    using vs that by (induction vs arbitrary: d) (auto simp: dset_values)
  then show ?thesis by (simp add: parse_psf_final_def st)
qed

lemma dc_values: "list_all (\<lambda>(k, v). json_ok v) (fold dc_line rows [])"
  by (rule values_fold [where f = "\<lambda>d. d"]) (auto simp: dc_line_def dset_values split: option.split)

lemma update_values:
  "list_all (\<lambda>(k, v). P v) d \<Longrightarrow> list_all (\<lambda>(k, v). P v) e \<Longrightarrow> list_all (\<lambda>(k, v). P v) (dict_update d e)"
  by (induction e arbitrary: d) (auto simp: dset_values)

lemma sweeps_values:
  "read_sweeps fs names raw = Inr r \<Longrightarrow> list_all (\<lambda>(k, v). json_ok v) raw \<Longrightarrow> list_all (\<lambda>(k, v). json_ok v) r"
  by (induction fs names raw rule: read_sweeps.induct) (auto simp: psf_values update_values split: if_splits sum.splits)

lemma measured_values: "measure_psf fs dir = Inr raw \<Longrightarrow> list_all (\<lambda>(k, v). json_ok v) raw"
  by (auto simp: measure_psf_def Let_def dc_values split: if_splits sum.splits dest!: sweeps_values)

lemma crossing_double: "crossing v = Inr (Some f) \<Longrightarrow> json_ok v \<Longrightarrow> is_double f"
  by (cases v rule: crossing.cases) (auto simp: map_sum_def is_double_to_double split: sum.splits if_splits pyfloat.splits)

lemma split_loop_ok:
  assumes "split_loop raw ms qs = Inr (m, q)" and "list_all (\<lambda>(k, v). json_ok v) raw" and "json_ok (JObj ms)" and "json_ok (JObj qs)"
  shows "json_ok (JObj m) \<and> json_ok (JObj q)"
  using assms
proof (induction raw ms qs rule: split_loop.induct)
  case (2 k v raw ms qs)
  obtain x where x: "crossing v = Inr x" using 2(2) by (auto split: sum.splits)
  show ?case
  proof (rule 2(1) [OF x])
    show "json_ok (JObj (case x of None \<Rightarrow> ms | Some f \<Rightarrow> dset k (JFloat f) ms))"
      using 2(3,4) x crossing_double [of v] by (auto simp: dset_values split: option.split)
    show "json_ok (JObj (case classify k v of None \<Rightarrow> qs | Some t \<Rightarrow> dset k (JStr t) qs))"
      using 2(5) by (auto simp: dset_values split: option.split)
  qed (use 2(2,3) x in simp_all)
qed simp

definition job_ok :: "wrapper_job \<Rightarrow> bool" where
  "job_ok job = list_all json_ok [jc_lib job, jc_cell job, jc_view job, jc_fingerprint job]"

lemma provenance_ok: "job_ok job \<Longrightarrow> json_ok (provenance env fs job deck mode)"
  by (auto simp: job_ok_def provenance_def saved_at_def Let_def py_or_def split: sum.split)

lemma metrics_of_id:
  assumes "distinct (map fst (out @ m))" and "\<forall>(n, v) \<in> set m. finite_json v"
  shows "metrics_of m out = out @ m"
  using assms
proof (induction m arbitrary: out)
  case (Cons p m)
  obtain n v where p: "p = (n, v)" by (cases p)
  with Cons.prems have "coerce_number v = Some v" "map_of out n = None"
    by (auto simp: coerce_fixed map_of_eq_None_iff)
  then show ?case using Cons.IH [of "out @ [(n, v)]"] Cons.prems p by (simp add: update_absent)
qed simp

text \<open>
  Nothing measured is lost, and no number is misread. Of measurements with distinct names, exactly the finite numbers
  cross as metrics, with their values; a quality tag stands exactly where the classification gives
  one, and every float that was measured is in one of the two, a saturated gain in both.
\<close>

theorem split_metrics_spec:
  assumes "split_metrics raw = Inr (m, q)" and "distinct (map fst raw)"
  shows "map_of m n = (case map_of raw n of Some v \<Rightarrow> (case crossing v of Inr (Some f) \<Rightarrow> Some (JFloat f) | _ \<Rightarrow> None) | None \<Rightarrow> None) \<and>
    map_of q n = (case map_of raw n of Some v \<Rightarrow> map_option JStr (classify n v) | None \<Rightarrow> None) \<and>
    all_finite (JObj m) \<and>
    (map_of raw n = Some (JFloat x) \<longrightarrow> map_of m n \<noteq> None \<or> map_of q n \<noteq> None) \<and>
    (map_of raw n = Some (JFloat (Fin c)) \<and> is_gain n \<and> 999 \<le> c \<longrightarrow>
       map_of m n = Some (JFloat (Fin c)) \<and> map_of q n = Some (JStr ''saturated''))"
proof -
  note look = split_loop_lookup [OF assms(1) [unfolded split_metrics_def] assms(2), of n]
  have "\<forall>(n, v) \<in> set m. \<exists>c. v = JFloat (Fin c)"
    using split_loop_keeps [OF assms(1) [unfolded split_metrics_def]] by simp
  then have "all_finite (JObj m)" by (auto simp: list_all_iff)
  with look show ?thesis
    by (cases x) (auto simp: classify_def SENTINEL_DB_def split: option.splits sum.splits)
qed

subsection \<open>From the wrapper to the runner\<close>

lemma extract_written:
  assumes "distinct (map fst m)" and "\<forall>(n, v) \<in> set m. \<exists>c. v = JFloat (Fin c)"
  shows "extract_metrics (JObj ((''metrics'', JObj m) # rest)) = m"
proof -
  have "\<forall>(n, v) \<in> set m. finite_json v" using assms(2) by (auto simp: finite_json_def)
  with metrics_of_id [of "[]" m] assms(1) show ?thesis by (simp add: extract_metrics_def)
qed

text \<open>What the parser of the tunnel makes of the file the wrapper has written.\<close>

lemma parse_written:
  assumes "doc = result_doc env fs job deck mode m q" and "json_ok doc"
    and "distinct (map fst m)" and "\<forall>(n, v) \<in> set m. \<exists>c. v = JFloat (Fin c)"
  shows "\<exists>d. parse_result_file json_value (dumps_indent 0 doc) = Inr d \<and> dget d ''metrics'' = JObj m \<and>
    dget d ''provenance'' = provenance env fs job deck mode \<and>
    dget d ''metric_quality'' = (if q = [] then JNull else JObj q)"
proof -
  have "\<exists>r. dumps_indent 0 doc = CHR ''{'' # r" by (simp add: assms(1) result_doc_def)
  then have open_brace: "startswith (lstrip (dumps_indent 0 doc)) ''{''"
    by (auto simp: lstrip_def is_space_def)
  show ?thesis
    using json_value_indent [OF assms(2), of 0] extract_written [OF assms(3,4)]
    by (simp add: parse_result_file_def Let_def open_brace) (simp add: assms(1) result_doc_def provenance_def)
qed

lemma write_result_writes:
  assumes "write_result w job deck mode raw x = (r, x')" and "r = Inr n"
  shows "\<exists>m q. split_metrics raw = Inr (m, q) \<and> n = 0 \<and>
    map_of (x_files x') (os_join (jc_run_dir job) (jc_metrics_file job)) =
      Some (dumps_indent 0 (result_doc (w_env w) (x_files x) job deck mode m q)) \<and>
    all_finite (result_doc (w_env w) (x_files x) job deck mode m q)"
  using assms
  by (auto simp: write_result_def dump_to_def op_defs split: sum.splits prod.splits if_splits)

text \<open>
  What the wrapper writes is what the runner reads. When the wrapper succeeds it has measured something and
  written one document in the metrics file: its finite metrics, where they come from and the quality
  tags. The tunnel's reader of metrics files parses this text and returns these same metrics, this provenance and
  these tags, whenever the job's names are JSON values.
\<close>

lemma wrapper_writes:
  assumes "wrapper_main w x = (Inr 0, x')"
  shows "\<exists>job fs deck mode raw m q.
    read_job (w_env w) (w_cwd w) (w_parse w) (x_files x) = Inr job \<and> raw \<noteq> [] \<and> split_metrics raw = Inr (m, q) \<and>
    (let doc = result_doc (w_env w) fs job deck mode m q
     in map_of (x_files x') (os_join (jc_run_dir job) (jc_metrics_file job)) = Some (dumps_indent 0 doc) \<and> all_finite doc \<and>
       (job_ok job \<longrightarrow>
          (\<exists>d. parse_result_file json_value (dumps_indent 0 doc) = Inr d \<and> dget d ''metrics'' = JObj m \<and>
             dget d ''provenance'' = provenance (w_env w) fs job deck mode \<and>
             dget d ''metric_quality'' = (if q = [] then JNull else JObj q))))"
proof -
  from assms obtain job where job: "read_job (w_env w) (w_cwd w) (w_parse w) (x_files x) = Inr job"
    by (auto simp: wrapper_main_def bind_def split: sum.splits)
  obtain r x1 where m: "measured w job x = (r, x1)" by fastforce
  from assms job m obtain deck mode raw where r: "r = Inr (deck, mode, raw)" "raw \<noteq> []"
    and wr: "write_result w job deck mode raw x1 = (Inr 0, x')"
    by (auto simp: wrapper_main_def bind_def seq_def warn_def change_def ret_def split: sum.splits if_splits)
  from write_result_writes [OF wr refl] obtain ms q where s: "split_metrics raw = Inr (ms, q)"
    "map_of (x_files x') (os_join (jc_run_dir job) (jc_metrics_file job)) =
      Some (dumps_indent 0 (result_doc (w_env w) (x_files x1) job deck mode ms q))"
    "all_finite (result_doc (w_env w) (x_files x1) job deck mode ms q)" by blast
  from split_loop_keeps [OF s(1) [unfolded split_metrics_def]]
  have ms: "distinct (map fst ms)" "\<forall>(n, v) \<in> set ms. \<exists>c. v = JFloat (Fin c)" by simp_all
  have "list_all (\<lambda>(k, v). json_ok v) raw"
    using m r(1) measured_values by (fastforce simp: measured_def bind_def seq_def ret_def split: sum.splits prod.splits)
  from split_loop_ok [OF s(1) [unfolded split_metrics_def] this]
  have ok: "job_ok job \<longrightarrow> json_ok (result_doc (w_env w) (x_files x1) job deck mode ms q)"
    using provenance_ok by (simp add: result_doc_def)
  show ?thesis
    using job r(2) s ok parse_written [OF refl _ ms]
    by (intro exI [of _ job] exI [of _ "x_files x1"] exI [of _ deck] exI [of _ mode] exI [of _ raw] exI [of _ ms] exI [of _ q])
      (simp add: Let_def)
qed

text \<open>
  Two nodes whose names differ only in punctuation are one metric: of a differential pair only the node
  that comes last in the file is measured.
\<close>

definition dc_row :: "string \<Rightarrow> string \<Rightarrow> string" where
  "dc_row n t = CHR 0x22 # n @ [CHR 0x22] @ '' '' @ [CHR 0x22, CHR ''V'', CHR 0x22] @ '' '' @ t"

theorem node_names_collapse:
  "fold dc_line [dc_row ''out+'' ''0.9'', dc_row ''out-'' ''0.1''] [] = [(''V_out'', number_or_nan ''0.1'')]"
proof -
  have "dc_match (dc_row ''out+'' ''0.9'') = Some (''out+'', ''0.9'')" "dc_match (dc_row ''out-'' ''0.1'') = Some (''out-'', ''0.1'')"
    "san ''out+'' = ''out''" "san ''out-'' = ''out''" by code_simp+
  then show ?thesis by (simp add: dc_line_def)
qed

subsection \<open>Concrete instance\<close>

theorem split_metrics_spec_witness:
  "\<exists>m q. split_metrics [(''A0_dB'', JFloat (Fin 999)), (''PM'', JFloat NaN)] = Inr (m, q) \<and>
     map_of m ''A0_dB'' = Some (JFloat (Fin 999)) \<and> map_of q ''A0_dB'' = Some (JStr ''saturated'')"
proof -
  obtain m q where r: "split_metrics [(''A0_dB'', JFloat (Fin 999)), (''PM'', JFloat NaN)] = Inr (m, q)"
    by (simp add: split_metrics_def)
  have "is_gain ''A0_dB''" by code_simp
  with split_metrics_spec [OF r, of "''A0_dB''" NaN 999] r show ?thesis
    by (simp add: classify_def SENTINEL_DB_def)
qed

definition demo_wrapper_world :: wrapper_world where
  "demo_wrapper_world =
     \<lparr>w_env = (\<lambda>_. None), w_cwd = ''/r'', w_parse = (\<lambda>_. None),
      w_run = (\<lambda>argv fs. (Inr (0, []), (''/r/psf/dcOp.dc'', CHR 0x22 # ''mid'' @ [CHR 0x22] @ '' '' @ [CHR 0x22, CHR ''V'', CHR 0x22] @ '' 0'') # fs)),
      w_writes = (\<lambda>_. True)\<rparr>"

definition demo_wrapper :: wrapper where
  "demo_wrapper = \<lparr>x_files = [(''/r/input.scs'', ''simulator lang=spectre'')], x_out = [], x_err = []\<rparr>"

lemma demo_measures:
  "measure_psf [(''/r/psf/dcOp.dc'', CHR 0x22 # ''mid'' @ [CHR 0x22] @ '' '' @ [CHR 0x22, CHR ''V'', CHR 0x22] @ '' 0''),
      (''/r/input.scs'', ''simulator lang=spectre'')] ''/r/psf'' = Inr [(''V_mid'', JFloat (Fin 0))]"
  by code_simp

text \<open>The demonstration succeeds in any environment that has no settings of the deck or the simulator.\<close>

lemma demo_runs:
  assumes job: "read_job env ''/r'' (\<lambda>_. None) (x_files demo_wrapper) = Inr job" and dir: "jc_run_dir job = ''/r''"
    and env: "\<forall>k \<in> {''VFP_NETLIST_MODE'', ''VFP_SPECTRE_CMD'', ''VFP_REUSE_NETLIST'', ''VFP_NETLIST_DIR''}. env k = None"
    and strs: "list_all is_str [jc_lib job, jc_cell job, jc_view job, jc_fingerprint job]"
  shows "\<exists>x'. wrapper_main (demo_wrapper_world\<lparr>w_env := env\<rparr>) demo_wrapper = (Inr 0, x')"
proof -
  let ?w = "demo_wrapper_world\<lparr>w_env := env\<rparr>"
  have w: "w_env ?w = env" "w_cwd ?w = ''/r''" "w_parse ?w = (\<lambda>_. None)" "w_writes ?w = (\<lambda>_. True)"
    by (simp_all add: demo_wrapper_world_def)
  have base: "spectre_base env (\<lambda>_. None) = Inr (JList [JStr (SPECTRE env)])"
    using env by (simp add: spectre_base_def env_or_def Let_def)
  have deck: "netlist_via_reuse env (x_files demo_wrapper) job = Inr ''/r/input.scs''"
    using env by (simp add: netlist_via_reuse_def env_or_def path_exists_def demo_wrapper_def os_join_def dir Let_def)
  have "\<exists>x1. measured ?w job demo_wrapper = (Inr (''/r/input.scs'', ''reuse'', [(''V_mid'', JFloat (Fin 0))]), x1)"
    using deck demo_measures env
    by (simp add: measured_def w dir netlist_deck_def run_spectre_def base spectre_words_def on_files_def op_defs
        run_words_def demo_wrapper_world_def demo_wrapper_def os_join_def split: prod.split)
  then obtain x1 where m: "measured ?w job demo_wrapper = (Inr (''/r/input.scs'', ''reuse'', [(''V_mid'', JFloat (Fin 0))]), x1)" ..
  have "classify ''V_mid'' (JFloat (Fin 0)) = None" by code_simp
  then have s: "split_metrics [(''V_mid'', JFloat (Fin 0))] = Inr ([(''V_mid'', JFloat (Fin 0))], [])"
    by (simp add: split_metrics_def)
  have "all_finite (result_doc env (x_files x1) job ''/r/input.scs'' ''reuse'' [(''V_mid'', JFloat (Fin 0))] [])"
    using strs by (auto simp: result_doc_def provenance_def saved_at_def py_or_def is_str_conv Let_def split: sum.split)
  then have "\<exists>x'. write_result ?w job ''/r/input.scs'' ''reuse'' [(''V_mid'', JFloat (Fin 0))] x1 = (Inr 0, x')"
    by (simp add: write_result_def dump_to_def op_defs s w)
  with m job show ?thesis by (simp add: wrapper_main_def bind_def w)
qed

end
