(* ===== verification/Job_Runs.thy ===== *)
theory Job_Runs
  imports Tunnel_Decisions
begin

section \<open>A simulation job from start to end\<close>

text \<open>
  What \<open>JobRunner.run\<close> does to a queued job, by total-correctness rules: \<open>completes P m Q\<close> says that
  from a state with \<open>P\<close> the operation \<open>m\<close> returns without an exception and \<open>Q\<close> holds of its value and
  the new state. The assertion \<open>attempt i rid js rst\<close> follows a job and its run through the stages.
\<close>

subsection \<open>Total correctness of operations\<close>

definition completes :: "('s \<Rightarrow> bool) \<Rightarrow> ('s, 'e, 'a) op \<Rightarrow> ('a \<Rightarrow> 's \<Rightarrow> bool) \<Rightarrow> bool" where
  "completes P m Q \<longleftrightarrow> (\<forall>s. P s \<longrightarrow> (\<exists>x s'. m s = (Inr x, s') \<and> Q x s'))"

lemma completesI: "(\<And>s. P s \<Longrightarrow> \<exists>x s'. m s = (Inr x, s') \<and> Q x s') \<Longrightarrow> completes P m Q"
  by (simp add: completes_def)

lemma completesD: "completes P m Q \<Longrightarrow> P s \<Longrightarrow> \<exists>x s'. m s = (Inr x, s') \<and> Q x s'"
  by (simp add: completes_def)

lemma completes_weaken: "completes P m Q \<Longrightarrow> (\<And>x s. Q x s \<Longrightarrow> R x s) \<Longrightarrow> completes P m R"
  by (fastforce simp: completes_def)

lemma completes_ret: "(\<And>s. P s \<Longrightarrow> Q x s) \<Longrightarrow> completes P (ret x) Q"
  by (simp add: completes_def ret_def)

lemma completes_bind: "completes P m Q \<Longrightarrow> (\<And>x. completes (Q x) (f x) R) \<Longrightarrow> completes P (bind m f) R"
  by (fastforce simp: completes_def bind_def)

lemma completes_seq: "completes P m (\<lambda>_. Q) \<Longrightarrow> completes Q n R \<Longrightarrow> completes P (seq m n) R"
  unfolding seq_def by (rule completes_bind)

lemma completes_handle: "completes P m Q \<Longrightarrow> completes P (handle h m) Q"
  by (fastforce simp: completes_def handle_def)

lemma completes_tick:
  assumes "\<And>s n. P s \<Longrightarrow> P (s\<lparr>d_clock := n\<rparr>)" and "\<And>n. completes P (f (ticks w n)) Q"
  shows "completes P (with_tick w f) Q"
  using assms by (simp add: completes_def with_tick_def)

lemmas completes_rules = completes_handle completes_bind completes_seq completes_ret

subsection \<open>A job and its run\<close>

definition attempt :: "string \<Rightarrow> string \<Rightarrow> string \<Rightarrow> string \<Rightarrow> daemon \<Rightarrow> bool" where
  "attempt i rid js rst s \<longleftrightarrow> daemon_ok s \<and>
     (\<exists>j. map_of (mem (d_jobs s)) (KStr i) = Some j \<and> dget j ''status'' = JStr js) \<and>
     (\<exists>r a. map_of (mem (rs (d_runs s))) (KStr rid) = Some r \<and> dget r ''status'' = JStr rst \<and>
        dget r ''artifacts'' = JObj a)"

definition job_is :: "string \<Rightarrow> dict \<Rightarrow> daemon \<Rightarrow> bool" where
  "job_is i q s \<longleftrightarrow> map_of (mem (d_jobs s)) (KStr i) = Some q"

lemma daemon_ok_clock [simp]: "daemon_ok (s\<lparr>d_clock := n\<rparr>) = daemon_ok s"
  by (simp add: daemon_ok_def)

lemma attempt_clock [simp]: "attempt i rid js rst (s\<lparr>d_clock := n\<rparr>) = attempt i rid js rst s"
  by (simp add: attempt_def)

lemma job_is_clock [simp]: "job_is i q (s\<lparr>d_clock := n\<rparr>) = job_is i q s"
  by (simp add: job_is_def)

lemma attempt_tick: "(\<And>n. completes (attempt i rid js rst) (f (ticks w n)) Q) \<Longrightarrow> completes (attempt i rid js rst) (with_tick w f) Q"
  by (rule completes_tick) simp_all

lemma emit_keeps:
  "completes (\<lambda>s. attempt i rid js rst s \<and> job_is i q s) (emit_event w ty p)
     (\<lambda>_ s. attempt i rid js rst s \<and> job_is i q s)"
proof (rule completesI)
  fix s assume s: "attempt i rid js rst s \<and> job_is i q s"
  let ?s' = "snd (emit_event w ty p s)"
  have "daemon_ok ?s'" using movesD [OF evolution.M_emit_event] s by (auto simp: attempt_def)
  with s have "attempt i rid js rst ?s' \<and> job_is i q ?s'" by (auto simp: attempt_def job_is_def)
  moreover have "emit_event w ty p s = (Inr (), ?s')" using emit_event_parts(7) [of w ty p s] by (simp add: prod_eq_iff)
  ultimately show "\<exists>x s'. emit_event w ty p s = (Inr x, s') \<and> attempt i rid js rst s' \<and> job_is i q s'" by blast
qed

lemma job_move:
  assumes "new \<in> set (successors job_TRANSITIONS js)"
  shows "completes (attempt i rid js rst) (on_jobs (set_status_record ''job_id'' (job_step x new) t (JStr i)))
    (\<lambda>q s. attempt i rid new rst s \<and> job_is i q s)"
proof (rule completesI)
  fix s assume s: "attempt i rid js rst s"
  then obtain j where j: "map_of (mem (d_jobs s)) (KStr i) = Some j" "dget j ''status'' = JStr js"
    by (auto simp: attempt_def)
  then have "status_of ''queued'' j = JStr js" by (simp add: status_of_def dget_or_present)
  from jobs.step_complete [OF this assms] obtain q where q: "job_step x new j = Inr q" by blast
  have ok: "store_ok ''job_id'' (d_jobs s)" using s by (simp add: attempt_def daemon_ok_def)
  from jobs.set_status_str [OF ok, of x new t i] j(1) q obtain js' where
    run: "set_status_record ''job_id'' (job_step x new) t (JStr i) (d_jobs s) = (Inr q, js')"
    and js': "map_of (mem js') (KStr i) = Some q" by simp
  have "preserves (store_ok ''job_id'') (set_status_record ''job_id'' (job_step x new) t (JStr i))"
    by (rule jobs.set_status_keeps)
  then have "store_ok ''job_id'' (snd (set_status_record ''job_id'' (job_step x new) t (JStr i) (d_jobs s)))"
    using ok by (rule preservesD)
  then have "store_ok ''job_id'' js'" unfolding run snd_conv .
  with s have "daemon_ok (s\<lparr>d_jobs := js'\<rparr>)" by (simp add: attempt_def daemon_ok_def)
  moreover have "dget q ''status'' = JStr new" using jobs.step_status [OF q] by (simp add: dget_def)
  ultimately have "attempt i rid new rst (s\<lparr>d_jobs := js'\<rparr>)" using s js' by (simp add: attempt_def)
  with run js' show "\<exists>x' s'. on_jobs (set_status_record ''job_id'' (job_step x new) t (JStr i)) s = (Inr x', s') \<and>
      attempt i rid new rst s' \<and> job_is i x' s'"
    by (simp add: on_jobs_def zoom_def job_is_def)
qed

lemma run_move:
  assumes ids: "\<And>r r'. mutate r = Inr r' \<Longrightarrow> dget r' ''run_id'' = dget r ''run_id''"
    and moved: "\<And>r a. dget r ''artifacts'' = JObj a \<Longrightarrow> dget r ''status'' = JStr rst \<Longrightarrow>
      \<exists>r' b. mutate r = Inr r' \<and> dget r' ''artifacts'' = JObj b \<and> dget r' ''status'' = JStr rst'"
  shows "completes (attempt i rid js rst) (on_runs (run_update t (JStr rid) mutate)) (\<lambda>_. attempt i rid js rst')"
proof (rule completesI)
  fix s assume s: "attempt i rid js rst s"
  then obtain r a where r: "map_of (mem (rs (d_runs s))) (KStr rid) = Some r" "dget r ''status'' = JStr rst"
    "dget r ''artifacts'' = JObj a" by (auto simp: attempt_def)
  from moved [OF r(3,2)] obtain r' b where r': "mutate r = Inr r'"
    "dget r' ''artifacts'' = JObj b" "dget r' ''status'' = JStr rst'" by blast
  have ok: "runs_ok (d_runs s)" using s by (simp add: attempt_def daemon_ok_def)
  obtain q s1 where run: "run_update t (JStr rid) mutate (d_runs s) = (Inr q, s1)"
    and s1: "map_of (mem (rs s1)) (KStr rid) = Some (dset ''updated_at'' (JStr (stamp t)) r')"
    using run_update_eq [where t = t and mutate = mutate, OF ok r(1) r'(1) ids [OF r'(1)]] by (simp add: put_run_def)
  have "preserves runs_ok (run_update t (JStr rid) mutate)" by (rule run_update_keeps [OF ids])
  from preservesD [OF this ok] run have "runs_ok s1" by simp
  with s have "daemon_ok (s\<lparr>d_runs := s1\<rparr>)" by (simp add: attempt_def daemon_ok_def)
  with s s1 r' have "attempt i rid js rst' (s\<lparr>d_runs := s1\<rparr>)" by (simp add: attempt_def)
  with run show "\<exists>x s'. on_runs (run_update t (JStr rid) mutate) s = (Inr x, s') \<and> attempt i rid js rst' s'"
    by (simp add: on_runs_def zoom_def)
qed

lemma run_status_move:
  assumes "new \<in> set run_VALID_STATUSES"
  shows "completes (attempt i rid js rst) (on_runs (run_set_status t (JStr rid) (JStr new))) (\<lambda>_. attempt i rid js new)"
proof -
  have "run_set_status t (JStr rid) (JStr new) = run_update t (JStr rid) (\<lambda>r. Inr (dset ''status'' (JStr new) r))"
    using assms by (simp add: fun_eq_iff run_set_status_def)
  then show ?thesis by (auto intro!: run_move)
qed

lemma run_link_move:
  "completes (attempt i rid js rst) (on_runs (run_link_result t (JStr rid) v)) (\<lambda>_. attempt i rid js rst)"
  unfolding run_link_result_def by (rule run_move) auto

lemma results_move:
  "healthy t \<Longrightarrow> completes (attempt i rid js rst) (on_results (ResultStore_update d t v)) (\<lambda>_. attempt i rid js rst)"
  by (rule completesI)
    (simp add: on_results_def zoom_def ResultStore_update_def latest_update_def healthy_def attempt_def daemon_ok_def)


lemma ignored_tick:
  assumes "\<And>s n. P s \<Longrightarrow> P (s\<lparr>d_clock := n\<rparr>)"
    and "\<And>n s. P s \<Longrightarrow> \<exists>r s'. f (ticks w n) s = (r, s') \<and> P s' \<and> (\<forall>e. r = Inl e \<longrightarrow> h e = Some (ret ()))"
  shows "completes P (handle h (bind (with_tick w f) (\<lambda>_. ret ()))) (\<lambda>_. P)"
proof (rule completesI)
  fix s assume "P s"
  then have "P (s\<lparr>d_clock := Suc (d_clock s)\<rparr>)" by (rule assms(1))
  from assms(2) [OF this, of "d_clock s"] show
    "\<exists>x s'. handle h (bind (with_tick w f) (\<lambda>_. ret ())) s = (Inr x, s') \<and> P s'"
    by (auto simp: handle_def bind_def with_tick_def ret_def split: sum.splits)
qed

subsection \<open>The stages\<close>

abbreviation running :: "string \<Rightarrow> string \<Rightarrow> daemon \<Rightarrow> bool" where
  "running i rid \<equiv> attempt i rid ''running'' ''running''"

abbreviation ended :: "string \<Rightarrow> string \<Rightarrow> string \<Rightarrow> dict \<Rightarrow> daemon \<Rightarrow> bool" where
  "ended i rid st q s \<equiv> attempt i rid st st s \<and> job_is i q s"

lemmas stage_rules = attempt_tick completes_seq completes_bind results_move run_link_move run_status_move job_move
  emit_keeps completes_ret

lemma ignored_run_status:
  "completes (running i rid)
     (handle ignore_error (bind (with_tick w (\<lambda>t. on_runs (run_set_status t (JStr rid) (JStr ''failed'')))) (\<lambda>_. ret ())))
     (\<lambda>_. attempt i rid ''running'' ''failed'')"
  by (intro completes_handle completes_bind completes_ret attempt_tick)
    (rule run_status_move, simp add: run_VALID_STATUSES_def)

lemma fail_job_ends:
  "rid \<noteq> [] \<Longrightarrow> completes (running i rid) (fail_job w (JStr i) rid err) (ended i rid ''failed'')"
  unfolding fail_job_def job_moves_safe
  by (simp only: if_True simp_thms) (rule ignored_run_status stage_rules | simp add: successors_job)+

lemma dget_JObj: "dget r k = JObj a \<longleftrightarrow> map_of r k = Some (JObj a)"
  by (simp add: dget_def split: option.split)

lemma attach_log_passes: "completes (attempt i rid js rst) (attach_log w rid label f x) (\<lambda>_. attempt i rid js rst)"
  unfolding attach_log_def
proof (rule ignored_tick, simp)
  fix n s assume s: "attempt i rid js rst s"
  let ?t = "ticks w n"
  let ?base = "runs_dir (environment w) (cwd w)"
  let ?path = "path_join (path_join ?base rid) f"
  let ?op = "run_attach_text ?base ?t (JStr rid) (JStr label) (JStr f) (JStr x)"
  let ?s1 = "s\<lparr>d_runs := (d_runs s)\<lparr>texts := AList.update ?path x (texts (d_runs s))\<rparr>\<rparr>"
  from s have "attempt i rid js rst ?s1" by (simp add: attempt_def daemon_ok_def runs_ok_def)
  moreover have "completes (attempt i rid js rst) (on_runs (run_update ?t (JStr rid) (set_artifact (JStr label) ?path))) (\<lambda>_. attempt i rid js rst)"
    by (rule run_move) (auto simp: set_artifact_id set_artifact_def dget_JObj)
  ultimately obtain y s2 where upd: "on_runs (run_update ?t (JStr rid) (set_artifact (JStr label) ?path)) ?s1 = (Inr y, s2)"
    and s2: "attempt i rid js rst s2" by (blast dest: completesD)
  obtain r where "map_of (mem (rs (d_runs s))) (KStr rid) = Some r" using s by (auto simp: attempt_def)
  then have "on_runs ?op s =
     (if \<not> dirs_ok ?t then (Inl (OSError (path_join ?base rid)), s)
      else if \<not> write_ok ?t then (Inl (OSError ?path), s) else (Inr y, s2))"
    using upd by (simp add: on_runs_def zoom_def run_attach_text_def lookup_record_def Let_def split: prod.splits)
  with s s2 show "\<exists>r s'. on_runs ?op s = (r, s') \<and> attempt i rid js rst s' \<and> (\<forall>e. r = Inl e \<longrightarrow> ignore_attach e = Some (ret ()))"
    by (simp add: ignore_attach_def)
qed

text \<open>When the external commands count as a success.\<close>

definition exits_zero :: "proc_outcome \<Rightarrow> bool" where
  "exits_zero out = (case out of Exited code _ \<Rightarrow> code = 0 | _ \<Rightarrow> False)"

definition netlist_passes :: "host \<Rightarrow> world \<Rightarrow> string \<Rightarrow> environ \<Rightarrow> bool" where
  "netlist_passes h w rid env =
     (case netlist_cmd (loads w) (environment w) of
        None \<Rightarrow> True | Some cmd \<Rightarrow> exits_zero (exec h cmd (run_directory w rid) env))"

definition metrics_found :: "host \<Rightarrow> world \<Rightarrow> string \<Rightarrow> string \<Rightarrow> bool" where
  "metrics_found h w rid f =
     (case metrics_at h (path_join (run_directory w rid) f) of
        File_Text text \<Rightarrow> (case parse_result_file (loads w) text of
                             Inr parsed \<Rightarrow> truthy (dget parsed ''metrics'') | _ \<Rightarrow> False)
      | _ \<Rightarrow> False)"

definition run_succeeds :: "host \<Rightarrow> world \<Rightarrow> string \<Rightarrow> environ \<Rightarrow> string list \<Rightarrow> string \<Rightarrow> bool" where
  "run_succeeds h w rid env command f \<longleftrightarrow>
     netlist_passes h w rid env \<and> exits_zero (exec h command (run_directory w rid) env) \<and> metrics_found h w rid f"

lemma netlist_stage_ends:
  "rid \<noteq> [] \<Longrightarrow> completes (running i rid) (netlist_stage h w (JStr i) rid env n)
     (\<lambda>r s. case r of None \<Rightarrow> running i rid s \<and> netlist_passes h w rid env
                     | Some q \<Rightarrow> ended i rid ''failed'' q s \<and> \<not> netlist_passes h w rid env)"
  unfolding netlist_stage_def netlist_passes_def exits_zero_def
  by (auto split: option.split proc_outcome.split intro!: completes_bind [OF fail_job_ends]
      completes_seq [OF attach_log_passes] completes_ret)

lemma store_run_result_ends:
  assumes "\<And>n. healthy (ticks w n)"
  shows "completes (running i rid) (store_run_result w job (JStr i) rid parsed) (ended i rid ''done'')"
  unfolding store_run_result_def job_moves_safe Let_def
  by (rule stage_rules assms | simp add: successors_job run_VALID_STATUSES_def)+

lemma sim_stage_ends:
  assumes "rid \<noteq> []" and "\<And>n. healthy (ticks w n)"
  shows "completes (running i rid) (sim_stage h w job (JStr i) rid env command f n)
    (ended i rid (if exits_zero (exec h command (run_directory w rid) env) \<and> metrics_found h w rid f
                  then ''done'' else ''failed''))"
  unfolding sim_stage_def exits_zero_def metrics_found_def
  by (auto split: proc_outcome.split metrics_read.split sum.split simp: assms
      intro!: completes_seq [OF attach_log_passes] fail_job_ends store_run_result_ends)

text \<open>The start: the job was queued, and the commands get an environment.\<close>

definition queued_job :: "string \<Rightarrow> dict \<Rightarrow> daemon \<Rightarrow> bool" where
  "queued_job i j s \<longleftrightarrow> daemon_ok s \<and> job_is i j s \<and> dget j ''status'' = JStr ''queued''"

definition run_name :: "world \<Rightarrow> nat \<Rightarrow> string" where
  "run_name w n = ''run_'' @ uid (ticks w n)"

lemma created_run:
  "completes (queued_job i j) (on_runs (run_create t [(''test'', a), (''cellview'', b), (''job_id'', c)]))
     (\<lambda>_. attempt i (''run_'' @ uid t) ''queued'' ''created'')"
proof (rule completesI)
  fix s assume s: "queued_job i j s"
  let ?meta = "[(''test'', a), (''cellview'', b), (''job_id'', c)]"
  let ?s1 = "s\<lparr>d_runs := snd (run_create t ?meta (d_runs s))\<rparr>"
  have "runs_ok (d_runs s)" using s by (simp add: queued_job_def daemon_ok_def)
  from preservesD [OF run_create_keeps this] have "runs_ok (snd (run_create t ?meta (d_runs s)))" .
  with s have "daemon_ok ?s1" by (simp add: queued_job_def daemon_ok_def)
  moreover have "map_of (mem (rs (d_runs ?s1))) (KStr (''run_'' @ uid t)) = Some (new_run t ?meta)"
    by (simp add: run_create_eq put_run_def)
  moreover have "dget (new_run t ?meta) ''status'' = JStr ''created''" "dget (new_run t ?meta) ''artifacts'' = JObj []"
    by (simp_all add: new_run_def Let_def)
  ultimately have "attempt i (''run_'' @ uid t) ''queued'' ''created'' ?s1"
    using s by (simp add: attempt_def queued_job_def job_is_def)
  moreover have "on_runs (run_create t ?meta) s = (Inr (new_run t ?meta), ?s1)"
    by (simp add: on_runs_def zoom_def run_create_eq)
  ultimately show "\<exists>x s'. on_runs (run_create t ?meta) s = (Inr x, s') \<and>
      attempt i (''run_'' @ uid t) ''queued'' ''created'' s'" by blast
qed

lemma job_moves_on:
  "new \<in> set (successors job_TRANSITIONS js) \<Longrightarrow>
   completes (attempt i rid js rst) (on_jobs (set_status_record ''job_id'' (job_step x new) t (JStr i)))
     (\<lambda>_. attempt i rid new rst)"
  by (rule completes_weaken [OF job_move]) simp_all

text \<open>Everything before the environment of the commands is read off the job.\<close>

lemma completes_case: "completes P m Q \<Longrightarrow> P s \<Longrightarrow> (\<And>x s'. m s = (Inr x, s') \<Longrightarrow> Q x s' \<Longrightarrow> thesis) \<Longrightarrow> thesis"
  by (blast dest: completesD)

lemma begin_run_marks:
  assumes s: "queued_job i j s"
  shows "\<exists>s1. running i (run_name w (d_clock s)) s1 \<and>
    begin_run w (JStr i) f s =
      bind (lift_res (job_context (environment w) j (run_directory w (run_name w (d_clock s))) f))
        (\<lambda>env. ret (j, run_name w (d_clock s), env)) s1"
proof -
  let ?n = "d_clock s" and ?rid = "run_name w (d_clock s)"
  let ?mark = "\<lambda>m. seq (on_runs (run_create (ticks w ?n)
        [(''test'', dget j ''test''), (''cellview'', dget j ''cellview''), (''job_id'', JStr i)]))
      (seq (with_tick w (\<lambda>t. on_jobs (job_mark_running t (JStr i))))
      (seq (with_tick w (\<lambda>t. on_runs (run_set_status t (JStr ?rid) (JStr ''running'')))) m))"
  have "completes (queued_job i j) (?mark (ret ())) (\<lambda>_. running i ?rid)"
    unfolding job_moves_safe run_name_def
    by (rule created_run job_moves_on stage_rules | simp add: successors_job run_VALID_STATUSES_def)+
  moreover have "queued_job i j (s\<lparr>d_clock := Suc ?n\<rparr>)" using s by (simp add: queued_job_def)
  ultimately obtain s1 where s1: "?mark (ret ()) (s\<lparr>d_clock := Suc ?n\<rparr>) = (Inr (), s1)" "running i ?rid s1"
    by (auto elim: completes_case)
  have "?mark m (s\<lparr>d_clock := Suc ?n\<rparr>) = m s1" for m
    using s1(1) by (auto simp: seq_def bind_def ret_def split: prod.splits sum.splits)
  moreover have "job_get (d_jobs s) (JStr i) = Inr (Some j)"
    using s by (simp add: queued_job_def job_is_def job_get_def lookup_record_def)
  ultimately show ?thesis
    using s1(2) by (intro exI [of _ s1]) (simp add: begin_run_def bind_query with_tick_def run_name_def Let_def)
qed

subsection \<open>Properties\<close>

text \<open>The data of a creation without a session, and what follows the freshness guard.\<close>

lemma candidate_fingerprint:
  "dget d ''inputs_fingerprint'' = JStr fp \<Longrightarrow> fp \<noteq> [] \<Longrightarrow> dget (make_job t (JObj d)) ''inputs_fingerprint'' = JStr fp"
  by (simp add: make_job_def Let_def)

lemma job_create_eq:
  assumes "dget params ''job'' = JObj d" and "\<not> truthy (dget params ''session_id'')"
    and "truthy (dget_or params ''reuse'' (JBool True))"
    and "dget d ''inputs_fingerprint'' = JStr fp" and "fp \<noteq> []"
    and "fresh_done (JStr fp) (d_jobs s) = Inr found"
  shows "m_job_create w params s =
    (let s1 = s\<lparr>d_clock := Suc (d_clock s)\<rparr>; candidate = make_job (ticks w (d_clock s)) (JObj d)
     in case found of
          Some j \<Rightarrow> (Inr (JObj [(''job'', JObj j), (''reused'', JBool True)]), s1)
        | None \<Rightarrow>
            seq (check_schema w ''job'' candidate)
            (bind (handle value_error (with_tick w (\<lambda>t'. on_jobs (job_add t' candidate))))
              (\<lambda>job. seq (emit_event w ''job.created'' [(''job_id'', dget job ''job_id''), (''test'', dget job ''test'')])
                 (ret (JObj [(''job'', JObj job), (''reused'', JBool False)])))) s1)"
proof -
  have "dget (make_job t (JObj d)) ''inputs_fingerprint'' = JStr fp" for t
    by (rule candidate_fingerprint [OF assms(4,5)])
  with assms have "m_job_create w params s = with_tick w (\<lambda>t. bind (query (\<lambda>s. fresh_done (JStr fp) (d_jobs s)))
     (\<lambda>fresh. case fresh of
        Some j \<Rightarrow> ret (JObj [(''job'', JObj j), (''reused'', JBool True)])
      | None \<Rightarrow>
          seq (check_schema w ''job'' (make_job t (JObj d)))
          (bind (handle value_error (with_tick w (\<lambda>t'. on_jobs (job_add t' (make_job t (JObj d))))))
            (\<lambda>job. seq (emit_event w ''job.created'' [(''job_id'', dget job ''job_id''), (''test'', dget job ''test'')])
               (ret (JObj [(''job'', JObj job), (''reused'', JBool False)])))))) s"
    by (simp add: m_job_create_def bind_def [of "ret _"] ret_def [of d] Let_def)
  also have "\<dots> = (case found of
          Some j \<Rightarrow> (Inr (JObj [(''job'', JObj j), (''reused'', JBool True)]), s\<lparr>d_clock := Suc (d_clock s)\<rparr>)
        | None \<Rightarrow>
            seq (check_schema w ''job'' (make_job (ticks w (d_clock s)) (JObj d)))
            (bind (handle value_error (with_tick w (\<lambda>t'. on_jobs (job_add t' (make_job (ticks w (d_clock s)) (JObj d))))))
              (\<lambda>job. seq (emit_event w ''job.created'' [(''job_id'', dget job ''job_id''), (''test'', dget job ''test'')])
                 (ret (JObj [(''job'', JObj job), (''reused'', JBool False)])))) (s\<lparr>d_clock := Suc (d_clock s)\<rparr>))"
    by (subst with_tick_def) (simp add: bind_query assms(6) ret_def split: option.split)
  finally show ?thesis by (simp add: Let_def)
qed


text \<open>
  C5. A queued job is brought to an end. When the disk works and the job's cellview is an object or
  absent, the runner returns for every behaviour of the external commands; the job and its run are
  stored as done if the netlist command (when there is one) and the simulator exit with 0 and
  the metrics file holds metrics, and both as failed otherwise.
\<close>

theorem runner_finishes:
  assumes ok: "daemon_ok s" and j: "map_of (mem (d_jobs s)) (KStr i) = Some j" "dget j ''status'' = JStr ''queued''"
    and rid: "rid = run_name w (d_clock s)"
    and env: "job_context (environment w) j (run_directory w rid) f = Inr env"
    and healthy: "\<forall>n. healthy (ticks w n)"
  shows "\<exists>q r s'. JobRunner_run h w (JStr i) command f timeout s = (Inr q, s') \<and>
    map_of (mem (d_jobs s')) (KStr i) = Some q \<and> map_of (mem (rs (d_runs s'))) (KStr rid) = Some r \<and>
    (if run_succeeds h w rid env command f
     then dget q ''status'' = JStr ''done'' \<and> dget r ''status'' = JStr ''done''
     else dget q ''status'' = JStr ''failed'' \<and> dget r ''status'' = JStr ''failed'')"
proof -
  have "queued_job i j s" using ok j by (simp add: queued_job_def job_is_def)
  from begin_run_marks [OF this, of w f] rid env obtain s1 where
    s1: "running i rid s1" "begin_run w (JStr i) f s = (Inr (j, rid, env), s1)"
    by (auto simp: bind_def lift_res_def ret_def)
  have "rid \<noteq> []" using rid by (simp add: run_name_def)
  then have "completes (running i rid)
      (bind (netlist_stage h w (JStr i) rid env timeout)
        (\<lambda>e. case e of Some q \<Rightarrow> ret q | None \<Rightarrow> sim_stage h w j (JStr i) rid env command f timeout))
      (ended i rid (if run_succeeds h w rid env command f then ''done'' else ''failed''))"
    using sim_stage_ends [of rid w i h j env command f timeout] healthy
    by (intro completes_bind [OF netlist_stage_ends])
      (auto simp: completes_def run_succeeds_def ret_def split: option.splits)
  from completesD [OF this, OF s1(1)] obtain q s2 where
    run: "bind (netlist_stage h w (JStr i) rid env timeout)
        (\<lambda>e. case e of Some q \<Rightarrow> ret q | None \<Rightarrow> sim_stage h w j (JStr i) rid env command f timeout) s1 = (Inr q, s2)"
    and s2: "ended i rid (if run_succeeds h w rid env command f then ''done'' else ''failed'') q s2" by blast
  have "JobRunner_run h w (JStr i) command f timeout s = (Inr q, s2)"
    unfolding JobRunner_run_def bind_def [of "begin_run w (JStr i) f"] s1(2) using run by simp
  with s2 show ?thesis by (cases "run_succeeds h w rid env command f") (auto simp: attempt_def job_is_def)
qed

text \<open>
  A cellview that is no object strands the job. When the stored cellview of a queued job is a non-empty string or
  list or a number, the runner raises after the job and its run have been marked running, and both
  stay so: the background thread only logs the error.
\<close>

theorem runner_strands_job:
  assumes ok: "daemon_ok s" and j: "map_of (mem (d_jobs s)) (KStr i) = Some j" "dget j ''status'' = JStr ''queued''"
    and cv: "truthy (dget j ''cellview'')" "\<forall>d. dget j ''cellview'' \<noteq> JObj d"
  shows "\<exists>q r s'. run_job_bg h w (JStr i) command s = (Inr (), s') \<and>
    map_of (mem (d_jobs s')) (KStr i) = Some q \<and> dget q ''status'' = JStr ''running'' \<and>
    map_of (mem (rs (d_runs s'))) (KStr (run_name w (d_clock s))) = Some r \<and> dget r ''status'' = JStr ''running''"
proof -
  have "queued_job i j s" using ok j by (simp add: queued_job_def job_is_def)
  moreover obtain e where "job_context (environment w) j d f = Inl e" for d f
    using cv by (cases "dget j ''cellview''") (auto simp: job_context_def py_or_def)
  ultimately obtain s1 where "running i (run_name w (d_clock s)) s1"
    and "begin_run w (JStr i) (sim_metrics_file (environment w)) s = (Inl e, s1)"
    using begin_run_marks [of i j s w "sim_metrics_file (environment w)"] by (auto simp: bind_def lift_res_def)
  then show ?thesis by (auto simp: run_job_bg_def JobRunner_run_def handle_def bind_def ret_def attempt_def)
qed

lemma seq_after: "seq m n s = (case m s of (Inl e, s') \<Rightarrow> (Inl e, s') | (Inr _, s') \<Rightarrow> n s')"
  by (simp add: seq_def bind_def)

lemma seq_step: "m s = (Inr x, s') \<Longrightarrow> seq m n s = n s'"
  by (simp add: seq_after)

lemma bind_step_error: "m s = (Inl e, s') \<Longrightarrow> bind m f s = (Inl e, s')"
  by (simp add: bind_def)

lemma results_kept:
  "preserves (\<lambda>s. P (d_results s)) (on_runs m)" "preserves (\<lambda>s. P (d_results s)) (on_jobs n)"
  by (simp_all add: preserves_def on_runs_def on_jobs_def zoom_def split: prod.split)

lemma results_kept_tick:
  "(\<And>t. preserves (\<lambda>s. P (d_results s)) (f t)) \<Longrightarrow> preserves (\<lambda>s. P (d_results s)) (with_tick w f)"
  by (rule preserves_with_tick) simp_all

lemma mark_done_refused:
  assumes "attempt i rid ''cancelled'' rst s"
  shows "\<exists>e. on_jobs (job_mark_done t (JStr i) res run) s = (Inl (ValueError e), s)"
proof -
  obtain j where j: "map_of (mem (d_jobs s)) (KStr i) = Some j" "dget j ''status'' = JStr ''cancelled''"
    using assms by (auto simp: attempt_def)
  have ok: "store_ok ''job_id'' (d_jobs s)" using assms by (simp add: attempt_def daemon_ok_def)
  have "\<exists>e. job_step x ''done'' j = Inl (ValueError e)" for x
    using j(2) by (cases x) (auto simp: job_step_def job_transition_def dget_or_present bad_transition_def successors_job Let_def)
  then obtain e where "job_step (t, (if res \<noteq> JNull then [(''result_id'', res)] else []) @
      (if run \<noteq> JNull then [(''run_id'', run)] else [])) ''done'' j = Inl (ValueError e)" by blast
  with jobs.set_status_str [OF ok, of "(t, (if res \<noteq> JNull then [(''result_id'', res)] else []) @
      (if run \<noteq> JNull then [(''run_id'', run)] else []))" "''done''" t i] j(1)
  show ?thesis by (simp add: job_moves_safe on_jobs_def zoom_def)
qed

lemma store_run_result_cancelled:
  assumes healthy: "\<And>n. healthy (ticks w n)" and s: "attempt i rid ''cancelled'' rst s"
  shows "\<exists>e s'. store_run_result w job (JStr i) rid parsed s = (Inl (ValueError e), s') \<and>
    attempt i rid ''cancelled'' ''done'' s' \<and>
    latest (d_results s') = Some (JObj (make_result (ticks w (d_clock s)) (JObj (result_data job parsed))))"
proof -
  let ?result = "make_result (ticks w (d_clock s)) (JObj (result_data job parsed))"
  let ?A = "with_tick w (\<lambda>t. on_results (ResultStore_update (results_dir (environment w) (cwd w)) t (JObj ?result)))"
  let ?B = "with_tick w (\<lambda>t. on_runs (run_link_result t (JStr rid) (dget ?result ''result_id'')))"
  let ?C = "with_tick w (\<lambda>t. on_runs (run_set_status t (JStr rid) (JStr ''done'')))"
  let ?D = "with_tick w (\<lambda>t. on_jobs (job_mark_done t (JStr i) (dget ?result ''result_id'') (JStr rid)))"
  let ?s0 = "s\<lparr>d_clock := Suc (d_clock s)\<rparr>"
  obtain x s1 where A: "?A ?s0 = (Inr x, s1)" "latest (d_results s1) = Some (JObj ?result)"
    and s1: "attempt i rid ''cancelled'' rst s1"
    using healthy [of "Suc (d_clock s)"] s
    by (simp add: with_tick_def on_results_def zoom_def ResultStore_update_def latest_update_def healthy_def attempt_def
        daemon_ok_def)
  have "completes (attempt i rid ''cancelled'' rst) (seq ?B ?C) (\<lambda>_. attempt i rid ''cancelled'' ''done'')"
    by (rule stage_rules | simp add: run_VALID_STATUSES_def)+
  from completesD [OF this, OF s1] obtain y s2 where
    BC: "seq ?B ?C s1 = (Inr y, s2)" and s2: "attempt i rid ''cancelled'' ''done'' s2" by blast
  have "preserves (\<lambda>s. latest (d_results s) = Some (JObj ?result)) (seq ?B ?C)"
    by (intro keeps results_kept_tick [where P = "\<lambda>r. latest r = Some (JObj ?result)"] results_kept
        [where P = "\<lambda>r. latest r = Some (JObj ?result)"])
  from preservesD [OF this, OF A(2)] BC have l2: "latest (d_results s2) = Some (JObj ?result)" by simp
  let ?s3 = "s2\<lparr>d_clock := Suc (d_clock s2)\<rparr>"
  have s3: "attempt i rid ''cancelled'' ''done'' ?s3" using s2 by simp
  obtain e where "on_jobs (job_mark_done (ticks w (d_clock s2)) (JStr i) (dget ?result ''result_id'') (JStr rid)) ?s3 =
      (Inl (ValueError e), ?s3)"
    using mark_done_refused [OF s3] by blast
  then have D: "?D s2 = (Inl (ValueError e), ?s3)"
    by (simp add: with_tick_def)
  from BC obtain z s12 where B: "?B s1 = (Inr z, s12)" and C: "?C s12 = (Inr y, s2)"
    unfolding seq_after by (auto split: prod.splits sum.splits)
  have "store_run_result w job (JStr i) rid parsed s = (Inl (ValueError e), ?s3)"
    unfolding store_run_result_def Let_def
    by (subst with_tick_def) (simp only: seq_step [where m = ?A and s = ?s0, OF A(1)] seq_step [where m = ?B and s = s1, OF B]
        seq_step [where m = ?C and s = s12, OF C] bind_step_error [where m = ?D and s = s2, OF D])
  with s3 l2 show ?thesis by auto
qed

text \<open>
  C14. A cancelled job stays cancelled. Once a job is cancelled, whatever the simulator then does
  and whatever its metrics file holds, the end of the run leaves the job's record as it is.
\<close>

theorem cancelled_stays:
  assumes "daemon_ok s" and "map_of (mem (d_jobs s)) (KStr i) = Some j" and "dget j ''status'' = JStr ''cancelled''"
  shows "map_of (mem (d_jobs (snd (sim_stage h w job (JStr i) rid env command f timeout s)))) (KStr i) = Some j"
proof -
  have "jobs_evolve (d_jobs s) (d_jobs (snd (sim_stage h w job (JStr i) rid env command f timeout s)))"
    using movesD [OF evolution.M_sim_stage assms(1)] by (auto simp: daemon_rel_def)
  then show ?thesis
    using assms(2,3) jobs.evolves_final [where st = "''cancelled''"]
    by (simp add: status_of_def dget_or_present successors_job)
qed

text \<open>
  The result of a cancelled job is published all the same. When a job is cancelled while its
  simulator runs and the simulator then succeeds, the runner replaces the latest result and marks
  the run done before the job store refuses the move; it ends in that error.
\<close>

theorem cancelled_result_stored:
  assumes ok: "daemon_ok s" and j: "map_of (mem (d_jobs s)) (KStr i) = Some j" "dget j ''status'' = JStr ''cancelled''"
    and r: "map_of (mem (rs (d_runs s))) (KStr rid) = Some r" "dget r ''artifacts'' = JObj a" "dget r ''status'' = JStr ''running''"
    and out: "exec h command (run_directory w rid) env = Exited 0 out"
    and metrics: "metrics_at h (path_join (run_directory w rid) f) = File_Text x"
      "parse_result_file (loads w) x = Inr parsed" "truthy (dget parsed ''metrics'')"
    and healthy: "\<forall>n. healthy (ticks w n)"
  shows "\<exists>e s' q t. sim_stage h w job (JStr i) rid env command f timeout s = (Inl (ValueError e), s') \<and>
    map_of (mem (rs (d_runs s'))) (KStr rid) = Some q \<and> dget q ''status'' = JStr ''done'' \<and>
    latest (d_results s') = Some (JObj (make_result t (JObj (result_data job parsed))))"
proof -
  have "attempt i rid ''cancelled'' ''running'' s" using ok j r by (auto simp: attempt_def)
  from completesD [OF attach_log_passes, OF this] obtain y s1 where
    s1: "attach_log w rid ''log'' ''sim.log'' out s = (Inr y, s1)" "attempt i rid ''cancelled'' ''running'' s1" by blast
  from store_run_result_cancelled [OF _ s1(2), of w job parsed] healthy obtain e s' where
    res: "store_run_result w job (JStr i) rid parsed s1 = (Inl (ValueError e), s')"
      "attempt i rid ''cancelled'' ''done'' s'"
      "latest (d_results s') = Some (JObj (make_result (ticks w (d_clock s1)) (JObj (result_data job parsed))))"
    by blast
  have "sim_stage h w job (JStr i) rid env command f timeout s = (Inl (ValueError e), s')"
    using res(1) by (simp add: sim_stage_def out metrics seq_after s1(1))
  then show ?thesis using res(2,3) by (auto simp: attempt_def)
qed

subsection \<open>Witnesses\<close>

text \<open>A host whose commands succeed and leave one metric.\<close>

definition demo_host :: host where
  "demo_host = \<lparr>exec = (\<lambda>_ _ _. Exited 0 ''ok''), metrics_at = (\<lambda>_. File_Text ''{}'')\<rparr>"

definition demo_sim_world :: world where
  "demo_sim_world = demo_world\<lparr>loads := (\<lambda>_. Some (JObj [(''metrics'', JObj [(''gain'', JInt 40)])]))\<rparr>"

lemma demo_busy_job: "map_of (mem (d_jobs demo_busy)) (KStr ''j_1'') =
    Some [(''job_id'', JStr ''j_1''), (''status'', JStr ''queued'')]"
  by simp

lemma demo_healthy: "\<forall>n. healthy (ticks demo_sim_world n)"
  by (simp add: demo_sim_world_def demo_world_def)

lemma demo_parsed:
  obtains parsed where "parse_result_file (loads demo_sim_world) ''{}'' = Inr parsed" and "truthy (dget parsed ''metrics'')"
proof -
  have "case parse_result_file (loads demo_sim_world) ''{}'' of Inr parsed \<Rightarrow> truthy (dget parsed ''metrics'') | _ \<Rightarrow> False"
    by code_simp
  then show thesis using that by (auto split: sum.splits)
qed

lemma demo_metrics: "metrics_found demo_host demo_sim_world rid f"
  by (rule demo_parsed) (simp add: metrics_found_def demo_host_def)

lemma demo_run_succeeds: "run_succeeds demo_host demo_sim_world rid env command f"
  using demo_metrics
  by (simp add: run_succeeds_def netlist_passes_def exits_zero_def demo_host_def demo_sim_world_def demo_world_def netlist_cmd_def
      command_setting_def)

theorem runner_finishes_witness:
  "\<exists>q s'. JobRunner_run demo_host demo_sim_world (JStr ''j_1'') [''sim''] ''metrics.json'' 600 demo_busy = (Inr q, s') \<and>
     dget q ''status'' = JStr ''done''"
proof -
  let ?rid = "run_name demo_sim_world (d_clock demo_busy)"
  obtain env where "job_context (environment demo_sim_world) [(''job_id'', JStr ''j_1''), (''status'', JStr ''queued'')]
      (run_directory demo_sim_world ?rid) ''metrics.json'' = Inr env"
    by (simp add: job_context_def py_or_def dget_def)
  from runner_finishes [OF demo_busy_ok demo_busy_job _ refl this demo_healthy, of demo_host "[''sim'']" 600]
  show ?thesis using demo_run_succeeds by (auto simp: dget_def)
qed

definition demo_cancelled :: daemon where
  "demo_cancelled = demo_busy\<lparr>
     d_jobs := \<lparr>mem = [(KStr ''j_1'', [(''job_id'', JStr ''j_1''), (''status'', JStr ''cancelled'')])], disk = []\<rparr>,
     d_runs := \<lparr>rs = \<lparr>mem = [(KStr ''r_1'', [(''run_id'', JStr ''r_1''), (''status'', JStr ''running''),
        (''artifacts'', JObj [])])], disk = []\<rparr>, texts = []\<rparr>\<rparr>"

lemma demo_cancelled_ok: "daemon_ok demo_cancelled"
  using demo_busy_ok by (simp add: demo_cancelled_def daemon_ok_def store_ok_def runs_ok_def)

lemma demo_cancelled_fields [simp]:
  "map_of (mem (d_jobs demo_cancelled)) (KStr ''j_1'') = Some [(''job_id'', JStr ''j_1''), (''status'', JStr ''cancelled'')]"
  "map_of (mem (rs (d_runs demo_cancelled))) (KStr ''r_1'') =
     Some [(''run_id'', JStr ''r_1''), (''status'', JStr ''running''), (''artifacts'', JObj [])]"
  by (simp_all add: demo_cancelled_def)

theorem cancelled_stays_witness:
  "map_of (mem (d_jobs (snd (sim_stage demo_host demo_sim_world [] (JStr ''j_1'') ''r_1'' (\<lambda>_. None) [''sim''] ''m.json'' 600
     demo_cancelled)))) (KStr ''j_1'') = Some [(''job_id'', JStr ''j_1''), (''status'', JStr ''cancelled'')]"
  by (rule cancelled_stays [OF demo_cancelled_ok demo_cancelled_fields(1)]) (simp add: dget_def)

theorem cancelled_result_stored_witness:
  "\<exists>e s' v. sim_stage demo_host demo_sim_world [] (JStr ''j_1'') ''r_1'' (\<lambda>_. None) [''sim''] ''m.json'' 600 demo_cancelled =
     (Inl (ValueError e), s') \<and> latest (d_results s') = Some v"
proof (rule demo_parsed)
  fix parsed assume "parse_result_file (loads demo_sim_world) ''{}'' = Inr parsed" "truthy (dget parsed ''metrics'')"
  then show ?thesis
    using cancelled_result_stored [OF demo_cancelled_ok demo_cancelled_fields(1) _ demo_cancelled_fields(2) _ _ _ _ _ _
        demo_healthy, where h = demo_host and command = "[''sim'']" and env = "\<lambda>_. None" and timeout = 600 and job = "[]"
        and f = "''m.json''" and x = "''{}''" and out = "''ok''" and parsed = parsed]
    by (fastforce simp: dget_def demo_host_def)
qed

theorem runner_strands_job_witness:
  "\<exists>q s'. run_job_bg demo_host demo_sim_world (JStr ''j_1'') [''sim'']
      (demo_busy\<lparr>d_jobs := \<lparr>mem = [(KStr ''j_1'', [(''job_id'', JStr ''j_1''), (''status'', JStr ''queued''),
         (''cellview'', JStr ''opamp'')])], disk = []\<rparr>\<rparr>) = (Inr (), s') \<and>
    map_of (mem (d_jobs s')) (KStr ''j_1'') = Some q \<and> dget q ''status'' = JStr ''running''"
  (is "\<exists>q s'. run_job_bg _ _ _ _ ?s = _ \<and> _")
proof -
  have "daemon_ok ?s" using demo_busy_ok by (simp add: daemon_ok_def store_ok_def)
  moreover have "map_of (mem (d_jobs ?s)) (KStr ''j_1'') =
      Some [(''job_id'', JStr ''j_1''), (''status'', JStr ''queued''), (''cellview'', JStr ''opamp'')]" by simp
  ultimately show ?thesis
    using runner_strands_job [of ?s "''j_1''" _ demo_host demo_sim_world "[''sim'']"] by (force simp: dget_def)
qed

definition demo_finished :: daemon where
  "demo_finished = demo_busy\<lparr>d_jobs := demo_jobs ''done''\<rparr>"


end
