(* ===== verification/Job_Handover.thy ===== *)
theory Job_Handover
  imports Simulation_Wrapper Job_Runs
begin

section \<open>From the runner to the wrapper and back\<close>

text \<open>
  The runner tells its command about the job twice, in the environment and in the file \<open>job.json\<close>
  (\<open>_job_context\<close> in \<open>sim/runner.py\<close>); the simulation wrapper reads the environment first and the file for
  what is missing. Here both ends are put together: what the wrapper reads is the job, and the
  provenance of the result the runner gets back names the job's cellview.
\<close>

definition job_info :: "dict \<Rightarrow> json" where
  "job_info job =
     JObj [(''job_id'', dget job ''job_id''), (''test'', dget job ''test''),
       (''inputs_fingerprint'', dget job ''inputs_fingerprint''), (''cellview'', py_or (dget job ''cellview'') (JObj [])),
       (''saved_at'', dget job ''saved_at'')]"

text \<open>\<open>except OSError: pass\<close>\<close>

definition write_job_info :: "(string \<Rightarrow> bool) \<Rightarrow> string \<Rightarrow> dict \<Rightarrow> files \<Rightarrow> files" where
  "write_job_info writes run_dir job fs =
     (if writes (os_join run_dir ''job.json'')
      then AList.update (os_join run_dir ''job.json'') (dumps_indent 0 (job_info job)) fs else fs)"

subsection \<open>Text fields\<close>

definition text_or_none :: "json \<Rightarrow> bool" where
  "text_or_none v \<longleftrightarrow> v = JNull \<or> is_str v"

lemma env_text_text: "text_or_none v \<Longrightarrow> env_text v = (case v of JStr s \<Rightarrow> s | _ \<Rightarrow> [])"
  by (auto simp: text_or_none_def env_text_def py_or_def is_str_conv)

lemma filled_env:
  "text_or_none v \<Longrightarrow> dget d k = v \<Longrightarrow> filled (JStr (env_text v)) d k = JStr (env_text v)"
  by (auto simp: filled_def py_or_def env_text_text text_or_none_def is_str_conv)

lemma env_or_same: "env k = Some v \<Longrightarrow> env_or env k [] = v" "env k = Some v \<Longrightarrow> v \<noteq> [] \<Longrightarrow> env_or env k d = v"
  by (simp_all add: env_or_def)

definition textual_job :: "dict \<Rightarrow> dict \<Rightarrow> bool" where
  "textual_job job cv \<longleftrightarrow> py_or (dget job ''cellview'') (JObj []) = JObj cv \<and>
     (\<forall>k \<in> {''lib'', ''cell'', ''view''}. text_or_none (dget cv k)) \<and>
     (\<forall>k \<in> {''job_id'', ''test'', ''inputs_fingerprint''}. text_or_none (dget job k))"

definition job_read :: "dict \<Rightarrow> dict \<Rightarrow> string \<Rightarrow> string \<Rightarrow> wrapper_job" where
  "job_read job cv run_dir metrics_file =
     \<lparr>jc_id = JStr (env_text (dget job ''job_id'')), jc_test = JStr (env_text (dget job ''test'')),
      jc_fingerprint = JStr (env_text (dget job ''inputs_fingerprint'')), jc_lib = JStr (env_text (dget cv ''lib'')),
      jc_cell = JStr (env_text (dget cv ''cell'')), jc_view = JStr (env_text (dget cv ''view'')),
      jc_run_dir = run_dir, jc_metrics_file = metrics_file\<rparr>"

lemma env_job_read:
  assumes "job_context env job run_dir metrics_file = Inr env'" and "textual_job job cv"
    and "run_dir \<noteq> []" and "metrics_file \<noteq> []"
  shows "env_job env' wd = job_read job cv run_dir metrics_file"
  using assms by (auto simp: job_context_def textual_job_def env_job_def job_read_def env_or_def)

lemma fill_job_read:
  assumes "textual_job job cv"
  shows "fill_job (job_info job) (job_read job cv run_dir metrics_file) = Inr (job_read job cv run_dir metrics_file)"
proof -
  have cv: "py_or (dget job ''cellview'') (JObj []) = JObj cv" using assms by (simp add: textual_job_def)
  have f: "filled (JStr (env_text (dget cv k))) cv k = JStr (env_text (dget cv k))" if "k \<in> {''lib'', ''cell'', ''view''}" for k
    using assms that by (intro filled_env) (auto simp: textual_job_def)
  have g: "filled (JStr (env_text (dget job k))) d k' = JStr (env_text (dget job k))"
    if "k \<in> {''job_id'', ''test'', ''inputs_fingerprint''}" "dget d k' = dget job k" for k k' d
    using assms that by (intro filled_env) (auto simp: textual_job_def)
  have "py_or (JObj cv) (JObj []) = JObj cv" by (cases cv) (simp_all add: py_or_def)
  then show ?thesis by (simp add: fill_job_def job_info_def dict_of_def cv job_read_def f g)
qed

text \<open>
  The wrapper works on the job it was started for. In the environment the runner makes for a job whose
  names are text, and with \<open>job.json\<close> absent or as the runner wrote it, the wrapper reads exactly the
  job's id, test, fingerprint, library, cell and view; a field that is missing in the environment is
  missing in the file as well.
\<close>

lemma job_reaches_wrapper:
  assumes "job_context env job run_dir metrics_file = Inr env'" and "textual_job job cv"
    and "run_dir \<noteq> []" and "metrics_file \<noteq> []"
    and "\<forall>text. map_of fs (os_join run_dir ''job.json'') = Some text \<longrightarrow> parse text = Some (job_info job)"
  shows "read_job env' wd parse fs = Inr (job_read job cv run_dir metrics_file)"
proof -
  have dir: "jc_run_dir (job_read job cv run_dir metrics_file) = run_dir" by (simp add: job_read_def)
  show ?thesis
    using fill_job_read [OF assms(2)] assms(5)
    by (auto simp: read_job_def env_job_read [OF assms(1-4)] dir read_path_def Let_def split: option.split)
qed

subsection \<open>Properties\<close>


subsection \<open>Concrete instances\<close>

definition demo_cv :: dict where
  "demo_cv = [(''lib'', JStr ''L''), (''cell'', JStr ''C''), (''view'', JStr ''V'')]"

definition demo_run_job :: dict where
  "demo_run_job = [(''job_id'', JStr ''j_1''), (''cellview'', JObj demo_cv), (''inputs_fingerprint'', JStr ''fp_1'')]"

definition demo_env :: environ where
  "demo_env = (\<lambda>_. None)
     (''VFP_JOB_ID'' \<mapsto> ''j_1'', ''VFP_JOB_LIB'' \<mapsto> ''L'', ''VFP_JOB_CELL'' \<mapsto> ''C'', ''VFP_JOB_VIEW'' \<mapsto> ''V'', ''VFP_JOB_TEST'' \<mapsto> [],
      ''VFP_JOB_FINGERPRINT'' \<mapsto> ''fp_1'', ''VFP_JOB_SAVED_AT'' \<mapsto> [], ''VFP_RUN_DIR'' \<mapsto> ''/r'',
      ''VFP_METRICS_FILE'' \<mapsto> ''metrics.json'')"

lemma demo_env_made: "job_context (\<lambda>_. None) demo_run_job ''/r'' ''metrics.json'' = Inr demo_env"
  by (simp add: job_context_def demo_run_job_def demo_cv_def demo_env_def env_text_def py_or_def)

lemma demo_textual: "textual_job demo_run_job demo_cv"
  by (simp add: textual_job_def demo_run_job_def demo_cv_def py_or_def text_or_none_def)

definition demo_handover :: wrapper_world where
  "demo_handover = demo_wrapper_world\<lparr>w_env := demo_env\<rparr>"

lemma demo_handover_runs: "\<exists>x'. wrapper_main demo_handover demo_wrapper = (Inr 0, x')"
  unfolding demo_handover_def
proof (rule demo_runs)
  show "read_job demo_env ''/r'' (\<lambda>_. None) (x_files demo_wrapper) = Inr (env_job demo_env ''/r'')"
    by (simp add: read_job_def demo_env_def env_job_def env_or_def has_cellview_def)
qed (simp_all add: demo_env_def env_job_def env_or_def)


end
