(* ===== verification/Delegated_Netlist.thy ===== *)
theory Delegated_Netlist
  imports Simulation_Wrapper
begin

section \<open>The delegated netlister\<close>

text \<open>
  \<open>scripts/delegated_netlist.py\<close>: the command that has a deck assembled for a cellview. A backend is
  chosen by name and returns a deck's path or none; the three built-in ones are here: over the tunnel
  to a connected plugin, over a third-party command line (\<open>vcli\<close>), or with the site's own command.
  A program that is run is a function from its command line to its exit code and output; the tunnel
  is the daemon of the model, and what other clients send while the netlister sleeps is part of its
  schedule: pairs of the clock after a sleep and the messages handled during it.
\<close>

record netlister_conf =
  g_target :: string
  g_vcli :: string
  g_daemon :: string
  g_spectre :: string
  g_skill_dir :: string
  g_timeout :: int

text \<open>The module's settings, read from the environment when it is loaded\<close>

definition env_get :: "environ \<Rightarrow> string \<Rightarrow> string \<Rightarrow> string" where
  "env_get env k dflt = (case env k of None \<Rightarrow> dflt | Some v \<Rightarrow> v)"

definition netlister_conf_of :: "environ \<Rightarrow> exn + netlister_conf" where
  "netlister_conf_of env =
     (case (parse_int (env_get env ''VFP_PORT'' ''47891''), parse_int (env_get env ''VFP_PLUGIN_NETLIST_TIMEOUT'' ''120'')) of
        (None, _) \<Rightarrow> Inl (bad_int (env_get env ''VFP_PORT'' ''47891''))
      | (_, None) \<Rightarrow> Inl (bad_int (env_get env ''VFP_PLUGIN_NETLIST_TIMEOUT'' ''120''))
      | (Some port, Some t) \<Rightarrow>
          Inr \<lparr>g_target = env_get env ''VFP_VCLI_TARGET'' ''meow@192.168.185.231'',
               g_vcli = env_get env ''VFP_VCLI_BIN'' ''/home/meow/.cargo/bin/vcli'',
               g_daemon = env_get env ''VFP_VCLI_DAEMON'' ''/home/meow/.cargo/bin/virtuoso-daemon'',
               g_spectre = env_get env ''VFP_VCLI_SPECTRE_CMD'' ''/opt/cadence/SPECTRE231/bin/spectre'',
               g_skill_dir = env_get env ''VFP_REMOTE_SKILL_DIR'' ''/home/meow/Documents/VFP/skill'',
               g_timeout = t\<rparr>)"

subsection \<open>Quoting for the remote shell\<close>

definition shell_quote :: "string \<Rightarrow> string" where
  "shell_quote s = CHR 0x27 # replace_char CHR 0x27 [CHR 0x27, CHR 0x5C, CHR 0x27, CHR 0x27] s @ [CHR 0x27]"

definition is_local :: "netlister_conf \<Rightarrow> bool" where
  "is_local g = (map to_lower (strip (g_target g)) \<in> {[], ''local'', ''localhost''})"

definition remote_command :: "netlister_conf \<Rightarrow> string \<Rightarrow> string" where
  "remote_command g expr =
     ''RB_DAEMON_PATH='' @ shell_quote (g_daemon g) @ '' VB_SPECTRE_CMD='' @ shell_quote (g_spectre g) @ '' '' @
     shell_quote (g_vcli g) @ '' --quiet --format json skill exec '' @ shell_quote expr"

definition vcli_argv :: "netlister_conf \<Rightarrow> string \<Rightarrow> string list" where
  "vcli_argv g expr =
     (if is_local g then [g_vcli g, ''--quiet'', ''--format'', ''json'', ''skill'', ''exec'', expr]
      else [''ssh'', ''-o'', ''BatchMode=yes'', ''-o'', ''LogLevel=ERROR'', ''-o'', ''ConnectTimeout=10'', g_target g,
            remote_command g expr])"

subsection \<open>The vcli backend\<close>

type_synonym program = "string list \<Rightarrow> exn + int \<times> string"

text \<open>The outcome: the value, or what to report.\<close>

definition vcli_outcome :: "(string \<Rightarrow> json option) \<Rightarrow> int \<Rightarrow> string \<Rightarrow> exn + json + string" where
  "vcli_outcome parse code txt =
     (let out = strip txt
      in case parse out of
           None \<Rightarrow> Inr (Inl (JStr (if out = [] then ''vcli failed (exit '' @ show_int code @ '')'' else out)))
         | Some res \<Rightarrow>
             (case dict_of res of
                Inl e \<Rightarrow> Inl e
              | Inr d \<Rightarrow>
                  (if \<not> py_eq (dget d ''status'') (JStr ''success'') \<or> truthy (dget d ''errors'')
                   then Inr (Inl (py_or (dget d ''errors'') res))
                   else case py_or (dget d ''output'') (JStr []) of
                          JStr s \<Rightarrow> Inr (Inr (strip s))
                        | v \<Rightarrow> Inl (AttributeError (CHR 0x27 # type_name v @ CHR 0x27 # '' object has no attribute '' @
                            CHR 0x27 # ''strip'' @ [CHR 0x27])))))"

definition vcli_exec :: "netlister_conf \<Rightarrow> (string \<Rightarrow> json option) \<Rightarrow> program \<Rightarrow> string \<Rightarrow> exn + json + string" where
  "vcli_exec g parse run expr =
     (case run (vcli_argv g expr) of Inl e \<Rightarrow> Inl e | Inr (code, txt) \<Rightarrow> vcli_outcome parse code txt)"

definition dq :: "string \<Rightarrow> string" where
  "dq s = CHR 0x22 # s @ [CHR 0x22]"

definition vcli_skill :: "netlister_conf \<Rightarrow> string \<Rightarrow> string \<Rightarrow> string \<Rightarrow> string \<Rightarrow> string" where
  "vcli_skill g lib cell view corner =
     ''progn( load('' @ dq (g_skill_dir g @ ''/vfp_utils.il'') @ '') load('' @ dq (g_skill_dir g @ ''/vfp_netlist.il'') @
     '') vfpNetlistCellView(dbOpenCellViewByType('' @ dq lib @ '' '' @ dq cell @ '' '' @ dq view @ '' '' @ dq [] @ '' '' @
     dq ''r'' @ '') ?corner '' @ dq corner @ '') )''"

text \<open>A backend's result: the deck, or none, and what it wrote to the error stream.\<close>

type_synonym found = "exn + json \<times> string list"

definition none_but :: "string \<Rightarrow> found" where
  "none_but m = Inr (JNull, [m])"

definition strip_quotes :: "string \<Rightarrow> string" where
  "strip_quotes s = (let q = (\<lambda>c. c = CHR 0x22) in rev (dropWhile q (rev (dropWhile q s))))"

definition vcli_backend ::
  "netlister_conf \<Rightarrow> (string \<Rightarrow> json option) \<Rightarrow> program \<Rightarrow> string \<Rightarrow> string \<Rightarrow> string \<Rightarrow> string \<Rightarrow> found" where
  "vcli_backend g parse run lib cell view corner =
     (case vcli_exec g parse run (vcli_skill g lib cell view corner) of
        Inl e \<Rightarrow> Inl e
      | Inr (Inl v) \<Rightarrow> none_but (''delegated_netlist[vcli]: '' @ py_str v)
      | Inr (Inr val) \<Rightarrow> Inr (py_or (JStr (strip_quotes (strip val))) JNull, []))"

subsection \<open>The command backend\<close>

text \<open>The program gets the words of its command line and the additions to its environment.\<close>

definition command_backend ::
  "environ \<Rightarrow> (string \<Rightarrow> json option) \<Rightarrow> (string list \<Rightarrow> (string \<times> string) list \<Rightarrow> exn + int \<times> string) \<Rightarrow>
   string \<Rightarrow> string \<Rightarrow> string \<Rightarrow> string \<Rightarrow> found" where
  "command_backend env parse run lib cell view corner =
     (let raw0 = env_or env ''VFP_DELEGATED_NETLIST_CMD'' []; raw = strip raw0
      in if raw0 = [] then none_but ''delegated_netlist[command]: set VFP_DELEGATED_NETLIST_CMD''
         else case (if startswith raw ''[''
                    then (case parse raw of
                            None \<Rightarrow> Inl (ValueError ''not a JSON text'')
                          | Some v \<Rightarrow> (case v of JStr _ \<Rightarrow> Inr [v] | _ \<Rightarrow> py_iter v))
                    else (case shlex_split raw of None \<Rightarrow> Inl (ValueError ''No closing quotation'') | Some ws \<Rightarrow> Inr (map JStr ws))) of
                Inl e \<Rightarrow> Inl e
              | Inr ws \<Rightarrow>
                  (case (case command_words ws of
                           Inl e \<Rightarrow> Inl e
                         | Inr argv \<Rightarrow>
                             run argv [(''VFP_JOB_LIB'', lib), (''VFP_JOB_CELL'', cell), (''VFP_JOB_VIEW'', view),
                               (''VFP_JOB_CORNER'', corner)]) of
                     Inl (OSError m) \<Rightarrow> none_but (''delegated_netlist[command]: '' @ m)
                   | Inl e \<Rightarrow> Inl e
                   | Inr (code, txt) \<Rightarrow>
                       (let out = strip txt
                        in if code \<noteq> 0 then none_but (last_chars 800 out)
                           else Inr (if out = [] then JNull else JStr (strip (last (splitlines out))), []))))"

subsection \<open>The plugin backend\<close>

definition net_reply :: "json \<Rightarrow> exn + json" where
  "net_reply resp =
     (case dict_of resp of
        Inl e \<Rightarrow> Inl e
      | Inr d \<Rightarrow>
          (if truthy (dget d ''error'')
           then (case jget (dget d ''error'') ''message'' of
                   Inl e \<Rightarrow> Inl e
                 | Inr m \<Rightarrow> Inl (RuntimeError (py_str (py_or m (dget d ''error'')))))
           else Inr (py_or (dget d ''result'') (JObj []))))"

definition net_request :: "string \<Rightarrow> dict \<Rightarrow> json" where
  "net_request meth params =
     JObj [(''jsonrpc'', JStr ''2.0''), (''id'', JInt 1), (''method'', JStr meth), (''params'', JObj params)]"

definition net_call :: "world \<Rightarrow> string option \<Rightarrow> string \<Rightarrow> dict \<Rightarrow> json step" where
  "net_call w down meth params s =
     (case down of
        Some m \<Rightarrow> (Inl (OSError m), s)
      | None \<Rightarrow>
          (case serve_lines (tunnel_dispatch w) [Message (net_request meth params)] s of
             ([], s') \<Rightarrow> (Inl (ValueError ''not a JSON text''), s')
           | (r # _, s') \<Rightarrow> (net_reply r, s')))"

text \<open>\<open>except (OSError, ValueError, RuntimeError)\<close>\<close>

fun net_error :: "exn \<Rightarrow> bool" where
  "net_error (OSError _) = True"
| "net_error (ValueError _) = True"
| "net_error (RuntimeError _) = True"
| "net_error _ = False"

definition connected_plugins :: "world \<Rightarrow> string option \<Rightarrow> int step" where
  "connected_plugins w down s =
     (case net_call w down ''tunnel.status'' [] s of
        (Inl e, s') \<Rightarrow> (if net_error e then Inr (- 1) else Inl e, s')
      | (Inr r, s') \<Rightarrow>
          (case jget r ''sessions'' of
             Inl e \<Rightarrow> (Inl e, s')
           | Inr (JList xs) \<Rightarrow> (Inr (int (length xs)), s')
           | Inr v \<Rightarrow>
               (case py_int v of
                  Inr n \<Rightarrow> (Inr n, s')
                | Inl (TypeError _) \<Rightarrow> (Inr 0, s')
                | Inl (ValueError _) \<Rightarrow> (Inr 0, s')
                | Inl e \<Rightarrow> (Inl e, s'))))"

definition plugin_says :: "string \<Rightarrow> found" where
  "plugin_says m = none_but (''delegated_netlist[plugin]: '' @ m)"

text \<open>One look at the request: a result, or None to go on waiting\<close>

definition look_at :: "world \<Rightarrow> string option \<Rightarrow> json \<Rightarrow> daemon \<Rightarrow> found option \<times> daemon" where
  "look_at w down rid s =
     (case net_call w down ''netlist.get'' [(''request_id'', rid)] s of
        (Inl e, s') \<Rightarrow> (Some (if net_error e then plugin_says (exn_str e) else Inl e), s')
      | (Inr v, s') \<Rightarrow>
          ((case dict_of v of
              Inl e \<Rightarrow> Some (Inl e)
            | Inr d \<Rightarrow>
                (case dict_of (py_or (dget d ''request'') (JObj [])) of
                   Inl e \<Rightarrow> Some (Inl e)
                 | Inr r \<Rightarrow>
                     (if py_eq (dget r ''status'') (JStr ''done'') then Some (Inr (py_or (dget r ''deck'') JNull, []))
                      else if py_eq (dget r ''status'') (JStr ''failed'') then Some (plugin_says (py_str (dget r ''error'')))
                      else None))), s'))"

type_synonym schedule = "(rat \<times> json list) list"

text \<open>\<open>while time.time() < deadline\<close>; None when the schedule ends before the loop does\<close>

fun poll_deck ::
  "netlister_conf \<Rightarrow> world \<Rightarrow> string option \<Rightarrow> rat \<Rightarrow> json \<Rightarrow> rat \<Rightarrow> schedule \<Rightarrow> daemon \<Rightarrow> found option \<times> daemon" where
  "poll_deck g w down deadline rid t0 sch s =
     (if deadline \<le> t0 then (Some (plugin_says (''timed out after '' @ show_int (g_timeout g) @ ''s'')), s)
      else case look_at w down rid s of
             (Some r, s') \<Rightarrow> (Some r, s')
           | (None, s') \<Rightarrow>
               (case sch of
                  [] \<Rightarrow> (None, s')
                | (t, msgs) # rest \<Rightarrow> poll_deck g w down deadline rid t rest (handle_messages w msgs s')))"

declare poll_deck.simps [simp del]

definition no_plugin :: string where
  "no_plugin =
     ''no connected plugin to service the netlist -- start one with `vfp daemon start` (or connect a live Virtuoso session), or use VFP_DELEGATED_BACKEND=vcli/command''"

definition plugin_backend ::
  "netlister_conf \<Rightarrow> world \<Rightarrow> string option \<Rightarrow> string \<Rightarrow> string \<Rightarrow> string \<Rightarrow> string \<Rightarrow> rat \<Rightarrow> schedule \<Rightarrow> daemon \<Rightarrow>
   found option \<times> daemon" where
  "plugin_backend g w down lib cell view corner t0 sch s =
     (case connected_plugins w down s of
        (Inl e, s1) \<Rightarrow> (Some (Inl e), s1)
      | (Inr n, s1) \<Rightarrow>
          (if n = 0 then (Some (plugin_says no_plugin), s1)
           else case net_call w down ''netlist.request''
                       [(''cellview'', JObj [(''lib'', JStr lib), (''cell'', JStr cell), (''view'', JStr view)]),
                        (''corner'', JStr corner)] s1 of
                  (Inl e, s2) \<Rightarrow> (Some (if net_error e then plugin_says (exn_str e) else Inl e), s2)
                | (Inr v, s2) \<Rightarrow>
                    (case jget v ''request_id'' of
                       Inl e \<Rightarrow> (Some (Inl e), s2)
                     | Inr rid \<Rightarrow>
                         (if \<not> truthy rid then (Some (Inr (JNull, [])), s2)
                          else poll_deck g w down (t0 + of_int (g_timeout g)) rid t0 sch s2))))"

subsection \<open>Choosing the backend\<close>

datatype backend = Vcli | Command | Plugin | Custom string string

definition resolve_backend :: "environ \<Rightarrow> string option \<Rightarrow> exn + backend" where
  "resolve_backend env name =
     (let n = (case name of Some x \<Rightarrow> (if x = [] then env_get env ''VFP_DELEGATED_BACKEND'' ''plugin'' else x)
               | None \<Rightarrow> env_get env ''VFP_DELEGATED_BACKEND'' ''plugin'')
      in case map_of [(''vcli'', Vcli), (''command'', Command), (''plugin'', Plugin)] n of
           Some b \<Rightarrow> Inr b
         | None \<Rightarrow>
             (if CHR '':'' \<in> set n then Inr (case partition_at CHR '':'' n of (m, f) \<Rightarrow> Custom m f)
              else Inl (ValueError (''unknown delegated backend: '' @ repr_str n))))"

text \<open>The cellview and corner of the command line or of the job's environment; the exit code 2 otherwise\<close>

definition netlist_args :: "environ \<Rightarrow> string list \<Rightarrow> (string \<times> string \<times> string \<times> string) option" where
  "netlist_args env argv =
     (case argv of
        lib # cell # view # rest \<Rightarrow> Some (lib, cell, view, case rest of c # _ \<Rightarrow> c | [] \<Rightarrow> ''Nominal'')
      | _ \<Rightarrow>
          (let lib = env_or env ''VFP_JOB_LIB'' []; cell = env_or env ''VFP_JOB_CELL'' []; view = env_or env ''VFP_JOB_VIEW'' []
           in if lib \<noteq> [] \<and> cell \<noteq> [] \<and> view \<noteq> [] then Some (lib, cell, view, env_or env ''VFP_JOB_CORNER'' ''Nominal'')
              else None))"

text \<open>The program: its printed lines, error lines and exit code, for a backend that returns \<open>found\<close>\<close>

definition netlist_main ::
  "environ \<Rightarrow> (backend \<Rightarrow> string \<Rightarrow> string \<Rightarrow> string \<Rightarrow> string \<Rightarrow> found option \<times> daemon) \<Rightarrow> daemon \<Rightarrow> string list \<Rightarrow>
   (exn + string list \<times> string list \<times> int) option \<times> daemon" where
  "netlist_main env use s argv =
     (case netlist_args env argv of
        None \<Rightarrow>
          (Some (Inr ([], [''usage: delegated_netlist.py <lib> <cell> <view> [corner]  (or set VFP_JOB_LIB/CELL/VIEW)''], 2)), s)
      | Some (lib, cell, view, corner) \<Rightarrow>
          (case resolve_backend env None of
             Inl e \<Rightarrow> (Some (Inl e), s)
           | Inr b \<Rightarrow>
               (case use b lib cell view corner of
                  (r, s') \<Rightarrow>
                    (map_option (map_sum id (\<lambda>(deck, err).
                       if truthy deck then ([py_str deck], err, 0) else ([], err, 1))) r, s'))))"

end
