(* ===== verification/Netlist_Delivery.thy ===== *)
theory Netlist_Delivery
  imports Delegated_Netlist Tunnel_Decisions
begin

section \<open>From the netlister to a plugin and back\<close>

text \<open>
  What \<open>Delegated_Netlist\<close> promises: its quoting is undone by the remote shell, and its poll returns
  the deck that a plugin delivers over the tunnel. The first part is about the tunnel alone: only
  \<open>netlist.request\<close> and \<open>netlist.complete\<close> touch the netlist requests, whatever else clients send.
\<close>

subsection \<open>Methods that leave the netlist requests alone\<close>

definition same_netlists :: "daemon \<Rightarrow> daemon \<Rightarrow> bool" where
  "same_netlists s s' \<longleftrightarrow> d_netlists s' = d_netlists s"

interpretation netreqs: progress "\<lambda>_. True" same_netlists
  by unfold_locales (simp_all add: same_netlists_def)

abbreviation N :: "'a step \<Rightarrow> bool" where
  "N \<equiv> moves (\<lambda>_. True) same_netlists"

lemma N_parts:
  "N (on_sessions a)" "N (on_contexts b)" "N (on_proposals c)" "N (on_transactions d)" "N (on_results e)"
  "N (on_runs f)" "N (on_jobs g)" "N (on_extensions h)" "N (on_actions i)"
  by (simp_all add: moves_def same_netlists_def on_sessions_def on_contexts_def on_proposals_def on_transactions_def
      on_results_def on_runs_def on_jobs_def on_extensions_def on_actions_def zoom_def split: prod.split)

lemma N_errors:
  "N (query q)" "N (invalid m)" "N (not_found m)" "N (check_schema w nm d)"
  by (simp_all add: moves_def same_netlists_def query_def invalid_def not_found_def raise_def check_schema_def lift_res_def)

lemma N_tick: "(\<And>t. N (f t)) \<Longrightarrow> N (with_tick w f)"
  by (simp add: moves_def with_tick_def same_netlists_def)

lemma N_emit: "N (emit_event w ty p)"
  unfolding emit_event_def by (rule N_tick) (simp add: moves_def change_def same_netlists_def)

lemma N_caught:
  "key_or_value_error e = Some n \<Longrightarrow> N n" "value_error e = Some n \<Longrightarrow> N n" "key_error e = Some n \<Longrightarrow> N n"
  "ignore_error e = Some k \<Longrightarrow> N k"
  by (auto simp: key_or_value_error_def value_error_def key_error_def ignore_error_def N_errors netreqs.moves_ret
      split: exn.splits)

lemma N_handle:
  "N m \<Longrightarrow> N (handle key_or_value_error m)" "N m \<Longrightarrow> N (handle value_error m)" "N m \<Longrightarrow> N (handle key_error m)"
  "N k \<Longrightarrow> N (handle ignore_error k)"
  by (rule netreqs.moves_handle, assumption, erule N_caught)+

lemma N_json: "N m \<Longrightarrow> (\<And>d. N (f d)) \<Longrightarrow> N (case v of JObj d \<Rightarrow> f d | _ \<Rightarrow> m)"
  by (cases v) simp_all

lemma N_let: "(\<And>x. N (f x)) \<Longrightarrow> N (Let v f)"
  by simp

lemma N_change:
  "N (change (\<lambda>s. s\<lparr>d_launched := l s\<rparr>))" "N (change (\<lambda>s. s\<lparr>d_stopping := b\<rparr>))"
  by (simp_all add: moves_def change_def same_netlists_def)

lemma N_emit_expired: "N (emit_expired w ids)"
proof (induction ids)
  case (Cons i ids)
  then show ?case unfolding emit_expired.simps by (intro netreqs.moves_rules N_emit)
qed (simp add: netreqs.moves_ret)

lemmas N_rules = netreqs.moves_rules N_parts N_errors N_tick N_emit N_handle N_json N_let N_change N_emit_expired

lemmas handler_parts = touch_def heartbeat_def since_param_def fetch_proposal_def move_proposal_def follow_proposal_def
  known_transaction_def bind_session_def bound_data_def store_transaction_def permission_violations_def
  store_result_def known_run_def known_job_def set_job_def

lemma N_session_methods:
  "N (m_session_register w p)" "N (m_session_ping w p)" "N (m_session_status w p)" "N (m_session_list w p)"
  "N (m_session_current w p)" "N (m_session_reap w p)" "N (m_context_update w p)" "N (m_context_get w p)"
  "N (m_tunnel_status w p)" "N (m_tunnel_shutdown w p)" "N (m_event_list w p)" "N (m_event_wait_alone w p)"
  unfolding m_session_register_def m_session_ping_def m_session_status_def m_session_list_def m_session_current_def
    m_session_reap_def m_context_update_def m_context_get_def m_tunnel_status_def m_tunnel_shutdown_def
    m_event_list_def m_event_wait_alone_def handler_parts
  by (intro N_rules)+

lemma N_proposal_methods:
  "N (m_proposal_create w p)" "N (m_proposal_list w p)" "N (m_proposal_get w p)" "N (m_proposal_approve w p)"
  "N (m_proposal_reject w p)" "N (m_proposal_mark_applied w p)" "N (m_proposal_mark_failed w p)"
  "N (m_transaction_create w p)" "N (m_transaction_list w p)" "N (m_transaction_get w p)"
  "N (m_transaction_rollback w p)" "N (m_transaction_mark_rolled_back w p)" "N (m_transaction_mark_failed w p)"
  unfolding m_proposal_create_def m_proposal_list_def m_proposal_get_def m_proposal_approve_def m_proposal_reject_def
    m_proposal_mark_applied_def m_proposal_mark_failed_def m_transaction_create_def m_transaction_list_def
    m_transaction_get_def m_transaction_rollback_def m_transaction_mark_rolled_back_def m_transaction_mark_failed_def
    handler_parts
  by (intro N_rules)+

lemma N_run_methods:
  "N (m_result_update w p)" "N (m_result_latest w p)" "N (m_constraint_check w p)" "N (m_run_create w p)"
  "N (m_run_list w p)" "N (m_run_get w p)" "N (m_run_set_status w p)" "N (m_run_attach w p)"
  "N (m_run_import_result w p)" "N (m_job_create w p)" "N (m_job_list w p)" "N (m_job_get w p)" "N (m_job_cancel w p)"
  "N (m_job_mark_running w p)" "N (m_job_mark_done w p)" "N (m_job_mark_failed w p)" "N (m_job_run w p)"
  unfolding m_result_update_def m_result_latest_def m_constraint_check_def m_run_create_def m_run_list_def
    m_run_get_def m_run_set_status_def m_run_attach_def m_run_import_result_def m_job_create_def m_job_list_def
    m_job_get_def m_job_cancel_def m_job_mark_running_def m_job_mark_done_def m_job_mark_failed_def m_job_run_def
    handler_parts
  by (intro N_rules)+

lemma N_channel_methods:
  "N (m_netlist_get w p)" "N (m_netlist_pending w p)" "N (m_extension_register w p)" "N (m_extension_unregister w p)"
  "N (m_extension_list w p)" "N (m_action_request w p)" "N (m_action_pending w p)" "N (m_action_complete w p)"
  "N (m_action_get w p)"
  unfolding m_netlist_get_def m_netlist_pending_def m_extension_register_def m_extension_unregister_def
    m_extension_list_def m_action_request_def m_action_pending_def m_action_complete_def m_action_get_def handler_parts
  by (intro N_rules)+

lemmas N_methods = N_session_methods N_proposal_methods N_run_methods N_channel_methods

text \<open>Messages of any other method\<close>

definition no_netlists :: "json list \<Rightarrow> bool" where
  "no_netlists msgs \<longleftrightarrow>
     (\<forall>msg \<in> set msgs. asked_method msg \<notin> {Some ''netlist.request'', Some ''netlist.complete''})"

lemma N_entries:
  "list_all (\<lambda>(n, fn). n = ''netlist.request'' \<or> n = ''netlist.complete'' \<or> (\<forall>p. N (fn p))) (method_table w)"
  unfolding method_table_def list.pred_inject case_prod_conv
  by (intro conjI TrueI) (simp_all only: N_methods simp_thms list.pred_inject)

lemma netlists_kept: "no_netlists msgs \<Longrightarrow> d_netlists (handle_messages w msgs s) = d_netlists s"
proof (induction msgs arbitrary: s)
  case (Cons msg msgs)
  have "N (tunnel_dispatch w msg)"
    unfolding tunnel_dispatch_def
  proof (rule netreqs.moves_dispatch)
    fix n fn p assume n: "asked_method msg = Some n" and fn: "methods w n = Some fn"
    from fn have "(n, fn) \<in> set (method_table w)" unfolding methods_def by (rule map_of_SomeD)
    with N_entries [of w] n Cons.prems show "N (fn p)" by (fastforce simp: list_all_iff no_netlists_def)
  qed
  then have "d_netlists (snd (tunnel_dispatch w msg s)) = d_netlists s"
    by (auto simp: same_netlists_def dest: movesD)
  with Cons show ?case by (simp add: no_netlists_def)
qed simp

subsection \<open>Calls of the netlister\<close>

lemma net_call_known:
  assumes "methods w meth = Some fn" and "fn params s = (Inr v, s')"
  shows "net_call w None meth params s = (Inr (py_or v (JObj [])), s')"
  using assms
  by (simp add: net_call_def tunnel_dispatch_def dispatch_def net_request_def call_method_def net_reply_def
      rpc_response_def dict_of_def Let_def)

lemma netlist_methods:
  "methods w ''tunnel.status'' = Some (m_tunnel_status w)" "methods w ''netlist.request'' = Some (m_netlist_request w)"
  "methods w ''netlist.get'' = Some (m_netlist_get w)" "methods w ''netlist.complete'' = Some (m_netlist_complete w)"
  by (simp_all add: methods_def method_table_def)

lemma plugins_counted:
  assumes "session_list (d_sessions s) = Inr xs"
  shows "connected_plugins w None s = (Inr (int (length xs)), s\<lparr>d_clock := Suc (d_clock s)\<rparr>)"
proof -
  let ?s = "s\<lparr>d_clock := Suc (d_clock s)\<rparr>"
  obtain d where d: "m_tunnel_status w [] s = (Inr (JObj d), ?s)" "dget d ''sessions'' = JInt (int (length xs))" "d \<noteq> []"
    using assms by (auto simp: m_tunnel_status_def with_tick_def bind_query ask_def)
  from net_call_known [OF netlist_methods(1) d(1)] d show ?thesis
    by (simp add: connected_plugins_def py_or_def)
qed

text \<open>What the netlister asks for, and the id the tunnel gives its request\<close>

definition asked_for :: "string \<Rightarrow> string \<Rightarrow> string \<Rightarrow> string \<Rightarrow> dict" where
  "asked_for lib cell view corner =
     [(''cellview'', JObj [(''lib'', JStr lib), (''cell'', JStr cell), (''view'', JStr view)]), (''corner'', JStr corner)]"

definition next_request :: "world \<Rightarrow> daemon \<Rightarrow> string" where
  "next_request w s = ''nlr_'' @ uid (ticks w (d_clock s))"

definition request_is :: "string \<Rightarrow> daemon \<Rightarrow> dict \<Rightarrow> bool" where
  "request_is i s r \<longleftrightarrow> map_of (d_netlists s) (KStr i) = Some r"

lemma emit_netlists: "d_netlists (snd (emit_event w ty p s)) = d_netlists s"
  by (simp add: emit_event_def with_tick_def change_def)

lemma request_stored:
  obtains v r s' where "net_call w None ''netlist.request'' (asked_for lib cell view corner) s = (Inr v, s')"
    and "jget v ''request_id'' = Inr (JStr (next_request w s))" and "request_is (next_request w s) s' r"
    and "dget r ''status'' = JStr ''pending''" and "dget r ''cellview'' = dget (asked_for lib cell view corner) ''cellview''"
proof -
  let ?p = "asked_for lib cell view corner" and ?i = "next_request w s"
  obtain r where r: "netlist_create (ticks w (d_clock s)) (dget ?p ''cellview'', dget ?p ''corner'') (d_netlists s) =
      (Inr r, AList.update (KStr ?i) r (d_netlists s))" "dget r ''request_id'' = JStr ?i"
      "dget r ''status'' = JStr ''pending''" "dget r ''cellview'' = dget ?p ''cellview''"
    by (simp add: netlist_create_def next_request_def Let_def)
  obtain v s' where "m_netlist_request w ?p s = (Inr v, s')" "jget v ''request_id'' = Inr (JStr ?i)" "truthy v"
      "d_netlists s' = AList.update (KStr ?i) r (d_netlists s)"
    using r by (auto simp: m_netlist_request_def asked_for_def bind_def emit_netlists with_tick_def on_netlists_def
        zoom_def ret_def)
  with net_call_known [OF netlist_methods(2) this(1)] r show ?thesis
    by (intro that [of v s' r]) (simp_all add: py_or_def request_is_def)
qed

text \<open>One look at a stored request\<close>

definition verdict_of :: "dict \<Rightarrow> found option" where
  "verdict_of r =
     (if py_eq (dget r ''status'') (JStr ''done'') then Some (Inr (py_or (dget r ''deck'') JNull, []))
      else if py_eq (dget r ''status'') (JStr ''failed'') then Some (plugin_says (py_str (dget r ''error''))) else None)"

lemma look_stored:
  assumes "request_is i s r" and "i \<noteq> []"
  shows "look_at w None (JStr i) s = (verdict_of r, s)"
proof -
  have "m_netlist_get w [(''request_id'', JStr i)] s = (Inr (JObj [(''request'', JObj r)]), s)"
    using assms by (simp add: m_netlist_get_def bind_query request_get_def request_is_def ret_def)
  from net_call_known [OF netlist_methods(3) this] show ?thesis
    by (cases "r = []") (simp_all add: look_at_def dict_of_def py_or_def verdict_of_def)
qed

text \<open>Waiting: nothing happens to a pending request while no message is about netlists.\<close>

definition quiet_until :: "rat \<Rightarrow> schedule \<Rightarrow> bool" where
  "quiet_until deadline sch \<longleftrightarrow> (\<forall>(t, msgs) \<in> set sch. t < deadline \<and> no_netlists msgs)"

definition after_quiet :: "world \<Rightarrow> schedule \<Rightarrow> daemon \<Rightarrow> daemon" where
  "after_quiet w sch s = fold (\<lambda>(t, msgs). handle_messages w msgs) sch s"

lemma after_quiet_keeps:
  "quiet_until deadline sch \<Longrightarrow> d_netlists (after_quiet w sch s) = d_netlists s"
  by (induction sch arbitrary: s) (auto simp: quiet_until_def after_quiet_def netlists_kept)

lemma poll_waits:
  assumes "request_is i s r" and "i \<noteq> []" and "verdict_of r = None" and "since_t < deadline" and "quiet_until deadline sch"
  shows "poll_deck g w None deadline (JStr i) since_t (sch @ (t, msgs) # rest) s =
    poll_deck g w None deadline (JStr i) t rest (handle_messages w msgs (after_quiet w sch s))"
  using assms
proof (induction sch arbitrary: since_t s)
  case Nil
  then show ?case by (simp add: poll_deck.simps look_stored after_quiet_def)
next
  case (Cons x sch)
  obtain t1 m1 where x: "x = (t1, m1)" by fastforce
  let ?s = "handle_messages w m1 s"
  from Cons.prems have "request_is i ?s r" by (simp add: x quiet_until_def request_is_def netlists_kept)
  moreover from Cons.prems have "t1 < deadline" "quiet_until deadline sch" by (simp_all add: x quiet_until_def)
  ultimately have "poll_deck g w None deadline (JStr i) t1 (sch @ (t, msgs) # rest) ?s =
      poll_deck g w None deadline (JStr i) t rest (handle_messages w msgs (after_quiet w sch ?s))"
    using Cons.IH Cons.prems by blast
  moreover have "poll_deck g w None deadline (JStr i) since_t ((x # sch) @ (t, msgs) # rest) s =
      poll_deck g w None deadline (JStr i) t1 (sch @ (t, msgs) # rest) ?s"
    using Cons.prems by (subst poll_deck.simps) (simp add: x look_stored)
  ultimately show ?case by (simp add: x after_quiet_def)
qed

text \<open>A plugin's delivery\<close>

definition delivery :: "string \<Rightarrow> string \<Rightarrow> dict \<Rightarrow> json" where
  "delivery mid i p = rpc_request mid ''netlist.complete'' ((''request_id'', JStr i) # p)"

lemma delivered:
  assumes "request_is i s r" and "i \<noteq> []"
  obtains r' where "request_is i (snd (tunnel_dispatch w (delivery mid i p) s)) r'"
    and "verdict_of r' = Some (if truthy (dget p ''error'') then plugin_says (py_str (dget p ''error''))
      else Inr (py_or (dget p ''deck'') JNull, []))"
proof -
  let ?p = "(''request_id'', JStr i) # p"
  obtain r' m' where r': "netlist_complete (ticks w (d_clock s)) (JStr i) (dget p ''deck'') (dget p ''error'') (d_netlists s) =
      (Inr (Some r'), m')" "map_of m' (KStr i) = Some r'"
      "dget r' ''status'' = JStr (if truthy (dget p ''error'') then ''failed'' else ''done'')"
      "dget r' ''deck'' = dget p ''deck''" "dget r' ''error'' = dget p ''error''"
    using assms by (auto simp: netlist_complete_def request_is_def Let_def)
  have "\<exists>v s'. m_netlist_complete w ?p s = (Inr v, s') \<and> d_netlists s' = m'"
    using r'(1) assms(2) by (auto simp: m_netlist_complete_def Let_def bind_def emit_netlists with_tick_def on_netlists_def
        zoom_def ret_def)
  then have "d_netlists (snd (tunnel_dispatch w (delivery mid i p) s)) = m'"
    by (auto simp: tunnel_dispatch_def delivery_def dispatch_request netlist_methods call_method_def)
  with r' show ?thesis by (intro that [of r']) (auto simp: request_is_def verdict_of_def)
qed

subsection \<open>Quoting\<close>

abbreviation escape_quote :: "string \<Rightarrow> string" where
  "escape_quote \<equiv> replace_char CHR 0x27 [CHR 0x27, CHR 0x5C, CHR 0x27, CHR 0x27]"

lemma shlex_in_quotes:
  "shlex (In_Quote CHR 0x27) tok q (escape_quote s @ CHR 0x27 # rest) = shlex In_Word (rev s @ tok) True rest"
  by (induction s arbitrary: tok q) (auto simp: replace_char_def is_shlex_space_def is_quote_def)

lemma shlex_quoted:
  "shlex Between tok q (shell_quote s @ rest) = shlex In_Word (rev s) True rest"
  "shlex In_Word tok q (shell_quote s @ rest) = shlex In_Word (rev s @ tok) True rest"
  by (simp_all add: shell_quote_def is_shlex_space_def is_quote_def shlex_in_quotes)

subsection \<open>Properties\<close>

text \<open>
  C38. What runs on the other host is what would run here. The command line sent over ssh, read by a
  POSIX shell, is the local one with the two settings in front of it: same program, same options, and
  the expression as one word, whatever characters the settings and the expression have.
\<close>

theorem remote_command_read_back:
  "shlex_split (remote_command g expr) =
     Some ([''RB_DAEMON_PATH='' @ g_daemon g, ''VB_SPECTRE_CMD='' @ g_spectre g] @ vcli_argv (g\<lparr>g_target := []\<rparr>) expr)"
  by (simp add: shlex_split_def remote_command_def vcli_argv_def is_local_def shlex_quoted is_shlex_space_def is_quote_def
      strip_def lstrip_def rstrip_def shlex_quoted [where rest = "[]", simplified])

lemma handle_messages_append:
  "handle_messages w (xs @ ys) s = handle_messages w ys (handle_messages w xs s)"
  by (induction xs arbitrary: s) simp_all

lemma plugin_polls:
  assumes "session_list (d_sessions s) = Inr xs" and "xs \<noteq> []"
    and i: "i = next_request w (s\<lparr>d_clock := Suc (d_clock s)\<rparr>)"
    and "0 < g_timeout g" and "quiet_until (since_t + of_int (g_timeout g)) sch"
  obtains r s1 where "request_is i s1 r" and "i \<noteq> []" and "verdict_of r = None"
    and "plugin_backend g w None lib cell view corner since_t (sch @ (t, msgs) # rest) s =
      poll_deck g w None (since_t + of_int (g_timeout g)) (JStr i) t rest (handle_messages w msgs s1)"
proof -
  let ?s = "s\<lparr>d_clock := Suc (d_clock s)\<rparr>"
  have ne: "i \<noteq> []" by (simp add: i next_request_def)
  obtain v r s2 where r: "net_call w None ''netlist.request'' (asked_for lib cell view corner) ?s = (Inr v, s2)"
      "jget v ''request_id'' = Inr (JStr i)" "request_is i s2 r" "dget r ''status'' = JStr ''pending''"
    unfolding i by (rule request_stored [where s = ?s and w = w and lib = lib and cell = cell and view = view and corner = corner])
  have pend: "verdict_of r = None" using r(4) by (simp add: verdict_of_def)
  have "since_t < since_t + of_int (g_timeout g)" using assms(4) by simp
  from poll_waits [OF r(3) ne pend this assms(5)] r(1,2) ne assms(2)
  have "plugin_backend g w None lib cell view corner since_t (sch @ (t, msgs) # rest) s =
      poll_deck g w None (since_t + of_int (g_timeout g)) (JStr i) t rest (handle_messages w msgs (after_quiet w sch s2))"
    by (simp add: plugin_backend_def plugins_counted [OF assms(1)] asked_for_def)
  moreover have "request_is i (after_quiet w sch s2) r"
    using r(3) after_quiet_keeps [OF assms(5), of w s2] by (simp add: request_is_def)
  ultimately show ?thesis using that ne pend by blast
qed

text \<open>
  C36. A plugin's deck reaches the netlister. With a connected session, and a plugin that completes the
  request before the deadline, the netlister returns exactly what the plugin sent: the deck, or no deck
  and the plugin's error message. Other clients may send any messages in between that are not netlist
  requests or completions.
\<close>

theorem plugin_backend_delivers:
  assumes "session_list (d_sessions s) = Inr xs" and "xs \<noteq> []"
    and "i = next_request w (s\<lparr>d_clock := Suc (d_clock s)\<rparr>)"
    and "0 < g_timeout g" and "quiet_until (since_t + of_int (g_timeout g)) sch" and t: "t < since_t + of_int (g_timeout g)"
    and quiet: "no_netlists before" "no_netlists after"
  shows "fst (plugin_backend g w None lib cell view corner since_t (sch @ (t, before @ delivery mid i p # after) # rest) s) =
    Some (if truthy (dget p ''error'') then plugin_says (py_str (dget p ''error'')) else Inr (py_or (dget p ''deck'') JNull, []))"
    (is "fst (plugin_backend g w None lib cell view corner since_t (sch @ (t, ?msgs) # rest) s) = Some ?answer")
proof (rule plugin_polls [OF assms(1-5), where msgs = ?msgs and t = t and rest = rest])
  fix r s1 assume r: "request_is i s1 r" "i \<noteq> []"
    and run: "plugin_backend g w None lib cell view corner since_t (sch @ (t, ?msgs) # rest) s =
      poll_deck g w None (since_t + of_int (g_timeout g)) (JStr i) t rest (handle_messages w ?msgs s1)"
  have "request_is i (handle_messages w before s1) r"
    using r(1) by (simp add: request_is_def netlists_kept [OF quiet(1)])
  from delivered [OF this r(2), where w = w and mid = mid and p = p] obtain r' where
    r': "request_is i (snd (tunnel_dispatch w (delivery mid i p) (handle_messages w before s1))) r'" "verdict_of r' = Some ?answer"
    by blast
  then have "request_is i (handle_messages w ?msgs s1) r'"
    by (simp add: handle_messages_append request_is_def netlists_kept [OF quiet(2)])
  from look_stored [OF this r(2)] r'(2) t show ?thesis
    unfolding run by (subst poll_deck.simps) simp
qed

text \<open>
  The netlister always comes back. If nobody completes the request before the deadline, the first
  look after it ends the wait with no deck and a message; without a connected plugin there is no
  request at all, and with no tunnel there is none either.
\<close>

theorem plugin_backend_gives_up:
  assumes "session_list (d_sessions s) = Inr xs"
  shows "(0 < g_timeout g \<and> xs \<noteq> [] \<and> quiet_until (since_t + of_int (g_timeout g)) sch \<and> since_t + of_int (g_timeout g) \<le> t \<longrightarrow>
      fst (plugin_backend g w None lib cell view corner since_t (sch @ (t, msgs) # rest) s) =
        Some (plugin_says (''timed out after '' @ show_int (g_timeout g) @ ''s''))) \<and>
    (xs = [] \<longrightarrow> plugin_backend g w None lib cell view corner since_t any s =
        (Some (plugin_says no_plugin), s\<lparr>d_clock := Suc (d_clock s)\<rparr>)) \<and>
    plugin_backend g w (Some m) lib cell view corner since_t any s = (Some (plugin_says m), s)"
proof (intro conjI impI)
  assume "0 < g_timeout g \<and> xs \<noteq> [] \<and> quiet_until (since_t + of_int (g_timeout g)) sch \<and> since_t + of_int (g_timeout g) \<le> t"
  then have late: "0 < g_timeout g" "xs \<noteq> []" "quiet_until (since_t + of_int (g_timeout g)) sch" "since_t + of_int (g_timeout g) \<le> t"
    by simp_all
  show "fst (plugin_backend g w None lib cell view corner since_t (sch @ (t, msgs) # rest) s) =
      Some (plugin_says (''timed out after '' @ show_int (g_timeout g) @ ''s''))"
  proof (rule plugin_polls [OF assms late(2) refl late(1,3), where msgs = msgs and t = t and rest = rest])
    fix r s1 i assume "plugin_backend g w None lib cell view corner since_t (sch @ (t, msgs) # rest) s =
        poll_deck g w None (since_t + of_int (g_timeout g)) (JStr i) t rest (handle_messages w msgs s1)"
    with late(4) show ?thesis by (simp add: poll_deck.simps)
  qed
next
  assume "xs = []"
  then show "plugin_backend g w None lib cell view corner since_t any s =
      (Some (plugin_says no_plugin), s\<lparr>d_clock := Suc (d_clock s)\<rparr>)"
    by (simp add: plugin_backend_def plugins_counted [OF assms])
next
  show "plugin_backend g w (Some m) lib cell view corner since_t any s = (Some (plugin_says m), s)"
    by (simp add: plugin_backend_def connected_plugins_def net_call_def)
qed

text \<open>
  Names are not quoted for SKILL. A library name with a double quote ends the string it is put in: the
  text sent to the persistent Virtuoso is the one of a complete call followed by whatever the name says,
  and two different cellviews can give the same text.
\<close>

definition call_of :: "netlister_conf \<Rightarrow> string \<Rightarrow> string \<Rightarrow> string \<Rightarrow> string" where
  "call_of g lib cell view =
     ''progn( load('' @ dq (g_skill_dir g @ ''/vfp_utils.il'') @ '') load('' @ dq (g_skill_dir g @ ''/vfp_netlist.il'') @
     '') vfpNetlistCellView(dbOpenCellViewByType('' @ dq lib @ '' '' @ dq cell @ '' '' @ dq view @ '' '' @ dq [] @ '' '' @
     dq ''r'' @ '')) ''"

theorem vcli_names_unquoted:
  "\<exists>lib. \<forall>cell view corner. \<exists>tail. vcli_skill g lib cell view corner = call_of g ''L'' ''C'' ''V'' @ ''system('' @ dq cmd @ '') '' @ tail"
  "vcli_skill g (a @ CHR 0x22 # '' '' @ CHR 0x22 # b) c v k = vcli_skill g a (b @ CHR 0x22 # '' '' @ CHR 0x22 # c) v k"
proof -
  let ?lib = "''L'' @ CHR 0x22 # '' '' @ dq ''C'' @ '' '' @ dq ''V'' @ '' '' @ dq [] @ '' '' @ dq ''r'' @ '')) system('' @ dq cmd @
    '') list(list('' @ [CHR 0x22]"
  show "\<exists>lib. \<forall>cell view corner. \<exists>tail.
      vcli_skill g lib cell view corner = call_of g ''L'' ''C'' ''V'' @ ''system('' @ dq cmd @ '') '' @ tail"
    by (rule exI [of _ ?lib]) (simp add: vcli_skill_def call_of_def dq_def)
  show "vcli_skill g (a @ CHR 0x22 # '' '' @ CHR 0x22 # b) c v k = vcli_skill g a (b @ CHR 0x22 # '' '' @ CHR 0x22 # c) v k"
    by (simp add: vcli_skill_def dq_def)
qed

subsection \<open>Concrete instances\<close>

definition demo_netlister :: netlister_conf where
  "demo_netlister = \<lparr>g_target = ''local'', g_vcli = ''vcli'', g_daemon = ''vd'', g_spectre = ''spectre'', g_skill_dir = ''/s'',
     g_timeout = 120\<rparr>"

definition demo_connected :: daemon where
  "demo_connected = demo_daemon\<lparr>d_sessions := \<lparr>mem = [(KStr ''s_1'', [(''session_id'', JStr ''s_1'')])], disk = []\<rparr>\<rparr>"

lemma demo_sessions: "session_list (d_sessions demo_connected) = Inr [[(''session_id'', JStr ''s_1'')]]"
  by code_simp

theorem plugin_backend_delivers_witness:
  "fst (plugin_backend demo_netlister demo_world None ''L'' ''C'' ''schematic'' ''Nominal'' 0
     ([(1, [demo_call ''tunnel.status'' []])] @
      (2, [demo_call ''netlist.pending'' []] @
        delivery ''7'' (next_request demo_world (demo_connected\<lparr>d_clock := Suc (d_clock demo_connected)\<rparr>))
          [(''deck'', JStr ''/n/input.scs'')] # []) # []) demo_connected) =
   Some (Inr (JStr ''/n/input.scs'', []))"
proof -
  have q: "quiet_until (0 + of_int (g_timeout demo_netlister)) [(1, [demo_call ''tunnel.status'' []])]"
    "no_netlists [demo_call ''netlist.pending'' []]" "no_netlists []"
    by (simp_all add: quiet_until_def no_netlists_def demo_call_def asked_method_def rpc_request_def demo_netlister_def)
  have g: "0 < g_timeout demo_netlister" "(2 :: rat) < 0 + of_int (g_timeout demo_netlister)"
    by (simp_all add: demo_netlister_def)
  from plugin_backend_delivers [OF demo_sessions _ refl g(1) q(1) g(2) q(2,3)] show ?thesis by (simp add: py_or_def)
qed

theorem plugin_backend_gives_up_witness:
  "fst (plugin_backend demo_netlister demo_world None ''L'' ''C'' ''schematic'' ''Nominal'' 0
     ([(1, [demo_call ''tunnel.status'' []])] @ (120, []) # []) demo_connected) =
   Some (plugin_says (''timed out after '' @ show_int 120 @ ''s''))"
proof -
  have q: "quiet_until (0 + of_int (g_timeout demo_netlister)) [(1, [demo_call ''tunnel.status'' []])]"
    by (simp add: quiet_until_def no_netlists_def demo_call_def asked_method_def rpc_request_def demo_netlister_def)
  show ?thesis
    using plugin_backend_gives_up [OF demo_sessions, where g = demo_netlister and w = demo_world and lib = "''L''" and cell = "''C''"
        and view = "''schematic''" and corner = "''Nominal''" and since_t = 0 and t = 120 and msgs = "[]" and rest = "[]"
        and sch = "[(1, [demo_call ''tunnel.status'' []])]"] q
    by (simp add: demo_netlister_def)
qed

end
