(* ===== verification/Real_Spectre.thy ===== *)
theory Real_Spectre
  imports Simulation_Wrapper
begin

section \<open>The example simulator job\<close>

text \<open>
  \<open>scripts/real_spectre_job.py\<close>: a fixed divider that is simulated and measured, on the files, the
  programs and the output of \<open>Simulation_Wrapper\<close>. The number it prints with \<open>%g\<close> is written out:
  six significant digits, without trailing zeros.
\<close>

definition NETLIST :: string where
  "NETLIST = concat (map (\<lambda>row. row @ [CHR 0x0A])
     [''simulator lang=spectre'', ''save mid'', ''V1 (in 0)   vsource dc=1 type=dc'', ''R1 (in mid) resistor r=1k'',
      ''R2 (mid 0)  resistor r=1k'', ''dcOp dc''])"

subsection \<open>The number of the output line\<close>

definition trim_zeros :: "string \<Rightarrow> string" where
  "trim_zeros s = (if CHR ''.'' \<in> set s then rev (dropWhile (\<lambda>c. c = CHR ''.'') (dropWhile (\<lambda>c. c = CHR ''0'') (rev s))) else s)"

text \<open>Six digits \<open>d1 d2 ... d6\<close> standing for \<open>d1.d2...d6 * 10 ^ e\<close>\<close>

definition g_digits :: "string \<Rightarrow> int \<Rightarrow> string" where
  "g_digits ds e =
     (if - 4 \<le> e \<and> e < 6
      then trim_zeros (if e < 0 then ''0.'' @ replicate (nat (- e) - 1) CHR ''0'' @ ds
                       else take (nat e + 1) ds @ ''.'' @ drop (nat e + 1) ds)
      else let m = show_nat (nat \<bar>e\<bar>)
           in trim_zeros (take 1 ds @ ''.'' @ drop 1 ds) @ (if e < 0 then ''e-'' else ''e+'') @
              (if length m < 2 then CHR ''0'' # m else m))"

definition g_pos :: "rat \<Rightarrow> string" where
  "g_pos q =
     (let e = dec_exp q; m = round_half_even (q / pow10 (e - 5))
      in if m = 1000000 then g_digits ''100000'' (e + 1) else g_digits (show_nat (nat m)) e)"

fun show_g :: "pyfloat \<Rightarrow> string" where
  "show_g (Fin q) = (if q = 0 then ''0'' else if q < 0 then CHR ''-'' # g_pos (- q) else g_pos q)"
| "show_g PInf = ''inf''"
| "show_g NInf = ''-inf''"
| "show_g NaN = ''nan''"

subsection \<open>Reading the operating point\<close>

definition number_char :: "char \<Rightarrow> bool" where
  "number_char c = (c \<in> set ''-0123456789.eE+'')"

text \<open>White space, a quoted word, white space, the quoted unit, white space, and the characters of a number\<close>

definition mid_match :: "string \<Rightarrow> string option" where
  "mid_match row =
     (case scan_quoted (lstrip row) of
        None \<Rightarrow> None
      | Some (n, r) \<Rightarrow>
          (if n \<noteq> ''mid'' then None
           else case Option.bind (scan_spaces r) scan_quoted of
                  None \<Rightarrow> None
                | Some (u, t) \<Rightarrow>
                    (if u \<noteq> ''V'' then None
                     else case scan_spaces t of
                            None \<Rightarrow> None
                          | Some v \<Rightarrow> (let w = takeWhile number_char v in if w = [] then None else Some w))))"

fun first_mid :: "string list \<Rightarrow> exn + pyfloat option" where
  "first_mid [] = Inr None"
| "first_mid (row # rows) =
     (case mid_match row of
        None \<Rightarrow> first_mid rows
      | Some w \<Rightarrow>
          (case parse_float w of
             None \<Rightarrow> Inl (ValueError (''could not convert string to float: '' @ repr_str w))
           | Some x \<Rightarrow> Inr (Some x)))"

definition read_mid :: "files \<Rightarrow> string \<Rightarrow> exn + pyfloat option" where
  "read_mid fs dc =
     (if \<not> path_exists fs dc then Inr None
      else case read_path fs dc of Inl e \<Rightarrow> Inl e | Inr text \<Rightarrow> first_mid (file_lines text))"

subsection \<open>The program\<close>

definition mid_text :: "pyfloat \<Rightarrow> string" where
  "mid_text x =
     CHR ''{'' # json_str ''metrics'' @ '': {'' @ json_str ''V_mid'' @ '': '' @ json_float x @ '', '' @
     json_str ''spectre_ok'' @ '': 1.0}}''"

definition write_text :: "(string \<Rightarrow> bool) \<Rightarrow> string \<Rightarrow> string \<Rightarrow> unit wrapper_op" where
  "write_text writes path text =
     (if \<not> writes path then raise (OSError (''cannot open '' @ path))
      else change (\<lambda>x. x\<lparr>x_files := AList.update path text (x_files x)\<rparr>))"

definition real_main :: "wrapper_world \<Rightarrow> int wrapper_op" where
  "real_main w =
     (let wd = w_cwd w
      in seq (write_text (w_writes w) (os_join wd ''tb.scs'') NETLIST)
           (bind (on_files (w_run w [SPECTRE (w_env w), ''tb.scs'', ''+log'', ''spectre.out'', ''-format'', ''psfascii'', ''-raw'', ''./psf'']))
             (\<lambda>(code, log). if code \<noteq> 0 then seq (warn (last_chars 800 log)) (ret 1)
                else bind (\<lambda>x. (read_mid (x_files x) (os_join (os_join wd ''psf'') ''dcOp.dc''), x))
                  (\<lambda>found. case found of
                     None \<Rightarrow> seq (warn ''real_spectre_job: could not parse V(mid) from PSF'') (ret 1)
                   | Some v \<Rightarrow>
                       seq (write_text (w_writes w) (os_join wd ''metrics.json'') (mid_text v))
                         (seq (change (\<lambda>x. x\<lparr>x_out := x_out x @ [''real spectre: V(mid)='' @ show_g v @ '', wrote metrics.json'']\<rparr>))
                           (ret 0))))))"

subsection \<open>What it leaves behind\<close>

text \<open>
  The job succeeds only with a measurement. When it ends with the exit code 0, its metrics file holds the
  number of the first line of the operating point that names the divider's middle node; otherwise the
  metrics file is what the simulator left there.
\<close>

theorem real_job_measures:
  assumes "real_main w x = (Inr n, x')"
  shows "\<exists>code txt fs. w_run w [SPECTRE (w_env w), ''tb.scs'', ''+log'', ''spectre.out'', ''-format'', ''psfascii'', ''-raw'', ''./psf'']
      (AList.update (os_join (w_cwd w) ''tb.scs'') NETLIST (x_files x)) = (Inr (code, txt), fs) \<and>
    (n = 0 \<and> code = 0 \<and> (\<exists>v. read_mid fs (os_join (os_join (w_cwd w) ''psf'') ''dcOp.dc'') = Inr (Some v) \<and>
        x_files x' = AList.update (os_join (w_cwd w) ''metrics.json'') (mid_text v) fs) \<or>
     n = 1 \<and> x_files x' = fs)"
  using assms
  by (auto simp: real_main_def write_text_def on_files_def zoom_def op_defs Let_def warn_def split: sum.splits prod.splits if_splits
      option.splits)

text \<open>An overflowing measurement is written as \<open>Infinity\<close>, which is no JSON.\<close>

theorem infinite_mid_written: "mid_text PInf = CHR ''{'' # json_str ''metrics'' @ '': {'' @ json_str ''V_mid'' @ '': Infinity, '' @
     json_str ''spectre_ok'' @ '': 1.0}}''"
  by (simp add: mid_text_def json_float_def)

end
