(* ===== verification/Wire.thy ===== *)
theory Wire
  imports Json_Reading JsonRpc
begin

section \<open>JSON-RPC on the wire\<close>

text \<open>
  \<open>rpc/transport.py\<close> below the messages: the server's lines are read from a stream of bytes, decoded and parsed, and the
  replies are written as text; the client sends one line and collects the answer from whatever pieces the socket gives it.
  A byte string is a list of characters. A line whose text has code points above 255 has no meaning in this model (None).
\<close>

subsection \<open>UTF-8\<close>

definition utf8_char :: "char \<Rightarrow> string" where
  "utf8_char c =
     (let n = of_char c :: nat
      in if n < 128 then [c] else [char_of (192 + n div 64), char_of (128 + n mod 64)])"

definition utf8_encode :: "string \<Rightarrow> string" where
  "utf8_encode s = concat (map utf8_char s)"

datatype decoded = Decoded string | Undecodable | Outside

fun put_decoded :: "char \<Rightarrow> decoded \<Rightarrow> decoded" where
  "put_decoded c (Decoded s) = Decoded (c # s)"
| "put_decoded c d = d"

fun outside_text :: "decoded \<Rightarrow> decoded" where
  "outside_text Undecodable = Undecodable"
| "outside_text d = Outside"

definition continues :: "char \<Rightarrow> bool" where
  "continues c = (128 \<le> (of_char c :: nat) \<and> (of_char c :: nat) < 192)"

text \<open>Shortest forms only, no surrogates, nothing above U+10FFFF\<close>

definition second_of_three :: "nat \<Rightarrow> char \<Rightarrow> bool" where
  "second_of_three n c =
     ((if n = 224 then 160 else 128) \<le> (of_char c :: nat) \<and> (of_char c :: nat) < (if n = 237 then 160 else 192))"

definition second_of_four :: "nat \<Rightarrow> char \<Rightarrow> bool" where
  "second_of_four n c =
     ((if n = 240 then 144 else 128) \<le> (of_char c :: nat) \<and> (of_char c :: nat) < (if n = 244 then 144 else 192))"

fun utf8_decode :: "string \<Rightarrow> decoded" where
  "utf8_decode [] = Decoded []"
| "utf8_decode (c # s) =
     (let n = of_char c :: nat
      in if n < 128 then put_decoded c (utf8_decode s)
         else if n < 194 then Undecodable
         else if n < 224 then
           (case s of
              d # r \<Rightarrow>
                (if \<not> continues d then Undecodable
                 else if n < 196 then put_decoded (char_of ((n - 192) * 64 + (of_char d - 128))) (utf8_decode r)
                 else outside_text (utf8_decode r))
            | _ \<Rightarrow> Undecodable)
         else if n < 240 then
           (case s of
              d # e # r \<Rightarrow> (if second_of_three n d \<and> continues e then outside_text (utf8_decode r) else Undecodable)
            | _ \<Rightarrow> Undecodable)
         else if n < 245 then
           (case s of
              d # e # g # r \<Rightarrow>
                (if second_of_four n d \<and> continues e \<and> continues g then outside_text (utf8_decode r) else Undecodable)
            | _ \<Rightarrow> Undecodable)
         else Undecodable)"

declare utf8_decode.simps(2) [simp del]

lemma utf8_decode_low: "(of_char c :: nat) < 128 \<Longrightarrow> utf8_decode (c # s) = put_decoded c (utf8_decode s)"
  by (simp add: utf8_decode.simps(2))

lemma utf8_decode_char: "utf8_decode (utf8_char c @ s) = put_decoded c (utf8_decode s)"
proof (cases "(of_char c :: nat) < 128")
  case True
  then show ?thesis by (simp add: utf8_char_def utf8_decode_low)
next
  case False
  define n where "n = (of_char c :: nat)"
  have n: "128 \<le> n" "n < 256" using False nat_of_char_less_256 [of c] by (simp_all add: n_def)
  then have q: "2 \<le> n div 64" "n div 64 < 4" by (simp_all add: less_mult_imp_div_less)
  have r: "n mod 64 < 64" by simp
  have codes: "(of_char (char_of (192 + n div 64) :: char) :: nat) = 192 + n div 64"
    "(of_char (char_of (128 + n mod 64) :: char) :: nat) = 128 + n mod 64"
    using q r by simp_all
  have "char_of (n div 64 * 64 + n mod 64) = c" by (simp add: n_def)
  moreover have "utf8_char c = [char_of (192 + n div 64), char_of (128 + n mod 64)]"
    using False by (simp add: utf8_char_def n_def Let_def)
  ultimately show ?thesis using q r codes by (simp add: utf8_decode.simps(2) continues_def Let_def)
qed

lemma utf8_decode_encode: "utf8_decode (utf8_encode s) = Decoded s"
  by (induction s) (simp_all add: utf8_encode_def utf8_decode_char)

lemma utf8_ascii: "list_all (\<lambda>c. (of_char c :: nat) < 128) s \<Longrightarrow> utf8_encode s = s"
  by (induction s) (simp_all add: utf8_encode_def utf8_char_def)

subsection \<open>The server\<close>

definition newline :: char where
  "newline = CHR 0x0A"

definition byte_space :: "char \<Rightarrow> bool" where
  "byte_space c = (c \<in> set [CHR '' '', CHR 0x09, CHR 0x0A, CHR 0x0B, CHR 0x0C, CHR 0x0D])"

definition byte_strip :: "string \<Rightarrow> string" where
  "byte_strip s = rev (dropWhile byte_space (rev (dropWhile byte_space s)))"

text \<open>The lines of a stream, each with its newline; the last may lack one\<close>

fun read_lines :: "string \<Rightarrow> string list" where
  "read_lines [] = []"
| "read_lines (c # s) =
     (if c = newline then [c] # read_lines s
      else case read_lines s of [] \<Rightarrow> [[c]] | l # ls \<Rightarrow> (c # l) # ls)"

text \<open>What the server makes of a line; None for a text the model's strings cannot hold\<close>

definition line_of :: "string \<Rightarrow> wire_line option" where
  "line_of raw =
     (if byte_strip raw = [] then Some Blank
      else case utf8_decode (byte_strip raw) of
             Undecodable \<Rightarrow> Some Garbled
           | Outside \<Rightarrow> None
           | Decoded t \<Rightarrow>
               (case json_loads t of Reads v \<Rightarrow> Some (Message v) | Refused \<Rightarrow> Some Garbled | Unheld \<Rightarrow> None))"

definition message_line :: "json \<Rightarrow> string" where
  "message_line v = utf8_encode (dumps v @ [newline])"

text \<open>\<open>_Handler.handle\<close>: what a connection that sent these bytes gets back\<close>

definition handle_bytes :: "(json \<Rightarrow> ('s, exn, json option) op) \<Rightarrow> string \<Rightarrow> 's \<Rightarrow> (string \<times> 's) option" where
  "handle_bytes f input s =
     map_option (\<lambda>ls. case serve_lines f ls s of (rs, s') \<Rightarrow> (concat (map message_line rs), s')) (those (map line_of (read_lines input)))"

subsection \<open>The client\<close>

text \<open>
  \<open>recv\<close> until there is a newline or an empty piece, which is the end of the stream. None: the pieces ran out, and the next
  \<open>recv\<close> waits until the timeout.
\<close>

fun recv_line :: "string \<Rightarrow> string list \<Rightarrow> string option" where
  "recv_line buf cs =
     (if newline \<in> set buf then Some buf
      else case cs of [] \<Rightarrow> None | c # cs' \<Rightarrow> (if c = [] then Some buf else recv_line (buf @ c) cs'))"

declare recv_line.simps [simp del]

definition wire_answer :: "string list \<Rightarrow> (exn + json) option" where
  "wire_answer cs =
     (case recv_line [] cs of
        None \<Rightarrow> Some (Inl (OSError ''timed out''))
      | Some buf \<Rightarrow>
          (let line = takeWhile (\<lambda>c. c \<noteq> newline) buf
           in if line = [] then Some (decode_reply None)
              else case utf8_decode line of
                     Undecodable \<Rightarrow> Some (Inl (ValueError ''not UTF-8''))
                   | Outside \<Rightarrow> None
                   | Decoded t \<Rightarrow>
                       (case json_loads t of
                          Reads v \<Rightarrow> Some (decode_reply (Some v))
                        | Refused \<Rightarrow> Some (Inl (ValueError ''not JSON''))
                        | Unheld \<Rightarrow> None)))"

text \<open>
  \<open>call\<close> over a connection: \<open>chop\<close> cuts the stream of the answer into the pieces \<open>recv\<close> returns; after them the stream ends.
\<close>

definition wire_call ::
  "(string \<Rightarrow> 's rpc_method option) \<Rightarrow> (string \<Rightarrow> string list) \<Rightarrow> string \<Rightarrow> string \<Rightarrow> dict \<Rightarrow> 's \<Rightarrow> ((exn + json) \<times> 's) option" where
  "wire_call methods chop mid meth params s =
     (case handle_bytes (dispatch methods) (message_line (rpc_request mid meth params)) s of
        None \<Rightarrow> None
      | Some (answer, s') \<Rightarrow> map_option (\<lambda>r. (r, s')) (wire_answer (chop answer @ [[]])))"

subsection \<open>Texts on the wire\<close>

definition printable :: "char \<Rightarrow> bool" where
  "printable c = (32 \<le> (of_char c :: nat) \<and> (of_char c :: nat) < 127)"

lemma printable_digit: "is_digit c \<Longrightarrow> printable c"
  by (auto simp: is_digit_def printable_def)

lemma printable_signs [simp]: "printable CHR ''-''" "printable CHR ''+''" "printable CHR ''.''" "printable CHR ''e''" "printable CHR 0x22"
  "printable CHR '' ''" "printable CHR '',''" "printable CHR '':''" "printable CHR ''[''" "printable CHR '']''" "printable CHR ''{''"
  "printable CHR ''}''"
  by (simp_all add: printable_def)

lemma printable_digits: "list_all is_digit s \<Longrightarrow> list_all printable s"
  by (simp add: list_all_iff printable_digit)

lemma printable_show_int: "list_all printable (show_int i)"
  using printable_digits [OF show_nat_is_digit] by (simp add: show_int_def)

lemma printable_json_char: "list_all printable (json_char c)"
proof -
  have hex: "printable (hex_digit k)" if "k < 16" for k
    using that by (auto simp: hex_digit_def printable_def)
  have "(of_char c :: nat) < 16 * 16" using nat_of_char_less_256 [of c] by simp
  then have "(of_char c :: nat) div 16 < 16" by (rule less_mult_imp_div_less)
  with hex [of "of_char c div 16"] hex [of "of_char c mod 16"] show ?thesis
    by (simp add: json_char_def Let_def) (simp add: printable_def)
qed

lemma printable_json_str: "list_all printable (json_str s)"
  by (induction s) (simp_all add: json_str_def printable_json_char)

lemma printable_decimal: "decimal_ok d \<Longrightarrow> list_all printable (decimal_text d)"
  by (cases d) (auto simp: printable_digits split: option.splits)

lemma printable_join: "list_all (list_all printable) ts \<Longrightarrow> list_all printable (join '', '' ts)"
  by (induction ts) (auto simp: join_Cons)

lemma printable_dumps: "json_ok v \<Longrightarrow> list_all printable (dumps v)"
proof (induction v)
  case (JFloat x)
  show ?case
  proof (cases x)
    case (Fin q)
    from JFloat have "is_double (Fin q)" by (simp add: Fin)
    then show ?thesis by (cases rule: flt_repr_decimal) (simp_all add: Fin json_float_def printable_decimal)
  qed (simp_all add: json_float_def printable_def)
next
  case (JList xs)
  then have "list_all printable (join '', '' (map dumps xs))"
    by (intro printable_join) (auto simp: list_all_iff)
  then show ?case by simp
next
  case (JObj d)
  then have "list_all printable (dumps v)" if "(k, v) \<in> set d" for k v
    using that JObj(1) [OF that, of v] by (auto simp: list_all_iff)
  then have "list_all printable (join '', '' (map (\<lambda>(k, v). json_str k @ '': '' @ dumps v) d))"
    by (intro printable_join) (auto simp: list_all_iff [of "list_all printable"] printable_json_str)
  then show ?case by simp
qed (simp_all add: printable_show_int printable_json_str printable_def)

text \<open>A text neither begins nor ends with white space, so stripping a line leaves it whole.\<close>

lemma last_decimal: "decimal_ok d \<Longrightarrow> is_digit (last (decimal_text d))"
  by (cases d) (auto simp: list_all_iff split: option.splits)

lemma last_json_str [simp]: "last (json_str s) = CHR 0x22"
  by (simp add: json_str_def)

lemma not_space_digit: "is_digit c \<Longrightarrow> \<not> byte_space c"
  by (auto simp: is_digit_def byte_space_def)

lemma last_dumps: "json_ok v \<Longrightarrow> \<not> byte_space (last (dumps v))"
proof (cases v)
  case (JInt i)
  have "is_digit (last (show_nat n))" for n using show_nat_is_digit [of n] show_nat_not_Nil [of n] by (simp add: list_all_iff)
  with JInt show ?thesis using show_nat_not_Nil by (simp add: show_int_def not_space_digit)
next
  case (JFloat x)
  assume "json_ok v"
  show ?thesis
  proof (cases x)
    case (Fin q)
    from \<open>json_ok v\<close> have "is_double (Fin q)" by (simp add: Fin JFloat)
    then show ?thesis
    proof (cases rule: flt_repr_decimal)
      case (minus d)
      moreover from this(1) have "decimal_text d \<noteq> []" by (cases d) auto
      ultimately show ?thesis using last_decimal [of d] by (simp add: Fin JFloat json_float_def not_space_digit)
    qed (simp add: Fin JFloat json_float_def last_decimal not_space_digit)
  qed (simp_all add: JFloat json_float_def byte_space_def)
qed (simp_all add: byte_space_def)

lemma byte_strip_whole: "s \<noteq> [] \<Longrightarrow> \<not> byte_space (hd s) \<Longrightarrow> \<not> byte_space (last s) \<Longrightarrow> byte_strip (s @ [newline]) = s"
proof -
  assume s: "s \<noteq> []" "\<not> byte_space (hd s)" "\<not> byte_space (last s)"
  have "dropWhile byte_space (s @ [newline]) = s @ [newline]" using s by (cases s) simp_all
  moreover have "dropWhile byte_space (rev s) = rev s" using s by (cases s rule: rev_cases) simp_all
  moreover have "byte_space newline" by (simp add: byte_space_def newline_def)
  ultimately show "byte_strip (s @ [newline]) = s" by (simp add: byte_strip_def)
qed

lemma byte_strip_dumps:
  assumes "json_ok v" shows "byte_strip (dumps v @ [newline]) = dumps v" and "dumps v \<noteq> []"
proof -
  have d: "dumps v \<noteq> []" "\<not> json_space (hd (dumps v))" using reads_dumps [OF assms] by (simp_all add: reads_value_def)
  moreover have "printable (hd (dumps v))" using printable_dumps [OF assms] d(1) by (cases "dumps v") simp_all
  ultimately have "\<not> byte_space (hd (dumps v))" by (auto simp: byte_space_def json_space_def printable_def)
  with d last_dumps [OF assms] show "byte_strip (dumps v @ [newline]) = dumps v" by (intro byte_strip_whole)
qed (use reads_dumps [OF assms] in \<open>simp add: reads_value_def\<close>)

lemma utf8_printable: "list_all printable s \<Longrightarrow> utf8_encode s = s"
  by (rule utf8_ascii, rule list.pred_mono_strong [of printable]) (simp_all add: printable_def)

lemmas ascii_dumps = utf8_printable [OF printable_dumps]

lemma utf8_encode_append: "utf8_encode (s @ t) = utf8_encode s @ utf8_encode t"
  by (simp add: utf8_encode_def)

lemma message_line_eq: "json_ok v \<Longrightarrow> message_line v = dumps v @ [newline]"
  by (simp add: message_line_def utf8_encode_append ascii_dumps) (simp add: utf8_encode_def utf8_char_def newline_def)

lemma newline_dumps: "json_ok v \<Longrightarrow> newline \<notin> set (dumps v)"
  using printable_dumps [of v] by (auto simp: list_all_iff printable_def newline_def dest!: bspec)

lemma loads_dumps: "json_ok v \<Longrightarrow> json_loads (dumps v) = Reads v"
  using loads_reads [OF reads_dumps, of v "[]" "[]"] by simp

lemma decode_dumps: "json_ok v \<Longrightarrow> utf8_decode (dumps v) = Decoded (dumps v)"
  using utf8_decode_encode [of "dumps v"] ascii_dumps by simp

lemma line_of_message: "json_ok v \<Longrightarrow> line_of (message_line v) = Some (Message v)"
  by (simp add: line_of_def message_line_eq byte_strip_dumps decode_dumps loads_dumps)

lemma read_lines_line: "newline \<notin> set l \<Longrightarrow> read_lines (l @ newline # r) = (l @ [newline]) # read_lines r"
  by (induction l) auto

lemma read_lines_message: "json_ok v \<Longrightarrow> read_lines (message_line v @ r) = message_line v # read_lines r"
  by (simp add: message_line_eq read_lines_line newline_dumps)

lemma read_messages:
  "list_all json_ok ms \<Longrightarrow> map line_of (read_lines (concat (map message_line ms))) = map (Some \<circ> Message) ms"
  by (induction ms) (simp_all add: read_lines_message line_of_message)

lemma those_Some: "those (map Some xs) = Some xs"
  by (induction xs) simp_all

lemma handle_bytes_messages:
  assumes "list_all json_ok ms"
  shows "handle_bytes f (concat (map message_line ms)) s =
    (case serve_lines f (map Message ms) s of (rs, s') \<Rightarrow> Some (concat (map message_line rs), s'))"
  using those_Some [of "map Message ms"] by (simp add: handle_bytes_def read_messages [OF assms] comp_def split: prod.split)

subsection \<open>Pieces of a stream\<close>

lemma recv_line_pieces:
  "[] \<notin> set cs \<Longrightarrow> newline \<in> set (buf @ concat cs) \<Longrightarrow>
   \<exists>b. recv_line buf (cs @ e) = Some b \<and> takeWhile (\<lambda>c. c \<noteq> newline) b = takeWhile (\<lambda>c. c \<noteq> newline) (buf @ concat cs)"
proof (induction cs arbitrary: buf)
  case Nil
  then show ?case by (simp add: recv_line.simps)
next
  case (Cons c cs)
  show ?case
  proof (cases "newline \<in> set buf")
    case True
    then have "takeWhile (\<lambda>c. c \<noteq> newline) (buf @ t) = takeWhile (\<lambda>c. c \<noteq> newline) buf" for t by (simp add: takeWhile_append1)
    with True show ?thesis by (simp add: recv_line.simps del: concat.simps)
  next
    case False
    moreover have "c \<noteq> []" using Cons(2) by auto
    ultimately show ?thesis using Cons(1) [of "buf @ c"] Cons(2,3) by (simp add: recv_line.simps [of buf])
  qed
qed

lemma recv_line_end: "newline \<notin> set (buf @ concat cs) \<Longrightarrow> [] \<notin> set cs \<Longrightarrow> recv_line buf (cs @ [[]]) = Some (buf @ concat cs)"
proof (induction cs arbitrary: buf)
  case (Cons c cs)
  moreover have "c \<noteq> []" using Cons(3) by auto
  ultimately show ?case using Cons(1) [of "buf @ c"] by (simp add: recv_line.simps [of buf])
qed (simp add: recv_line.simps)

lemma recv_line_waits: "newline \<notin> set (buf @ concat cs) \<Longrightarrow> [] \<notin> set cs \<Longrightarrow> recv_line buf cs = None"
proof (induction cs arbitrary: buf)
  case (Cons c cs)
  moreover have "c \<noteq> []" using Cons(3) by auto
  ultimately show ?case using Cons(1) [of "buf @ c"] by (simp add: recv_line.simps [of buf])
qed (simp add: recv_line.simps)

lemma wire_answer_message:
  assumes "json_ok v" and "[] \<notin> set cs" and "concat cs = message_line v @ x"
  shows "wire_answer (cs @ e) = Some (decode_reply (Some v))"
proof -
  have "takeWhile (\<lambda>c. c \<noteq> newline) (concat cs) = dumps v"
    using newline_dumps [OF assms(1)] assms(1,3) by (auto simp: message_line_eq takeWhile_append)
  moreover have "newline \<in> set ([] @ concat cs)" using assms(1,3) by (simp add: message_line_eq)
  ultimately obtain b where "recv_line [] (cs @ e) = Some b" "takeWhile (\<lambda>c. c \<noteq> newline) b = dumps v"
    using recv_line_pieces [OF assms(2), of "[]" e] by auto
  with assms(1) show ?thesis by (simp add: wire_answer_def byte_strip_dumps decode_dumps loads_dumps)
qed

subsection \<open>Properties\<close>

text \<open>
  C26. Lines frame messages. A connection whose bytes are the texts of some messages, one per line, is served exactly as
  this sequence of messages, and the bytes it gets back are read, line by line, as exactly the server's replies: no text
  contains a line break, and none is split or joined.
\<close>

theorem wire_framing:
  assumes "list_all json_ok ms" and "serve_lines f (map Message ms) s = (rs, s')" and "list_all json_ok rs"
  shows "\<exists>out. handle_bytes f (concat (map message_line ms)) s = Some (out, s') \<and>
    those (map line_of (read_lines out)) = Some (map Message rs)"
  using handle_bytes_messages [OF assms(1), of f s] assms(2) those_Some [of "map Message rs"] read_messages [OF assms(3)]
  by (simp add: comp_def)

theorem wire_framing_witness:
  "\<exists>out. handle_bytes (\<lambda>m s. (Inr (Some m), Suc s)) (concat (map message_line [JStr [CHR 0x0A], JInt 7])) 0 = Some (out, 2) \<and>
    those (map line_of (read_lines out)) = Some (map Message [JStr [CHR 0x0A], JInt 7])"
  using wire_framing [of "[JStr [CHR 0x0A], JInt 7]" "\<lambda>m s. (Inr (Some m), Suc s)" 0 "[JStr [CHR 0x0A], JInt 7]" 2] by simp

text \<open>
  A bad line costs one reply. A line that is not UTF-8 or not JSON is answered with one parse error, without an id, and the
  rest of the connection is served as if the line had not been there.
\<close>

theorem garbled_line_answered:
  assumes "newline \<notin> set l" and "line_of (l @ [newline]) = Some Garbled" and "handle_bytes f rest s = Some (out, s')"
  shows "handle_bytes f (l @ newline # rest) s =
    Some (message_line (rpc_error JNull PARSE_ERROR ''Parse error'' None) @ out, s')"
proof -
  obtain ls where ls: "those (map line_of (read_lines rest)) = Some ls" using assms(3) by (auto simp: handle_bytes_def)
  obtain rs t where "serve_lines f ls s = (rs, t)" by fastforce
  with ls assms(3) have "serve_lines f ls s = (rs, s')" "out = concat (map message_line rs)" by (simp_all add: handle_bytes_def)
  with ls assms(1,2) show ?thesis by (simp add: handle_bytes_def read_lines_line)
qed

theorem garbled_line_answered_witness:
  "handle_bytes (\<lambda>m s. (Inr (Some m), Suc s)) (''{'' @ newline # message_line (JInt 7)) 0 =
    Some (message_line (rpc_error JNull PARSE_ERROR ''Parse error'' None) @ message_line (JInt 7), 1)"
proof (rule garbled_line_answered)
  show "newline \<notin> set ''{''" "line_of (''{'' @ [newline]) = Some Garbled" by code_simp+
  show "handle_bytes (\<lambda>m s. (Inr (Some m), Suc s)) (message_line (JInt 7)) 0 = Some (message_line (JInt 7), 1)"
    using handle_bytes_messages [of "[JInt 7]" "\<lambda>m s. (Inr (Some m), Suc s)" 0] by simp
qed

text \<open>What a method's outcome must be for its reply to be a JSON text.\<close>

fun outcome_ok :: "exn + json \<Rightarrow> bool" where
  "outcome_ok (Inr v) = json_ok v"
| "outcome_ok (Inl (RpcError c m (Some d))) = json_ok d"
| "outcome_ok (Inl e) = True"

lemma json_ok_error: "json_ok (rpc_error i c m None) = json_ok i" "json_ok (rpc_error i c m (Some d)) = (json_ok i \<and> json_ok d)"
  by (simp_all add: rpc_error_def Let_def)

lemma json_ok_guard: "outcome_ok (Inl e) \<Longrightarrow> json_ok i \<Longrightarrow> json_ok (guard_error i e)"
proof (cases e)
  case (RpcError c m data)
  assume "outcome_ok (Inl e)" "json_ok i"
  then show ?thesis by (cases data) (simp_all add: RpcError json_ok_error)
qed (simp_all add: json_ok_error)

lemma request_reply:
  assumes "\<And>fn r s'. methods meth = Some fn \<Longrightarrow> fn params s = (r, s') \<Longrightarrow> outcome_ok r"
  obtains r s' where "serve_lines (dispatch methods) [Message (rpc_request mid meth params)] s = ([r], s')" "json_ok r"
proof (cases "methods meth")
  case None
  then show ?thesis by (intro that [of "rpc_error (JStr mid) METHOD_NOT_FOUND (''Method not found: '' @ meth) None" s])
    (simp_all add: dispatch_request json_ok_error)
next
  case (Some fn)
  obtain r s' where f: "fn params s = (r, s')" by fastforce
  with assms Some have "outcome_ok r" by blast
  with f Some show ?thesis
    by (cases r) (auto simp: dispatch_request call_method_def rpc_response_def json_ok_guard intro!: that)
qed

text \<open>
  C23. A call over the wire is a call. For parameters and a result that are JSON values, and however the network cuts the
  answer into pieces, the client's \<open>call\<close> on bytes returns what the call on messages returns, with the same effect on the
  daemon: nothing is lost, reordered or read differently between the two programs.
\<close>

theorem wire_call_refines:
  assumes "json_ok (JObj params)" and "\<And>t. concat (chop t) = t \<and> [] \<notin> set (chop t)"
    and "\<And>fn r s'. methods meth = Some fn \<Longrightarrow> fn params s = (r, s') \<Longrightarrow> outcome_ok r"
  shows "wire_call methods chop mid meth params s = Some (call methods mid meth params s)"
proof -
  obtain r s' where r: "serve_lines (dispatch methods) [Message (rpc_request mid meth params)] s = ([r], s')" "json_ok r"
    using request_reply [of methods meth params s mid] assms(3) by blast
  have "json_ok (rpc_request mid meth params)" using assms(1) by (simp add: rpc_request_def)
  then have "handle_bytes (dispatch methods) (message_line (rpc_request mid meth params)) s = Some (message_line r, s')"
    using handle_bytes_messages [of "[rpc_request mid meth params]" "dispatch methods" s] r(1) by simp
  then show ?thesis
    using wire_answer_message [OF r(2), of "chop (message_line r)" "[]" "[[]]"] assms(2) r(1) by (simp add: wire_call_def call_def)
qed

theorem wire_call_refines_witness:
  "wire_call (\<lambda>n. if n = ''ping'' then Some (\<lambda>p s. (Inr (JObj p), Suc s)) else None) (map (\<lambda>c. [c])) ''a1'' ''ping'' [(''x'', JInt 1)] 0 =
    Some (Inr (JObj [(''x'', JInt 1)]), 1)"
proof -
  let ?m = "\<lambda>n. if n = ''ping'' then Some (\<lambda>p s. (Inr (JObj p), Suc s)) else None"
  have "wire_call ?m (map (\<lambda>c. [c])) ''a1'' ''ping'' [(''x'', JInt 1)] 0 = Some (call ?m ''a1'' ''ping'' [(''x'', JInt 1)] 0)"
    by (rule wire_call_refines) auto
  then show ?thesis by (simp add: call_known [OF _ refl])
qed

text \<open>
  C25. A reply that is cut short is never taken for a reply. When the connection ends before the whole text of the reply
  object has arrived, the client raises: "no response" if nothing has come, otherwise the parser's error; no prefix of a
  reply is read as a reply with another content.
\<close>

theorem cut_reply_raises:
  assumes "json_ok (JObj d)" and "concat cs @ q = dumps (JObj d)" and "q \<noteq> []" and "[] \<notin> set cs"
  shows "wire_answer (cs @ [[]]) =
    Some (Inl (if cs = [] then RpcError (- 32000) ''no response from tunnel'' None else ValueError ''not JSON''))"
proof -
  have ascii: "list_all printable (concat cs)" using printable_dumps [OF assms(1)] unfolding assms(2) [symmetric] by simp
  then have n: "newline \<notin> set (concat cs)" by (auto simp: list_all_iff printable_def newline_def dest!: bspec)
  then have l: "takeWhile (\<lambda>c. c \<noteq> newline) (concat cs) = concat cs" by (auto intro: takeWhile_eq_all_conv [THEN iffD2])
  have "recv_line [] (cs @ [[]]) = Some (concat cs)" using recv_line_end [of "[]" cs] n assms(4) by simp
  moreover have "utf8_decode (concat cs) = Decoded (concat cs)"
    using utf8_decode_encode [of "concat cs"] utf8_printable [OF ascii] by simp
  moreover have "json_loads (concat cs) = Refused" using json_loads_cut [OF reads_dumps [OF assms(1)] closed_objects(1) assms(2) [symmetric] assms(3)] .
  moreover have "concat cs = [] \<longleftrightarrow> cs = []" using assms(4) by (cases cs) auto
  ultimately show ?thesis by (simp add: wire_answer_def l decode_reply_def)
qed

theorem cut_reply_raises_witness:
  "wire_answer [''{'' @ [CHR 0x22] @ ''id'', [CHR 0x22] @ '': null'', []] = Some (Inl (ValueError ''not JSON''))"
  using cut_reply_raises [of "[(''id'', JNull)]" "[''{'' @ [CHR 0x22] @ ''id'', [CHR 0x22] @ '': null'']" "''}''"]
  by (simp add: json_str_def json_char_def)

end
