(* ===== verification/Disk_Texts.thy ===== *)
theory Disk_Texts
  imports Wire Events
begin

section \<open>The files as texts\<close>

text \<open>
  The stores of \<open>Record_Store\<close> and the log of \<open>Events\<close> with their files as texts: what \<open>_persist\<close> and \<open>_append_disk\<close>
  write, what \<open>_load\<close> reads, and what it finds after the machine has stopped in the middle of a write.
\<close>

subsection \<open>A file of one record\<close>

text \<open>A text that is read, refused, or (None) not held by the strings of the model\<close>

definition text_doc :: "string \<Rightarrow> doc option" where
  "text_doc s = (case json_loads s of Reads v \<Rightarrow> Some (Doc v) | Refused \<Rightarrow> Some Unreadable | Unheld \<Rightarrow> None)"

definition record_text :: "dict \<Rightarrow> string" where
  "record_text p = dumps_indent 0 (JObj p)"

record text_store =
  t_mem :: "(pkey \<times> dict) list"
  t_disk :: "(string \<times> string) list"

definition persist_text :: "string \<Rightarrow> tick \<Rightarrow> dict \<Rightarrow> (text_store, exn, unit) op" where
  "persist_text idf t p s =
     (if \<not> dirs_ok t then (Inr (), s)
      else case map_of p idf of
             None \<Rightarrow> (Inl (KeyError idf), s)
           | Some v \<Rightarrow>
               (case v of
                  JStr i \<Rightarrow>
                    (Inr (), if write_ok t \<and> plain_name i
                             then s\<lparr>t_disk := AList.update (i @ ''.json'') (record_text p) (t_disk s)\<rparr>
                             else s)
                | _ \<Rightarrow> (Inl (not_str_plus v), s)))"

definition read_disk :: "(string \<times> string) list \<Rightarrow> (string \<times> doc) list option" where
  "read_disk fs = those (map (\<lambda>(f, x). map_option (Pair f) (text_doc x)) fs)"

definition load_texts :: "string \<Rightarrow> (string \<times> string) list \<Rightarrow> (exn + (pkey \<times> dict) list) option" where
  "load_texts idf fs = map_option (load_records idf []) (read_disk fs)"

text \<open>The store of documents that a store of texts stands for\<close>

definition doc_store :: "text_store \<Rightarrow> rec_store option" where
  "doc_store s = map_option (\<lambda>ds. \<lparr>mem = t_mem s, disk = ds\<rparr>) (read_disk (t_disk s))"

subsection \<open>The event log\<close>

definition log_line :: "dict \<Rightarrow> string" where
  "log_line e = dumps (JObj e) @ [newline]"

definition load_event_file :: "nat \<Rightarrow> string \<Rightarrow> string option \<Rightarrow> event_log option" where
  "load_event_file n boot content =
     (case content of
        None \<Rightarrow> Some (EventLog_load n boot None)
      | Some txt \<Rightarrow>
          (let lns = splitlines txt
           in case (those (map (\<lambda>l. text_doc (strip l)) (tail_retain n lns)), those (map text_doc lns)) of
                (Some ts, Some ds) \<Rightarrow>
                  Some \<lparr>evs = List.map_filter line_event ts, seqno = max_seq 0 ds, retain = n, boot_id = boot, jsonl = ds\<rparr>
              | _ \<Rightarrow> None))"

subsection \<open>Texts and documents\<close>

lemma text_doc_record: "json_ok (JObj p) \<Longrightarrow> text_doc (record_text p) = Some (Doc (JObj p))"
  using loads_reads [OF reads_dumps_indent, of "JObj p" "[]" "[]" 0] by (simp add: text_doc_def record_text_def)

lemma text_doc_line: "json_ok v \<Longrightarrow> text_doc (dumps v) = Some (Doc v)"
  by (simp add: text_doc_def loads_dumps)

lemma text_doc_cut:
  "json_ok (JObj p) \<Longrightarrow> record_text p = x @ y \<Longrightarrow> y \<noteq> [] \<Longrightarrow> text_doc x = Some Unreadable"
  using json_loads_cut [OF reads_dumps_indent closed_objects(2)] by (simp add: text_doc_def record_text_def del: dumps_indent.simps)

lemma read_disk_Cons: "read_disk ((f, x) # fs) = Some ds \<longleftrightarrow> (\<exists>d ds'. text_doc x = Some d \<and> read_disk fs = Some ds' \<and> ds = (f, d) # ds')"
  by (auto simp: read_disk_def split: option.splits)

lemma read_disk_update:
  "read_disk fs = Some ds \<Longrightarrow> text_doc x = Some d \<Longrightarrow> read_disk (AList.update f x fs) = Some (AList.update f d ds)"
proof (induction fs arbitrary: ds)
  case Nil
  then show ?case by (simp add: read_disk_def)
next
  case (Cons a fs)
  obtain g y where a: "a = (g, y)" by fastforce
  with Cons(2) obtain e ds' where e: "text_doc y = Some e" "read_disk fs = Some ds'" "ds = (g, e) # ds'"
    by (auto simp: read_disk_Cons)
  with Cons(1) [OF e(2) Cons(3)] Cons(3) a show ?case by (auto simp: read_disk_Cons)
qed

lemma load_records_skip: "load_records idf m fs = load_records idf m (filter (\<lambda>(f, d). d \<noteq> Unreadable) fs)"
proof (induction fs arbitrary: m)
  case (Cons a fs)
  obtain f d where a: "a = (f, d)" by fastforce
  show ?case by (cases d) (simp_all add: a load_one_def Cons split: sum.split)
qed simp

lemma skip_update:
  "(\<And>f d. (f, d) \<in> set ds \<Longrightarrow> d \<noteq> Unreadable) \<Longrightarrow> distinct (map fst ds) \<Longrightarrow>
   filter (\<lambda>(f, d). d \<noteq> Unreadable) (AList.update g Unreadable ds) = AList.delete g ds"
proof (induction ds)
  case (Cons a ds)
  obtain f d where a: "a = (f, d)" by fastforce
  have "filter (\<lambda>(f, d). d \<noteq> Unreadable) ds = ds" using Cons(2) by (auto simp: filter_id_conv)
  moreover have "f \<notin> fst ` set ds" using Cons(3) by (simp add: a)
  moreover have "filter (\<lambda>(f, d). d \<noteq> Unreadable) (AList.update g Unreadable ds) = AList.delete g ds"
    using Cons(2,3) by (intro Cons(1)) auto
  ultimately show ?case using Cons(2) [of f d] by (cases "f = g") (simp_all add: a)
qed simp

lemma mirrored_forget:
  assumes "mirrored idf s" and "plain_id idf k q"
  shows "mirrored idf \<lparr>mem = AList.delete k (mem s), disk = AList.delete (key_file k) (disk s)\<rparr>"
proof -
  have inj: "k' = k" if "map_of (mem s) k' = Some p" "key_file k' = key_file k" for k' p
    using plain_id_file_inj [OF mirrored_plain [OF assms(1) that(1)] assms(2) that(2)] .
  have "distinct (map fst (AList.delete (key_file k) (disk s)))"
    using assms(1) AList.distinct_delete by (auto simp: mirrored_upto_def)
  moreover have "plain_id idf k' p \<and> map_of (AList.delete (key_file k) (disk s)) (key_file k') = Some (Doc (JObj p))"
    if "map_of (AList.delete k (mem s)) k' = Some p" for k' p
  proof -
    from that have "map_of (mem s) k' = Some p" "k' \<noteq> k" by (auto simp: AList.delete_conv' split: if_splits)
    moreover from this have "key_file k' \<noteq> key_file k" using inj by blast
    ultimately show ?thesis using assms(1) by (simp add: mirrored_upto_def)
  qed
  moreover have "\<exists>k' p q. f = key_file k' \<and> d = Doc (JObj q) \<and> plain_id idf k' q \<and> map_of (AList.delete k (mem s)) k' = Some p"
    if "map_of (AList.delete (key_file k) (disk s)) f = Some d" for f d
  proof -
    from that have f: "map_of (disk s) f = Some d" "f \<noteq> key_file k" by (auto simp: AList.delete_conv' split: if_splits)
    from mirrored_file [OF assms(1) f(1)] f(2) show ?thesis by (metis AList.map_of_delete)
  qed
  ultimately show ?thesis by (simp add: mirrored_upto_def)
qed

subsection \<open>Lines of the log\<close>

lemma printable_no_break: "printable c \<Longrightarrow> \<not> is_break c \<and> c \<noteq> CHR 0x0D"
  by (auto simp: printable_def is_break_def)

lemma splitlines_line:
  "list_all printable l \<Longrightarrow> splitlines_acc acc (l @ newline # s) = (rev acc @ l) # splitlines_acc [] s"
proof (induction l arbitrary: acc)
  case Nil
  then show ?case by (simp add: newline_def is_break_def)
next
  case (Cons c l)
  with printable_no_break [of c] show ?case by simp
qed

lemma splitlines_rest: "list_all printable l \<Longrightarrow> splitlines_acc acc l = (if acc = [] \<and> l = [] then [] else [rev acc @ l])"
proof (induction l arbitrary: acc)
  case (Cons c l)
  with printable_no_break [of c] show ?case by simp
qed simp

lemma splitlines_events:
  "list_all (\<lambda>e. json_ok (JObj e)) es \<Longrightarrow> list_all printable p \<Longrightarrow>
   splitlines (concat (map log_line es) @ p) = map (\<lambda>e. dumps (JObj e)) es @ (if p = [] then [] else [p])"
  unfolding splitlines_def
proof (induction es)
  case (Cons e es)
  then show ?case using splitlines_line [of "dumps (JObj e)" "[]"] printable_dumps [of "JObj e"] by (simp add: log_line_def del: dumps.simps)
qed (simp add: splitlines_rest)

lemma lstrip_front: "\<not> is_space c \<Longrightarrow> lstrip (c # s) = c # s"
  by (simp add: lstrip_def)

lemma strip_object: "strip (dumps (JObj e)) = dumps (JObj e)"
proof -
  have "\<not> is_space CHR ''{''" "\<not> is_space CHR ''}''" by (simp_all add: is_space_def)
  then show ?thesis by (simp add: strip_def lstrip_def rstrip_def)
qed

lemma those_map: "(\<And>x. x \<in> set xs \<Longrightarrow> f x = Some (g x)) \<Longrightarrow> those (map f xs) = Some (map g xs)"
  by (induction xs) simp_all

lemma map_tail_retain: "map f (tail_retain n xs) = tail_retain n (map f xs)"
  by (simp add: tail_retain_def py_tail_def drop_map)

lemma set_tail_retain: "set (tail_retain n xs) \<subseteq> set xs"
  by (auto simp: tail_retain_def py_tail_def dest: in_set_dropD)

text \<open>A log whose lines are events, with or without a torn one at its end\<close>

lemma load_event_file_lines:
  assumes "splitlines txt = map fst ls" and "\<And>l d. (l, d) \<in> set ls \<Longrightarrow> text_doc l = Some d \<and> text_doc (strip l) = Some d"
  shows "load_event_file n boot (Some txt) = Some (EventLog_load n boot (Some (map snd ls)))"
proof -
  have "those (map text_doc (map fst ls)) = Some (map snd ls)"
    unfolding map_map by (rule those_map) (use assms(2) in auto)
  moreover have "those (map (\<lambda>l. text_doc (strip l)) (tail_retain n (map fst ls))) = Some (tail_retain n (map snd ls))"
    unfolding map_tail_retain [symmetric] map_map
    by (rule those_map) (use assms(2) set_tail_retain [of n ls] in auto)
  ultimately show ?thesis by (simp add: load_event_file_def assms(1) EventLog_load_def)
qed

lemma rstrip_prefix: "\<exists>t. s = rstrip s @ t"
proof
  have "rev s = takeWhile is_space (rev s) @ dropWhile is_space (rev s)" by simp
  then have "s = rev (takeWhile is_space (rev s) @ dropWhile is_space (rev s))" by (metis rev_rev_ident)
  then show "s = rstrip s @ rev (takeWhile is_space (rev s))" by (simp add: rstrip_def flip: rev_append)
qed

lemma torn_line:
  assumes "json_ok (JObj e)" and "dumps (JObj e) = p @ q" and "q \<noteq> []"
  shows "text_doc p = Some Unreadable" and "text_doc (strip p) = Some Unreadable"
proof -
  have cut: "text_doc x = Some Unreadable" if "dumps (JObj e) = x @ y" "y \<noteq> []" for x y
    using json_loads_cut [OF reads_dumps [OF assms(1)] closed_objects(1) that] by (simp add: text_doc_def)
  show "text_doc p = Some Unreadable" using cut assms by blast
  have "lstrip p = p" using assms(2) by (cases p) (auto simp: lstrip_def is_space_def)
  moreover obtain t where "p = rstrip p @ t" using rstrip_prefix by blast
  ultimately have "dumps (JObj e) = strip p @ t @ q" using assms(2) unfolding strip_def by (metis append.assoc)
  with cut assms(3) show "text_doc (strip p) = Some Unreadable" by (metis append_is_Nil_conv)
qed

text \<open>The start of an event's line, up to its second name\<close>

definition torn_start :: string where
  "torn_start = ''{'' @ json_str ''seq'' @ '': '' @ show_int 1 @ '', '' @ json_str ''ts''"

lemma torn_start_scan:
  assumes "skip_space x = [] \<or> hd (skip_space x) \<noteq> CHR '':''" shows "json_loads (torn_start @ x) = Refused"
proof -
  let ?x = "'', '' @ json_str ''ts'' @ x"
  define k where "k = 2 * length (torn_start @ x) + 5"
  have str: "scan_str (concat (map json_char s) @ CHR 0x22 # t) = Got s t" for s t by (rule scan_json_str)
  have "scan_members (Suc k) (json_str ''ts'' @ x) = Malformed"
    using assms str [of "''ts''" x] by (cases "skip_space x") (simp_all add: json_str_def)
  then have rest: "after_item CHR ''}'' m (scan_members (Suc k)) ?x = Malformed" for m
    by (simp add: after_item_def skip_none [of "CHR '','' # y" for y] skip_space_def [of "CHR '' '' # y" for y] json_space_def json_str_def)
  have "scan_value (Suc k) (show_int 1 @ ?x) = Got (JInt 1) ?x"
    by (rule readsD [OF reads_int]) (simp_all add: k_def torn_start_def free_end_def is_digit_def)
  moreover obtain c u where "show_int 1 @ ?x = c # u" "\<not> json_space c"
    using reads_int [of 1] by (cases "show_int 1") (auto simp: reads_value_def)
  ultimately have "scan_members (Suc (Suc k)) (json_str ''seq'' @ '': '' @ show_int 1 @ ?x) = Malformed"
    using rest str [of "''seq''" "'': '' @ show_int 1 @ ?x"]
    by (simp add: json_str_def skip_none [of "CHR '':'' # y" for y] skip_space_def [of "CHR '' '' # y" for y] json_space_def
        del: scan_value.simps)
  then have "scan_value (Suc (Suc (Suc k))) (torn_start @ x) = Malformed"
    by (simp add: torn_start_def json_str_def skip_none del: scan_members.simps)
  moreover have "skip_space (torn_start @ x) = torn_start @ x" by (simp add: torn_start_def skip_none)
  ultimately show ?thesis
    using json_loads_bound [of "torn_start @ x" "Suc (Suc (Suc k))"] by (simp add: k_def del: scan_value.simps)
qed

lemma torn_start_refused: "json_loads torn_start = Refused" "json_loads (torn_start @ CHR ''{'' # r) = Refused"
  using torn_start_scan [of "[]"] torn_start_scan [of "CHR ''{'' # r"] by (simp_all add: skip_space_def json_space_def)

lemma torn_start_line:
  assumes "list_all printable x" and "json_loads (torn_start @ x) = Refused" and "strip (torn_start @ x) = torn_start @ x"
    and "y = [] \<or> y = [newline]"
  shows "load_event_file n boot (Some (torn_start @ x @ y)) = Some (EventLog_load n boot (Some [Unreadable]))"
proof -
  have p: "list_all printable (torn_start @ x)"
    using assms(1) by (simp add: torn_start_def printable_json_str printable_show_int)
  have "splitlines (torn_start @ x @ y) = map fst [(torn_start @ x, Unreadable)]"
    using assms(4) splitlines_rest [OF p, of "[]"] splitlines_line [OF p, of "[]" "[]"]
    by (auto simp: splitlines_def torn_start_def)
  then have "load_event_file n boot (Some (torn_start @ x @ y)) = Some (EventLog_load n boot (Some (map snd [(torn_start @ x, Unreadable)])))"
    using assms(2,3) by (intro load_event_file_lines) (auto simp: text_doc_def)
  then show ?thesis by simp
qed

subsection \<open>Properties\<close>

text \<open>
  A store of texts is the store of documents. Writing a record's text into its file and reading the directory's texts
  does to the files what the store's model does to documents: the two steps agree on the result, on every error and on every
  file, for any record of JSON values.
\<close>

theorem text_store_refines:
  assumes "doc_store s = Some d" and "json_ok (JObj p)" and "persist_text idf t p s = (r, s')"
  shows "\<exists>d'. doc_store s' = Some d' \<and> persist_record idf t p d = (r, d') \<and>
    load_texts idf (t_disk s') = Some (load_records idf [] (disk d'))"
proof -
  from assms(1) obtain ds where ds: "read_disk (t_disk s) = Some ds" "d = \<lparr>mem = t_mem s, disk = ds\<rparr>" by (auto simp: doc_store_def)
  note up = read_disk_update [OF ds(1) text_doc_record [OF assms(2)]]
  show ?thesis using assms(3) ds up
    by (auto simp: persist_text_def persist_record_def doc_store_def load_texts_def split: if_splits option.splits json.splits)
qed


text \<open>
  C28. The event file is read back. From a file of whole lines and any part of one more, as a stop in the middle of an append
  leaves it, the log starts as from the list of the written events: each whole line is its event, and the torn line is either
  all of the last event but its line break, or a line that is skipped; no part of a line is read as an event.
\<close>

theorem event_file_roundtrip:
  assumes "list_all (\<lambda>e. json_ok (JObj e)) es" and "json_ok (JObj e)" and "log_line e = p @ q" and "q \<noteq> []"
  shows "load_event_file n boot (Some (concat (map log_line es) @ p)) =
    Some (EventLog_load n boot (Some (map (\<lambda>e. Doc (JObj e)) es @
      (if p = [] then [] else if p = dumps (JObj e) then [Doc (JObj e)] else [Unreadable]))))"
proof -
  let ?whole = "map (\<lambda>e. (dumps (JObj e), Doc (JObj e))) es"
  let ?last = "if p = [] then [] else [(p, if p = dumps (JObj e) then Doc (JObj e) else Unreadable)]"
  obtain r where r: "dumps (JObj e) = p @ r"
    using assms(3,4) unfolding log_line_def by (cases q rule: rev_cases) auto
  then have pr: "list_all printable p" using printable_dumps [OF assms(2)] by simp
  have whole: "text_doc (dumps (JObj x)) = Some (Doc (JObj x)) \<and> text_doc (strip (dumps (JObj x))) = Some (Doc (JObj x))"
    if "json_ok (JObj x)" for x using that by (simp only: strip_object text_doc_line)
  have last: "text_doc p = Some Unreadable \<and> text_doc (strip p) = Some Unreadable" if "p \<noteq> dumps (JObj e)"
    using torn_line [OF assms(2) r] that r by auto
  have "load_event_file n boot (Some (concat (map log_line es) @ p)) = Some (EventLog_load n boot (Some (map snd (?whole @ ?last))))"
  proof (rule load_event_file_lines)
    show "splitlines (concat (map log_line es) @ p) = map fst (?whole @ ?last)"
      using splitlines_events [OF assms(1) pr] by (simp add: comp_def del: dumps.simps)
    show "text_doc l = Some d \<and> text_doc (strip l) = Some d" if "(l, d) \<in> set (?whole @ ?last)" for l d
      using that whole last assms(1,2) by (auto simp: list_all_iff simp del: dumps.simps json_ok.simps split: if_splits)
  qed
  then show ?thesis by (simp add: comp_def del: dumps.simps)
qed

text \<open>
  A torn line swallows the next event. A daemon that starts on a file whose only line was cut inside the first event gives
  its own first event the number 1 and appends it to the torn line; the two are one line that is no JSON, so the event is
  lost, and the daemon started after that begins with an empty log and gives number 1 again.
\<close>

theorem torn_line_swallows:
  assumes "json_ok payload" and "emit t ty payload (EventLog_load n boot (Some [Unreadable])) = (e, l)"
  shows "load_event_file n boot (Some torn_start) = Some (EventLog_load n boot (Some [Unreadable])) \<and> event_seq e = 1 \<and>
    load_event_file n boot' (Some (torn_start @ log_line e)) = Some (EventLog_load n boot' (Some [Unreadable])) \<and>
    seqno (EventLog_load n boot' (Some [Unreadable])) = 0"
proof -
  have e: "e = new_event t 1 ty payload"
    using assms(2) by (simp add: emit_def publish_def EventLog_load_def Let_def split: prod.splits)
  have ok: "json_ok (JObj e)" using assms(1) by (simp add: e new_event_def py_or_def)
  obtain r where r: "dumps (JObj e) = CHR ''{'' # r" by simp
  have edges: "\<not> is_space CHR ''{''" "\<not> is_space CHR ''}''" "\<not> is_space CHR 0x22" by (simp_all add: is_space_def)
  have "load_event_file n boot (Some (torn_start @ [] @ [])) = Some (EventLog_load n boot (Some [Unreadable]))"
    using edges torn_start_refused(1)
    by (intro torn_start_line) (simp_all add: torn_start_def strip_def lstrip_def rstrip_def json_str_def)
  moreover have "load_event_file n boot' (Some (torn_start @ dumps (JObj e) @ [newline])) = Some (EventLog_load n boot' (Some [Unreadable]))"
    using edges torn_start_refused(2) [of r] printable_dumps [OF ok]
    by (intro torn_start_line) (simp_all add: torn_start_def strip_def lstrip_def rstrip_def r [symmetric])
  ultimately show ?thesis by (simp add: log_line_def e EventLog_load_def del: dumps.simps)
qed

subsection \<open>Concrete instances\<close>

theorem text_store_refines_witness:
  "\<exists>d. doc_store (snd (persist_text ''job_id'' (good_tick 1) [(''job_id'', JStr ''j1'')] \<lparr>t_mem = [], t_disk = []\<rparr>)) = Some d \<and>
    disk d = [(''j1.json'', Doc (JObj [(''job_id'', JStr ''j1'')]))]"
proof -
  obtain r s' where r: "persist_text ''job_id'' (good_tick 1) [(''job_id'', JStr ''j1'')] \<lparr>t_mem = [], t_disk = []\<rparr> = (r, s')" by fastforce
  have "doc_store \<lparr>t_mem = [], t_disk = []\<rparr> = Some \<lparr>mem = [], disk = []\<rparr>" by (simp add: doc_store_def read_disk_def)
  from text_store_refines [OF this _ r]
  have "\<exists>d. doc_store s' = Some d \<and> disk d = [(''j1.json'', Doc (JObj [(''job_id'', JStr ''j1'')]))]"
    by (auto simp: persist_record_def good_tick_def plain_name_def)
  then show ?thesis by (simp only: r snd_conv)
qed


theorem event_file_roundtrip_witness:
  "load_event_file 9 ''b'' (Some (log_line [(''seq'', JInt 7)] @ ''{'')) =
    Some (EventLog_load 9 ''b'' (Some [Doc (JObj [(''seq'', JInt 7)]), Unreadable]))"
  using event_file_roundtrip [of "[[(''seq'', JInt 7)]]" "[(''seq'', JInt 8)]" "''{''" "tl (log_line [(''seq'', JInt 8)])" 9 "''b''"]
  by (simp add: log_line_def json_str_def)

theorem torn_line_swallows_witness:
  "load_event_file 9 ''b2'' (Some (torn_start @ log_line (fst (emit (good_tick 1) ''run.done'' JNull (EventLog_load 9 ''b1'' (Some [Unreadable])))))) =
    Some (EventLog_load 9 ''b2'' (Some [Unreadable]))"
  using torn_line_swallows [of JNull "good_tick 1" "''run.done''" 9 "''b1''" "fst (emit (good_tick 1) ''run.done'' JNull (EventLog_load 9 ''b1'' (Some [Unreadable])))"
      "snd (emit (good_tick 1) ''run.done'' JNull (EventLog_load 9 ''b1'' (Some [Unreadable])))" "''b2''"] by simp

end
