(* ===== verification/State_Files.thy ===== *)
theory State_Files
  imports Disk_Texts Tunnel_Process Virtuoso_Daemon Artifacts
begin

section \<open>State files as texts\<close>

text \<open>
  The files by which a daemon and its clients find each other, and the latest context and result: written whole with
  \<open>indent=2\<close>, read at any moment. A file that is absent, cannot be read or is not JSON counts as no file. The outer option
  is None for a text the strings of the model do not hold.
\<close>

definition state_text :: "json \<Rightarrow> string" where
  "state_text doc = dumps_indent 0 doc"

text \<open>\<open>read_state\<close> of \<open>sim/virtuoso_daemon.py\<close>; None stands for the OSError.\<close>

definition read_state :: "string option \<Rightarrow> json option option" where
  "read_state content =
     (case content of
        None \<Rightarrow> Some None
      | Some t \<Rightarrow> (case json_loads t of Reads v \<Rightarrow> Some (Some v) | Refused \<Rightarrow> Some None | Unheld \<Rightarrow> None))"

text \<open>\<open>_read_state\<close> of \<open>cli.py\<close> looks whether the file exists first; it may be gone when it is read.\<close>

definition cli_read_state :: "bool \<Rightarrow> string option \<Rightarrow> json option option" where
  "cli_read_state present content = (if \<not> present then Some None else read_state content)"

text \<open>The latest context at the start\<close>

definition context_at_start :: "bool \<Rightarrow> string option \<Rightarrow> json option option" where
  "context_at_start present content = (if present then read_state content else Some None)"

lemma read_state_text: "json_ok doc \<Longrightarrow> read_state (Some (state_text doc)) = Some (Some doc)"
  using loads_reads [OF reads_dumps_indent, of doc "[]" "[]" 0] by (simp add: read_state_def state_text_def)

lemma read_state_cut:
  "json_ok (JObj d) \<Longrightarrow> state_text (JObj d) = x @ y \<Longrightarrow> y \<noteq> [] \<Longrightarrow> read_state (Some x) = Some None"
  using json_loads_cut [OF reads_dumps_indent closed_objects(2)] by (simp add: read_state_def state_text_def del: dumps_indent.simps)

lemma tunnel_doc_ok: "json_ok (tunnel_doc w s)"
  by (simp add: tunnel_doc_def)

text \<open>
  A client finds the daemon or none. Whatever moment a client reads the daemon's state file at, before, during or after the
  write, it has either the whole address as the daemon wrote it or no address at all, and then asks the environment.
\<close>

theorem state_file_whole_or_none:
  assumes "state_text (tunnel_doc w s) = x @ y"
  shows "cli_read_state present (Some x) = Some (if present \<and> y = [] then Some (tunnel_doc w s) else None)"
proof (cases "y = []")
  case True
  then show ?thesis using read_state_text [OF tunnel_doc_ok, of w s] assms by (simp add: cli_read_state_def)
next
  case False
  obtain d where d: "tunnel_doc w s = JObj d" by (simp add: tunnel_doc_def)
  from read_state_cut [of d x y] tunnel_doc_ok [of w s] assms False show ?thesis by (simp add: cli_read_state_def d)
qed

text \<open>The model of the latest file starts from what the text gives.\<close>

lemma context_at_start_text:
  assumes "json_ok v" and "map_of fs (''latest_'' @ nm @ ''.json'') = Some (Doc v)"
  shows "context_at_start True (Some (state_text v)) = Some (latest (load_latest nm fs))"
  using read_state_text [OF assms(1)] assms(2) by (simp add: context_at_start_def load_latest_def)

end
