(* ===== verification/Logging.thy ===== *)
theory Logging
  imports Prelude
begin

section \<open>Loggers\<close>

text \<open>
  \<open>logging_config.py\<close>: the loggers of the process by name, each with its level and its handlers, and the set of names that
  have been set up. \<open>get_logger\<close> may be called by any module at any time; a line is written once by every handler of its
  logger. Creating the directories or opening the file may fail (\<open>Some m\<close>, the message of the OSError).
\<close>

datatype handler = Stream_Handler string | File_Handler string string

record logger =
  level :: int
  handlers :: "handler list"

record logging =
  loggers :: "(string \<times> logger) list"
  configured :: "string list"

text \<open>\<open>logging.getLogger\<close> makes a logger without a level (0) on the first call.\<close>

definition getLogger :: "logging \<Rightarrow> string \<Rightarrow> logger" where
  "getLogger s name = (case map_of (loggers s) name of Some l \<Rightarrow> l | None \<Rightarrow> \<lparr>level = 0, handlers = []\<rparr>)"

definition log_format :: string where
  "log_format = ''%(asctime)s [%(levelname)s] %(name)s: %(message)s''"

definition addHandler :: "handler \<Rightarrow> logger \<Rightarrow> logger" where
  "addHandler h l = l\<lparr>handlers := (if h \<in> set (handlers l) then handlers l else handlers l @ [h])\<rparr>"

text \<open>The file of the logs is \<open>path\<close>; \<open>dirs\<close> and \<open>opens\<close> are the failures of \<open>ensure_dirs\<close> and of the file handler.\<close>

definition get_logger ::
  "string \<Rightarrow> string option \<Rightarrow> string option \<Rightarrow> string \<Rightarrow> bool \<Rightarrow> int \<Rightarrow> logging \<Rightarrow> logger \<times> logging" where
  "get_logger path dirs opens name to_file lvl s =
     (if name \<in> set (configured s) then (getLogger s name, s)
      else (let l = (getLogger s name)\<lparr>level := lvl\<rparr>;
                l = addHandler (Stream_Handler log_format) l;
                l = (if to_file \<and> dirs = None \<and> opens = None then addHandler (File_Handler path log_format) l else l)
            in (l, \<lparr>loggers = AList.update name l (loggers s), configured = name # configured s\<rparr>)))"

text \<open>A call, with what the disk does to it\<close>

record log_call =
  c_dirs :: "string option"
  c_opens :: "string option"
  c_name :: string
  c_to_file :: bool
  c_level :: int

fun log_calls :: "string \<Rightarrow> log_call list \<Rightarrow> logging \<Rightarrow> logging" where
  "log_calls path [] s = s"
| "log_calls path (c # cs) s =
     log_calls path cs (snd (get_logger path (c_dirs c) (c_opens c) (c_name c) (c_to_file c) (c_level c) s))"

definition fresh_logging :: logging where
  "fresh_logging = \<lparr>loggers = [], configured = []\<rparr>"

definition asks_file :: "log_call \<Rightarrow> bool" where
  "asks_file c \<longleftrightarrow> c_to_file c \<and> c_dirs c = None \<and> c_opens c = None"

lemma log_calls_append: "log_calls path (cs @ ds) s = log_calls path ds (log_calls path cs s)"
  by (induction cs arbitrary: s) simp_all

text \<open>
  The first call decides. After any calls a logger that was asked for has the level of the first call with its name,
  one stream handler, and one file handler exactly when that call wanted a file and the disk allowed it; later calls
  change nothing, so no line is written twice, and a file that could not be opened then is never tried again.
\<close>

theorem first_call_decides:
  "map_of (loggers (log_calls path cs fresh_logging)) name =
     (case find (\<lambda>c. c_name c = name) cs of
        None \<Rightarrow> None
      | Some c \<Rightarrow> Some \<lparr>level = c_level c,
          handlers = Stream_Handler log_format # (if asks_file c then [File_Handler path log_format] else [])\<rparr>) \<and>
   (name \<in> set (configured (log_calls path cs fresh_logging)) \<longleftrightarrow> name \<in> c_name ` set cs)"
proof (induction cs arbitrary: name rule: rev_induct)
  case Nil
  then show ?case by (simp add: fresh_logging_def)
next
  case (snoc c cs)
  let ?s = "log_calls path cs fresh_logging"
  have none: "find (\<lambda>c. c_name c = n) cs = None \<longleftrightarrow> n \<notin> c_name ` set cs" for n by (auto simp: find_None_iff)
  have app: "find P (cs @ [c]) = (case find P cs of None \<Rightarrow> (if P c then Some c else None) | Some x \<Rightarrow> Some x)" for P
    by (induction cs) auto
  show ?case
  proof (cases "c_name c \<in> set (configured ?s)")
    case True
    then have "log_calls path (cs @ [c]) fresh_logging = ?s" by (simp add: log_calls_append get_logger_def)
    with True snoc [of name] snoc [of "c_name c"] none [of "c_name c"] show ?thesis by (auto simp: app split: option.split)
  next
    case False
    then have new: "map_of (loggers ?s) (c_name c) = None" "find (\<lambda>d. c_name d = c_name c) cs = None"
      using snoc [of "c_name c"] none [of "c_name c"] by simp_all
    define l where "l = \<lparr>level = c_level c,
      handlers = Stream_Handler log_format # (if asks_file c then [File_Handler path log_format] else [])\<rparr>"
    have "log_calls path (cs @ [c]) fresh_logging =
        \<lparr>loggers = AList.update (c_name c) l (loggers ?s), configured = c_name c # configured ?s\<rparr>"
      using False new(1) by (simp add: log_calls_append get_logger_def getLogger_def addHandler_def asks_file_def l_def Let_def)
    then show ?thesis
    proof (cases "name = c_name c")
      case True
      with new(2) show ?thesis
        using \<open>log_calls path (cs @ [c]) fresh_logging = _\<close> by (simp add: app l_def)
    next
      case other: False
      with snoc [of name] show ?thesis
        using \<open>log_calls path (cs @ [c]) fresh_logging = _\<close> by (cases "find (\<lambda>d. c_name d = name) cs") (auto simp: app)
    qed
  qed
qed

end
