(* ===== verification/Spec2Isabelle.thy ===== *)
theory Spec2Isabelle
  imports Agent_Tools Schemas Typed_Approval Program_Arguments Job_Handover Netlist_Delivery Real_Spectre State_Files Logging
begin

text \<open>
  \<^bold>\<open>A model of the Virtuoso Flow Plugin's tunnel daemon\<close>

  The tunnel (\<open>tunnel/vfp_tunnel\<close>) is a JSON-RPC daemon between a design tool, agents that propose
  changes to a design, and simulators. Clients send one JSON message per line; the daemon keeps
  sessions, proposals, transactions, jobs, runs, results, netlist and action requests, extensions
  and an event log, and runs the configured simulator command. The development models this daemon
  from its stores up to sequences of messages.

  \<^bold>\<open>Theories\<close>, in the order of their imports:
  \<^item> \<open>Prelude\<close>: ordered dictionaries, operations \<open>state => (error + value) * state\<close>, invariants
    (\<open>preserves\<close>) and two-state properties (\<open>moves\<close>, locale \<open>progress\<close>).
  \<^item> \<open>Py_Floats\<close>, \<open>Py_Values\<close>, \<open>Py_Strings\<close>: IEEE doubles as rationals with infinities and NaN, the JSON
    values with Python's truth, equality, order and hashing, and text (str, repr, int, float). \<open>Read_Back\<close> shows
    that an integer and a double are read back from their texts: seventeen digits tell any two doubles apart.
  \<^item> \<open>Record_Store\<close>: the store shared by proposals, transactions and jobs (a dictionary by id with one
    file per record), its locales \<open>status_machine\<close> and \<open>record_machine\<close>, runs and reloading.
  \<^item> \<open>Proposals\<close> (\<open>proposal/\<close>), \<open>Transactions\<close> and \<open>Permissions\<close> (\<open>transaction/\<close>), \<open>Fingerprint\<close> and \<open>Jobs\<close>
    (\<open>sim/job.py\<close>, \<open>sim/job_store.py\<close>), \<open>Sessions\<close> (\<open>session/registry.py\<close>), \<open>Events\<close>
    (\<open>event/manager.py\<close>), \<open>Channels\<close> (\<open>sim/netlist_requests.py\<close>, \<open>extension/registry.py\<close>), \<open>Artifacts\<close>
    (\<open>artifact/manager.py\<close>, \<open>sim/manager.py\<close>, \<open>design/context.py\<close>), \<open>Metrics\<close> (\<open>sim/metrics.py\<close>,
    \<open>sim/parser.py\<close>, \<open>constraints/engine.py\<close>), \<open>JsonRpc\<close> (\<open>rpc/\<close>) and \<open>Config\<close> (\<open>config.py\<close>): one
    component each, with its state, its operations and its own properties.
  \<^item> The texts: \<open>Json_Text\<close> has \<open>json.dumps\<close> and the scanner of \<open>json.loads\<close>, and that every value is read back from its
    text; \<open>Json_Reading\<close> has the scanner on arbitrary texts (it consumes what it reads, its values are well formed, a text
    that is cut short is refused); \<open>Wire\<close> (\<open>rpc/transport.py\<close>) has the bytes of a connection, their lines and UTF-8, and
    the pieces in which the client receives its answer, and refines the messages of \<open>JsonRpc\<close>; \<open>Disk_Texts\<close> has the record
    files and the event file as texts, refines \<open>Record_Store\<close> and \<open>Events\<close>, and follows a stop in the middle of a write;
    \<open>State_Files\<close> has the files by which programs find each other. \<open>Logging\<close> (\<open>logging_config.py\<close>) has the loggers.
  \<^item> \<open>Daemon\<close> (\<open>daemon.py\<close>): the state that holds the stores, one operation per RPC method with every
    early return, log argument and event, the method table, and the start from the files.
  \<^item> \<open>Tunnel_Rules\<close>: the locales under which every method is proved once to respect a relation on the
    stores; \<open>Runner\<close> (\<open>sim/runner.py\<close>): the life of a simulation job, proved over the same locales;
    \<open>Tunnel_Safety\<close>: the interpretations, and what holds of any sequence of messages;
    \<open>Tunnel_Decisions\<close>: what the deciding methods do;
    \<open>Job_Runs\<close>: what the runner does to a job, by total-correctness rules.
  \<^item> \<open>Schemas\<close> (\<open>rpc/schemas.py\<close>, registration): the optional validation with its cache; \<open>Tunnel_Process\<close> (the end
    of \<open>daemon.py\<close>): binding, the state file by which clients find the daemon, serving and cleanup.
  \<^item> The clients, each over the client side of \<open>JsonRpc\<close>: \<open>Event_Client\<close> (\<open>scripts/vfp_event_client.py\<close>),
    \<open>Agent_Tools\<close> (\<open>agent/\<close>) and \<open>Skill_Rpc\<close> (\<open>skillrpc.py\<close>).
  \<^item> \<open>Virtuoso_Daemon\<close> (\<open>sim/virtuoso_daemon.py\<close>): the headless Virtuoso that is started, watched and
    restarted, as a machine over a schedule of what the child process does and when signals come; its
    supervisor leaves neither a child nor a state file behind.
  \<^item> \<open>Cli\<close> and \<open>Cli_Processes\<close> (\<open>cli.py\<close>): every command as a composition of calls, printed lines and files;
    a command refines its sequence of calls on the daemon. The second has the commands that spawn, poll
    and signal processes. \<open>Arguments\<close> is what \<open>argparse\<close> makes of a list of words; \<open>Cli_Parser\<close> has the table of
    \<open>cli.py\<close> and reads a line as a command, \<open>Typed_Approval\<close> follows a line from its words to the stores,
    and \<open>Program_Arguments\<close> has the command lines of the other programs and of the processes the
    commands launch.
  \<^item> The programs around a simulation: \<open>Simulation_Wrapper\<close> (\<open>scripts/cellview_spectre_job.py\<close>, with the deck's
    digest in \<open>Sha256\<close>), from the job's environment to the metrics file; \<open>Job_Handover\<close>, where the
    runner's side and the wrapper's side of a job are put together;
    \<open>Real_Spectre\<close> (\<open>scripts/real_spectre_job.py\<close>); \<open>Delegated_Netlist\<close> (\<open>scripts/delegated_netlist.py\<close>), and
    \<open>Netlist_Delivery\<close>, where its request travels through the daemon to a plugin and the deck back.

  \<^bold>\<open>State and effects.\<close> A method of the source is an operation on the state of its object; an exception
  is an error value and keeps the assignments made before it. Clock, disk and fresh ids come from a
  \<open>tick\<close>, one per call that reads them; the disk may refuse any write. Locks are not modelled except in
  the event log, where the write outside the lock is a step of its own: handlers are atomic, and
  sequences of messages stand for any interleaving of clients.

  \<^bold>\<open>Fuel.\<close> Loops of the source recurse over lists, text or schedules. A loop that
  polls takes one entry of its schedule (the clock after the sleep and what happened meanwhile) per round;
  it gives None when the schedule ends before it does, and the properties about such loops state that they
  end once the schedule has the moment they wait for or passes their deadline. The JSON scanner alone has a bound,
  twice the length of its text and two: \<open>scan_fuel\<close> and \<open>json_loads_bound\<close> show that no larger one gives another result.

  \<^bold>\<open>Not modelled.\<close> Threads, and sockets beyond the bytes they carry; the YAML parser; the third-party \<open>jsonschema\<close>
  (a parameter \<open>valid\<close>). In the theories of the daemon and the programs the JSON parser is a parameter (\<open>loads\<close>,
  \<open>parse\<close>), which \<open>json_loads\<close> instantiates; a text that is refused has one error, whatever it says; the scanner has no limit
  of nesting or of digits. The texts of help and usage errors, and lines with the separator \<open>--\<close>;
  the MCP library; the records a log line is made of; the SKILL client, another language. Programs that are
  run (simulator, netlister, Virtuoso) are parameters. Strings are lists of code points below 256: a text that would need
  others has an outcome of its own (\<open>Unheld\<close>, None).
\<close>

end
